(* ===== verification/Prelude.thy ===== *)
theory Prelude
  imports Main "HOL-Library.AList" "HOL-Library.Sublist"
begin

text \<open>
  Shared foundations of the development.

  \<^item> A Go function with effects is a program: it takes the trace of everything that happened so
    far and returns its result with the trace extended. The result is \<open>None\<close> when the
    function does not return, because it panicked or is still waiting; the last entry of the trace
    then says which. Sequencing (\<open>goBind\<close>) stops there, as the goroutine does.
  \<^item> A call to code outside the repository (\<open>goCall\<close>) is answered by a function of the trace so
    far, so that the environment may behave in any way that depends on what it was asked before,
    and the call with its answer is added to the trace.
  \<^item> \<open>only\<close>, \<open>post\<close> and \<open>always_returns\<close> are the judgements on programs the components use:
    which entries a program may add, what holds when it returns, and that it returns. Their
    rules are collected in \<open>only_rules\<close>, \<open>post_rules\<close> and \<open>returns_rules\<close>.
  \<^item> Go's \<open>int64\<close> is \<open>int\<close> with the wrap-around of every arithmetic operation written out.
\<close>

named_theorems go_simps \<open>equations that run a program\<close>
named_theorems only_rules \<open>rules for the entries a program may add to the trace\<close>
named_theorems post_rules \<open>rules for what holds when a program returns\<close>
named_theorems returns_rules \<open>rules for programs that return\<close>

section \<open>Programs over a trace\<close>

type_synonym ('e, 'a) prog = "'e list \<Rightarrow> 'a option \<times> 'e list"

definition goRet :: "'a \<Rightarrow> ('e, 'a) prog" where
  "goRet x = (\<lambda>h. (Some x, h))"

definition goBind :: "('e, 'a) prog \<Rightarrow> ('a \<Rightarrow> ('e, 'b) prog) \<Rightarrow> ('e, 'b) prog" where
  "goBind m f = (\<lambda>h. case m h of (None, h') \<Rightarrow> (None, h') | (Some x, h') \<Rightarrow> f x h')"

definition goCall :: "('e list \<Rightarrow> 'r) \<Rightarrow> ('r \<Rightarrow> 'e) \<Rightarrow> ('e, 'r) prog" where
  "goCall f ev = (\<lambda>h. (Some (f h), h @ [ev (f h)]))"

text \<open>A look at the environment that leaves no entry of its own.\<close>

definition goAsk :: "('e list \<Rightarrow> 'r) \<Rightarrow> ('e, 'r) prog" where
  "goAsk f = (\<lambda>h. (Some (f h), h))"

definition goEmit :: "'e \<Rightarrow> ('e, unit) prog" where
  "goEmit e = (\<lambda>h. (Some (), h @ [e]))"

definition goStop :: "'e \<Rightarrow> ('e, 'a) prog" where
  "goStop e = (\<lambda>h. (None, h @ [e]))"

fun goEach :: "('x \<Rightarrow> ('e, unit) prog) \<Rightarrow> 'x list \<Rightarrow> ('e, unit) prog" where
  "goEach f [] = goRet ()"
| "goEach f (x # xs) = goBind (f x) (\<lambda>_. goEach f xs)"

definition emits :: "('e, 'a) prog \<Rightarrow> 'e list \<Rightarrow> 'e list" where
  "emits m h = drop (length h) (snd (m h))"

definition only :: "('e \<Rightarrow> bool) \<Rightarrow> ('e, 'a) prog \<Rightarrow> bool" where
  "only P m \<longleftrightarrow> (\<forall>h. \<exists>es. snd (m h) = h @ es \<and> list_all P es)"

definition post :: "('e, 'a) prog \<Rightarrow> ('a \<Rightarrow> bool) \<Rightarrow> bool" where
  "post m Q \<longleftrightarrow> (\<forall>h x h'. m h = (Some x, h') \<longrightarrow> Q x)"

definition always_returns :: "('e, 'a) prog \<Rightarrow> bool" where
  "always_returns m \<longleftrightarrow> (\<forall>h. fst (m h) \<noteq> None)"

section \<open>Integers of a fixed width\<close>

type_synonym int64 = int

definition i64 :: "int \<Rightarrow> int64" where
  "i64 x = (x + 2 ^ 63) mod 2 ^ 64 - 2 ^ 63"

definition MaxInt64 :: int64 where
  "MaxInt64 = 9223372036854775807"

definition is_i64 :: "int \<Rightarrow> bool" where
  "is_i64 x \<longleftrightarrow> - 9223372036854775808 \<le> x \<and> x \<le> 9223372036854775807"

text \<open>Go's integer division truncates towards zero.\<close>

definition quot64 :: "int64 \<Rightarrow> int64 \<Rightarrow> int64" where
  "quot64 a b = i64 (sgn a * sgn b * (\<bar>a\<bar> div \<bar>b\<bar>))"

section \<open>Go maps as association lists\<close>

text \<open>
  A Go map is an association list. Its order stands for the order in which \<open>range\<close> visits the
  entries, which Go leaves open: a statement for every list is a statement for every order.
  Reading an absent key gives the zero value.
\<close>

type_synonym smap = "(string \<times> string) list"

definition mget :: "smap \<Rightarrow> string \<Rightarrow> string" where
  "mget m k = (case map_of m k of None \<Rightarrow> [] | Some v \<Rightarrow> v)"

definition mget_int :: "(string \<times> int64) list \<Rightarrow> string \<Rightarrow> int64" where
  "mget_int m k = (case map_of m k of None \<Rightarrow> 0 | Some v \<Rightarrow> v)"

definition maps_Equal :: "smap \<Rightarrow> smap \<Rightarrow> bool" where
  "maps_Equal a b \<longleftrightarrow> length a = length b \<and> list_all (\<lambda>(k, v). map_of b k = Some v) a"

section \<open>Rules\<close>

lemma goRet_run [go_simps]: "goRet x h = (Some x, h)"
  by (simp add: goRet_def)

lemma goBind_run [go_simps]:
  "goBind m f h = (case m h of (None, h') \<Rightarrow> (None, h') | (Some x, h') \<Rightarrow> f x h')"
  by (simp add: goBind_def)

lemma goCall_run [go_simps]: "goCall f ev h = (Some (f h), h @ [ev (f h)])"
  by (simp add: goCall_def)

lemma goAsk_run [go_simps]: "goAsk f h = (Some (f h), h)"
  by (simp add: goAsk_def)

lemma goEmit_run [go_simps]: "goEmit e h = (Some (), h @ [e])"
  by (simp add: goEmit_def)

lemma goStop_run [go_simps]: "goStop e h = (None, h @ [e])"
  by (simp add: goStop_def)

lemma goBind_assoc: "goBind (goBind m f) g = goBind m (\<lambda>x. goBind (f x) g)"
  by (rule ext) (simp add: goBind_def split: prod.split option.split)

lemma onlyI:
  assumes "\<And>h. \<exists>es. snd (m h) = h @ es \<and> list_all P es"
  shows "only P m"
  using assms by (simp add: only_def)

lemma only_snd:
  assumes "only P m" and "m h = (r, h')"
  obtains es where "h' = h @ es" and "list_all P es"
  using assms unfolding only_def by (metis snd_conv)

lemma only_emits: "only P m \<Longrightarrow> list_all P (emits m h)"
  unfolding only_def emits_def by (metis append_eq_conv_conj)

lemma only_extends: "only P m \<Longrightarrow> snd (m h) = h @ emits m h"
  unfolding only_def emits_def by (metis append_eq_conv_conj)

lemma only_mono: "only P m \<Longrightarrow> (\<And>e. P e \<Longrightarrow> Q e) \<Longrightarrow> only Q m"
  unfolding only_def by (metis list.pred_mono_strong)

lemma only_goRet [only_rules]: "only P (goRet x)"
  by (simp add: only_def go_simps)

lemma only_goCall [only_rules]: "(\<And>r. P (ev r)) \<Longrightarrow> only P (goCall f ev)"
  by (simp add: only_def go_simps)

lemma only_goAsk [only_rules]: "only P (goAsk f)"
  by (simp add: only_def go_simps)

lemma only_goEmit [only_rules]: "P e \<Longrightarrow> only P (goEmit e)"
  by (simp add: only_def go_simps)

lemma only_goStop [only_rules]: "P e \<Longrightarrow> only P (goStop e)"
  by (simp add: only_def go_simps)

lemma only_goBind [only_rules]:
  assumes m: "only P m" and f: "\<And>x. only P (f x)"
  shows "only P (goBind m f)"
proof (rule onlyI)
  fix h
  obtain r h1 where r: "m h = (r, h1)" by fastforce
  obtain es where es: "h1 = h @ es" "list_all P es" by (rule only_snd [OF m r])
  show "\<exists>es. snd (goBind m f h) = h @ es \<and> list_all P es"
  proof (cases r)
    case None
    with r es show ?thesis by (simp add: go_simps)
  next
    case (Some x)
    obtain r' h2 where r': "f x h1 = (r', h2)" by fastforce
    obtain fs where "h2 = h1 @ fs" "list_all P fs" by (rule only_snd [OF f r'])
    with Some r es r' show ?thesis by (simp add: go_simps)
  qed
qed

lemma only_if [only_rules]: "(b \<Longrightarrow> only P m) \<Longrightarrow> (\<not> b \<Longrightarrow> only P n) \<Longrightarrow> only P (if b then m else n)"
  by simp

lemma only_sum [only_rules]:
  "(\<And>x. r = Inl x \<Longrightarrow> only P (f x)) \<Longrightarrow> (\<And>y. r = Inr y \<Longrightarrow> only P (g y)) \<Longrightarrow>
   only P (case r of Inl x \<Rightarrow> f x | Inr y \<Rightarrow> g y)"
  by (simp split: sum.split)

lemma only_option [only_rules]:
  "(r = None \<Longrightarrow> only P m) \<Longrightarrow> (\<And>y. r = Some y \<Longrightarrow> only P (g y)) \<Longrightarrow>
   only P (case r of None \<Rightarrow> m | Some y \<Rightarrow> g y)"
  by (simp split: option.split)

lemma only_prod [only_rules]:
  "(\<And>a b. r = (a, b) \<Longrightarrow> only P (f a b)) \<Longrightarrow> only P (case r of (a, b) \<Rightarrow> f a b)"
  by (simp split: prod.split)

lemma only_list [only_rules]:
  "(r = [] \<Longrightarrow> only P m) \<Longrightarrow> (\<And>y ys. r = y # ys \<Longrightarrow> only P (g y ys)) \<Longrightarrow>
   only P (case r of [] \<Rightarrow> m | y # ys \<Rightarrow> g y ys)"
  by (simp split: list.split)

lemma only_goEach [only_rules]: "(\<And>x. x \<in> set xs \<Longrightarrow> only P (f x)) \<Longrightarrow> only P (goEach f xs)"
  by (induction xs) (auto intro: only_rules)

lemma postD: "post m Q \<Longrightarrow> m h = (Some x, h') \<Longrightarrow> Q x"
  by (auto simp: post_def)

lemma post_mono: "post m Q \<Longrightarrow> (\<And>x. Q x \<Longrightarrow> R x) \<Longrightarrow> post m R"
  by (auto simp: post_def)

lemma post_goRet [post_rules]: "Q x \<Longrightarrow> post (goRet x) Q"
  by (simp add: post_def go_simps)

lemma post_goStop [post_rules]: "post (goStop e) Q"
  by (simp add: post_def go_simps)

lemma post_goCall [post_rules]: "(\<And>r. Q r) \<Longrightarrow> post (goCall f ev) Q"
  by (simp add: post_def go_simps)

lemma post_goBind: "post m R \<Longrightarrow> (\<And>x. R x \<Longrightarrow> post (f x) Q) \<Longrightarrow> post (goBind m f) Q"
  unfolding post_def goBind_def by (auto split: prod.splits option.splits) blast

lemma post_goBind_any [post_rules]: "(\<And>x. post (f x) Q) \<Longrightarrow> post (goBind m f) Q"
  by (rule post_goBind [where R = "\<lambda>_. True"]) (auto simp: post_def)

lemma post_if [post_rules]: "(b \<Longrightarrow> post m Q) \<Longrightarrow> (\<not> b \<Longrightarrow> post n Q) \<Longrightarrow> post (if b then m else n) Q"
  by simp

lemma post_sum [post_rules]:
  "(\<And>x. r = Inl x \<Longrightarrow> post (f x) Q) \<Longrightarrow> (\<And>y. r = Inr y \<Longrightarrow> post (g y) Q) \<Longrightarrow>
   post (case r of Inl x \<Rightarrow> f x | Inr y \<Rightarrow> g y) Q"
  by (simp split: sum.split)

lemma post_option [post_rules]:
  "(r = None \<Longrightarrow> post m Q) \<Longrightarrow> (\<And>y. r = Some y \<Longrightarrow> post (g y) Q) \<Longrightarrow>
   post (case r of None \<Rightarrow> m | Some y \<Rightarrow> g y) Q"
  by (simp split: option.split)

lemma post_prod [post_rules]:
  "(\<And>a b. r = (a, b) \<Longrightarrow> post (f a b) Q) \<Longrightarrow> post (case r of (a, b) \<Rightarrow> f a b) Q"
  by (simp split: prod.split)

lemma returns_goRet [returns_rules]: "always_returns (goRet x)"
  by (simp add: always_returns_def go_simps)

lemma returns_goCall [returns_rules]: "always_returns (goCall f ev)"
  by (simp add: always_returns_def go_simps)

lemma returns_goAsk [returns_rules]: "always_returns (goAsk f)"
  by (simp add: always_returns_def go_simps)

lemma returns_goEmit [returns_rules]: "always_returns (goEmit e)"
  by (simp add: always_returns_def go_simps)

lemma returns_goBind [returns_rules]:
  assumes m: "always_returns m" and f: "\<And>x. always_returns (f x)"
  shows "always_returns (goBind m f)"
  unfolding always_returns_def
proof
  fix h
  obtain x h' where "m h = (Some x, h')"
    using m unfolding always_returns_def by (metis option.exhaust prod.collapse)
  then show "fst (goBind m f h) \<noteq> None"
    using f unfolding always_returns_def by (simp add: go_simps)
qed

lemma returns_if [returns_rules]:
  "(b \<Longrightarrow> always_returns m) \<Longrightarrow> (\<not> b \<Longrightarrow> always_returns n) \<Longrightarrow> always_returns (if b then m else n)"
  by simp

lemma returns_sum [returns_rules]:
  "(\<And>x. r = Inl x \<Longrightarrow> always_returns (f x)) \<Longrightarrow> (\<And>y. r = Inr y \<Longrightarrow> always_returns (g y)) \<Longrightarrow>
   always_returns (case r of Inl x \<Rightarrow> f x | Inr y \<Rightarrow> g y)"
  by (simp split: sum.split)

lemma returns_option [returns_rules]:
  "(r = None \<Longrightarrow> always_returns m) \<Longrightarrow> (\<And>y. r = Some y \<Longrightarrow> always_returns (g y)) \<Longrightarrow>
   always_returns (case r of None \<Rightarrow> m | Some y \<Rightarrow> g y)"
  by (simp split: option.split)

lemma returns_prod [returns_rules]:
  "(\<And>a b. r = (a, b) \<Longrightarrow> always_returns (f a b)) \<Longrightarrow> always_returns (case r of (a, b) \<Rightarrow> f a b)"
  by (simp split: prod.split)

lemma returns_goEach [returns_rules]: "(\<And>x. always_returns (f x)) \<Longrightarrow> always_returns (goEach f xs)"
  by (induction xs) (auto intro: returns_rules)

subsection \<open>Integers\<close>

lemma i64_id [simp]: "is_i64 x \<Longrightarrow> i64 x = x"
  by (simp add: i64_def is_i64_def)

lemma is_i64_i64 [simp]: "is_i64 (i64 x)"
proof -
  have "0 \<le> (x + 2 ^ 63) mod 2 ^ 64" and "(x + 2 ^ 63) mod 2 ^ 64 < (2 ^ 64 :: int)" by simp_all
  then show ?thesis by (simp add: i64_def is_i64_def)
qed

lemma int_div_le_self: "0 \<le> a \<Longrightarrow> 0 < b \<Longrightarrow> a div b \<le> (a :: int)"
proof -
  assume ab: "0 \<le> a" "0 < b"
  then have "a div b \<le> a div 1" by (intro zdiv_mono2) auto
  then show ?thesis by simp
qed

lemma quot64_pos: "0 \<le> a \<Longrightarrow> 0 < b \<Longrightarrow> is_i64 a \<Longrightarrow> quot64 a b = a div b"
proof -
  assume a: "0 \<le> a" "0 < b" "is_i64 a"
  have "sgn a * sgn b * (\<bar>a\<bar> div \<bar>b\<bar>) = a div b"
    using a by (cases "a = 0") auto
  moreover have "0 \<le> a div b" "a div b \<le> a"
    using a by (auto simp: pos_imp_zdiv_nonneg_iff intro: int_div_le_self)
  ultimately show ?thesis using a by (simp only: quot64_def) (simp add: is_i64_def)
qed

lemma maps_Equal_iff:
  assumes "distinct (map fst a)" and "distinct (map fst b)"
  shows "maps_Equal a b \<longleftrightarrow> map_of a = map_of b"
proof
  assume eq: "maps_Equal a b"
  then have sub: "\<And>k v. (k, v) \<in> set a \<Longrightarrow> (k, v) \<in> set b" and len: "length a = length b"
    using map_of_SomeD by (fastforce simp: maps_Equal_def list_all_iff)+
  have "set a \<subseteq> set b" using sub by auto
  moreover have "card (set a) = card (set b)"
    using assms len by (simp add: distinct_card distinct_map)
  ultimately have "set a = set b" by (simp add: card_subset_eq)
  then show "map_of a = map_of b" using assms by (simp add: map_of_inject_set)
next
  assume eq: "map_of a = map_of b"
  then have "set a = set b" using assms by (simp add: map_of_inject_set)
  then have "length a = length b"
    using assms by (metis distinct_card distinct_map)
  with \<open>set a = set b\<close> show "maps_Equal a b"
    using assms by (auto simp: maps_Equal_def list_all_iff)
qed

lemma list_ex_eq: "list_ex (\<lambda>x. x = y) xs \<longleftrightarrow> y \<in> set xs"
  by (auto simp: list_ex_iff)

end
