(* ===== verification/GoLib.thy ===== *)
theory GoLib
  imports Prelude
begin

text \<open>
  What the code uses of Go's standard library (\<open>strings\<close>, \<open>strconv\<close>, \<open>bufio\<close>, \<open>regexp.QuoteMeta\<close>,
  \<open>fmt\<close>), and the error values it passes around. A Go string is a list of bytes. Text functions
  whose result depends on Unicode tables are written out for ASCII input and left to a field of
  \<open>lib\<close> for the rest; the fields of \<open>lib\<close> also stand for the message formats of third-party
  error packages, for the regular expressions outside the modelled fragment (\<open>otherCompile\<close>, theory
  Regexp), and for client-go's conversion between an object's namespace and name and its key
  (\<open>cache.MetaNamespaceKeyFunc\<close>, \<open>cache.SplitMetaNamespaceKey\<close>).
\<close>

section \<open>Error values\<close>

datatype code = InvalidArgument | NotFound | AlreadyExists | Aborted | ResourceExhausted
  | FailedPrecondition | Internal | Unavailable | Unimplemented | DeadlineExceeded

text \<open>
  \<open>EText\<close> is an error made from a message; \<open>EApi\<close> one that comes from outside the repository,
  with the answer \<open>k8serror.IsNotFound\<close> gives for it; \<open>EStatus\<close> a gRPC status; \<open>EZfs\<close> the typed error
  of \<open>pkg/zfs/errors.go\<close> (operation, dataset, trimmed output, cause); \<open>EWrap\<close> an error of the
  \<open>errors.Wrap\<close> family; \<open>EFmt\<close> one of \<open>fmt.Errorf\<close> with \<open>%w\<close>, its text before the cause written out;
  \<open>EErrs\<close> the error a builder makes of its error list; \<open>EJoin\<close> an \<open>errors.Join\<close>.
\<close>

datatype gerror = EText string
  | EApi bool string
  | EStatus code string
  | EZfs string string string gerror
  | EWrap string gerror
  | EFmt string gerror
  | EErrs "gerror list"
  | EJoin "gerror list"

record lib =
  unicodeToLower :: "string \<Rightarrow> string"
  unicodeQuote :: "string \<Rightarrow> string"
  wrapText :: "string \<Rightarrow> string \<Rightarrow> string"
  errsText :: "string list \<Rightarrow> string"
  statusText :: "code \<Rightarrow> string \<Rightarrow> string"
  wrapNotFound :: "gerror \<Rightarrow> bool"
  otherCompile :: "string \<Rightarrow> string + (string \<Rightarrow> bool)"
  metaKey :: "string \<Rightarrow> string \<Rightarrow> string"
  splitKey :: "string \<Rightarrow> (string \<times> string) option"

text \<open>
  \<open>k8serror.IsNotFound\<close> looks for an API error in the chain of causes. What it sees through an
  error of the \<open>errors.Wrap\<close> family is that package's business (\<open>wrapNotFound\<close>).
\<close>

fun IsNotFound :: "lib \<Rightarrow> gerror \<Rightarrow> bool" where
  "IsNotFound L (EApi nf _) = nf"
| "IsNotFound L (EZfs _ _ _ e) = IsNotFound L e"
| "IsNotFound L (EFmt _ e) = IsNotFound L e"
| "IsNotFound L (EJoin es) = list_ex (IsNotFound L) es"
| "IsNotFound L (EWrap m e) = wrapNotFound L (EWrap m e)"
| "IsNotFound L (EText _) = False"
| "IsNotFound L (EStatus _ _) = False"
| "IsNotFound L (EErrs _) = False"

section \<open>Strings\<close>

definition ascii :: "string \<Rightarrow> bool" where
  "ascii s \<longleftrightarrow> list_all (\<lambda>c. of_char c < (128 :: nat)) s"

definition lowerChar :: "char \<Rightarrow> char" where
  "lowerChar c = (case map_of (zip ''ABCDEFGHIJKLMNOPQRSTUVWXYZ'' ''abcdefghijklmnopqrstuvwxyz'') c of
     None \<Rightarrow> c | Some l \<Rightarrow> l)"

definition ToLower :: "lib \<Rightarrow> string \<Rightarrow> string" where
  "ToLower L s = (if ascii s then map lowerChar s else unicodeToLower L s)"

definition HasPrefix :: "string \<Rightarrow> string \<Rightarrow> bool" where
  "HasPrefix s p \<longleftrightarrow> prefix p s"

fun contains :: "string \<Rightarrow> string \<Rightarrow> bool" where
  "contains [] sub \<longleftrightarrow> sub = []"
| "contains (c # cs) sub \<longleftrightarrow> prefix sub (c # cs) \<or> contains cs sub"

text \<open>\<open>strings.Split\<close> with a separator of one byte; it always returns at least one piece.\<close>

fun splitOn :: "char \<Rightarrow> string \<Rightarrow> string list" where
  "splitOn c [] = [[]]"
| "splitOn c (x # xs) =
     (if x = c then [] # splitOn c xs
      else case splitOn c xs of [] \<Rightarrow> [[x]] | p # ps \<Rightarrow> (x # p) # ps)"

text \<open>\<open>strings.SplitN\<close> with limit 2 and a separator of one byte.\<close>

definition splitN2 :: "char \<Rightarrow> string \<Rightarrow> string list" where
  "splitN2 c s = (if c \<in> set s then [takeWhile (\<lambda>x. x \<noteq> c) s, tl (dropWhile (\<lambda>x. x \<noteq> c) s)] else [s])"

text \<open>\<open>strings.Cut\<close> at the first occurrence of a separator of one byte: before, after, found.\<close>

definition cut :: "char \<Rightarrow> string \<Rightarrow> string \<times> string \<times> bool" where
  "cut c s = (if c \<in> set s then (takeWhile (\<lambda>x. x \<noteq> c) s, tl (dropWhile (\<lambda>x. x \<noteq> c) s), True)
              else (s, [], False))"

text \<open>
  The byte sequences of the code points with Unicode's White\_Space property, which
  \<open>strings.TrimSpace\<close> and \<open>strings.Fields\<close> treat as space.
\<close>

definition go_spaces :: "string list" where
  "go_spaces = [[CHR 0x20], [CHR 0x0A], [CHR 0x09], [CHR 0x0D], [CHR 0x0B], [CHR 0x0C],
     [CHR 0xC2, CHR 0x85], [CHR 0xC2, CHR 0xA0], [CHR 0xE1, CHR 0x9A, CHR 0x80],
     [CHR 0xE2, CHR 0x80, CHR 0x80], [CHR 0xE2, CHR 0x80, CHR 0x81], [CHR 0xE2, CHR 0x80, CHR 0x82],
     [CHR 0xE2, CHR 0x80, CHR 0x83], [CHR 0xE2, CHR 0x80, CHR 0x84], [CHR 0xE2, CHR 0x80, CHR 0x85],
     [CHR 0xE2, CHR 0x80, CHR 0x86], [CHR 0xE2, CHR 0x80, CHR 0x87], [CHR 0xE2, CHR 0x80, CHR 0x88],
     [CHR 0xE2, CHR 0x80, CHR 0x89], [CHR 0xE2, CHR 0x80, CHR 0x8A], [CHR 0xE2, CHR 0x80, CHR 0xA8],
     [CHR 0xE2, CHR 0x80, CHR 0xA9], [CHR 0xE2, CHR 0x80, CHR 0xAF], [CHR 0xE2, CHR 0x81, CHR 0x9F],
     [CHR 0xE3, CHR 0x80, CHR 0x80]]"

definition spaceAt :: "string \<Rightarrow> nat" where
  "spaceAt s = (case find (\<lambda>p. prefix p s) go_spaces of None \<Rightarrow> 0 | Some p \<Rightarrow> length p)"

definition spaceEnd :: "string \<Rightarrow> nat" where
  "spaceEnd s = (case find (\<lambda>p. suffix p s) go_spaces of None \<Rightarrow> 0 | Some p \<Rightarrow> length p)"

function trimLeft :: "string \<Rightarrow> string" where
  "trimLeft s = (if spaceAt s = 0 then s else trimLeft (drop (spaceAt s) s))"
  by pat_completeness auto
termination
proof (relation "measure length")
  fix s :: string
  assume s: "spaceAt s \<noteq> 0"
  then obtain p where p: "find (\<lambda>p. prefix p s) go_spaces = Some p" "spaceAt s = length p"
    by (auto simp: spaceAt_def split: option.splits)
  then have "prefix p s" by (auto simp: find_Some_iff)
  with p s show "(drop (spaceAt s) s, s) \<in> measure length"
    by (auto simp: prefix_def)
qed simp

function trimRight :: "string \<Rightarrow> string" where
  "trimRight s = (if spaceEnd s = 0 then s else trimRight (take (length s - spaceEnd s) s))"
  by pat_completeness auto
termination
proof (relation "measure length")
  fix s :: string
  assume s: "spaceEnd s \<noteq> 0"
  then obtain p where p: "find (\<lambda>p. suffix p s) go_spaces = Some p" "spaceEnd s = length p"
    by (auto simp: spaceEnd_def split: option.splits)
  then have "suffix p s" by (auto simp: find_Some_iff)
  with p s show "(take (length s - spaceEnd s) s, s) \<in> measure length"
    by (auto simp: suffix_def)
qed simp

definition TrimSpace :: "string \<Rightarrow> string" where
  "TrimSpace s = trimRight (trimLeft s)"

fun takeWord :: "string \<Rightarrow> string \<times> string" where
  "takeWord [] = ([], [])"
| "takeWord (c # cs) =
     (if spaceAt (c # cs) > 0 then ([], c # cs)
      else case takeWord cs of (w, r) \<Rightarrow> (c # w, r))"

fun fieldsN :: "nat \<Rightarrow> string \<Rightarrow> string list" where
  "fieldsN 0 s = []"
| "fieldsN (Suc n) s =
     (case trimLeft s of [] \<Rightarrow> [] | c # cs \<Rightarrow>
        (case takeWord (c # cs) of (w, r) \<Rightarrow> w # fieldsN n r))"

text \<open>
  \<open>strings.Fields\<close>. Every word takes at least one byte, so the length of the input bounds the
  number of words (\<open>fieldsN_enough\<close>).
\<close>

definition Fields :: "string \<Rightarrow> string list" where
  "Fields s = fieldsN (length s) s"

text \<open>\<open>strings.Trim(s, " ")\<close>: only blanks.\<close>

definition trimBlanks :: "string \<Rightarrow> string" where
  "trimBlanks s = rev (dropWhile (\<lambda>c. c = CHR '' '') (rev (dropWhile (\<lambda>c. c = CHR '' '') s)))"

text \<open>A string between single quotes, as in the message formats.\<close>

definition squote :: "string \<Rightarrow> string" where
  "squote s = CHR 0x27 # s @ [CHR 0x27]"

section \<open>Numbers as text\<close>

fun natDigits :: "nat \<Rightarrow> string" where
  "natDigits n = (if n < 10 then [''0123456789'' ! n]
                  else natDigits (n div 10) @ [''0123456789'' ! (n mod 10)])"

definition FormatInt :: "int64 \<Rightarrow> string" where
  "FormatInt n = (if n < 0 then CHR ''-'' # natDigits (nat (- n)) else natDigits (nat n))"

definition digitVal :: "char \<Rightarrow> nat option" where
  "digitVal c = map_of (zip ''0123456789'' [0, 1, 2, 3, 4, 5, 6, 7, 8, 9]) c"

fun readDigits :: "nat \<Rightarrow> string \<Rightarrow> nat option" where
  "readDigits acc [] = Some acc"
| "readDigits acc (c # cs) =
     (case digitVal c of None \<Rightarrow> None | Some d \<Rightarrow> readDigits (10 * acc + d) cs)"

text \<open>\<open>strconv.ParseInt(s, 10, 64)\<close>; every failure (syntax, range) is \<open>None\<close>.\<close>

definition ParseInt :: "string \<Rightarrow> int64 option" where
  "ParseInt s =
     (let (neg, ds) = (case s of [] \<Rightarrow> (False, [])
                        | c # cs \<Rightarrow> if c = CHR ''-'' then (True, cs)
                                   else if c = CHR ''+'' then (False, cs) else (False, s))
      in if ds = [] then None
         else case readDigits 0 ds of None \<Rightarrow> None
              | Some n \<Rightarrow> (let v = (if neg then - int n else int n)
                           in if is_i64 v then Some v else None))"

section \<open>Lines, quoting, error text\<close>

text \<open>
  The lines of a \<open>bufio.Scanner\<close>: cut at newlines, one trailing carriage return dropped, nothing
  after a final newline, and scanning stops silently at a line that does not fit in the scanner's
  64 KiB buffer with its newline.
\<close>

definition dropCR :: "string \<Rightarrow> string" where
  "dropCR s = (if s \<noteq> [] \<and> last s = CHR 0x0D then butlast s else s)"

definition scanLines :: "string \<Rightarrow> string list" where
  "scanLines s =
     (let ls = splitOn (CHR 0x0A) s;
          ls' = (if last ls = [] then butlast ls else ls)
      in map dropCR (takeWhile (\<lambda>l. length l < 65536) ls'))"

definition metaChars :: string where
  "metaChars = CHR 0x5C # ''.+*?()|[]{}^$''"

definition QuoteMeta :: "string \<Rightarrow> string" where
  "QuoteMeta s = concat (map (\<lambda>c. if c \<in> set metaChars then [CHR 0x5C, c] else [c]) s)"

definition quoteChar :: "char \<Rightarrow> string" where
  "quoteChar c =
     (if c = CHR 0x22 \<or> c = CHR 0x5C then [CHR 0x5C, c]
      else if (32 :: nat) \<le> of_char c \<and> of_char c < (127 :: nat) then [c]
      else case map_of [(CHR 0x07, CHR ''a''), (CHR 0x08, CHR ''b''), (CHR 0x0C, CHR ''f''),
                        (CHR 0x0A, CHR ''n''), (CHR 0x0D, CHR ''r''), (CHR 0x09, CHR ''t''),
                        (CHR 0x0B, CHR ''v'')] c of
             Some e \<Rightarrow> [CHR 0x5C, e]
           | None \<Rightarrow> [CHR 0x5C, CHR ''x'', ''0123456789abcdef'' ! (of_char c div 16),
                      ''0123456789abcdef'' ! (of_char c mod 16)])"

text \<open>The verb \<open>%q\<close> of \<open>fmt\<close> on a string.\<close>

definition Quote :: "lib \<Rightarrow> string \<Rightarrow> string" where
  "Quote L s = (if ascii s then CHR 0x22 # concat (map quoteChar s) @ [CHR 0x22] else unicodeQuote L s)"

text \<open>The error text of a failed \<open>strconv.ParseInt(s, 10, 64)\<close>.\<close>

definition parseIntErr :: "lib \<Rightarrow> string \<Rightarrow> string" where
  "parseIntErr L s =
     (let ds = (case s of [] \<Rightarrow> [] | c # cs \<Rightarrow> if c = CHR ''-'' \<or> c = CHR ''+'' then cs else s)
      in ''strconv.ParseInt: parsing '' @ Quote L s @
         (if ds = [] \<or> readDigits 0 ds = None then '': invalid syntax'' else '': value out of range''))"

fun joinWith :: "string \<Rightarrow> string list \<Rightarrow> string" where
  "joinWith sep [] = []"
| "joinWith sep [x] = x"
| "joinWith sep (x # y # ys) = x @ sep @ joinWith sep (y # ys)"

text \<open>
  The text of an error (\<open>err.Error()\<close>). The case of \<open>EZfs\<close> is the method \<open>Error\<close> of
  \<open>pkg/zfs/errors.go\<close>.
\<close>

fun errText :: "lib \<Rightarrow> gerror \<Rightarrow> string" where
  "errText L (EText m) = m"
| "errText L (EApi _ m) = m"
| "errText L (EStatus c m) = statusText L c m"
| "errText L (EZfs op ds stderr e) =
     (if ds \<noteq> [] \<and> stderr \<noteq> [] then op @ '' on '' @ Quote L ds @ '': '' @ stderr
      else if stderr \<noteq> [] then op @ '': '' @ stderr
      else if ds \<noteq> [] then op @ '' on '' @ Quote L ds @ '': '' @ errText L e
      else op @ '': '' @ errText L e)"
| "errText L (EWrap m e) = wrapText L m (errText L e)"
| "errText L (EFmt m e) = m @ errText L e"
| "errText L (EErrs es) = errsText L (map (errText L) es)"
| "errText L (EJoin es) = joinWith [CHR 0x0A] (map (errText L) es)"

declare trimLeft.simps [simp del] trimRight.simps [simp del] natDigits.simps [simp del]

section \<open>Facts\<close>

subsection \<open>Splitting\<close>

lemma splitOn_ne [simp]: "splitOn c s \<noteq> []"
  by (induction s) (auto split: list.splits)

lemma splitOn_pieces: "p \<in> set (splitOn c s) \<Longrightarrow> c \<notin> set p"
  by (induction s arbitrary: p) (auto split: list.splits if_splits)

lemma joinWith_Cons: "xs \<noteq> [] \<Longrightarrow> joinWith sep (x # xs) = x @ sep @ joinWith sep xs"
  by (cases xs) auto

text \<open>Splitting loses nothing: joining the pieces with the separator gives the string back.\<close>

lemma joinWith_splitOn: "joinWith [c] (splitOn c s) = s"
proof (induction s)
  case Nil
  show ?case by simp
next
  case (Cons x xs)
  obtain p ps where p: "splitOn c xs = p # ps" by (cases "splitOn c xs") auto
  with Cons show ?case by (cases ps) auto
qed

lemma length_splitOn: "length (splitOn c s) = Suc (count_list s c)"
  by (induction s) (auto split: list.splits)

lemma splitOn_none: "c \<notin> set s \<Longrightarrow> splitOn c s = [s]"
  by (induction s) auto

lemma splitOn_append: "c \<notin> set a \<Longrightarrow> splitOn c (a @ c # b) = a # splitOn c b"
  by (induction a) auto

lemma splitOn_two_iff:
  "splitOn c s = [a, b] \<longleftrightarrow> s = a @ c # b \<and> c \<notin> set a \<and> c \<notin> set b"
proof
  assume "splitOn c s = [a, b]"
  then show "s = a @ c # b \<and> c \<notin> set a \<and> c \<notin> set b"
    using joinWith_splitOn [of c s] splitOn_pieces [of _ c s] by auto
qed (auto simp: splitOn_append splitOn_none)

lemma splitN2_hd: "splitN2 c s = p # ps \<Longrightarrow> p = takeWhile (\<lambda>x. x \<noteq> c) s"
  by (auto simp: splitN2_def split: if_splits intro!: takeWhile_eq_all_conv [THEN iffD2, symmetric])

subsection \<open>Words\<close>

lemma takeWord_length: "takeWord s = (w, r) \<Longrightarrow> length w + length r = length s"
  by (induction s arbitrary: w r) (auto split: if_splits prod.splits)

lemma spaceAt_trimLeft [simp]: "spaceAt (trimLeft s) = 0"
proof (induction s rule: trimLeft.induct)
  case (1 s)
  then show ?case by (cases "spaceAt s = 0") (auto simp: trimLeft.simps [of s])
qed

lemma trimLeft_length: "length (trimLeft s) \<le> length s"
proof (induction s rule: trimLeft.induct)
  case (1 s)
  show ?case
  proof (cases "spaceAt s = 0")
    case True
    then show ?thesis by (simp add: trimLeft.simps [of s])
  next
    case False
    with 1 have "length (trimLeft (drop (spaceAt s) s)) \<le> length s - spaceAt s" by simp
    with False show ?thesis by (simp add: trimLeft.simps [of s])
  qed
qed

lemma takeWord_trimmed: "trimLeft s = c # cs \<Longrightarrow> takeWord (c # cs) = (w, r) \<Longrightarrow> length r < length s"
proof -
  assume t: "trimLeft s = c # cs" and w: "takeWord (c # cs) = (w, r)"
  have "spaceAt (c # cs) = 0" using spaceAt_trimLeft [of s] t by simp
  then have "w \<noteq> []" using w by (auto split: prod.splits)
  then have "length r < length (c # cs)" using takeWord_length [OF w] by (cases w) auto
  also have "\<dots> \<le> length s" using trimLeft_length [of s] t by simp
  finally show ?thesis .
qed

text \<open>The bound in \<open>Fields\<close> is enough: more fuel finds no further word.\<close>

lemma fieldsN_enough: "length s \<le> n \<Longrightarrow> length s \<le> m \<Longrightarrow> fieldsN n s = fieldsN m s"
proof (induction n arbitrary: s m)
  case 0
  then show ?case by (cases m) (auto simp: trimLeft.simps spaceAt_def go_spaces_def)
next
  case (Suc n)
  show ?case
  proof (cases m)
    case 0
    with Suc show ?thesis by (auto simp: trimLeft.simps spaceAt_def go_spaces_def)
  next
    case (Suc m')
    have "fieldsN n r = fieldsN m' r" if "trimLeft s = c # cs" "takeWord (c # cs) = (w, r)" for c cs w r
      using takeWord_trimmed [OF that] Suc Suc.prems by (intro Suc.IH) auto
    with Suc show ?thesis by (auto split: list.split prod.split)
  qed
qed

subsection \<open>Numbers\<close>

lemma digitVal_nth: "d < 10 \<Longrightarrow> digitVal (''0123456789'' ! d) = Some d"
proof -
  assume "d < 10"
  then have "d \<in> {0, 1, 2, 3, 4, 5, 6, 7, 8, 9}" by auto
  then show ?thesis by (auto simp: digitVal_def)
qed

lemma readDigits_append: "readDigits acc (xs @ ys) =
   (case readDigits acc xs of None \<Rightarrow> None | Some n \<Rightarrow> readDigits n ys)"
  by (induction xs arbitrary: acc) (auto split: option.split)

lemma natDigits_ne [simp]: "natDigits n \<noteq> []"
  by (subst natDigits.simps) simp

lemma readDigits_natDigits: "readDigits 0 (natDigits n) = Some n"
proof (induction n rule: natDigits.induct)
  case (1 n)
  show ?case
  proof (cases "n < 10")
    case True
    then show ?thesis by (simp add: natDigits.simps [of n] digitVal_nth)
  next
    case False
    with 1 have "readDigits 0 (natDigits (n div 10)) = Some (n div 10)" by simp
    with False show ?thesis
      by (simp add: natDigits.simps [of n] readDigits_append digitVal_nth)
  qed
qed

lemma natDigits_hd: "natDigits n = c # cs \<Longrightarrow> c \<in> set ''0123456789''"
proof (induction n arbitrary: c cs rule: natDigits.induct)
  case (1 n)
  show ?case
  proof (cases "n < 10")
    case True
    with "1.prems" have c: "c = ''0123456789'' ! n" by (simp add: natDigits.simps [of n])
    show ?thesis unfolding c using True by (intro nth_mem) simp
  next
    case False
    then obtain cs' where "natDigits (n div 10) = c # cs'"
      using "1.prems" by (cases "natDigits (n div 10)") (auto simp: natDigits.simps [of n])
    with False 1 show ?thesis by blast
  qed
qed

text \<open>Formatting a 64-bit integer and parsing it back gives the integer.\<close>

lemma ParseInt_FormatInt:
  assumes "is_i64 n"
  shows "ParseInt (FormatInt n) = Some n"
proof (cases "n < 0")
  case True
  with assms show ?thesis
    by (simp add: ParseInt_def FormatInt_def readDigits_natDigits)
next
  case False
  obtain c cs where c: "natDigits (nat n) = c # cs" by (cases "natDigits (nat n)") auto
  then have "c \<noteq> CHR ''-'' \<and> c \<noteq> CHR ''+''" using natDigits_hd [OF c] by auto
  moreover have "readDigits 0 (c # cs) = Some (nat n)" using readDigits_natDigits [of "nat n"] c by simp
  ultimately show ?thesis using False assms c
    by (simp add: ParseInt_def FormatInt_def del: readDigits.simps)
qed

lemma FormatInt_ne [simp]: "FormatInt n \<noteq> []"
  by (simp add: FormatInt_def)

lemma FormatInt_inject: "is_i64 a \<Longrightarrow> is_i64 b \<Longrightarrow> FormatInt a = FormatInt b \<longleftrightarrow> a = b"
  by (metis ParseInt_FormatInt option.inject)

lemma ParseInt_range: "ParseInt s = Some v \<Longrightarrow> is_i64 v"
  by (auto simp: ParseInt_def Let_def split: if_splits option.splits prod.splits)

end
