(* ===== verification/Apis.thy ===== *)
theory Apis
  imports GoLib
begin

text \<open>
  The custom resources of \<open>pkg/apis/openebs.io/zfs/v1\<close>, the constants of \<open>pkg/zfs\<close>, and the
  validation of user properties (\<open>pkg/zfs/util/userprop.go\<close>, \<open>VolumeInfo.Validate\<close>).

  An object is a record that extends the part of \<open>metav1.ObjectMeta\<close> the code reads or writes.
  \<open>ResourceVersion\<close> is only carried along: by it the API server tells whether an update is based on
  the current object.
  A nil and an empty map or slice are the same here: the code never tells them apart. A
  \<open>resource.Quantity\<close> made by \<open>NewQuantity\<close> is its integer value.
\<close>

section \<open>Objects\<close>

text \<open>\<open>RefController\<close> is a pointer to a boolean in the code.\<close>

record OwnerReference =
  RefAPIVersion :: string
  RefKind :: string
  RefName :: string
  RefUID :: string
  RefController :: "bool option"

record ObjectMeta =
  Name :: string
  Namespace :: string
  ResourceVersion :: string
  Labels :: smap
  Annotations :: smap
  Finalizers :: "string list"
  DeletionTimestamp :: "string option"
  OwnerReferences :: "OwnerReference list"

record VolumeInfo =
  OwnerNodeID :: string
  PoolName :: string
  SnapName :: string
  Capacity :: string
  RecordSize :: string
  VolBlockSize :: string
  Compression :: string
  Dedup :: string
  ATime :: string
  LogBias :: string
  Encryption :: string
  KeyLocation :: string
  KeyFormat :: string
  ThinProvision :: string
  VolumeType :: string
  QuotaType :: string
  FsType :: string
  Shared :: string
  UserProperties :: smap

record ZFSVolume = ObjectMeta +
  Spec :: VolumeInfo
  State :: string

record ZFSSnapshot = ObjectMeta +
  SnapSpec :: VolumeInfo
  SnapState :: string

record ZFSBackupSpec =
  BkpVolumeName :: string
  BkpOwnerNodeID :: string
  BkpSnapName :: string
  PrevSnapName :: string
  BackupDest :: string

record ZFSBackup = ObjectMeta +
  BkpSpec :: ZFSBackupSpec
  BkpStatus :: string

record ZFSRestoreSpec =
  RstrVolumeName :: string
  RstrOwnerNodeID :: string
  RestoreSrc :: string

record ZFSRestore = ObjectMeta +
  RstrSpec :: ZFSRestoreSpec
  VolSpec :: VolumeInfo
  RstrStatus :: string

record Pool =
  PoolNodeName :: string
  UUID :: string
  Free :: int64
  Used :: int64

record ZFSNode = ObjectMeta +
  Pools :: "Pool list"

section \<open>Zero values\<close>

definition emptyInfo :: VolumeInfo where
  "emptyInfo = \<lparr> OwnerNodeID = [], PoolName = [], SnapName = [], Capacity = [], RecordSize = [],
     VolBlockSize = [], Compression = [], Dedup = [], ATime = [], LogBias = [], Encryption = [],
     KeyLocation = [], KeyFormat = [], ThinProvision = [], VolumeType = [], QuotaType = [],
     FsType = [], Shared = [], UserProperties = [] \<rparr>"

definition emptyVolume :: ZFSVolume where
  "emptyVolume = \<lparr> Name = [], Namespace = [], ResourceVersion = [], Labels = [], Annotations = [], Finalizers = [],
     DeletionTimestamp = None, OwnerReferences = [], Spec = emptyInfo, State = [] \<rparr>"

definition emptySnapshot :: ZFSSnapshot where
  "emptySnapshot = \<lparr> Name = [], Namespace = [], ResourceVersion = [], Labels = [], Annotations = [], Finalizers = [],
     DeletionTimestamp = None, OwnerReferences = [], SnapSpec = emptyInfo, SnapState = [] \<rparr>"

definition emptyBackup :: ZFSBackup where
  "emptyBackup = \<lparr> Name = [], Namespace = [], ResourceVersion = [], Labels = [], Annotations = [], Finalizers = [],
     DeletionTimestamp = None, OwnerReferences = [],
     BkpSpec = \<lparr> BkpVolumeName = [], BkpOwnerNodeID = [], BkpSnapName = [], PrevSnapName = [],
                 BackupDest = [] \<rparr>, BkpStatus = [] \<rparr>"

definition emptyRestore :: ZFSRestore where
  "emptyRestore = \<lparr> Name = [], Namespace = [], ResourceVersion = [], Labels = [], Annotations = [], Finalizers = [],
     DeletionTimestamp = None, OwnerReferences = [],
     RstrSpec = \<lparr> RstrVolumeName = [], RstrOwnerNodeID = [], RestoreSrc = [] \<rparr>,
     VolSpec = emptyInfo, RstrStatus = [] \<rparr>"

definition emptyNode :: ZFSNode where
  "emptyNode = \<lparr> Name = [], Namespace = [], ResourceVersion = [], Labels = [], Annotations = [], Finalizers = [],
     DeletionTimestamp = None, OwnerReferences = [], Pools = [] \<rparr>"

section \<open>Constants\<close>

abbreviation "ZFSDevPath \<equiv> ''/dev/zvol/''"
abbreviation "FSTypeZFS \<equiv> ''zfs''"
abbreviation "ZFSVolCmd \<equiv> ''zfs''"
abbreviation "ZFSCreateArg \<equiv> ''create''"
abbreviation "ZFSCloneArg \<equiv> ''clone''"
abbreviation "ZFSDestroyArg \<equiv> ''destroy''"
abbreviation "ZFSSetArg \<equiv> ''set''"
abbreviation "ZFSGetArg \<equiv> ''get''"
abbreviation "ZFSListArg \<equiv> ''list''"
abbreviation "ZFSSnapshotArg \<equiv> ''snapshot''"
abbreviation "ZFSSendArg \<equiv> ''send''"
abbreviation "ZFSRecvArg \<equiv> ''recv''"
abbreviation "VolTypeDataset \<equiv> ''DATASET''"
abbreviation "VolTypeZVol \<equiv> ''ZVOL''"
abbreviation "NetCatCmd \<equiv> ''nc''"

abbreviation "ZFSFinalizer \<equiv> ''zfs.openebs.io/finalizer''"
abbreviation "ZFSVolKey \<equiv> ''openebs.io/persistent-volume''"
abbreviation "ZFSSrcVolKey \<equiv> ''openebs.io/source-volume''"
abbreviation "PoolNameKey \<equiv> ''openebs.io/poolname''"
abbreviation "ZFSNodeKey \<equiv> ''kubernetes.io/nodename''"
abbreviation "ZFSTopologyKey \<equiv> ''openebs.io/nodeid''"
abbreviation "ZFSTopoNodenameKey \<equiv> ''openebs.io/nodename''"
abbreviation "ZFSStatusPending \<equiv> ''Pending''"
abbreviation "ZFSStatusFailed \<equiv> ''Failed''"
abbreviation "ZFSStatusReady \<equiv> ''Ready''"
abbreviation "OpenEBSCasTypeKey \<equiv> ''openebs.io/cas-type''"
abbreviation "FormatOptionsKey \<equiv> ''openebs.io/format-options''"
abbreviation "ZFSCasTypeName \<equiv> ''localpv-zfs''"
abbreviation "MarkForDeletionAnnotation \<equiv> ''openebs.io/marked-for-deletion''"

abbreviation "BKPZFSStatusDone \<equiv> ''Done''"
abbreviation "BKPZFSStatusFailed \<equiv> ''Failed''"
abbreviation "BKPZFSStatusInit \<equiv> ''Init''"
abbreviation "BKPZFSStatusPending \<equiv> ''Pending''"
abbreviation "BKPZFSStatusInProgress \<equiv> ''InProgress''"
abbreviation "BKPZFSStatusInvalid \<equiv> ''Invalid''"
abbreviation "RSTZFSStatusDone \<equiv> ''Done''"
abbreviation "RSTZFSStatusFailed \<equiv> ''Failed''"
abbreviation "RSTZFSStatusInit \<equiv> ''Init''"
abbreviation "RSTZFSStatusPending \<equiv> ''Pending''"
abbreviation "RSTZFSStatusInProgress \<equiv> ''InProgress''"
abbreviation "RSTZFSStatusInvalid \<equiv> ''Invalid''"

section \<open>User properties\<close>

definition userPropByte :: "char \<Rightarrow> bool" where
  "userPropByte b \<longleftrightarrow> b \<in> set ''abcdefghijklmnopqrstuvwxyz'' \<or> b \<in> set ''0123456789''
     \<or> b = CHR ''-'' \<or> b = CHR ''.'' \<or> b = CHR ''_'' \<or> b = CHR '':''"

text \<open>\<open>ValidateUserProperty\<close>: \<open>None\<close> is Go's nil error.\<close>

definition ValidateUserProperty :: "string \<Rightarrow> string \<Rightarrow> gerror option" where
  "ValidateUserProperty name val =
     (if length name = 0 then Some (EStatus InvalidArgument ''name cannot be empty'')
      else if length name > 256 then Some (EStatus InvalidArgument ''name too long'')
      else if hd name = CHR ''-'' then Some (EStatus InvalidArgument (''name cannot begin with '' @ squote ''-''))
      else if \<not> list_all userPropByte name
        then Some (EStatus InvalidArgument ''name contains invalid byte(s)'')
      else if CHR '':'' \<notin> set name then Some (EStatus InvalidArgument (''name does not contain '' @ squote '':''))
      else if length val > 8192 then Some (EStatus InvalidArgument ''value too long'')
      else None)"

text \<open>\<open>VolumeInfo.Validate\<close>: the first violation in the order \<open>range\<close> visits the properties.\<close>

fun validateProps :: "smap \<Rightarrow> gerror option" where
  "validateProps [] = None"
| "validateProps ((name, val) # ps) =
     (case ValidateUserProperty name val of
        Some e \<Rightarrow> Some e
      | None \<Rightarrow>
          if \<not> HasPrefix name ''openebs.io:''
          then Some (EText (''user property '' @ squote name @ '' does not have prefix `openebs.io:`''))
          else validateProps ps)"

definition Validate :: "VolumeInfo \<Rightarrow> gerror option" where
  "Validate v = validateProps (UserProperties v)"

section \<open>Facts\<close>

lemma ValidateUserProperty_None_iff:
  "ValidateUserProperty name val = None \<longleftrightarrow>
     0 < length name \<and> length name \<le> 256 \<and> hd name \<noteq> CHR ''-'' \<and> list_all userPropByte name
     \<and> CHR '':'' \<in> set name \<and> length val \<le> 8192"
  by (simp add: ValidateUserProperty_def not_less split: if_splits)

lemma validateProps_None_iff:
  "validateProps ps = None \<longleftrightarrow>
     (\<forall>(name, val) \<in> set ps. ValidateUserProperty name val = None \<and> HasPrefix name ''openebs.io:'')"
  by (induction ps rule: validateProps.induct) (auto split: option.splits)

end
