(* ===== verification/World.thy ===== *)
theory World
  imports Apis "HOL-Library.Word"
begin

text \<open>
  What the driver can see and do outside itself: the entries of the trace (\<open>event\<close>) and the
  functions that answer its calls (\<open>env\<close>).

  Every answer is a function of the trace so far and of the arguments of the call, so nothing is
  assumed about the API server, the node's file systems, the \<open>zfs\<close> binary or the passing of time
  beyond what a theorem states as a hypothesis. A child process, an API request and a file system
  call are taken to return; waiting loops of the driver itself may not (see \<open>polls\<close>). Log lines are
  not recorded.
\<close>

section \<open>Events\<close>

text \<open>
  An error from outside: whether \<open>k8serror.IsNotFound\<close> holds of it, and its text. For calls that
  are not API requests only the text is kept.
\<close>

type_synonym apierr = "bool \<times> string"

definition extErr :: "apierr \<Rightarrow> gerror" where
  "extErr e = EApi (fst e) (snd e)"

definition sysErr :: "string option \<Rightarrow> gerror option" where
  "sysErr e = map_option (EApi False) e"

datatype 'o kev =
    KGet string string "apierr + 'o"
  | KList string string "apierr + 'o list"
  | KCreate string 'o "apierr + 'o"
  | KUpdate string 'o "apierr + 'o"
  | KDelete string string "apierr option"
  | KCached string string "apierr + 'o"

datatype side = Source | Destination

datatype choice = CtxDone | TimedOut | Default

datatype qitem = QShutdown | QKey string | QOther

text \<open>For a failed \<open>os.Stat\<close>, whether the error is \<open>EIO\<close>.\<close>

datatype statres = StatOk | StatErr bool string

text \<open>What the driver reads of a \<open>Statfs_t\<close>, whose counters are unsigned.\<close>

record Statfs =
  Blocks :: "64 word"
  Bfree :: "64 word"
  Bavail :: "64 word"
  Files :: "64 word"
  Ffree :: "64 word"
  Bsize :: int64

datatype event =
    EvVol "ZFSVolume kev"
  | EvSnap "ZFSSnapshot kev"
  | EvBkp "ZFSBackup kev"
  | EvRstr "ZFSRestore kev"
  | EvNode "ZFSNode kev"
  | EvClientset string "string option"
  | EvGetNode string "apierr + smap"
  | EvExec string "string list" "string \<times> string option"
  | EvPipe "string option"
  | EvStart string "string list" "string option"
  | EvKill string "string list"
  | EvExit side "string list" "string option"
  | EvBuffers string string
  | EvStat string statres
  | EvSymlinks string "string + string"
  | EvGenerateUUID string string "string option"
  | EvSelect string choice
  | EvRecord string string string string string
  | EvMounts string "string + string list"
  | EvMountList "(string \<times> string) list"
  | EvDeviceName string "string + string \<times> int"
  | EvPathExists string "string + bool"
  | EvUnmount string "string option"
  | EvRemove string "string option"
  | EvMkdirAll string "string option"
  | EvOpenFile string "(bool \<times> string) option"
  | EvMount string string string "string list" "string option"
  | EvFormatAndMount string string string "string list" "string list" "string option"
  | EvQGet qitem
  | EvQAdd string
  | EvQAddRateLimited string
  | EvQForget qitem
  | EvQDone qitem
  | EvLock string
  | EvUnlock string
  | EvAnalytics "string list"
  | EvHandleError string
  | EvPanic string
  | EvWait string

section \<open>The environment\<close>

record 'o api =
  apiGet :: "event list \<Rightarrow> string \<Rightarrow> string \<Rightarrow> apierr + 'o"
  apiList :: "event list \<Rightarrow> string \<Rightarrow> string \<Rightarrow> apierr + 'o list"
  apiCreate :: "event list \<Rightarrow> string \<Rightarrow> 'o \<Rightarrow> apierr + 'o"
  apiUpdate :: "event list \<Rightarrow> string \<Rightarrow> 'o \<Rightarrow> apierr + 'o"
  apiDelete :: "event list \<Rightarrow> string \<Rightarrow> string \<Rightarrow> apierr option"
  apiCached :: "event list \<Rightarrow> string \<Rightarrow> string \<Rightarrow> apierr + 'o"

text \<open>
  \<open>cluster\<close> answers API requests and work-queue calls, \<open>host\<close> the calls to the node's operating
  system and the programs on it.
\<close>

record cluster =
  clientsetFor :: "event list \<Rightarrow> string \<Rightarrow> string option"
  getNode :: "event list \<Rightarrow> string \<Rightarrow> apierr + smap"
  volApi :: "ZFSVolume api"
  snapApi :: "ZFSSnapshot api"
  bkpApi :: "ZFSBackup api"
  rstrApi :: "ZFSRestore api"
  nodeApi :: "ZFSNode api"
  qGet :: "event list \<Rightarrow> qitem"

record host =
  exec :: "event list \<Rightarrow> string \<Rightarrow> string list \<Rightarrow> string \<times> string option"
  osPipe :: "event list \<Rightarrow> string option"
  start :: "event list \<Rightarrow> string \<Rightarrow> string list \<Rightarrow> string option"
  firstExit :: "event list \<Rightarrow> side"
  exit :: "event list \<Rightarrow> side \<Rightarrow> string option"
  buffers :: "event list \<Rightarrow> string \<times> string"
  stat :: "event list \<Rightarrow> string \<Rightarrow> statres"
  isDir :: "event list \<Rightarrow> string \<Rightarrow> bool"
  isMountPath :: "event list \<Rightarrow> string \<Rightarrow> bool"
  statfs :: "event list \<Rightarrow> string \<Rightarrow> string + Statfs"
  getenv :: "event list \<Rightarrow> string \<Rightarrow> string"
  evalSymlinks :: "event list \<Rightarrow> string \<Rightarrow> string + string"
  generateUUID :: "event list \<Rightarrow> string \<Rightarrow> string \<Rightarrow> string option"
  getMounts :: "event list \<Rightarrow> string \<Rightarrow> string + string list"
  mountList :: "event list \<Rightarrow> (string \<times> string) list"
  deviceNameFromMount :: "event list \<Rightarrow> string \<Rightarrow> string + string \<times> int"
  pathExists :: "event list \<Rightarrow> string \<Rightarrow> string + bool"
  unmount :: "event list \<Rightarrow> string \<Rightarrow> string option"
  remove :: "event list \<Rightarrow> string \<Rightarrow> string option"
  mkdirAll :: "event list \<Rightarrow> string \<Rightarrow> string option"
  openFile :: "event list \<Rightarrow> string \<Rightarrow> (bool \<times> string) option"
  mount :: "event list \<Rightarrow> string \<Rightarrow> string \<Rightarrow> string \<Rightarrow> string list \<Rightarrow> string option"
  formatAndMount :: "event list \<Rightarrow> string \<Rightarrow> string \<Rightarrow> string \<Rightarrow> string list \<Rightarrow> string list \<Rightarrow> string option"

text \<open>
  \<open>NodeID\<close>, \<open>OpenEBSNamespace\<close> and \<open>defaultFormatOptions\<close> are the package variables of \<open>pkg/zfs\<close>.
  \<open>select\<close> is what a polling loop's \<open>select\<close> picks. \<open>polls\<close> bounds how many turns of such a loop are
  observed: a loop still polling after that many turns has not returned.
\<close>

record env =
  lib :: lib
  cluster :: cluster
  host :: host
  select :: "event list \<Rightarrow> string \<Rightarrow> choice"
  polls :: nat
  NodeID :: string
  OpenEBSNamespace :: string
  defaultFormatOptions :: "(string \<times> string list) list"

type_synonym 'a go = "(event, 'a) prog"

section \<open>Calls every component uses\<close>

definition runExec :: "env \<Rightarrow> string \<Rightarrow> string list \<Rightarrow> (string \<times> gerror option) go" where
  "runExec E cmd args =
     goBind (goCall (\<lambda>h. exec (host E) h cmd args) (EvExec cmd args))
       (\<lambda>r. goRet (fst r, sysErr (snd r)))"

definition goPanic :: "string \<Rightarrow> 'a go" where
  "goPanic why = goStop (EvPanic why)"

definition goSelect :: "env \<Rightarrow> string \<Rightarrow> choice go" where
  "goSelect E what = goCall (\<lambda>h. select E h what) (EvSelect what)"

definition HandleError :: "string \<Rightarrow> unit go" where
  "HandleError msg = goEmit (EvHandleError msg)"

section \<open>A quiet environment\<close>

text \<open>
  A concrete environment for examples: commands and file system calls succeed with empty output,
  nothing is found in the cluster, writes are accepted, and polling loops time out at once.
\<close>

definition quietLib :: lib where
  "quietLib = \<lparr> unicodeToLower = (\<lambda>s. s), unicodeQuote = (\<lambda>s. s), wrapText = (\<lambda>m e. m @ '': '' @ e),
     errsText = concat, statusText = (\<lambda>c m. m), wrapNotFound = (\<lambda>e. False),
     otherCompile = (\<lambda>p. Inl ''unsupported''),
     metaKey = (\<lambda>ns n. if ns = [] then n else ns @ ''/'' @ n),
     splitKey = (\<lambda>k. case splitOn (CHR ''/'') k of [n] \<Rightarrow> Some ([], n) | [ns, n] \<Rightarrow> Some (ns, n) | _ \<Rightarrow> None) \<rparr>"

definition quietApi :: "'o api" where
  "quietApi = \<lparr> apiGet = (\<lambda>h ns n. Inl (True, ''not found'')), apiList = (\<lambda>h ns s. Inr []),
     apiCreate = (\<lambda>h ns x. Inr x), apiUpdate = (\<lambda>h ns x. Inr x), apiDelete = (\<lambda>h ns n. None),
     apiCached = (\<lambda>h ns n. Inl (True, ''not found'')) \<rparr>"

definition quietCluster :: cluster where
  "quietCluster = \<lparr> clientsetFor = (\<lambda>h p. None), getNode = (\<lambda>h n. Inr []), volApi = quietApi,
     snapApi = quietApi, bkpApi = quietApi, rstrApi = quietApi, nodeApi = quietApi,
     qGet = (\<lambda>h. QShutdown) \<rparr>"

definition quietHost :: host where
  "quietHost = \<lparr> exec = (\<lambda>h c as. ([], None)), osPipe = (\<lambda>h. None), start = (\<lambda>h c as. None),
     firstExit = (\<lambda>h. Source), exit = (\<lambda>h s. None), buffers = (\<lambda>h. ([], [])),
     stat = (\<lambda>h p. StatOk), isDir = (\<lambda>h p. True), isMountPath = (\<lambda>h p. True),
     statfs = (\<lambda>h p. Inl ''no file system''), getenv = (\<lambda>h v. []), evalSymlinks = (\<lambda>h p. Inr p), generateUUID = (\<lambda>h f d. None),
     getMounts = (\<lambda>h d. Inr []), mountList = (\<lambda>h. []), deviceNameFromMount = (\<lambda>h p. Inr ([], 0)),
     pathExists = (\<lambda>h p. Inr True), unmount = (\<lambda>h p. None), remove = (\<lambda>h p. None),
     mkdirAll = (\<lambda>h p. None), openFile = (\<lambda>h p. None), mount = (\<lambda>h d p f opts. None),
     formatAndMount = (\<lambda>h d p f opts fopts. None) \<rparr>"

definition quietEnv :: env where
  "quietEnv = \<lparr> lib = quietLib, cluster = quietCluster, host = quietHost,
     select = (\<lambda>h what. TimedOut), polls = 1, NodeID = ''node-1'', OpenEBSNamespace = ''openebs'',
     defaultFormatOptions = [] \<rparr>"

lemmas quiet_defs = quietEnv_def quietHost_def quietCluster_def quietApi_def quietLib_def

section \<open>Reading a trace\<close>

text \<open>The commands a trace ran, oldest first.\<close>

fun execOf :: "event \<Rightarrow> (string \<times> string list) list" where
  "execOf (EvExec c as _) = [(c, as)]"
| "execOf (EvStart c as _) = [(c, as)]"
| "execOf _ = []"

definition execs :: "event list \<Rightarrow> (string \<times> string list) list" where
  "execs h = concat (map execOf h)"

fun isExec :: "event \<Rightarrow> bool" where
  "isExec (EvExec _ _ _) = True"
| "isExec (EvStart _ _ _) = True"
| "isExec _ = False"

fun isApi :: "event \<Rightarrow> bool" where
  "isApi (EvVol _) = True"
| "isApi (EvSnap _) = True"
| "isApi (EvBkp _) = True"
| "isApi (EvRstr _) = True"
| "isApi (EvNode _) = True"
| "isApi _ = False"

lemma execs_append [simp]: "execs (h @ h') = execs h @ execs h'"
  by (simp add: execs_def)

lemma execs_Nil [simp]: "execs [] = []"
  by (simp add: execs_def)

lemma execs_Cons [simp]: "execs (e # h) = execOf e @ execs h"
  by (simp add: execs_def)

lemma execs_none: "list_all (\<lambda>e. \<not> isExec e) es \<Longrightarrow> execs es = []"
proof (induction es)
  case (Cons e es)
  then show ?case by (cases e) auto
qed simp

lemma runExec_run [go_simps]:
  "runExec E cmd args h =
     (Some (fst (exec (host E) h cmd args), sysErr (snd (exec (host E) h cmd args))),
      h @ [EvExec cmd args (exec (host E) h cmd args)])"
  by (simp add: runExec_def go_simps)

lemma goPanic_run [go_simps]: "goPanic why h = (None, h @ [EvPanic why])"
  by (simp add: goPanic_def go_simps)

lemma goSelect_run [go_simps]: "goSelect E what h = (Some (select E h what), h @ [EvSelect what (select E h what)])"
  by (simp add: goSelect_def go_simps)

lemma HandleError_run [go_simps]: "HandleError msg h = (Some (), h @ [EvHandleError msg])"
  by (simp add: HandleError_def go_simps)

lemma only_runExec [only_rules]: "(\<And>r. P (EvExec cmd args r)) \<Longrightarrow> only P (runExec E cmd args)"
  unfolding runExec_def by (intro only_rules)

lemma only_goPanic [only_rules]: "P (EvPanic why) \<Longrightarrow> only P (goPanic why)"
  unfolding goPanic_def by (intro only_rules)

lemma only_goSelect [only_rules]: "(\<And>r. P (EvSelect what r)) \<Longrightarrow> only P (goSelect E what)"
  unfolding goSelect_def by (intro only_rules)

lemma only_HandleError [only_rules]: "P (EvHandleError msg) \<Longrightarrow> only P (HandleError msg)"
  unfolding HandleError_def by (intro only_rules)

lemma returns_runExec [returns_rules]: "always_returns (runExec E cmd args)"
  unfolding runExec_def by (intro returns_rules)

lemma returns_goSelect [returns_rules]: "always_returns (goSelect E what)"
  unfolding goSelect_def by (intro returns_rules)

lemma returns_HandleError [returns_rules]: "always_returns (HandleError msg)"
  unfolding HandleError_def by (intro returns_rules)

lemma only_choice [only_rules]:
  "(c = CtxDone \<Longrightarrow> only P a) \<Longrightarrow> (c = TimedOut \<Longrightarrow> only P b) \<Longrightarrow> (c = Default \<Longrightarrow> only P d) \<Longrightarrow>
   only P (case c of CtxDone \<Rightarrow> a | TimedOut \<Rightarrow> b | Default \<Rightarrow> d)"
  by (cases c) simp_all

lemma post_choice [post_rules]:
  "(c = CtxDone \<Longrightarrow> post a P) \<Longrightarrow> (c = TimedOut \<Longrightarrow> post b P) \<Longrightarrow> (c = Default \<Longrightarrow> post d P) \<Longrightarrow>
   post (case c of CtxDone \<Rightarrow> a | TimedOut \<Rightarrow> b | Default \<Rightarrow> d) P"
  by (cases c) simp_all

lemma sysErr_None_iff [simp]: "sysErr e = None \<longleftrightarrow> e = None"
  by (simp add: sysErr_def)

lemma sysErr_None [simp]: "sysErr None = None"
  by (simp add: sysErr_def)

end
