(* ===== verification/Kubeclient.thy ===== *)
theory Kubeclient
  imports World
begin

text \<open>
  The API clients of \<open>pkg/builder/*/kubernetes.go\<close>. The five files are the same program up to the
  type of the object and the messages; \<open>kind\<close> collects what differs and the \<open>kube_...\<close> functions are
  the methods of \<open>Kubeclient\<close>. The methods for each kind follow.

  A method that cannot get a clientset, or is called with an empty name or a nil object, returns an
  error of its own and sends no request; otherwise its answer is the API server's answer. The
  locale \<open>crd_kind\<close> proves that once for any kind whose requests can be told apart in the trace.
\<close>

section \<open>The client\<close>

record 'o kind =
  kApi :: "cluster \<Rightarrow> 'o api"
  kEv :: "'o kev \<Rightarrow> event"
  mCreateNil :: string
  mCreate :: string
  mGetMissing :: string
  mGet :: string
  mList :: string
  mDelMissing :: string
  mDel :: string
  mUpdateNil :: string
  mUpdate :: string

text \<open>\<open>clientset\<close> says whether a clientset is cached.\<close>

record Kubeclient =
  clientset :: bool
  kubeConfigPath :: string
  namespace :: string

definition NewKubeclient :: Kubeclient where
  "NewKubeclient = \<lparr> clientset = False, kubeConfigPath = [], namespace = [] \<rparr>"

definition kube_WithNamespace :: "string \<Rightarrow> Kubeclient \<Rightarrow> Kubeclient" where
  "kube_WithNamespace ns k = k\<lparr> namespace := ns \<rparr>"

definition inNamespace :: "string \<Rightarrow> string \<Rightarrow> string \<Rightarrow> string" where
  "inNamespace m name ns = m @ '' {'' @ name @ ''} in namespace {'' @ ns @ ''}''"

text \<open>
  An empty \<open>kubeConfigPath\<close> stands for \<open>getClientset\<close>, any other for \<open>getClientsetForPath\<close>.
\<close>

definition getClientOrCached :: "env \<Rightarrow> Kubeclient \<Rightarrow> (gerror option \<times> Kubeclient) go" where
  "getClientOrCached E k =
     (if clientset k then goRet (None, k)
      else goBind (goCall (\<lambda>h. clientsetFor (cluster E) h (kubeConfigPath k)) (EvClientset (kubeConfigPath k)))
        (\<lambda>r. case r of
           Some t \<Rightarrow> goRet (Some (EWrap ''failed to get clientset'' (EApi False t)), k)
         | None \<Rightarrow> goRet (None, k\<lparr> clientset := True \<rparr>)))"

definition apiAnswer :: "apierr + 'x \<Rightarrow> gerror + 'x" where
  "apiAnswer r = (case r of Inl e \<Rightarrow> Inl (extErr e) | Inr x \<Rightarrow> Inr x)"

definition kube_Create ::
  "env \<Rightarrow> 'a ObjectMeta_scheme kind \<Rightarrow> 'a ObjectMeta_scheme option \<Rightarrow> Kubeclient
   \<Rightarrow> ((gerror + 'a ObjectMeta_scheme) \<times> Kubeclient) go" where
  "kube_Create E K obj k =
     (case obj of
        None \<Rightarrow> goRet (Inl (EText (mCreateNil K)), k)
      | Some x \<Rightarrow> goBind (getClientOrCached E k) (\<lambda>(err, k).
          case err of
            Some e \<Rightarrow> goRet (Inl (EWrap (inNamespace (mCreate K) (Name x) (namespace k)) e), k)
          | None \<Rightarrow> goBind (goCall (\<lambda>h. apiCreate (kApi K (cluster E)) h (namespace k) x)
                                  (\<lambda>r. kEv K (KCreate (namespace k) x r)))
              (\<lambda>r. goRet (apiAnswer r, k))))"

definition kube_Get ::
  "env \<Rightarrow> 'a ObjectMeta_scheme kind \<Rightarrow> string \<Rightarrow> Kubeclient
   \<Rightarrow> ((gerror + 'a ObjectMeta_scheme) \<times> Kubeclient) go" where
  "kube_Get E K name k =
     (if name = [] then goRet (Inl (EText (mGetMissing K)), k)
      else goBind (getClientOrCached E k) (\<lambda>(err, k).
        case err of
          Some e \<Rightarrow> goRet (Inl (EWrap (inNamespace (mGet K) name (namespace k)) e), k)
        | None \<Rightarrow> goBind (goCall (\<lambda>h. apiGet (kApi K (cluster E)) h (namespace k) name)
                                (\<lambda>r. kEv K (KGet (namespace k) name r)))
            (\<lambda>r. goRet (apiAnswer r, k))))"

definition kube_List ::
  "env \<Rightarrow> 'a ObjectMeta_scheme kind \<Rightarrow> string \<Rightarrow> Kubeclient
   \<Rightarrow> ((gerror + 'a ObjectMeta_scheme list) \<times> Kubeclient) go" where
  "kube_List E K selector k =
     goBind (getClientOrCached E k) (\<lambda>(err, k).
       case err of
         Some e \<Rightarrow> goRet (Inl (EWrap (mList K @ '' in namespace {'' @ namespace k @ ''}'') e), k)
       | None \<Rightarrow> goBind (goCall (\<lambda>h. apiList (kApi K (cluster E)) h (namespace k) selector)
                               (\<lambda>r. kEv K (KList (namespace k) selector r)))
           (\<lambda>r. goRet (apiAnswer r, k)))"

definition kube_Delete ::
  "env \<Rightarrow> 'a ObjectMeta_scheme kind \<Rightarrow> string \<Rightarrow> Kubeclient \<Rightarrow> (gerror option \<times> Kubeclient) go" where
  "kube_Delete E K name k =
     (if name = [] then goRet (Some (EText (mDelMissing K)), k)
      else goBind (getClientOrCached E k) (\<lambda>(err, k).
        case err of
          Some e \<Rightarrow> goRet (Some (EWrap (inNamespace (mDel K) name (namespace k)) e), k)
        | None \<Rightarrow> goBind (goCall (\<lambda>h. apiDelete (kApi K (cluster E)) h (namespace k) name)
                                (\<lambda>r. kEv K (KDelete (namespace k) name r)))
            (\<lambda>r. goRet (map_option extErr r, k))))"

text \<open>The message of a failed update names the namespace of the object, not of the client.\<close>

definition kube_Update ::
  "env \<Rightarrow> 'a ObjectMeta_scheme kind \<Rightarrow> 'a ObjectMeta_scheme option \<Rightarrow> Kubeclient
   \<Rightarrow> ((gerror + 'a ObjectMeta_scheme) \<times> Kubeclient) go" where
  "kube_Update E K obj k =
     (case obj of
        None \<Rightarrow> goRet (Inl (EText (mUpdateNil K)), k)
      | Some x \<Rightarrow> goBind (getClientOrCached E k) (\<lambda>(err, k).
          case err of
            Some e \<Rightarrow> goRet (Inl (EWrap (inNamespace (mUpdate K) (Name x) (Namespace x)) e), k)
          | None \<Rightarrow> goBind (goCall (\<lambda>h. apiUpdate (kApi K (cluster E)) h (namespace k) x)
                                  (\<lambda>r. kEv K (KUpdate (namespace k) x r)))
              (\<lambda>r. goRet (apiAnswer r, k))))"

section \<open>The five kinds\<close>

definition volKind :: "ZFSVolume kind" where
  "volKind = \<lparr> kApi = volApi, kEv = EvVol,
     mCreateNil = ''failed to create csivolume: nil vol object'',
     mCreate = ''failed to create zfs volume'',
     mGetMissing = ''failed to get zfs volume: missing zfs volume name'',
     mGet = ''failed to get zfs volume'',
     mList = ''failed to list zfs volumes'',
     mDelMissing = ''failed to delete csivolume: missing vol name'',
     mDel = ''failed to delete csivolume'',
     mUpdateNil = ''failed to update csivolume: nil vol object'',
     mUpdate = ''failed to update csivolume'' \<rparr>"

definition vol_Create :: "env \<Rightarrow> ZFSVolume option \<Rightarrow> Kubeclient \<Rightarrow> ((gerror + ZFSVolume) \<times> Kubeclient) go" where
  "vol_Create E obj k = kube_Create E volKind obj k"

definition vol_Get :: "env \<Rightarrow> string \<Rightarrow> Kubeclient \<Rightarrow> ((gerror + ZFSVolume) \<times> Kubeclient) go" where
  "vol_Get E name k = kube_Get E volKind name k"

definition vol_List :: "env \<Rightarrow> string \<Rightarrow> Kubeclient \<Rightarrow> ((gerror + ZFSVolume list) \<times> Kubeclient) go" where
  "vol_List E selector k = kube_List E volKind selector k"

definition vol_Delete :: "env \<Rightarrow> string \<Rightarrow> Kubeclient \<Rightarrow> (gerror option \<times> Kubeclient) go" where
  "vol_Delete E name k = kube_Delete E volKind name k"

definition vol_Update :: "env \<Rightarrow> ZFSVolume option \<Rightarrow> Kubeclient \<Rightarrow> ((gerror + ZFSVolume) \<times> Kubeclient) go" where
  "vol_Update E obj k = kube_Update E volKind obj k"

definition snapKind :: "ZFSSnapshot kind" where
  "snapKind = \<lparr> kApi = snapApi, kEv = EvSnap,
     mCreateNil = ''failed to create csivolume: nil vol object'',
     mCreate = ''failed to create zfssnap volume'',
     mGetMissing = ''failed to get zfssnap volume: missing zfssnap volume name'',
     mGet = ''failed to get zfssnap volume'',
     mList = ''failed to list zfssnap volumes'',
     mDelMissing = ''failed to delete csivolume: missing vol name'',
     mDel = ''failed to delete csivolume'',
     mUpdateNil = ''failed to update csivolume: nil vol object'',
     mUpdate = ''failed to update csivolume'' \<rparr>"

definition snap_Create :: "env \<Rightarrow> ZFSSnapshot option \<Rightarrow> Kubeclient \<Rightarrow> ((gerror + ZFSSnapshot) \<times> Kubeclient) go" where
  "snap_Create E obj k = kube_Create E snapKind obj k"

definition snap_Get :: "env \<Rightarrow> string \<Rightarrow> Kubeclient \<Rightarrow> ((gerror + ZFSSnapshot) \<times> Kubeclient) go" where
  "snap_Get E name k = kube_Get E snapKind name k"

definition snap_List :: "env \<Rightarrow> string \<Rightarrow> Kubeclient \<Rightarrow> ((gerror + ZFSSnapshot list) \<times> Kubeclient) go" where
  "snap_List E selector k = kube_List E snapKind selector k"

definition snap_Delete :: "env \<Rightarrow> string \<Rightarrow> Kubeclient \<Rightarrow> (gerror option \<times> Kubeclient) go" where
  "snap_Delete E name k = kube_Delete E snapKind name k"

definition snap_Update :: "env \<Rightarrow> ZFSSnapshot option \<Rightarrow> Kubeclient \<Rightarrow> ((gerror + ZFSSnapshot) \<times> Kubeclient) go" where
  "snap_Update E obj k = kube_Update E snapKind obj k"

definition bkpKind :: "ZFSBackup kind" where
  "bkpKind = \<lparr> kApi = bkpApi, kEv = EvBkp,
     mCreateNil = ''failed to create csibkpume: nil bkp object'',
     mCreate = ''failed to create zfsbkp bkpume'',
     mGetMissing = ''failed to get zfsbkp bkpume: missing zfsbkp bkpume name'',
     mGet = ''failed to get zfsbkp bkpume'',
     mList = ''failed to list zfsbkp bkpumes'',
     mDelMissing = ''failed to delete csibkpume: missing bkp name'',
     mDel = ''failed to delete csibkpume'',
     mUpdateNil = ''failed to update csibkpume: nil bkp object'',
     mUpdate = ''failed to update csibkpume'' \<rparr>"

definition bkp_Create :: "env \<Rightarrow> ZFSBackup option \<Rightarrow> Kubeclient \<Rightarrow> ((gerror + ZFSBackup) \<times> Kubeclient) go" where
  "bkp_Create E obj k = kube_Create E bkpKind obj k"

definition bkp_Get :: "env \<Rightarrow> string \<Rightarrow> Kubeclient \<Rightarrow> ((gerror + ZFSBackup) \<times> Kubeclient) go" where
  "bkp_Get E name k = kube_Get E bkpKind name k"

definition bkp_List :: "env \<Rightarrow> string \<Rightarrow> Kubeclient \<Rightarrow> ((gerror + ZFSBackup list) \<times> Kubeclient) go" where
  "bkp_List E selector k = kube_List E bkpKind selector k"

definition bkp_Delete :: "env \<Rightarrow> string \<Rightarrow> Kubeclient \<Rightarrow> (gerror option \<times> Kubeclient) go" where
  "bkp_Delete E name k = kube_Delete E bkpKind name k"

definition bkp_Update :: "env \<Rightarrow> ZFSBackup option \<Rightarrow> Kubeclient \<Rightarrow> ((gerror + ZFSBackup) \<times> Kubeclient) go" where
  "bkp_Update E obj k = kube_Update E bkpKind obj k"

definition rstrKind :: "ZFSRestore kind" where
  "rstrKind = \<lparr> kApi = rstrApi, kEv = EvRstr,
     mCreateNil = ''failed to create csirstrume: nil rstr object'',
     mCreate = ''failed to create zfsrstr rstrume'',
     mGetMissing = ''failed to get zfsrstr rstrume: missing zfsrstr rstrume name'',
     mGet = ''failed to get zfsrstr rstrume'',
     mList = ''failed to list zfsrstr rstrumes'',
     mDelMissing = ''failed to delete csirstrume: missing rstr name'',
     mDel = ''failed to delete csirstrume'',
     mUpdateNil = ''failed to update csirstrume: nil rstr object'',
     mUpdate = ''failed to update csirstrume'' \<rparr>"

definition rstr_Create :: "env \<Rightarrow> ZFSRestore option \<Rightarrow> Kubeclient \<Rightarrow> ((gerror + ZFSRestore) \<times> Kubeclient) go" where
  "rstr_Create E obj k = kube_Create E rstrKind obj k"

definition rstr_Get :: "env \<Rightarrow> string \<Rightarrow> Kubeclient \<Rightarrow> ((gerror + ZFSRestore) \<times> Kubeclient) go" where
  "rstr_Get E name k = kube_Get E rstrKind name k"

definition rstr_List :: "env \<Rightarrow> string \<Rightarrow> Kubeclient \<Rightarrow> ((gerror + ZFSRestore list) \<times> Kubeclient) go" where
  "rstr_List E selector k = kube_List E rstrKind selector k"

definition rstr_Delete :: "env \<Rightarrow> string \<Rightarrow> Kubeclient \<Rightarrow> (gerror option \<times> Kubeclient) go" where
  "rstr_Delete E name k = kube_Delete E rstrKind name k"

definition rstr_Update :: "env \<Rightarrow> ZFSRestore option \<Rightarrow> Kubeclient \<Rightarrow> ((gerror + ZFSRestore) \<times> Kubeclient) go" where
  "rstr_Update E obj k = kube_Update E rstrKind obj k"

definition nodeKind :: "ZFSNode kind" where
  "nodeKind = \<lparr> kApi = nodeApi, kEv = EvNode,
     mCreateNil = ''failed to create zfs node: nil node object'',
     mCreate = ''failed to create zfs node'',
     mGetMissing = ''failed to get zfs node: missing zfs node name'',
     mGet = ''failed to get zfs node'',
     mList = ''failed to list zfs nodes'',
     mDelMissing = ''failed to delete zfsnode: missing node name'',
     mDel = ''failed to delete zfsnode'',
     mUpdateNil = ''failed to update zfsnode: nil node object'',
     mUpdate = ''failed to update zfsnode'' \<rparr>"

definition node_Create :: "env \<Rightarrow> ZFSNode option \<Rightarrow> Kubeclient \<Rightarrow> ((gerror + ZFSNode) \<times> Kubeclient) go" where
  "node_Create E obj k = kube_Create E nodeKind obj k"

definition node_Get :: "env \<Rightarrow> string \<Rightarrow> Kubeclient \<Rightarrow> ((gerror + ZFSNode) \<times> Kubeclient) go" where
  "node_Get E name k = kube_Get E nodeKind name k"

definition node_List :: "env \<Rightarrow> string \<Rightarrow> Kubeclient \<Rightarrow> ((gerror + ZFSNode list) \<times> Kubeclient) go" where
  "node_List E selector k = kube_List E nodeKind selector k"

definition node_Delete :: "env \<Rightarrow> string \<Rightarrow> Kubeclient \<Rightarrow> (gerror option \<times> Kubeclient) go" where
  "node_Delete E name k = kube_Delete E nodeKind name k"

definition node_Update :: "env \<Rightarrow> ZFSNode option \<Rightarrow> Kubeclient \<Rightarrow> ((gerror + ZFSNode) \<times> Kubeclient) go" where
  "node_Update E obj k = kube_Update E nodeKind obj k"

text \<open>
  The client the driver uses for every call: a new one for its own namespace. The cached clientset
  is dropped with it.
\<close>

definition ownClient :: "env \<Rightarrow> Kubeclient" where
  "ownClient E = kube_WithNamespace (OpenEBSNamespace E) NewKubeclient"

definition asOwn :: "env \<Rightarrow> (Kubeclient \<Rightarrow> ('r \<times> Kubeclient) go) \<Rightarrow> 'r go" where
  "asOwn E m = goBind (m (ownClient E)) (\<lambda>(r, k). goRet r)"

section \<open>What a client does\<close>

fun requests :: "event list \<Rightarrow> event list" where
  "requests h = filter isApi h"

fun isClientset :: "event \<Rightarrow> bool" where
  "isClientset (EvClientset _ _) = True"
| "isClientset _ = False"

lemma only_getClientOrCached [only_rules]:
  "(\<And>p r. P (EvClientset p r)) \<Longrightarrow> only P (getClientOrCached E k)"
  unfolding getClientOrCached_def by (intro only_rules)

lemma returns_getClientOrCached [returns_rules]: "always_returns (getClientOrCached E k)"
  unfolding getClientOrCached_def by (intro returns_rules)

lemma only_asOwn [only_rules]: "(\<And>k. only P (m k)) \<Longrightarrow> only P (asOwn E m)"
  unfolding asOwn_def by (intro only_rules)

lemma returns_asOwn [returns_rules]: "(\<And>k. always_returns (m k)) \<Longrightarrow> always_returns (asOwn E m)"
  unfolding asOwn_def by (intro returns_rules)

lemma asOwn_run [go_simps]:
  "asOwn E m h = (case m (ownClient E) h of (None, h') \<Rightarrow> (None, h') | (Some (r, k), h') \<Rightarrow> (Some r, h'))"
  by (simp add: asOwn_def go_simps split: prod.split option.split)

lemma namespace_ownClient [simp]: "namespace (ownClient E) = OpenEBSNamespace E"
  by (simp add: ownClient_def kube_WithNamespace_def)

lemma clientset_ownClient [simp]: "clientset (ownClient E) = False"
  by (simp add: ownClient_def kube_WithNamespace_def NewKubeclient_def)

lemma path_ownClient [simp]: "kubeConfigPath (ownClient E) = []"
  by (simp add: ownClient_def kube_WithNamespace_def NewKubeclient_def)

text \<open>What the clientset step of a fresh client does.\<close>

lemma getClient_fresh [go_simps]:
  "\<not> clientset k \<Longrightarrow> getClientOrCached E k h =
     (case clientsetFor (cluster E) h (kubeConfigPath k) of
        Some t \<Rightarrow> (Some (Some (EWrap ''failed to get clientset'' (EApi False t)), k),
                   h @ [EvClientset (kubeConfigPath k) (Some t)])
      | None \<Rightarrow> (Some (None, k\<lparr> clientset := True \<rparr>), h @ [EvClientset (kubeConfigPath k) None]))"
  by (simp add: getClientOrCached_def go_simps split: option.split)

lemma getClient_cached [go_simps]: "clientset k \<Longrightarrow> getClientOrCached E k h = (Some (None, k), h)"
  by (simp add: getClientOrCached_def go_simps)

text \<open>
  A kind's requests are recorded as API requests that can be read back from the trace.
\<close>

locale crd_kind =
  fixes K :: "'a ObjectMeta_scheme kind"
  assumes ev_api: "isApi (kEv K e)"
    and ev_inj: "kEv K e = kEv K e' \<longleftrightarrow> e = e'"
begin

lemma only_Get:
  "(\<And>p r. P (EvClientset p r)) \<Longrightarrow> (\<And>ns r. name \<noteq> [] \<Longrightarrow> P (kEv K (KGet ns name r))) \<Longrightarrow>
   only P (kube_Get E K name k)"
  unfolding kube_Get_def by (intro only_rules) auto

lemma only_List:
  "(\<And>p r. P (EvClientset p r)) \<Longrightarrow> (\<And>ns r. P (kEv K (KList ns sel r))) \<Longrightarrow>
   only P (kube_List E K sel k)"
  unfolding kube_List_def by (intro only_rules) auto

lemma only_Create:
  "(\<And>p r. P (EvClientset p r)) \<Longrightarrow> (\<And>ns x r. obj = Some x \<Longrightarrow> P (kEv K (KCreate ns x r))) \<Longrightarrow>
   only P (kube_Create E K obj k)"
  unfolding kube_Create_def by (intro only_rules) auto

lemma only_Update:
  "(\<And>p r. P (EvClientset p r)) \<Longrightarrow> (\<And>ns x r. obj = Some x \<Longrightarrow> P (kEv K (KUpdate ns x r))) \<Longrightarrow>
   only P (kube_Update E K obj k)"
  unfolding kube_Update_def by (intro only_rules) auto

lemma only_Delete:
  "(\<And>p r. P (EvClientset p r)) \<Longrightarrow> (\<And>ns r. name \<noteq> [] \<Longrightarrow> P (kEv K (KDelete ns name r))) \<Longrightarrow>
   only P (kube_Delete E K name k)"
  unfolding kube_Delete_def by (intro only_rules) auto

lemma returns_ops:
  "always_returns (kube_Get E K name k)" "always_returns (kube_List E K sel k)"
  "always_returns (kube_Create E K obj k)" "always_returns (kube_Update E K obj k)"
  "always_returns (kube_Delete E K name k)"
  unfolding kube_Get_def kube_List_def kube_Create_def kube_Update_def kube_Delete_def
  by (intro returns_rules)+

text \<open>A fetched object is the one the API server sent in its last answer.\<close>

lemma Get_answer:
  assumes "kube_Get E K name k h = (Some (Inr x, k'), h')"
  shows "name \<noteq> [] \<and> (\<exists>es. h' = h @ es @ [kEv K (KGet (namespace k) name (Inr x))] \<and> list_all isClientset es)"
  using assms
  by (auto simp: kube_Get_def goBind_def goRet_def goCall_def getClientOrCached_def apiAnswer_def
           split: if_splits option.splits sum.splits prod.splits)

lemma Update_answer:
  assumes "kube_Update E K (Some obj) k h = (Some (Inr x, k'), h')"
  shows "\<exists>es. h' = h @ es @ [kEv K (KUpdate (namespace k) obj (Inr x))] \<and> list_all isClientset es"
  using assms
  by (auto simp: kube_Update_def goBind_def goRet_def goCall_def getClientOrCached_def apiAnswer_def
           split: if_splits option.splits sum.splits prod.splits)

lemma Create_answer:
  assumes "kube_Create E K (Some obj) k h = (Some (Inr x, k'), h')"
  shows "\<exists>es. h' = h @ es @ [kEv K (KCreate (namespace k) obj (Inr x))] \<and> list_all isClientset es"
  using assms
  by (auto simp: kube_Create_def goBind_def goRet_def goCall_def getClientOrCached_def apiAnswer_def
           split: if_splits option.splits sum.splits prod.splits)

lemma Delete_answer:
  assumes "kube_Delete E K name k h = (Some (None, k'), h')"
  shows "name \<noteq> [] \<and> (\<exists>es. h' = h @ es @ [kEv K (KDelete (namespace k) name None)] \<and> list_all isClientset es)"
  using assms
  by (auto simp: kube_Delete_def goBind_def goRet_def goCall_def getClientOrCached_def
           split: if_splits option.splits sum.splits prod.splits)

end

interpretation vk: crd_kind volKind
  by unfold_locales (auto simp: volKind_def)

interpretation sk: crd_kind snapKind
  by unfold_locales (auto simp: snapKind_def)

interpretation bk: crd_kind bkpKind
  by unfold_locales (auto simp: bkpKind_def)

interpretation rk: crd_kind rstrKind
  by unfold_locales (auto simp: rstrKind_def)

interpretation nk: crd_kind nodeKind
  by unfold_locales (auto simp: nodeKind_def)

section \<open>Rules for each kind\<close>

lemma kEv_vol [simp]: "kEv volKind = EvVol"
  by (simp add: volKind_def)

lemma kEv_snap [simp]: "kEv snapKind = EvSnap"
  by (simp add: snapKind_def)

lemma kEv_bkp [simp]: "kEv bkpKind = EvBkp"
  by (simp add: bkpKind_def)

lemma kEv_rstr [simp]: "kEv rstrKind = EvRstr"
  by (simp add: rstrKind_def)

lemma kEv_node [simp]: "kEv nodeKind = EvNode"
  by (simp add: nodeKind_def)

lemma only_vol_Get [only_rules]:
  "(\<And>p r. P (EvClientset p r)) \<Longrightarrow> (\<And>ns r. name \<noteq> [] \<Longrightarrow> P (EvVol (KGet ns name r)))
   \<Longrightarrow> only P (vol_Get E name k)"
  unfolding vol_Get_def by (rule vk.only_Get) simp_all

lemma returns_vol_Get [returns_rules]: "always_returns (vol_Get E name k)"
  unfolding vol_Get_def by (rule vk.returns_ops)

lemma only_vol_List [only_rules]:
  "(\<And>p r. P (EvClientset p r)) \<Longrightarrow> (\<And>ns r. P (EvVol (KList ns sel r)))
   \<Longrightarrow> only P (vol_List E sel k)"
  unfolding vol_List_def by (rule vk.only_List) simp_all

lemma returns_vol_List [returns_rules]: "always_returns (vol_List E sel k)"
  unfolding vol_List_def by (rule vk.returns_ops)

lemma only_vol_Create [only_rules]:
  "(\<And>p r. P (EvClientset p r)) \<Longrightarrow> (\<And>ns x r. obj = Some x \<Longrightarrow> P (EvVol (KCreate ns x r)))
   \<Longrightarrow> only P (vol_Create E obj k)"
  unfolding vol_Create_def by (rule vk.only_Create) simp_all

lemma returns_vol_Create [returns_rules]: "always_returns (vol_Create E obj k)"
  unfolding vol_Create_def by (rule vk.returns_ops)

lemma only_vol_Update [only_rules]:
  "(\<And>p r. P (EvClientset p r)) \<Longrightarrow> (\<And>ns x r. obj = Some x \<Longrightarrow> P (EvVol (KUpdate ns x r)))
   \<Longrightarrow> only P (vol_Update E obj k)"
  unfolding vol_Update_def by (rule vk.only_Update) simp_all

lemma returns_vol_Update [returns_rules]: "always_returns (vol_Update E obj k)"
  unfolding vol_Update_def by (rule vk.returns_ops)

lemma only_vol_Delete [only_rules]:
  "(\<And>p r. P (EvClientset p r)) \<Longrightarrow> (\<And>ns r. name \<noteq> [] \<Longrightarrow> P (EvVol (KDelete ns name r)))
   \<Longrightarrow> only P (vol_Delete E name k)"
  unfolding vol_Delete_def by (rule vk.only_Delete) simp_all

lemma returns_vol_Delete [returns_rules]: "always_returns (vol_Delete E name k)"
  unfolding vol_Delete_def by (rule vk.returns_ops)

lemma only_snap_Get [only_rules]:
  "(\<And>p r. P (EvClientset p r)) \<Longrightarrow> (\<And>ns r. name \<noteq> [] \<Longrightarrow> P (EvSnap (KGet ns name r)))
   \<Longrightarrow> only P (snap_Get E name k)"
  unfolding snap_Get_def by (rule sk.only_Get) simp_all

lemma returns_snap_Get [returns_rules]: "always_returns (snap_Get E name k)"
  unfolding snap_Get_def by (rule sk.returns_ops)

lemma only_snap_List [only_rules]:
  "(\<And>p r. P (EvClientset p r)) \<Longrightarrow> (\<And>ns r. P (EvSnap (KList ns sel r)))
   \<Longrightarrow> only P (snap_List E sel k)"
  unfolding snap_List_def by (rule sk.only_List) simp_all

lemma returns_snap_List [returns_rules]: "always_returns (snap_List E sel k)"
  unfolding snap_List_def by (rule sk.returns_ops)

lemma only_snap_Create [only_rules]:
  "(\<And>p r. P (EvClientset p r)) \<Longrightarrow> (\<And>ns x r. obj = Some x \<Longrightarrow> P (EvSnap (KCreate ns x r)))
   \<Longrightarrow> only P (snap_Create E obj k)"
  unfolding snap_Create_def by (rule sk.only_Create) simp_all

lemma returns_snap_Create [returns_rules]: "always_returns (snap_Create E obj k)"
  unfolding snap_Create_def by (rule sk.returns_ops)

lemma only_snap_Update [only_rules]:
  "(\<And>p r. P (EvClientset p r)) \<Longrightarrow> (\<And>ns x r. obj = Some x \<Longrightarrow> P (EvSnap (KUpdate ns x r)))
   \<Longrightarrow> only P (snap_Update E obj k)"
  unfolding snap_Update_def by (rule sk.only_Update) simp_all

lemma returns_snap_Update [returns_rules]: "always_returns (snap_Update E obj k)"
  unfolding snap_Update_def by (rule sk.returns_ops)

lemma only_snap_Delete [only_rules]:
  "(\<And>p r. P (EvClientset p r)) \<Longrightarrow> (\<And>ns r. name \<noteq> [] \<Longrightarrow> P (EvSnap (KDelete ns name r)))
   \<Longrightarrow> only P (snap_Delete E name k)"
  unfolding snap_Delete_def by (rule sk.only_Delete) simp_all

lemma returns_snap_Delete [returns_rules]: "always_returns (snap_Delete E name k)"
  unfolding snap_Delete_def by (rule sk.returns_ops)

lemma only_bkp_Get [only_rules]:
  "(\<And>p r. P (EvClientset p r)) \<Longrightarrow> (\<And>ns r. name \<noteq> [] \<Longrightarrow> P (EvBkp (KGet ns name r)))
   \<Longrightarrow> only P (bkp_Get E name k)"
  unfolding bkp_Get_def by (rule bk.only_Get) simp_all

lemma returns_bkp_Get [returns_rules]: "always_returns (bkp_Get E name k)"
  unfolding bkp_Get_def by (rule bk.returns_ops)

lemma only_bkp_List [only_rules]:
  "(\<And>p r. P (EvClientset p r)) \<Longrightarrow> (\<And>ns r. P (EvBkp (KList ns sel r)))
   \<Longrightarrow> only P (bkp_List E sel k)"
  unfolding bkp_List_def by (rule bk.only_List) simp_all

lemma returns_bkp_List [returns_rules]: "always_returns (bkp_List E sel k)"
  unfolding bkp_List_def by (rule bk.returns_ops)

lemma only_bkp_Create [only_rules]:
  "(\<And>p r. P (EvClientset p r)) \<Longrightarrow> (\<And>ns x r. obj = Some x \<Longrightarrow> P (EvBkp (KCreate ns x r)))
   \<Longrightarrow> only P (bkp_Create E obj k)"
  unfolding bkp_Create_def by (rule bk.only_Create) simp_all

lemma returns_bkp_Create [returns_rules]: "always_returns (bkp_Create E obj k)"
  unfolding bkp_Create_def by (rule bk.returns_ops)

lemma only_bkp_Update [only_rules]:
  "(\<And>p r. P (EvClientset p r)) \<Longrightarrow> (\<And>ns x r. obj = Some x \<Longrightarrow> P (EvBkp (KUpdate ns x r)))
   \<Longrightarrow> only P (bkp_Update E obj k)"
  unfolding bkp_Update_def by (rule bk.only_Update) simp_all

lemma returns_bkp_Update [returns_rules]: "always_returns (bkp_Update E obj k)"
  unfolding bkp_Update_def by (rule bk.returns_ops)

lemma only_bkp_Delete [only_rules]:
  "(\<And>p r. P (EvClientset p r)) \<Longrightarrow> (\<And>ns r. name \<noteq> [] \<Longrightarrow> P (EvBkp (KDelete ns name r)))
   \<Longrightarrow> only P (bkp_Delete E name k)"
  unfolding bkp_Delete_def by (rule bk.only_Delete) simp_all

lemma returns_bkp_Delete [returns_rules]: "always_returns (bkp_Delete E name k)"
  unfolding bkp_Delete_def by (rule bk.returns_ops)

lemma only_rstr_Get [only_rules]:
  "(\<And>p r. P (EvClientset p r)) \<Longrightarrow> (\<And>ns r. name \<noteq> [] \<Longrightarrow> P (EvRstr (KGet ns name r)))
   \<Longrightarrow> only P (rstr_Get E name k)"
  unfolding rstr_Get_def by (rule rk.only_Get) simp_all

lemma returns_rstr_Get [returns_rules]: "always_returns (rstr_Get E name k)"
  unfolding rstr_Get_def by (rule rk.returns_ops)

lemma only_rstr_List [only_rules]:
  "(\<And>p r. P (EvClientset p r)) \<Longrightarrow> (\<And>ns r. P (EvRstr (KList ns sel r)))
   \<Longrightarrow> only P (rstr_List E sel k)"
  unfolding rstr_List_def by (rule rk.only_List) simp_all

lemma returns_rstr_List [returns_rules]: "always_returns (rstr_List E sel k)"
  unfolding rstr_List_def by (rule rk.returns_ops)

lemma only_rstr_Create [only_rules]:
  "(\<And>p r. P (EvClientset p r)) \<Longrightarrow> (\<And>ns x r. obj = Some x \<Longrightarrow> P (EvRstr (KCreate ns x r)))
   \<Longrightarrow> only P (rstr_Create E obj k)"
  unfolding rstr_Create_def by (rule rk.only_Create) simp_all

lemma returns_rstr_Create [returns_rules]: "always_returns (rstr_Create E obj k)"
  unfolding rstr_Create_def by (rule rk.returns_ops)

lemma only_rstr_Update [only_rules]:
  "(\<And>p r. P (EvClientset p r)) \<Longrightarrow> (\<And>ns x r. obj = Some x \<Longrightarrow> P (EvRstr (KUpdate ns x r)))
   \<Longrightarrow> only P (rstr_Update E obj k)"
  unfolding rstr_Update_def by (rule rk.only_Update) simp_all

lemma returns_rstr_Update [returns_rules]: "always_returns (rstr_Update E obj k)"
  unfolding rstr_Update_def by (rule rk.returns_ops)

lemma only_rstr_Delete [only_rules]:
  "(\<And>p r. P (EvClientset p r)) \<Longrightarrow> (\<And>ns r. name \<noteq> [] \<Longrightarrow> P (EvRstr (KDelete ns name r)))
   \<Longrightarrow> only P (rstr_Delete E name k)"
  unfolding rstr_Delete_def by (rule rk.only_Delete) simp_all

lemma returns_rstr_Delete [returns_rules]: "always_returns (rstr_Delete E name k)"
  unfolding rstr_Delete_def by (rule rk.returns_ops)

lemma only_node_Get [only_rules]:
  "(\<And>p r. P (EvClientset p r)) \<Longrightarrow> (\<And>ns r. name \<noteq> [] \<Longrightarrow> P (EvNode (KGet ns name r)))
   \<Longrightarrow> only P (node_Get E name k)"
  unfolding node_Get_def by (rule nk.only_Get) simp_all

lemma returns_node_Get [returns_rules]: "always_returns (node_Get E name k)"
  unfolding node_Get_def by (rule nk.returns_ops)

lemma only_node_List [only_rules]:
  "(\<And>p r. P (EvClientset p r)) \<Longrightarrow> (\<And>ns r. P (EvNode (KList ns sel r)))
   \<Longrightarrow> only P (node_List E sel k)"
  unfolding node_List_def by (rule nk.only_List) simp_all

lemma returns_node_List [returns_rules]: "always_returns (node_List E sel k)"
  unfolding node_List_def by (rule nk.returns_ops)

lemma only_node_Create [only_rules]:
  "(\<And>p r. P (EvClientset p r)) \<Longrightarrow> (\<And>ns x r. obj = Some x \<Longrightarrow> P (EvNode (KCreate ns x r)))
   \<Longrightarrow> only P (node_Create E obj k)"
  unfolding node_Create_def by (rule nk.only_Create) simp_all

lemma returns_node_Create [returns_rules]: "always_returns (node_Create E obj k)"
  unfolding node_Create_def by (rule nk.returns_ops)

lemma only_node_Update [only_rules]:
  "(\<And>p r. P (EvClientset p r)) \<Longrightarrow> (\<And>ns x r. obj = Some x \<Longrightarrow> P (EvNode (KUpdate ns x r)))
   \<Longrightarrow> only P (node_Update E obj k)"
  unfolding node_Update_def by (rule nk.only_Update) simp_all

lemma returns_node_Update [returns_rules]: "always_returns (node_Update E obj k)"
  unfolding node_Update_def by (rule nk.returns_ops)

lemma only_node_Delete [only_rules]:
  "(\<And>p r. P (EvClientset p r)) \<Longrightarrow> (\<And>ns r. name \<noteq> [] \<Longrightarrow> P (EvNode (KDelete ns name r)))
   \<Longrightarrow> only P (node_Delete E name k)"
  unfolding node_Delete_def by (rule nk.only_Delete) simp_all

lemma returns_node_Delete [returns_rules]: "always_returns (node_Delete E name k)"
  unfolding node_Delete_def by (rule nk.returns_ops)

end
