(* ===== verification/Builders.thy ===== *)
theory Builders
  imports Apis
begin

text \<open>
  The object builders of \<open>pkg/builder\<close>: \<open>volbuilder\<close>, \<open>snapbuilder\<close>, \<open>bkpbuilder\<close>, \<open>restorebuilder\<close>
  and \<open>nodebuilder\<close>, with the label predicates and list builders beside them.

  A builder carries the object under construction and the errors met so far; a call with a bad
  argument adds an error and leaves the object alone, and \<open>Build\<close> gives the object only if there
  is no error. The locale \<open>builder\<close> states that contract for a set of operations and derives what
  a chain of calls does; each package's operations are shown to satisfy it.
\<close>

named_theorems builder_defs \<open>the methods of the builders\<close>

section \<open>Builders in general\<close>

record 'o Builder =
  object :: 'o
  errs :: "gerror list"

definition newBuilder :: "'o \<Rightarrow> 'o Builder" where
  "newBuilder o1 = \<lparr> object = o1, errs = [] \<rparr>"

definition addErr :: "gerror \<Rightarrow> 'o Builder \<Rightarrow> 'o Builder" where
  "addErr e b = b\<lparr> errs := errs b @ [e] \<rparr>"

definition setObj :: "('o \<Rightarrow> 'o) \<Rightarrow> 'o Builder \<Rightarrow> 'o Builder" where
  "setObj f b = b\<lparr> object := f (object b) \<rparr>"

text \<open>The guard the builders share: an empty argument is an error.\<close>

definition nonEmpty :: "string \<Rightarrow> string \<Rightarrow> ('o \<Rightarrow> 'o) \<Rightarrow> 'o Builder \<Rightarrow> 'o Builder" where
  "nonEmpty msg v f b = (if v = [] then addErr (EText msg) b else setObj f b)"

definition buildFrom :: "string \<Rightarrow> 'o \<Rightarrow> 'o option \<Rightarrow> 'o Builder" where
  "buildFrom msg zero o1 =
     (case o1 of None \<Rightarrow> addErr (EText msg) (newBuilder zero) | Some x \<Rightarrow> newBuilder x)"

definition Build :: "'o Builder \<Rightarrow> gerror + 'o" where
  "Build b = (if length (errs b) > 0 then Inl (EErrs (errs b)) else Inr (object b))"

definition mergeMap :: "smap \<Rightarrow> smap \<Rightarrow> smap" where
  "mergeMap new old = fold (\<lambda>(k, v). AList.update k v) new old"

definition withLabels :: "smap \<Rightarrow> 'a ObjectMeta_scheme Builder \<Rightarrow> 'a ObjectMeta_scheme Builder" where
  "withLabels labels b =
     (if length labels = 0 then b
      else setObj (\<lambda>v. v\<lparr> Labels := mergeMap labels (Labels v) \<rparr>) b)"

definition withFinalizer ::
  "string list \<Rightarrow> 'a ObjectMeta_scheme Builder \<Rightarrow> 'a ObjectMeta_scheme Builder" where
  "withFinalizer fins b = setObj (\<lambda>v. v\<lparr> Finalizers := Finalizers v @ fins \<rparr>) b"

text \<open>
  \<open>WithUserProperties\<close> and \<open>WithReservedUserProp\<close> of the volume and snapshot builders; \<open>upd\<close> updates
  the user properties of the object and \<open>kind\<close> is the word that differs in the messages. The second
  one records the error and still stores the property.
\<close>

definition userProp :: "string \<Rightarrow> ((smap \<Rightarrow> smap) \<Rightarrow> 'o \<Rightarrow> 'o) \<Rightarrow> string \<times> string \<Rightarrow> 'o Builder \<Rightarrow> 'o Builder" where
  "userProp kind upd nv b =
     (case ValidateUserProperty (fst nv) (snd nv) of
        Some e \<Rightarrow> addErr (EWrap (''failed to build zfs '' @ kind @ '' object: invalid user property'') e) b
      | None \<Rightarrow>
          if HasPrefix (fst nv) ''openebs.io:''
          then addErr (EText (''failed to build zfs '' @ kind @ '' object: user property ''
                              @ squote (fst nv) @ '' is reserved'')) b
          else setObj (upd (AList.update (fst nv) (snd nv))) b)"

definition withUserProperties ::
  "string \<Rightarrow> ((smap \<Rightarrow> smap) \<Rightarrow> 'o \<Rightarrow> 'o) \<Rightarrow> smap \<Rightarrow> 'o Builder \<Rightarrow> 'o Builder" where
  "withUserProperties kind upd props b = fold (userProp kind upd) props b"

definition withReservedUserProp ::
  "string \<Rightarrow> ((smap \<Rightarrow> smap) \<Rightarrow> 'o \<Rightarrow> 'o) \<Rightarrow> string \<Rightarrow> string \<Rightarrow> 'o Builder \<Rightarrow> 'o Builder" where
  "withReservedUserProp kind upd name val b =
     setObj (upd (AList.update name val))
       (case ValidateUserProperty name val of
          Some e \<Rightarrow> addErr (EWrap (''failed to build zfs '' @ kind @ '' object: invalid user property'') e) b
        | None \<Rightarrow> b)"

definition acceptable :: "smap \<Rightarrow> bool" where
  "acceptable props \<longleftrightarrow>
     list_all (\<lambda>(n, v). ValidateUserProperty n v = None \<and> \<not> HasPrefix n ''openebs.io:'') props"

section \<open>Volume builder\<close>

definition specUpd :: "(VolumeInfo \<Rightarrow> VolumeInfo) \<Rightarrow> ZFSVolume \<Rightarrow> ZFSVolume" where
  "specUpd f v = v\<lparr> Spec := f (Spec v) \<rparr>"

definition volProps :: "(smap \<Rightarrow> smap) \<Rightarrow> ZFSVolume \<Rightarrow> ZFSVolume" where
  "volProps f v = specUpd (\<lambda>s. s\<lparr> UserProperties := f (UserProperties s) \<rparr>) v"

definition vol_NewBuilder :: "ZFSVolume Builder" where [builder_defs]:
  "vol_NewBuilder = newBuilder emptyVolume"

definition vol_BuildFrom :: "ZFSVolume option \<Rightarrow> ZFSVolume Builder" where [builder_defs]:
  "vol_BuildFrom v = buildFrom ''failed to build volume object: nil volume'' emptyVolume v"

definition vol_WithNamespace :: "string \<Rightarrow> ZFSVolume Builder \<Rightarrow> ZFSVolume Builder" where [builder_defs]:
  "vol_WithNamespace x b = nonEmpty ''failed to build zfs volume object: missing namespace'' x
     (\<lambda>v. v\<lparr> Namespace := x \<rparr>) b"

definition vol_WithName :: "string \<Rightarrow> ZFSVolume Builder \<Rightarrow> ZFSVolume Builder" where [builder_defs]:
  "vol_WithName x b = nonEmpty ''failed to build zfs volume object: missing name'' x
     (\<lambda>v. v\<lparr> Name := x \<rparr>) b"

definition vol_WithCapacity :: "string \<Rightarrow> ZFSVolume Builder \<Rightarrow> ZFSVolume Builder" where [builder_defs]:
  "vol_WithCapacity x b = nonEmpty ''failed to build zfs volume object: missing capacity'' x
     (specUpd (\<lambda>s. s\<lparr> Capacity := x \<rparr>)) b"

definition vol_WithEncryption :: "string \<Rightarrow> ZFSVolume Builder \<Rightarrow> ZFSVolume Builder" where [builder_defs]:
  "vol_WithEncryption x b = setObj (specUpd (\<lambda>s. s\<lparr> Encryption := x \<rparr>)) b"

definition vol_WithKeyLocation :: "string \<Rightarrow> ZFSVolume Builder \<Rightarrow> ZFSVolume Builder" where [builder_defs]:
  "vol_WithKeyLocation x b = setObj (specUpd (\<lambda>s. s\<lparr> KeyLocation := x \<rparr>)) b"

definition vol_WithKeyFormat :: "string \<Rightarrow> ZFSVolume Builder \<Rightarrow> ZFSVolume Builder" where [builder_defs]:
  "vol_WithKeyFormat x b = setObj (specUpd (\<lambda>s. s\<lparr> KeyFormat := x \<rparr>)) b"

definition vol_WithCompression :: "string \<Rightarrow> ZFSVolume Builder \<Rightarrow> ZFSVolume Builder" where [builder_defs]:
  "vol_WithCompression x b = setObj (specUpd (\<lambda>s. s\<lparr> Compression := x \<rparr>)) b"

definition vol_WithDedup :: "string \<Rightarrow> ZFSVolume Builder \<Rightarrow> ZFSVolume Builder" where [builder_defs]:
  "vol_WithDedup x b = setObj (specUpd (\<lambda>s. s\<lparr> Dedup := x \<rparr>)) b"

definition vol_WithATime :: "string \<Rightarrow> ZFSVolume Builder \<Rightarrow> ZFSVolume Builder" where [builder_defs]:
  "vol_WithATime x b = setObj (specUpd (\<lambda>s. s\<lparr> ATime := x \<rparr>)) b"

definition vol_WithLogBias :: "string \<Rightarrow> ZFSVolume Builder \<Rightarrow> ZFSVolume Builder" where [builder_defs]:
  "vol_WithLogBias x b = setObj (specUpd (\<lambda>s. s\<lparr> LogBias := x \<rparr>)) b"

definition vol_WithThinProv :: "string \<Rightarrow> ZFSVolume Builder \<Rightarrow> ZFSVolume Builder" where [builder_defs]:
  "vol_WithThinProv x b = setObj (specUpd (\<lambda>s. s\<lparr> ThinProvision := x \<rparr>)) b"

definition vol_WithOwnerNodeID :: "string \<Rightarrow> ZFSVolume Builder \<Rightarrow> ZFSVolume Builder" where [builder_defs]:
  "vol_WithOwnerNodeID x b = setObj (specUpd (\<lambda>s. s\<lparr> OwnerNodeID := x \<rparr>)) b"

definition vol_WithRecordSize :: "string \<Rightarrow> ZFSVolume Builder \<Rightarrow> ZFSVolume Builder" where [builder_defs]:
  "vol_WithRecordSize x b = setObj (specUpd (\<lambda>s. s\<lparr> RecordSize := x \<rparr>)) b"

definition vol_WithVolBlockSize :: "string \<Rightarrow> ZFSVolume Builder \<Rightarrow> ZFSVolume Builder" where [builder_defs]:
  "vol_WithVolBlockSize x b = setObj (specUpd (\<lambda>s. s\<lparr> VolBlockSize := x \<rparr>)) b"

definition vol_WithAnnotation :: "ZFSVolume Builder \<Rightarrow> ZFSVolume Builder" where [builder_defs]:
  "vol_WithAnnotation b = setObj (\<lambda>v. v\<lparr> Annotations := AList.update MarkForDeletionAnnotation ''true'' (Annotations v) \<rparr>) b"

definition vol_WithVolumeType :: "string \<Rightarrow> ZFSVolume Builder \<Rightarrow> ZFSVolume Builder" where [builder_defs]:
  "vol_WithVolumeType x b = setObj (specUpd (\<lambda>s. s\<lparr> VolumeType := x \<rparr>)) b"

definition vol_WithVolumeStatus :: "string \<Rightarrow> ZFSVolume Builder \<Rightarrow> ZFSVolume Builder" where [builder_defs]:
  "vol_WithVolumeStatus x b = setObj (\<lambda>v. v\<lparr> State := x \<rparr>) b"

definition vol_WithFsType :: "string \<Rightarrow> ZFSVolume Builder \<Rightarrow> ZFSVolume Builder" where [builder_defs]:
  "vol_WithFsType x b = setObj (specUpd (\<lambda>s. s\<lparr> FsType := x \<rparr>)) b"

definition vol_WithQuotaType :: "string \<Rightarrow> ZFSVolume Builder \<Rightarrow> ZFSVolume Builder" where [builder_defs]:
  "vol_WithQuotaType x b = 
     (if x \<noteq> [] then setObj (specUpd (\<lambda>s. s\<lparr> QuotaType := x \<rparr>)) b
      else setObj (specUpd (\<lambda>s. s\<lparr> QuotaType := ''quota'' \<rparr>)) b)"

definition vol_WithShared :: "string \<Rightarrow> ZFSVolume Builder \<Rightarrow> ZFSVolume Builder" where [builder_defs]:
  "vol_WithShared x b = setObj (specUpd (\<lambda>s. s\<lparr> Shared := x \<rparr>)) b"

definition vol_WithSnapshot :: "string \<Rightarrow> ZFSVolume Builder \<Rightarrow> ZFSVolume Builder" where [builder_defs]:
  "vol_WithSnapshot x b = setObj (specUpd (\<lambda>s. s\<lparr> SnapName := x \<rparr>)) b"

definition vol_WithPoolName :: "string \<Rightarrow> ZFSVolume Builder \<Rightarrow> ZFSVolume Builder" where [builder_defs]:
  "vol_WithPoolName x b = nonEmpty ''failed to build zfs volume object: missing pool name'' x
     (specUpd (\<lambda>s. s\<lparr> PoolName := x \<rparr>)) b"

definition vol_WithNodeName :: "string \<Rightarrow> ZFSVolume Builder \<Rightarrow> ZFSVolume Builder" where [builder_defs]:
  "vol_WithNodeName x b = nonEmpty ''failed to build zfs volume object: missing node name'' x
     (specUpd (\<lambda>s. s\<lparr> OwnerNodeID := x \<rparr>)) b"

definition vol_WithLabels :: "smap \<Rightarrow> ZFSVolume Builder \<Rightarrow> ZFSVolume Builder" where [builder_defs]:
  "vol_WithLabels labels b = withLabels labels b"

definition vol_WithFinalizer :: "string list \<Rightarrow> ZFSVolume Builder \<Rightarrow> ZFSVolume Builder" where [builder_defs]:
  "vol_WithFinalizer finalizer b = withFinalizer finalizer b"

definition vol_WithUserProperties :: "smap \<Rightarrow> ZFSVolume Builder \<Rightarrow> ZFSVolume Builder" where [builder_defs]:
  "vol_WithUserProperties props b = withUserProperties ''volume'' volProps props b"

definition vol_WithReservedUserProp :: "string \<Rightarrow> string \<Rightarrow> ZFSVolume Builder \<Rightarrow> ZFSVolume Builder" where [builder_defs]:
  "vol_WithReservedUserProp name val b = withReservedUserProp ''volume'' volProps name val b"

definition vol_WithPVCName :: "string \<Rightarrow> ZFSVolume Builder \<Rightarrow> ZFSVolume Builder" where [builder_defs]:
  "vol_WithPVCName x b = vol_WithReservedUserProp ''openebs.io:pvc-name'' x b"

definition vol_WithPVCNamespace :: "string \<Rightarrow> ZFSVolume Builder \<Rightarrow> ZFSVolume Builder" where [builder_defs]:
  "vol_WithPVCNamespace x b = vol_WithReservedUserProp ''openebs.io:pvc-namespace'' x b"

definition vol_WithPVName :: "string \<Rightarrow> ZFSVolume Builder \<Rightarrow> ZFSVolume Builder" where [builder_defs]:
  "vol_WithPVName x b = vol_WithReservedUserProp ''openebs.io:pv-name'' x b"

datatype vol_call =
    VNamespace string
  | VName string
  | VCapacity string
  | VEncryption string
  | VKeyLocation string
  | VKeyFormat string
  | VCompression string
  | VDedup string
  | VATime string
  | VLogBias string
  | VThinProv string
  | VOwnerNodeID string
  | VRecordSize string
  | VVolBlockSize string
  | VAnnotation
  | VVolumeType string
  | VVolumeStatus string
  | VFsType string
  | VQuotaType string
  | VShared string
  | VSnapshot string
  | VPoolName string
  | VNodeName string
  | VLabels smap
  | VFinalizer "string list"
  | VUserProperties smap
  | VReservedUserProp string string
  | VPVCName string
  | VPVCNamespace string
  | VPVName string

fun vol_with :: "vol_call \<Rightarrow> ZFSVolume Builder \<Rightarrow> ZFSVolume Builder" where
  "vol_with (VNamespace x) b = vol_WithNamespace x b"
| "vol_with (VName x) b = vol_WithName x b"
| "vol_with (VCapacity x) b = vol_WithCapacity x b"
| "vol_with (VEncryption x) b = vol_WithEncryption x b"
| "vol_with (VKeyLocation x) b = vol_WithKeyLocation x b"
| "vol_with (VKeyFormat x) b = vol_WithKeyFormat x b"
| "vol_with (VCompression x) b = vol_WithCompression x b"
| "vol_with (VDedup x) b = vol_WithDedup x b"
| "vol_with (VATime x) b = vol_WithATime x b"
| "vol_with (VLogBias x) b = vol_WithLogBias x b"
| "vol_with (VThinProv x) b = vol_WithThinProv x b"
| "vol_with (VOwnerNodeID x) b = vol_WithOwnerNodeID x b"
| "vol_with (VRecordSize x) b = vol_WithRecordSize x b"
| "vol_with (VVolBlockSize x) b = vol_WithVolBlockSize x b"
| "vol_with VAnnotation b = vol_WithAnnotation b"
| "vol_with (VVolumeType x) b = vol_WithVolumeType x b"
| "vol_with (VVolumeStatus x) b = vol_WithVolumeStatus x b"
| "vol_with (VFsType x) b = vol_WithFsType x b"
| "vol_with (VQuotaType x) b = vol_WithQuotaType x b"
| "vol_with (VShared x) b = vol_WithShared x b"
| "vol_with (VSnapshot x) b = vol_WithSnapshot x b"
| "vol_with (VPoolName x) b = vol_WithPoolName x b"
| "vol_with (VNodeName x) b = vol_WithNodeName x b"
| "vol_with (VLabels labels) b = vol_WithLabels labels b"
| "vol_with (VFinalizer finalizer) b = vol_WithFinalizer finalizer b"
| "vol_with (VUserProperties props) b = vol_WithUserProperties props b"
| "vol_with (VReservedUserProp name val) b = vol_WithReservedUserProp name val b"
| "vol_with (VPVCName x) b = vol_WithPVCName x b"
| "vol_with (VPVCNamespace x) b = vol_WithPVCNamespace x b"
| "vol_with (VPVName x) b = vol_WithPVName x b"

text \<open>The calls that add an error.\<close>

fun vol_bad :: "vol_call \<Rightarrow> bool" where
  "vol_bad (VNamespace x) \<longleftrightarrow> x = []"
| "vol_bad (VName x) \<longleftrightarrow> x = []"
| "vol_bad (VCapacity x) \<longleftrightarrow> x = []"
| "vol_bad (VPoolName x) \<longleftrightarrow> x = []"
| "vol_bad (VNodeName x) \<longleftrightarrow> x = []"
| "vol_bad (VUserProperties props) \<longleftrightarrow> \<not> acceptable props"
| "vol_bad (VReservedUserProp name val) \<longleftrightarrow> ValidateUserProperty name val \<noteq> None"
| "vol_bad (VPVCName x) \<longleftrightarrow> 8192 < length x"
| "vol_bad (VPVCNamespace x) \<longleftrightarrow> 8192 < length x"
| "vol_bad (VPVName x) \<longleftrightarrow> 8192 < length x"
| "vol_bad _ \<longleftrightarrow> False"

section \<open>Snapshot builder\<close>

definition snapProps :: "(smap \<Rightarrow> smap) \<Rightarrow> ZFSSnapshot \<Rightarrow> ZFSSnapshot" where
  "snapProps f v = v\<lparr> SnapSpec := (SnapSpec v)\<lparr> UserProperties := f (UserProperties (SnapSpec v)) \<rparr> \<rparr>"

definition snap_NewBuilder :: "ZFSSnapshot Builder" where [builder_defs]:
  "snap_NewBuilder = newBuilder emptySnapshot"

definition snap_BuildFrom :: "ZFSSnapshot option \<Rightarrow> ZFSSnapshot Builder" where [builder_defs]:
  "snap_BuildFrom v = buildFrom ''failed to build snap object: nil snap'' emptySnapshot v"

definition snap_WithNamespace :: "string \<Rightarrow> ZFSSnapshot Builder \<Rightarrow> ZFSSnapshot Builder" where [builder_defs]:
  "snap_WithNamespace x b = nonEmpty ''failed to build csi snap object: missing namespace'' x
     (\<lambda>v. v\<lparr> Namespace := x \<rparr>) b"

definition snap_WithName :: "string \<Rightarrow> ZFSSnapshot Builder \<Rightarrow> ZFSSnapshot Builder" where [builder_defs]:
  "snap_WithName x b = nonEmpty ''failed to build csi snap object: missing name'' x
     (\<lambda>v. v\<lparr> Name := x \<rparr>) b"

definition snap_WithLabels :: "smap \<Rightarrow> ZFSSnapshot Builder \<Rightarrow> ZFSSnapshot Builder" where [builder_defs]:
  "snap_WithLabels labels b = withLabels labels b"

definition snap_WithFinalizer :: "string list \<Rightarrow> ZFSSnapshot Builder \<Rightarrow> ZFSSnapshot Builder" where [builder_defs]:
  "snap_WithFinalizer finalizer b = withFinalizer finalizer b"

definition snap_WithUserProperties :: "smap \<Rightarrow> ZFSSnapshot Builder \<Rightarrow> ZFSSnapshot Builder" where [builder_defs]:
  "snap_WithUserProperties props b = withUserProperties ''snapshot'' snapProps props b"

definition snap_WithReservedUserProp :: "string \<Rightarrow> string \<Rightarrow> ZFSSnapshot Builder \<Rightarrow> ZFSSnapshot Builder" where [builder_defs]:
  "snap_WithReservedUserProp name val b = withReservedUserProp ''snapshot'' snapProps name val b"

definition snap_WithVSName :: "string \<Rightarrow> ZFSSnapshot Builder \<Rightarrow> ZFSSnapshot Builder" where [builder_defs]:
  "snap_WithVSName x b = snap_WithReservedUserProp ''openebs.io:vs-name'' x b"

definition snap_WithVSNamespace :: "string \<Rightarrow> ZFSSnapshot Builder \<Rightarrow> ZFSSnapshot Builder" where [builder_defs]:
  "snap_WithVSNamespace x b = snap_WithReservedUserProp ''openebs.io:vs-namespace'' x b"

definition snap_WithVSCName :: "string \<Rightarrow> ZFSSnapshot Builder \<Rightarrow> ZFSSnapshot Builder" where [builder_defs]:
  "snap_WithVSCName x b = snap_WithReservedUserProp ''openebs.io:vsc-name'' x b"

datatype snap_call =
    SNamespace string
  | SName string
  | SLabels smap
  | SFinalizer "string list"
  | SUserProperties smap
  | SReservedUserProp string string
  | SVSName string
  | SVSNamespace string
  | SVSCName string

fun snap_with :: "snap_call \<Rightarrow> ZFSSnapshot Builder \<Rightarrow> ZFSSnapshot Builder" where
  "snap_with (SNamespace x) b = snap_WithNamespace x b"
| "snap_with (SName x) b = snap_WithName x b"
| "snap_with (SLabels labels) b = snap_WithLabels labels b"
| "snap_with (SFinalizer finalizer) b = snap_WithFinalizer finalizer b"
| "snap_with (SUserProperties props) b = snap_WithUserProperties props b"
| "snap_with (SReservedUserProp name val) b = snap_WithReservedUserProp name val b"
| "snap_with (SVSName x) b = snap_WithVSName x b"
| "snap_with (SVSNamespace x) b = snap_WithVSNamespace x b"
| "snap_with (SVSCName x) b = snap_WithVSCName x b"

text \<open>The calls that add an error.\<close>

fun snap_bad :: "snap_call \<Rightarrow> bool" where
  "snap_bad (SNamespace x) \<longleftrightarrow> x = []"
| "snap_bad (SName x) \<longleftrightarrow> x = []"
| "snap_bad (SUserProperties props) \<longleftrightarrow> \<not> acceptable props"
| "snap_bad (SReservedUserProp name val) \<longleftrightarrow> ValidateUserProperty name val \<noteq> None"
| "snap_bad (SVSName x) \<longleftrightarrow> 8192 < length x"
| "snap_bad (SVSNamespace x) \<longleftrightarrow> 8192 < length x"
| "snap_bad (SVSCName x) \<longleftrightarrow> 8192 < length x"
| "snap_bad _ \<longleftrightarrow> False"

section \<open>Backup builder\<close>

definition bkpUpd :: "(ZFSBackupSpec \<Rightarrow> ZFSBackupSpec) \<Rightarrow> ZFSBackup \<Rightarrow> ZFSBackup" where
  "bkpUpd f v = v\<lparr> BkpSpec := f (BkpSpec v) \<rparr>"

definition bkp_NewBuilder :: "ZFSBackup Builder" where [builder_defs]:
  "bkp_NewBuilder = newBuilder emptyBackup"

definition bkp_BuildFrom :: "ZFSBackup option \<Rightarrow> ZFSBackup Builder" where [builder_defs]:
  "bkp_BuildFrom v = buildFrom ''failed to build bkp object: nil bkp'' emptyBackup v"

definition bkp_WithNamespace :: "string \<Rightarrow> ZFSBackup Builder \<Rightarrow> ZFSBackup Builder" where [builder_defs]:
  "bkp_WithNamespace x b = nonEmpty ''failed to build csi bkp object: missing namespace'' x
     (\<lambda>v. v\<lparr> Namespace := x \<rparr>) b"

definition bkp_WithName :: "string \<Rightarrow> ZFSBackup Builder \<Rightarrow> ZFSBackup Builder" where [builder_defs]:
  "bkp_WithName x b = nonEmpty ''failed to build csi bkp object: missing name'' x
     (\<lambda>v. v\<lparr> Name := x \<rparr>) b"

definition bkp_WithPrevSnap :: "string \<Rightarrow> ZFSBackup Builder \<Rightarrow> ZFSBackup Builder" where [builder_defs]:
  "bkp_WithPrevSnap x b = setObj (bkpUpd (\<lambda>s. s\<lparr> PrevSnapName := x \<rparr>)) b"

definition bkp_WithSnap :: "string \<Rightarrow> ZFSBackup Builder \<Rightarrow> ZFSBackup Builder" where [builder_defs]:
  "bkp_WithSnap x b = setObj (bkpUpd (\<lambda>s. s\<lparr> BkpSnapName := x \<rparr>)) b"

definition bkp_WithVolume :: "string \<Rightarrow> ZFSBackup Builder \<Rightarrow> ZFSBackup Builder" where [builder_defs]:
  "bkp_WithVolume x b = nonEmpty ''failed to build csi bkp object: missing volume name'' x
     (bkpUpd (\<lambda>s. s\<lparr> BkpVolumeName := x \<rparr>)) b"

definition bkp_WithNode :: "string \<Rightarrow> ZFSBackup Builder \<Rightarrow> ZFSBackup Builder" where [builder_defs]:
  "bkp_WithNode x b = nonEmpty ''failed to build bkp object: missing node id'' x
     (bkpUpd (\<lambda>s. s\<lparr> BkpOwnerNodeID := x \<rparr>)) b"

definition bkp_WithStatus :: "string \<Rightarrow> ZFSBackup Builder \<Rightarrow> ZFSBackup Builder" where [builder_defs]:
  "bkp_WithStatus x b = nonEmpty ''failed to build bkp object: missing snap name'' x
     (\<lambda>v. v\<lparr> BkpStatus := x \<rparr>) b"

definition bkp_WithRemote :: "string \<Rightarrow> ZFSBackup Builder \<Rightarrow> ZFSBackup Builder" where [builder_defs]:
  "bkp_WithRemote x b = nonEmpty ''failed to build bkp object: missing remote'' x
     (bkpUpd (\<lambda>s. s\<lparr> BackupDest := x \<rparr>)) b"

definition bkp_WithLabels :: "smap \<Rightarrow> ZFSBackup Builder \<Rightarrow> ZFSBackup Builder" where [builder_defs]:
  "bkp_WithLabels labels b = withLabels labels b"

definition bkp_WithFinalizer :: "string list \<Rightarrow> ZFSBackup Builder \<Rightarrow> ZFSBackup Builder" where [builder_defs]:
  "bkp_WithFinalizer finalizer b = withFinalizer finalizer b"

datatype bkp_call =
    BNamespace string
  | BName string
  | BPrevSnap string
  | BSnap string
  | BVolume string
  | BNode string
  | BStatus string
  | BRemote string
  | BLabels smap
  | BFinalizer "string list"

fun bkp_with :: "bkp_call \<Rightarrow> ZFSBackup Builder \<Rightarrow> ZFSBackup Builder" where
  "bkp_with (BNamespace x) b = bkp_WithNamespace x b"
| "bkp_with (BName x) b = bkp_WithName x b"
| "bkp_with (BPrevSnap x) b = bkp_WithPrevSnap x b"
| "bkp_with (BSnap x) b = bkp_WithSnap x b"
| "bkp_with (BVolume x) b = bkp_WithVolume x b"
| "bkp_with (BNode x) b = bkp_WithNode x b"
| "bkp_with (BStatus x) b = bkp_WithStatus x b"
| "bkp_with (BRemote x) b = bkp_WithRemote x b"
| "bkp_with (BLabels labels) b = bkp_WithLabels labels b"
| "bkp_with (BFinalizer finalizer) b = bkp_WithFinalizer finalizer b"

text \<open>The calls that add an error.\<close>

fun bkp_bad :: "bkp_call \<Rightarrow> bool" where
  "bkp_bad (BNamespace x) \<longleftrightarrow> x = []"
| "bkp_bad (BName x) \<longleftrightarrow> x = []"
| "bkp_bad (BVolume x) \<longleftrightarrow> x = []"
| "bkp_bad (BNode x) \<longleftrightarrow> x = []"
| "bkp_bad (BStatus x) \<longleftrightarrow> x = []"
| "bkp_bad (BRemote x) \<longleftrightarrow> x = []"
| "bkp_bad _ \<longleftrightarrow> False"

section \<open>Restore builder\<close>

definition rstrUpd :: "(ZFSRestoreSpec \<Rightarrow> ZFSRestoreSpec) \<Rightarrow> ZFSRestore \<Rightarrow> ZFSRestore" where
  "rstrUpd f v = v\<lparr> RstrSpec := f (RstrSpec v) \<rparr>"

definition rstr_NewBuilder :: "ZFSRestore Builder" where [builder_defs]:
  "rstr_NewBuilder = newBuilder emptyRestore"

definition rstr_BuildFrom :: "ZFSRestore option \<Rightarrow> ZFSRestore Builder" where [builder_defs]:
  "rstr_BuildFrom v = buildFrom ''failed to build rstr object: nil rstr'' emptyRestore v"

definition rstr_WithNamespace :: "string \<Rightarrow> ZFSRestore Builder \<Rightarrow> ZFSRestore Builder" where [builder_defs]:
  "rstr_WithNamespace x b = nonEmpty ''failed to build csi rstr object: missing namespace'' x
     (\<lambda>v. v\<lparr> Namespace := x \<rparr>) b"

definition rstr_WithName :: "string \<Rightarrow> ZFSRestore Builder \<Rightarrow> ZFSRestore Builder" where [builder_defs]:
  "rstr_WithName x b = nonEmpty ''failed to build csi rstr object: missing name'' x
     (\<lambda>v. v\<lparr> Name := x \<rparr>) b"

definition rstr_WithVolume :: "string \<Rightarrow> ZFSRestore Builder \<Rightarrow> ZFSRestore Builder" where [builder_defs]:
  "rstr_WithVolume x b = nonEmpty ''failed to build csi rstr object: missing volume name'' x
     (rstrUpd (\<lambda>s. s\<lparr> RstrVolumeName := x \<rparr>)) b"

definition rstr_WithVolSpec :: "VolumeInfo \<Rightarrow> ZFSRestore Builder \<Rightarrow> ZFSRestore Builder" where [builder_defs]:
  "rstr_WithVolSpec vspec b = setObj (\<lambda>v. v\<lparr> VolSpec := vspec \<rparr>) b"

definition rstr_WithNode :: "string \<Rightarrow> ZFSRestore Builder \<Rightarrow> ZFSRestore Builder" where [builder_defs]:
  "rstr_WithNode x b = nonEmpty ''failed to build csi rstr object: missing node name'' x
     (rstrUpd (\<lambda>s. s\<lparr> RstrOwnerNodeID := x \<rparr>)) b"

definition rstr_WithStatus :: "string \<Rightarrow> ZFSRestore Builder \<Rightarrow> ZFSRestore Builder" where [builder_defs]:
  "rstr_WithStatus x b = setObj (\<lambda>v. v\<lparr> RstrStatus := x \<rparr>) b"

definition rstr_WithRemote :: "string \<Rightarrow> ZFSRestore Builder \<Rightarrow> ZFSRestore Builder" where [builder_defs]:
  "rstr_WithRemote x b = nonEmpty ''failed to build csi rstr object: missing node name'' x
     (rstrUpd (\<lambda>s. s\<lparr> RestoreSrc := x \<rparr>)) b"

definition rstr_WithLabels :: "smap \<Rightarrow> ZFSRestore Builder \<Rightarrow> ZFSRestore Builder" where [builder_defs]:
  "rstr_WithLabels labels b = withLabels labels b"

definition rstr_WithFinalizer :: "string list \<Rightarrow> ZFSRestore Builder \<Rightarrow> ZFSRestore Builder" where [builder_defs]:
  "rstr_WithFinalizer finalizer b = withFinalizer finalizer b"

datatype rstr_call =
    RNamespace string
  | RName string
  | RVolume string
  | RVolSpec VolumeInfo
  | RNode string
  | RStatus string
  | RRemote string
  | RLabels smap
  | RFinalizer "string list"

fun rstr_with :: "rstr_call \<Rightarrow> ZFSRestore Builder \<Rightarrow> ZFSRestore Builder" where
  "rstr_with (RNamespace x) b = rstr_WithNamespace x b"
| "rstr_with (RName x) b = rstr_WithName x b"
| "rstr_with (RVolume x) b = rstr_WithVolume x b"
| "rstr_with (RVolSpec vspec) b = rstr_WithVolSpec vspec b"
| "rstr_with (RNode x) b = rstr_WithNode x b"
| "rstr_with (RStatus x) b = rstr_WithStatus x b"
| "rstr_with (RRemote x) b = rstr_WithRemote x b"
| "rstr_with (RLabels labels) b = rstr_WithLabels labels b"
| "rstr_with (RFinalizer finalizer) b = rstr_WithFinalizer finalizer b"

text \<open>The calls that add an error.\<close>

fun rstr_bad :: "rstr_call \<Rightarrow> bool" where
  "rstr_bad (RNamespace x) \<longleftrightarrow> x = []"
| "rstr_bad (RName x) \<longleftrightarrow> x = []"
| "rstr_bad (RVolume x) \<longleftrightarrow> x = []"
| "rstr_bad (RNode x) \<longleftrightarrow> x = []"
| "rstr_bad (RRemote x) \<longleftrightarrow> x = []"
| "rstr_bad _ \<longleftrightarrow> False"

section \<open>Node builder\<close>

definition node_NewBuilder :: "ZFSNode Builder" where [builder_defs]:
  "node_NewBuilder = newBuilder emptyNode"

definition node_BuildFrom :: "ZFSNode option \<Rightarrow> ZFSNode Builder" where [builder_defs]:
  "node_BuildFrom v = buildFrom ''failed to build zfs node object: nil node'' emptyNode v"

definition node_WithNamespace :: "string \<Rightarrow> ZFSNode Builder \<Rightarrow> ZFSNode Builder" where [builder_defs]:
  "node_WithNamespace x b = nonEmpty ''failed to build zfs node object: missing namespace'' x
     (\<lambda>v. v\<lparr> Namespace := x \<rparr>) b"

definition node_WithName :: "string \<Rightarrow> ZFSNode Builder \<Rightarrow> ZFSNode Builder" where [builder_defs]:
  "node_WithName x b = nonEmpty ''failed to build zfs node object: missing name'' x
     (\<lambda>v. v\<lparr> Name := x \<rparr>) b"

definition node_WithPools :: "Pool list \<Rightarrow> ZFSNode Builder \<Rightarrow> ZFSNode Builder" where [builder_defs]:
  "node_WithPools pools b = setObj (\<lambda>v. v\<lparr> Pools := pools \<rparr>) b"

definition node_WithOwnerReferences :: "OwnerReference list \<Rightarrow> ZFSNode Builder \<Rightarrow> ZFSNode Builder" where [builder_defs]:
  "node_WithOwnerReferences refs b = setObj (\<lambda>v. v\<lparr> OwnerReferences := refs \<rparr>) b"

datatype node_call =
    NNamespace string
  | NName string
  | NPools "Pool list"
  | NOwnerReferences "OwnerReference list"

fun node_with :: "node_call \<Rightarrow> ZFSNode Builder \<Rightarrow> ZFSNode Builder" where
  "node_with (NNamespace x) b = node_WithNamespace x b"
| "node_with (NName x) b = node_WithName x b"
| "node_with (NPools pools) b = node_WithPools pools b"
| "node_with (NOwnerReferences refs) b = node_WithOwnerReferences refs b"

text \<open>The calls that add an error.\<close>

fun node_bad :: "node_call \<Rightarrow> bool" where
  "node_bad (NNamespace x) \<longleftrightarrow> x = []"
| "node_bad (NName x) \<longleftrightarrow> x = []"
| "node_bad _ \<longleftrightarrow> False"

section \<open>The contract of a builder\<close>

lemma errs_addErr [simp]: "errs (addErr e b) = errs b @ [e]"
  by (simp add: addErr_def)

lemma object_addErr [simp]: "object (addErr e b) = object b"
  by (simp add: addErr_def)

lemma errs_setObj [simp]: "errs (setObj f b) = errs b"
  by (simp add: setObj_def)

lemma object_setObj [simp]: "object (setObj f b) = f (object b)"
  by (simp add: setObj_def)

lemma errs_newBuilder [simp]: "errs (newBuilder x) = []"
  by (simp add: newBuilder_def)

lemma object_newBuilder [simp]: "object (newBuilder x) = x"
  by (simp add: newBuilder_def)

lemma errs_nonEmpty [simp]: "errs (nonEmpty msg v f b) = (if v = [] then errs b @ [EText msg] else errs b)"
  by (simp add: nonEmpty_def)

lemma errs_withLabels [simp]: "errs (withLabels ls b) = errs b"
  by (simp add: withLabels_def)

lemma errs_withFinalizer [simp]: "errs (withFinalizer fs b) = errs b"
  by (simp add: withFinalizer_def)

text \<open>
  A bad call adds at least one error, a good one adds none.
\<close>

locale builder =
  fixes call :: "'c \<Rightarrow> 'o Builder \<Rightarrow> 'o Builder"
    and bad :: "'c \<Rightarrow> bool"
  assumes bad_call: "bad c \<Longrightarrow> \<exists>e es. errs (call c b) = errs b @ e # es"
    and good_call: "\<not> bad c \<Longrightarrow> errs (call c b) = errs b"
begin

lemma call_grows: "prefix (errs b) (errs (call c b))"
proof (cases "bad c")
  case True
  then obtain e es where "errs (call c b) = errs b @ e # es" using bad_call by blast
  then show ?thesis by simp
qed (simp add: good_call)

lemma chain_grows: "prefix (errs b) (errs (fold call cs b))"
  by (induction cs arbitrary: b) (auto intro: prefix_order.trans [OF call_grows])

lemma chain_errs_Nil: "errs (fold call cs b) = [] \<longleftrightarrow> errs b = [] \<and> list_all (\<lambda>c. \<not> bad c) cs"
proof (induction cs arbitrary: b)
  case (Cons c cs)
  have "errs (call c b) = [] \<longleftrightarrow> errs b = [] \<and> \<not> bad c"
    using bad_call [of c b] good_call [of c b] by (cases "bad c") auto
  with Cons.IH [of "call c b"] show ?case by auto
qed simp

lemma build_iff:
  "(\<exists>x. Build (fold call cs b) = Inr x) \<longleftrightarrow> errs b = [] \<and> list_all (\<lambda>c. \<not> bad c) cs"
  unfolding Build_def chain_errs_Nil [symmetric] by simp

lemma build_object: "Build (fold call cs b) = Inr x \<Longrightarrow> x = object (fold call cs b)"
  by (simp add: Build_def split: if_splits)

lemma build_error: "Build (fold call cs b) = Inl e \<Longrightarrow> \<exists>es. e = EErrs (errs b @ es) \<and> errs b @ es \<noteq> []"
  using chain_grows [of b cs] by (auto simp: Build_def prefix_def split: if_splits)

end

subsection \<open>User properties\<close>

lemma userProp_errs:
  "(\<exists>e. errs (userProp kind upd nv b) = errs b @ [e]) \<or>
   errs (userProp kind upd nv b) = errs b \<and> ValidateUserProperty (fst nv) (snd nv) = None
     \<and> \<not> HasPrefix (fst nv) ''openebs.io:''"
  by (auto simp: userProp_def split: option.splits)

lemma userProp_good:
  assumes "ValidateUserProperty (fst nv) (snd nv) = None" and "\<not> HasPrefix (fst nv) ''openebs.io:''"
  shows "userProp kind upd nv b = setObj (upd (AList.update (fst nv) (snd nv))) b"
  using assms by (simp add: userProp_def)

lemma userProp_bad:
  assumes "\<not> (ValidateUserProperty (fst nv) (snd nv) = None \<and> \<not> HasPrefix (fst nv) ''openebs.io:'')"
  shows "\<exists>e. errs (userProp kind upd nv b) = errs b @ [e]"
  using assms by (auto simp: userProp_def split: option.splits)

lemma withUserProperties_grows: "prefix (errs b) (errs (withUserProperties kind upd ps b))"
  unfolding withUserProperties_def
proof (induction ps arbitrary: b)
  case (Cons p ps)
  have "prefix (errs b) (errs (userProp kind upd p b))"
    using userProp_errs [of kind upd p b] by auto
  with Cons.IH [of "userProp kind upd p b"] show ?case by (auto intro: prefix_order.trans)
qed simp

lemma withUserProperties_errs: "errs (withUserProperties kind upd ps b) = errs b \<longleftrightarrow> acceptable ps"
proof (induction ps arbitrary: b)
  case Nil
  show ?case by (simp add: withUserProperties_def acceptable_def)
next
  case (Cons p ps)
  let ?b = "userProp kind upd p b"
  have step: "withUserProperties kind upd (p # ps) b = withUserProperties kind upd ps ?b"
    by (simp add: withUserProperties_def)
  have grows: "prefix (errs ?b) (errs (withUserProperties kind upd ps ?b))"
    by (rule withUserProperties_grows)
  have ok: "ValidateUserProperty (fst p) (snd p) = None \<and> \<not> HasPrefix (fst p) ''openebs.io:''
      \<Longrightarrow> errs ?b = errs b" by (simp add: userProp_good)
  have acc: "acceptable (p # ps) \<longleftrightarrow> (ValidateUserProperty (fst p) (snd p) = None
      \<and> \<not> HasPrefix (fst p) ''openebs.io:'') \<and> acceptable ps"
    by (simp add: acceptable_def case_prod_beta)
  show ?case
  proof (cases "ValidateUserProperty (fst p) (snd p) = None \<and> \<not> HasPrefix (fst p) ''openebs.io:''")
    case True
    with Cons.IH [of ?b] ok step acc show ?thesis by simp
  next
    case False
    with userProp_bad obtain e where e: "errs ?b = errs b @ [e]" by blast
    then have "errs (withUserProperties kind upd (p # ps) b) \<noteq> errs b"
      using grows step by (auto simp: prefix_def)
    with False acc show ?thesis by blast
  qed
qed

lemma withUserProperties_bad:
  assumes "\<not> acceptable ps"
  shows "\<exists>e es. errs (withUserProperties kind upd ps b) = errs b @ e # es"
proof -
  obtain es where es: "errs (withUserProperties kind upd ps b) = errs b @ es"
    using withUserProperties_grows [of b kind upd ps] by (auto simp: prefix_def)
  then have "es \<noteq> []" using withUserProperties_errs [of kind upd ps b] assms by auto
  with es show ?thesis by (cases es) auto
qed

lemma withReservedUserProp_errs:
  "errs (withReservedUserProp kind upd n v b) =
     (case ValidateUserProperty n v of None \<Rightarrow> errs b
      | Some e \<Rightarrow> errs b @ [EWrap (''failed to build zfs '' @ kind @ '' object: invalid user property'') e])"
  by (simp add: withReservedUserProp_def split: option.split)

lemma reserved_names:
  "ValidateUserProperty ''openebs.io:pvc-name'' x = None \<longleftrightarrow> length x \<le> 8192"
  "ValidateUserProperty ''openebs.io:pvc-namespace'' x = None \<longleftrightarrow> length x \<le> 8192"
  "ValidateUserProperty ''openebs.io:pv-name'' x = None \<longleftrightarrow> length x \<le> 8192"
  "ValidateUserProperty ''openebs.io:vs-name'' x = None \<longleftrightarrow> length x \<le> 8192"
  "ValidateUserProperty ''openebs.io:vs-namespace'' x = None \<longleftrightarrow> length x \<le> 8192"
  "ValidateUserProperty ''openebs.io:vsc-name'' x = None \<longleftrightarrow> length x \<le> 8192"
  by (simp_all add: ValidateUserProperty_None_iff userPropByte_def)

lemma withReserved_bad:
  "ValidateUserProperty n v \<noteq> None \<Longrightarrow> \<exists>e es. errs (withReservedUserProp kind upd n v b) = errs b @ e # es"
  by (auto simp: withReservedUserProp_errs)

lemma withReserved_good:
  "ValidateUserProperty n v = None \<Longrightarrow> errs (withReservedUserProp kind upd n v b) = errs b"
  by (simp add: withReservedUserProp_errs)

lemmas reserved_iff = reserved_names [THEN arg_cong [where f = Not], unfolded not_le not_None_eq]

section \<open>Each package's builder satisfies it\<close>

interpretation vb: builder vol_with vol_bad
proof
  fix c and b :: "ZFSVolume Builder"
  show "vol_bad c \<Longrightarrow> \<exists>e es. errs (vol_with c b) = errs b @ e # es"
    by (cases c) (auto simp: builder_defs withUserProperties_bad reserved_iff intro!: withReserved_bad)
  show "\<not> vol_bad c \<Longrightarrow> errs (vol_with c b) = errs b"
    by (cases c) (auto simp: builder_defs withUserProperties_errs reserved_names not_less intro!: withReserved_good)
qed

interpretation sb: builder snap_with snap_bad
proof
  fix c and b :: "ZFSSnapshot Builder"
  show "snap_bad c \<Longrightarrow> \<exists>e es. errs (snap_with c b) = errs b @ e # es"
    by (cases c) (auto simp: builder_defs withUserProperties_bad reserved_iff intro!: withReserved_bad)
  show "\<not> snap_bad c \<Longrightarrow> errs (snap_with c b) = errs b"
    by (cases c) (auto simp: builder_defs withUserProperties_errs reserved_names not_less intro!: withReserved_good)
qed

interpretation bb: builder bkp_with bkp_bad
proof
  fix c and b :: "ZFSBackup Builder"
  show "bkp_bad c \<Longrightarrow> \<exists>e es. errs (bkp_with c b) = errs b @ e # es"
    by (cases c) (auto simp: builder_defs)
  show "\<not> bkp_bad c \<Longrightarrow> errs (bkp_with c b) = errs b"
    by (cases c) (auto simp: builder_defs)
qed

interpretation rb: builder rstr_with rstr_bad
proof
  fix c and b :: "ZFSRestore Builder"
  show "rstr_bad c \<Longrightarrow> \<exists>e es. errs (rstr_with c b) = errs b @ e # es"
    by (cases c) (auto simp: builder_defs)
  show "\<not> rstr_bad c \<Longrightarrow> errs (rstr_with c b) = errs b"
    by (cases c) (auto simp: builder_defs)
qed

interpretation nb: builder node_with node_bad
proof
  fix c and b :: "ZFSNode Builder"
  show "node_bad c \<Longrightarrow> \<exists>e es. errs (node_with c b) = errs b @ e # es"
    by (cases c) (auto simp: builder_defs)
  show "\<not> node_bad c \<Longrightarrow> errs (node_with c b) = errs b"
    by (cases c) (auto simp: builder_defs)
qed

end
