(* ===== verification/Volume.thy ===== *)
theory Volume
  imports Kubeclient Builders
begin

text \<open>
  \<open>pkg/zfs/volume.go\<close>: what the driver does to the custom resources. The controller creates,
  resizes, annotates and deletes them and waits for the node agent; the node agent writes back
  their state, their node label and its finalizer.

  \<open>checkVolCreation\<close> polls until the volume is ready or failed, its context ends or ten seconds
  pass. The model takes at most \<open>polls E\<close> turns; a run that needs more has not returned.
\<close>

section \<open>Definitions\<close>

definition errOf :: "gerror + 'x \<Rightarrow> gerror option" where
  "errOf r = (case r of Inl e \<Rightarrow> Some e | Inr _ \<Rightarrow> None)"

definition putVol :: "env \<Rightarrow> ZFSVolume \<Rightarrow> gerror option go" where
  "putVol E vol = goBind (asOwn E (vol_Update E (Some vol))) (\<lambda>r. goRet (errOf r))"

definition putSnap :: "env \<Rightarrow> ZFSSnapshot \<Rightarrow> gerror option go" where
  "putSnap E snap = goBind (asOwn E (snap_Update E (Some snap))) (\<lambda>r. goRet (errOf r))"

definition putBkp :: "env \<Rightarrow> ZFSBackup \<Rightarrow> gerror option go" where
  "putBkp E bkp = goBind (asOwn E (bkp_Update E (Some bkp))) (\<lambda>r. goRet (errOf r))"

definition putRstr :: "env \<Rightarrow> ZFSRestore \<Rightarrow> gerror option go" where
  "putRstr E rstr = goBind (asOwn E (rstr_Update E (Some rstr))) (\<lambda>r. goRet (errOf r))"

definition GetNodeID :: "env \<Rightarrow> string \<Rightarrow> (gerror + string) go" where
  "GetNodeID E nodename =
     goBind (goCall (\<lambda>h. getNode (cluster E) h nodename) (EvGetNode nodename))
       (\<lambda>r. case r of
          Inl e \<Rightarrow> goRet (Inl (EFmt (''failed to get the node '' @ nodename @ '': '') (extErr e)))
        | Inr labels \<Rightarrow> goRet (Inr (case map_of labels ZFSTopologyKey of
                                      None \<Rightarrow> nodename | Some nodeid \<Rightarrow> nodeid)))"

definition GetZFSVolume :: "env \<Rightarrow> string \<Rightarrow> (gerror + ZFSVolume) go" where
  "GetZFSVolume E volumeID = asOwn E (vol_Get E volumeID)"

fun checkVolLoop :: "nat \<Rightarrow> env \<Rightarrow> string \<Rightarrow> (bool \<times> gerror option) go" where
  "checkVolLoop 0 E volname = goStop (EvWait ''volume creation'')"
| "checkVolLoop (Suc n) E volname =
     goBind (goSelect E ''volume creation'') (\<lambda>c. case c of
       CtxDone \<Rightarrow> goRet (True, Some (EStatus DeadlineExceeded
         (''volume '' @ volname @ '' creation: context deadline reached'')))
     | TimedOut \<Rightarrow> goRet (True, Some (EStatus DeadlineExceeded
         (''volume '' @ volname @ '' creation timed out'')))
     | Default \<Rightarrow> goBind (GetZFSVolume E volname) (\<lambda>r. case r of
           Inl e \<Rightarrow> goRet (False, Some (EStatus Internal
             (''volume creation wait failed, not able to get the volume '' @ volname @ '': ''
              @ errText (lib E) e)))
         | Inr vol \<Rightarrow>
             if State vol = ZFSStatusReady then goRet (False, None)
             else if State vol = ZFSStatusFailed
               then goRet (False, Some (EStatus Internal
                 (''volume '' @ volname @ '' creation failed on node '' @ OwnerNodeID (Spec vol))))
             else checkVolLoop n E volname))"

definition checkVolCreation :: "env \<Rightarrow> string \<Rightarrow> (bool \<times> gerror option) go" where
  "checkVolCreation E volname = checkVolLoop (polls E) E volname"

definition ProvisionVolume :: "env \<Rightarrow> ZFSVolume \<Rightarrow> (bool \<times> gerror option) go" where
  "ProvisionVolume E vol =
     goBind (GetZFSVolume E (Name vol)) (\<lambda>r.
     goBind (case r of
               Inr zv \<Rightarrow> putVol E (zv\<lparr> Spec := Spec vol, State := State vol \<rparr>)
             | Inl _ \<Rightarrow> goBind (asOwn E (vol_Create E (Some vol))) (\<lambda>r. goRet (errOf r)))
       (\<lambda>err. case err of
          None \<Rightarrow> checkVolCreation E (Name vol)
        | Some e \<Rightarrow> goRet (False, Some e)))"

definition ResizeVolume :: "env \<Rightarrow> ZFSVolume \<Rightarrow> int64 \<Rightarrow> gerror option go" where
  "ResizeVolume E vol newSize =
     putVol E (vol\<lparr> Spec := (Spec vol)\<lparr> Capacity := FormatInt newSize \<rparr> \<rparr>)"

definition ProvisionSnapshot :: "env \<Rightarrow> ZFSSnapshot \<Rightarrow> gerror option go" where
  "ProvisionSnapshot E snap = goBind (asOwn E (snap_Create E (Some snap))) (\<lambda>r. goRet (errOf r))"

definition zfs_DeleteSnapshot :: "env \<Rightarrow> string \<Rightarrow> gerror option go" where
  "zfs_DeleteSnapshot E snapname = asOwn E (snap_Delete E snapname)"

definition zfs_DeleteVolume :: "env \<Rightarrow> string \<Rightarrow> gerror option go" where
  "zfs_DeleteVolume E volumeID = asOwn E (vol_Delete E volumeID)"

definition GetVolList :: "env \<Rightarrow> string \<Rightarrow> (gerror + ZFSVolume list) go" where
  "GetVolList E volumeID = asOwn E (vol_List E (ZFSNodeKey @ ''='' @ NodeID E))"

definition UpdateZFSVolumeAnnotation :: "env \<Rightarrow> ZFSVolume \<Rightarrow> gerror option go" where
  "UpdateZFSVolumeAnnotation E vol =
     (case Build (vol_WithAnnotation (vol_BuildFrom (Some vol))) of
        Inl e \<Rightarrow> goRet (Some e)
      | Inr newVol \<Rightarrow> putVol E newVol)"

definition GetZFSVolumeState :: "env \<Rightarrow> string \<Rightarrow> (gerror + string \<times> string) go" where
  "GetZFSVolumeState E volID =
     goBind (asOwn E (vol_Get E volID)) (\<lambda>r. case r of
       Inl e \<Rightarrow> goRet (Inl e)
     | Inr vol \<Rightarrow> goRet (Inr (OwnerNodeID (Spec vol), State vol)))"

definition UpdateZvolInfo :: "env \<Rightarrow> ZFSVolume \<Rightarrow> string \<Rightarrow> gerror option go" where
  "UpdateZvolInfo E vol status =
     (let finalizers = (if status = ZFSStatusReady then [ZFSFinalizer] else []);
          labels = [(ZFSNodeKey, NodeID E)]
      in case Build (vol_WithLabels labels (vol_WithVolumeStatus status
                       (vol_WithFinalizer finalizers (vol_BuildFrom (Some vol))))) of
           Inl e \<Rightarrow> goRet (Some e)
         | Inr newVol \<Rightarrow> putVol E newVol)"

definition RemoveVolumeFinalizer :: "env \<Rightarrow> ZFSVolume \<Rightarrow> gerror option go" where
  "RemoveVolumeFinalizer E vol = putVol E (vol\<lparr> Finalizers := [] \<rparr>)"

definition GetZFSSnapshot :: "env \<Rightarrow> string \<Rightarrow> (gerror + ZFSSnapshot) go" where
  "GetZFSSnapshot E snapID = asOwn E (snap_Get E snapID)"

text \<open>
  The error path reads \<open>snap.Name\<close>. An error of the API server comes with an object, so the read is
  safe; an error of the client itself (no clientset, or an empty name) comes with a nil pointer.
\<close>

definition GetZFSSnapshotStatus :: "env \<Rightarrow> string \<Rightarrow> (gerror + string) go" where
  "GetZFSSnapshotStatus E snapID =
     goBind (asOwn E (snap_Get E snapID)) (\<lambda>r. case r of
       Inl e \<Rightarrow> (case e of
                   EApi nf t \<Rightarrow> goRet (Inl e)
                 | _ \<Rightarrow> goPanic ''nil pointer dereference'')
     | Inr snap \<Rightarrow> goRet (Inr (SnapState snap)))"

definition GetZFSSnapshotCapacity :: "ZFSSnapshot option \<Rightarrow> gerror + int64" where
  "GetZFSSnapshotCapacity snap =
     (case snap of
        None \<Rightarrow> Inl (EText ''expect non-nil snapshot'')
      | Some s \<Rightarrow>
          if Capacity (SnapSpec s) = [] then Inr 0
          else case ParseInt (Capacity (SnapSpec s)) of
                 None \<Rightarrow> Inl (EText (''convert '' @ Capacity (SnapSpec s) @ '' to integer failed''))
               | Some c \<Rightarrow> Inr c)"

definition UpdateSnapInfo :: "env \<Rightarrow> ZFSSnapshot \<Rightarrow> gerror option go" where
  "UpdateSnapInfo E snap =
     (case Build (snap_WithLabels [(ZFSNodeKey, NodeID E)]
                   (snap_WithFinalizer [ZFSFinalizer] (snap_BuildFrom (Some snap)))) of
        Inl e \<Rightarrow> goPanic ''nil pointer dereference''
      | Inr newSnap \<Rightarrow> putSnap E (newSnap\<lparr> SnapState := ZFSStatusReady \<rparr>))"

definition RemoveSnapFinalizer :: "env \<Rightarrow> ZFSSnapshot \<Rightarrow> gerror option go" where
  "RemoveSnapFinalizer E snap = putSnap E (snap\<lparr> Finalizers := [] \<rparr>)"

definition RemoveBkpFinalizer :: "env \<Rightarrow> ZFSBackup \<Rightarrow> gerror option go" where
  "RemoveBkpFinalizer E bkp = putBkp E (bkp\<lparr> Finalizers := [] \<rparr>)"

definition UpdateBkpInfo :: "env \<Rightarrow> ZFSBackup \<Rightarrow> string \<Rightarrow> gerror option go" where
  "UpdateBkpInfo E bkp status =
     (case Build (bkp_WithFinalizer [ZFSFinalizer] (bkp_BuildFrom (Some bkp))) of
        Inl e \<Rightarrow> goPanic ''nil pointer dereference''
      | Inr newBkp \<Rightarrow> putBkp E (newBkp\<lparr> BkpStatus := status \<rparr>))"

definition UpdateRestoreInfo :: "env \<Rightarrow> ZFSRestore \<Rightarrow> string \<Rightarrow> gerror option go" where
  "UpdateRestoreInfo E rstr status =
     (case Build (rstr_BuildFrom (Some rstr)) of
        Inl e \<Rightarrow> goPanic ''nil pointer dereference''
      | Inr newRstr \<Rightarrow> putRstr E (newRstr\<lparr> RstrStatus := status \<rparr>))"

fun GetUserFinalizers :: "string list \<Rightarrow> string list" where
  "GetUserFinalizers [] = []"
| "GetUserFinalizers (fin # fins) =
     (if fin \<noteq> ZFSFinalizer \<and> fin \<noteq> ''foregroundDeletion'' then fin # GetUserFinalizers fins
      else GetUserFinalizers fins)"

definition IsVolumeReady :: "ZFSVolume \<Rightarrow> bool" where
  "IsVolumeReady vol =
     (if State vol \<noteq> [] then State vol = ZFSStatusReady
      else list_ex (\<lambda>fin. fin = ZFSFinalizer) (Finalizers vol))"

definition GetSnapshotForVolume :: "env \<Rightarrow> string \<Rightarrow> (gerror + ZFSSnapshot list) go" where
  "GetSnapshotForVolume E volumeID = asOwn E (snap_List E (ZFSVolKey @ ''='' @ volumeID))"

definition MarkForDeletion :: "env \<Rightarrow> string \<Rightarrow> gerror option go" where
  "MarkForDeletion E volumeName =
     goBind (GetZFSVolume E volumeName) (\<lambda>r. case r of
       Inl e \<Rightarrow> goRet (Some e)
     | Inr zv \<Rightarrow> goBind (UpdateZFSVolumeAnnotation E zv) (\<lambda>err. case err of
         Some e \<Rightarrow> goRet (Some e) | None \<Rightarrow> goRet None))"

definition IsVolumeEligibleForDeletion :: "env \<Rightarrow> string \<Rightarrow> (gerror + bool) go" where
  "IsVolumeEligibleForDeletion E volumeName =
     goBind (GetZFSVolume E volumeName) (\<lambda>r. case r of
       Inl e \<Rightarrow> goRet (Inl (EStatus Internal
         (''failed to get ZFSVolume '' @ volumeName @ '': '' @ errText (lib E) e)))
     | Inr zv \<Rightarrow> goRet (Inr (mget (Annotations zv) MarkForDeletionAnnotation = ''true'')))"

section \<open>Rules\<close>

text \<open>The updates these functions send, and what else they may do.\<close>

fun volUpdates :: "event list \<Rightarrow> ZFSVolume list" where
  "volUpdates [] = []"
| "volUpdates (EvVol (KUpdate _ v _) # h) = v # volUpdates h"
| "volUpdates (_ # h) = volUpdates h"

text \<open>What the node agent writes back is the given object with these changes.\<close>

definition markedVol :: "env \<Rightarrow> ZFSVolume \<Rightarrow> string \<Rightarrow> ZFSVolume" where
  "markedVol E vol status = vol\<lparr> Finalizers := Finalizers vol @ (if status = ZFSStatusReady then [ZFSFinalizer] else []),
     State := status, Labels := AList.update ZFSNodeKey (NodeID E) (Labels vol) \<rparr>"

lemma only_GetZFSVolume [only_rules]:
  "(\<And>p r. P (EvClientset p r)) \<Longrightarrow> (\<And>ns r. name \<noteq> [] \<Longrightarrow> P (EvVol (KGet ns name r))) \<Longrightarrow>
   only P (GetZFSVolume E name)"
  unfolding GetZFSVolume_def by (intro only_rules)

lemma only_putVol [only_rules]:
  "(\<And>p r. P (EvClientset p r)) \<Longrightarrow> (\<And>ns r. P (EvVol (KUpdate ns v r))) \<Longrightarrow> only P (putVol E v)"
  unfolding putVol_def by (intro only_rules) auto

lemma only_putSnap [only_rules]:
  "(\<And>p r. P (EvClientset p r)) \<Longrightarrow> (\<And>ns r. P (EvSnap (KUpdate ns v r))) \<Longrightarrow> only P (putSnap E v)"
  unfolding putSnap_def by (intro only_rules) auto

lemma only_putBkp [only_rules]:
  "(\<And>p r. P (EvClientset p r)) \<Longrightarrow> (\<And>ns r. P (EvBkp (KUpdate ns v r))) \<Longrightarrow> only P (putBkp E v)"
  unfolding putBkp_def by (intro only_rules) auto

lemma only_putRstr [only_rules]:
  "(\<And>p r. P (EvClientset p r)) \<Longrightarrow> (\<And>ns r. P (EvRstr (KUpdate ns v r))) \<Longrightarrow> only P (putRstr E v)"
  unfolding putRstr_def by (intro only_rules) auto

lemma returns_GetZFSVolume [returns_rules]: "always_returns (GetZFSVolume E name)"
  unfolding GetZFSVolume_def by (intro returns_rules)

lemma returns_updates [returns_rules]:
  "always_returns (putVol E v)" "always_returns (putSnap E s)"
  "always_returns (putBkp E b)" "always_returns (putRstr E r)"
  unfolding putVol_def putSnap_def putBkp_def putRstr_def by (intro returns_rules)+

lemma UpdateZvolInfo_eq: "UpdateZvolInfo E vol status = putVol E (markedVol E vol status)"
  by (simp add: UpdateZvolInfo_def Let_def builder_defs buildFrom_def Build_def withLabels_def
        withFinalizer_def mergeMap_def newBuilder_def setObj_def markedVol_def)

lemma UpdateSnapInfo_eq:
  "UpdateSnapInfo E snap = putSnap E (snap\<lparr> Finalizers := Finalizers snap @ [ZFSFinalizer],
     Labels := AList.update ZFSNodeKey (NodeID E) (Labels snap), SnapState := ZFSStatusReady \<rparr>)"
  by (simp add: UpdateSnapInfo_def builder_defs buildFrom_def Build_def withLabels_def
        withFinalizer_def mergeMap_def newBuilder_def setObj_def)

lemma UpdateBkpInfo_eq:
  "UpdateBkpInfo E bkp status =
     putBkp E (bkp\<lparr> Finalizers := Finalizers bkp @ [ZFSFinalizer], BkpStatus := status \<rparr>)"
  by (simp add: UpdateBkpInfo_def builder_defs buildFrom_def Build_def withFinalizer_def
        newBuilder_def setObj_def)

lemma UpdateRestoreInfo_eq: "UpdateRestoreInfo E rstr status = putRstr E (rstr\<lparr> RstrStatus := status \<rparr>)"
  by (simp add: UpdateRestoreInfo_def builder_defs buildFrom_def Build_def newBuilder_def)

lemma UpdateZFSVolumeAnnotation_eq:
  "UpdateZFSVolumeAnnotation E vol = putVol E
     (vol\<lparr> Annotations := AList.update MarkForDeletionAnnotation ''true'' (Annotations vol) \<rparr>)"
  by (simp add: UpdateZFSVolumeAnnotation_def builder_defs buildFrom_def Build_def newBuilder_def
        setObj_def)

lemma GetUserFinalizers_filter:
  "GetUserFinalizers fins = filter (\<lambda>f. f \<noteq> ZFSFinalizer \<and> f \<noteq> ''foregroundDeletion'') fins"
  by (induction fins) auto

end
