(* ===== verification/ZfsUtil.thy ===== *)
theory ZfsUtil
  imports Volume
begin

text \<open>
  \<open>pkg/zfs/zfs_util.go\<close>, \<open>errors.go\<close> and \<open>resize.go\<close>: the command lines the node agent runs and what
  it does with their results. The \<open>build...Args\<close> functions compute argument vectors; the others run
  \<open>zfs\<close> and its companions through \<open>runCmd\<close> and \<open>runPipe\<close>. An index or slice out of range is a panic.
\<close>

section \<open>Running commands\<close>

definition NewZFSError :: "string \<Rightarrow> string \<Rightarrow> gerror option \<Rightarrow> string \<Rightarrow> gerror option" where
  "NewZFSError op dataset err stderr =
     (case err of None \<Rightarrow> None | Some e \<Rightarrow> Some (EZfs op dataset (TrimSpace stderr) e))"

definition runCmd :: "env \<Rightarrow> string \<Rightarrow> string list \<Rightarrow> (string \<times> gerror option) go" where
  "runCmd E cmd args = runExec E cmd args"

type_synonym cmd = "string \<times> string list"

definition argv :: "cmd \<Rightarrow> string" where
  "argv c = ''['' @ joinWith '' '' (fst c # snd c) @ '']''"

fun other :: "side \<Rightarrow> side" where
  "other Source = Destination"
| "other Destination = Source"

fun sideName :: "side \<Rightarrow> string" where
  "sideName Source = ''source''"
| "sideName Destination = ''destination''"

definition startCmd :: "env \<Rightarrow> cmd \<Rightarrow> string option go" where
  "startCmd E c = goCall (\<lambda>h. start (host E) h (fst c) (snd c)) (EvStart (fst c) (snd c))"

definition killCmd :: "cmd \<Rightarrow> unit go" where
  "killCmd c = goEmit (EvKill (fst c) (snd c))"

definition waitCmd :: "env \<Rightarrow> side \<Rightarrow> cmd \<Rightarrow> string option go" where
  "waitCmd E s c = goCall (\<lambda>h. exit (host E) h s) (EvExit s (fst c # snd c))"

definition readBuffers :: "env \<Rightarrow> (string \<times> string) go" where
  "readBuffers E = goCall (\<lambda>h. buffers (host E) h) (\<lambda>r. EvBuffers (fst r) (snd r))"

text \<open>
  One turn of the loop over the two exits: a child that fails has its peer killed, and its error is
  kept.
\<close>

definition observeExit :: "env \<Rightarrow> (side \<Rightarrow> cmd) \<Rightarrow> side \<Rightarrow> gerror list go" where
  "observeExit E cmds s =
     goBind (waitCmd E s (cmds s)) (\<lambda>err. case err of
       None \<Rightarrow> goRet []
     | Some t \<Rightarrow> goBind (killCmd (cmds (other s))) (\<lambda>_.
         goRet [EFmt (''zfs: pipe '' @ sideName s @ '' '' @ argv (cmds s) @ '': '') (EApi False t)]))"

definition runPipe :: "env \<Rightarrow> cmd \<Rightarrow> cmd \<Rightarrow> (string \<times> gerror option) go" where
  "runPipe E src dst =
     goBind (goCall (\<lambda>h. osPipe (host E) h) EvPipe) (\<lambda>perr. case perr of
       Some t \<Rightarrow> goRet ([], Some (EApi False t))
     | None \<Rightarrow> goBind (startCmd E src) (\<lambda>serr. case serr of
         Some t \<Rightarrow> goRet ([], Some (EFmt (''zfs: pipe source start '' @ argv src @ '': '') (EApi False t)))
       | None \<Rightarrow> goBind (startCmd E dst) (\<lambda>derr. case derr of
           Some t \<Rightarrow>
             goBind (killCmd src) (\<lambda>_.
             goBind (waitCmd E Source src) (\<lambda>_.
             goBind (readBuffers E) (\<lambda>b.
             goRet (fst b, Some (EFmt (''zfs: pipe destination start '' @ argv dst @ '': '') (EApi False t))))))
         | None \<Rightarrow>
             (let cmds = (\<lambda>s. if s = Source then src else dst) in
              goBind (goAsk (firstExit (host E))) (\<lambda>first.
              goBind (observeExit E cmds first) (\<lambda>e1.
              goBind (observeExit E cmds (other first)) (\<lambda>e2.
              goBind (readBuffers E) (\<lambda>b.
              goRet (fst b @ snd b, if e1 @ e2 = [] then None else Some (EJoin (e1 @ e2)))))))))))"

section \<open>Command lines\<close>

definition quotaProperty :: "string \<Rightarrow> string" where
  "quotaProperty quotaType = (if quotaType = ''refquota'' then ''refquota'' else ''quota'')"

definition reservationPropertyName :: "string \<Rightarrow> string" where
  "reservationPropertyName quotaType =
     mget [(''quota'', ''reservation''), (''refquota'', ''refreservation'')] (quotaProperty quotaType)"

definition reservationProperty :: "string \<Rightarrow> string \<Rightarrow> string" where
  "reservationProperty quotaType capacity = reservationPropertyName quotaType @ ''='' @ capacity"

definition PropertyChanged :: "ZFSVolume \<Rightarrow> ZFSVolume \<Rightarrow> bool" where
  "PropertyChanged oldVol newVol =
     (if VolumeType (Spec oldVol) = VolTypeDataset \<and> VolumeType (Spec newVol) = VolTypeDataset \<and>
         (RecordSize (Spec oldVol) \<noteq> RecordSize (Spec newVol) \<or> ATime (Spec oldVol) \<noteq> ATime (Spec newVol))
      then True
      else Compression (Spec oldVol) \<noteq> Compression (Spec newVol) \<or>
           Dedup (Spec oldVol) \<noteq> Dedup (Spec newVol) \<or>
           LogBias (Spec oldVol) \<noteq> LogBias (Spec newVol) \<or>
           \<not> maps_Equal (UserProperties (Spec oldVol)) (UserProperties (Spec newVol)))"

definition GetVolumeType :: "string \<Rightarrow> string" where
  "GetVolumeType fstype = (if fstype = FSTypeZFS then VolTypeDataset else VolTypeZVol)"

definition volumePath :: "ZFSVolume \<Rightarrow> string" where
  "volumePath vol = PoolName (Spec vol) @ ''/'' @ Name vol"

definition snapDataset :: "ZFSSnapshot \<Rightarrow> string" where
  "snapDataset snap = PoolName (SnapSpec snap) @ ''/'' @ mget (Labels snap) ZFSVolKey @ ''@'' @ Name snap"

text \<open>An argument that is given only for a value that is set, and the option form of it.\<close>

definition ifSet :: "string \<Rightarrow> string list \<Rightarrow> string list" where
  "ifSet v args = (if length v \<noteq> 0 then args else [])"

definition propOpts :: "smap \<Rightarrow> string list" where
  "propOpts ps = concat (map (\<lambda>(n, v). [''-o'', n @ ''='' @ v]) ps)"

definition buildZvolCreateArgs :: "ZFSVolume \<Rightarrow> string list" where
  "buildZvolCreateArgs vol = (let s = Spec vol in
     [ZFSCreateArg]
     @ (if ThinProvision s = ''yes'' then [''-s''] else [])
     @ ifSet (Capacity s) [''-V'', Capacity s]
     @ ifSet (VolBlockSize s) [''-b'', VolBlockSize s]
     @ ifSet (Dedup s) [''-o'', ''dedup='' @ Dedup s]
     @ ifSet (Compression s) [''-o'', ''compression='' @ Compression s]
     @ ifSet (LogBias s) [''-o'', ''logbias='' @ LogBias s]
     @ ifSet (Encryption s) [''-o'', ''encryption='' @ Encryption s]
     @ ifSet (KeyLocation s) [''-o'', ''keylocation='' @ KeyLocation s]
     @ ifSet (KeyFormat s) [''-o'', ''keyformat='' @ KeyFormat s]
     @ propOpts (UserProperties s)
     @ [volumePath vol])"

definition buildCloneCreateArgs :: "ZFSVolume \<Rightarrow> string list" where
  "buildCloneCreateArgs vol = (let s = Spec vol in
     [ZFSCloneArg]
     @ (if VolumeType s = VolTypeDataset then
          ifSet (Capacity s) [''-o'', quotaProperty (QuotaType s) @ ''='' @ Capacity s]
          @ ifSet (RecordSize s) [''-o'', ''recordsize='' @ RecordSize s]
          @ ifSet (ATime s) [''-o'', ''atime='' @ ATime s]
          @ (if ThinProvision s = ''no''
             then [''-o'', reservationProperty (QuotaType s) (Capacity s)] else [])
          @ [''-o'', ''mountpoint=legacy'']
        else [])
     @ ifSet (Dedup s) [''-o'', ''dedup='' @ Dedup s]
     @ ifSet (Compression s) [''-o'', ''compression='' @ Compression s]
     @ ifSet (LogBias s) [''-o'', ''logbias='' @ LogBias s]
     @ propOpts (UserProperties s)
     @ [PoolName s @ ''/'' @ SnapName s, volumePath vol])"

definition buildZFSSnapCreateArgs :: "ZFSSnapshot \<Rightarrow> string list" where
  "buildZFSSnapCreateArgs snap =
     [ZFSSnapshotArg] @ propOpts (UserProperties (SnapSpec snap)) @ [snapDataset snap]"

definition buildZFSSnapDestroyArgs :: "ZFSSnapshot \<Rightarrow> string list" where
  "buildZFSSnapDestroyArgs snap = [ZFSDestroyArg, snapDataset snap]"

definition buildDatasetCreateArgs :: "ZFSVolume \<Rightarrow> string list" where
  "buildDatasetCreateArgs vol = (let s = Spec vol in
     [ZFSCreateArg]
     @ ifSet (Capacity s) [''-o'', quotaProperty (QuotaType s) @ ''='' @ Capacity s]
     @ ifSet (RecordSize s) [''-o'', ''recordsize='' @ RecordSize s]
     @ ifSet (ATime s) [''-o'', ''atime='' @ ATime s]
     @ (if ThinProvision s = ''no''
        then [''-o'', reservationProperty (QuotaType s) (Capacity s)] else [])
     @ ifSet (Dedup s) [''-o'', ''dedup='' @ Dedup s]
     @ ifSet (Compression s) [''-o'', ''compression='' @ Compression s]
     @ ifSet (LogBias s) [''-o'', ''logbias='' @ LogBias s]
     @ ifSet (Encryption s) [''-o'', ''encryption='' @ Encryption s]
     @ ifSet (KeyLocation s) [''-o'', ''keylocation='' @ KeyLocation s]
     @ ifSet (KeyFormat s) [''-o'', ''keyformat='' @ KeyFormat s]
     @ propOpts (UserProperties s)
     @ [''-o'', ''mountpoint=legacy'', volumePath vol])"

definition buildVolumeSetArgs :: "ZFSVolume \<Rightarrow> string list" where
  "buildVolumeSetArgs vol = (let s = Spec vol in
     [ZFSSetArg]
     @ (if VolumeType s = VolTypeDataset \<and> length (RecordSize s) \<noteq> 0
        then [''recordsize='' @ RecordSize s] else [])
     @ (if VolumeType s = VolTypeDataset \<and> length (ATime s) \<noteq> 0 then [''atime='' @ ATime s] else [])
     @ ifSet (Dedup s) [''dedup='' @ Dedup s]
     @ ifSet (Compression s) [''compression='' @ Compression s]
     @ ifSet (LogBias s) [''logbias='' @ LogBias s]
     @ map (\<lambda>(n, v). n @ ''='' @ v) (UserProperties s)
     @ [volumePath vol])"

definition buildVolumeResizeArgs :: "ZFSVolume \<Rightarrow> string list" where
  "buildVolumeResizeArgs vol = (let s = Spec vol in
     [ZFSSetArg]
     @ (if VolumeType s = VolTypeDataset then [quotaProperty (QuotaType s) @ ''='' @ Capacity s]
        else [''volsize='' @ Capacity s])
     @ (if ThinProvision s = ''no'' then [reservationProperty (QuotaType s) (Capacity s)] else [])
     @ [volumePath vol])"

definition buildVolumeBackupArgs :: "ZFSBackup \<Rightarrow> ZFSVolume \<Rightarrow> gerror + string list \<times> string list" where
  "buildVolumeBackupArgs bkp vol =
     (let b = BkpSpec bkp; curSnap = volumePath vol @ ''@'' @ BkpSnapName b
      in case splitOn (CHR '':'') (BackupDest b) of
           [addr, port] \<Rightarrow>
             Inr ([ZFSSendArg]
                  @ (if length (PrevSnapName b) > 0
                     then [''-i'', volumePath vol @ ''@'' @ PrevSnapName b, curSnap] else [curSnap]),
                  [''-w'', ''3'', addr, port])
         | _ \<Rightarrow> Inl (EText (''zfs: invalid backup server address '' @ BackupDest b)))"

definition restorePath :: "ZFSRestore \<Rightarrow> string" where
  "restorePath rstr = PoolName (VolSpec rstr) @ ''/'' @ RstrVolumeName (RstrSpec rstr)"

definition buildVolumeRestoreArgs :: "ZFSRestore \<Rightarrow> gerror + string list \<times> string list" where
  "buildVolumeRestoreArgs rstr =
     (let s = VolSpec rstr
      in case splitOn (CHR '':'') (RestoreSrc (RstrSpec rstr)) of
           [addr, port] \<Rightarrow>
             Inr ([''-w'', ''3'', addr, port],
                  [ZFSRecvArg]
                  @ (if VolumeType s = VolTypeDataset then
                       ifSet (Capacity s) [''-o'', quotaProperty (QuotaType s) @ ''='' @ Capacity s]
                       @ ifSet (RecordSize s) [''-o'', ''recordsize='' @ RecordSize s]
                       @ ifSet (ATime s) [''-o'', ''atime='' @ ATime s]
                       @ (if ThinProvision s = ''no'' then [''-o'', ''reservation='' @ Capacity s] else [])
                       @ [''-o'', ''mountpoint=legacy'']
                     else [])
                  @ ifSet (Dedup s) [''-o'', ''dedup='' @ Dedup s]
                  @ ifSet (Compression s) [''-o'', ''compression='' @ Compression s]
                  @ ifSet (LogBias s) [''-o'', ''logbias='' @ LogBias s]
                  @ ifSet (Encryption s) [''-o'', ''encryption='' @ Encryption s]
                  @ ifSet (KeyLocation s) [''-o'', ''keylocation='' @ KeyLocation s]
                  @ ifSet (KeyFormat s) [''-o'', ''keyformat='' @ KeyFormat s]
                  @ [''-F'', restorePath rstr])
         | _ \<Rightarrow> Inl (EText (''zfs: invalid restore server address '' @ RestoreSrc (RstrSpec rstr))))"

definition buildVolumeDestroyArgs :: "ZFSVolume \<Rightarrow> string list" where
  "buildVolumeDestroyArgs vol = [ZFSDestroyArg, ''-r'', volumePath vol]"

section \<open>Operations\<close>

definition getVolume :: "env \<Rightarrow> string \<Rightarrow> gerror option go" where
  "getVolume E volume =
     goBind (runCmd E ZFSVolCmd [ZFSListArg, volume]) (\<lambda>(out, err).
     goRet (NewZFSError ''zfs list'' volume err out))"

text \<open>Running \<open>zfs\<close> with the given arguments, and the error of the operation if it fails.\<close>

definition runZfs :: "env \<Rightarrow> string \<Rightarrow> string \<Rightarrow> string list \<Rightarrow> gerror option go" where
  "runZfs E op dataset args =
     goBind (runCmd E ZFSVolCmd args) (\<lambda>(out, err). goRet (NewZFSError op dataset err out))"

definition zfs_CreateVolume :: "env \<Rightarrow> ZFSVolume \<Rightarrow> gerror option go" where
  "zfs_CreateVolume E vol =
     goBind (getVolume E (volumePath vol)) (\<lambda>err. case err of
       None \<Rightarrow> goRet None
     | Some _ \<Rightarrow> runZfs E ''zfs create'' (volumePath vol)
         (if VolumeType (Spec vol) = VolTypeDataset then buildDatasetCreateArgs vol
          else buildZvolCreateArgs vol))"

definition zfs_CreateSnapshot :: "env \<Rightarrow> ZFSSnapshot \<Rightarrow> gerror option go" where
  "zfs_CreateSnapshot E snap =
     goBind (getVolume E (snapDataset snap)) (\<lambda>err. case err of
       None \<Rightarrow> goRet None
     | Some _ \<Rightarrow> runZfs E ''zfs snapshot'' (snapDataset snap) (buildZFSSnapCreateArgs snap))"

definition zfs_DestroySnapshot :: "env \<Rightarrow> ZFSSnapshot \<Rightarrow> gerror option go" where
  "zfs_DestroySnapshot E snap =
     goBind (getVolume E (PoolName (SnapSpec snap))) (\<lambda>perr. case perr of
       Some e \<Rightarrow> goRet (Some e)
     | None \<Rightarrow> goBind (getVolume E (snapDataset snap)) (\<lambda>err. case err of
         Some _ \<Rightarrow> goRet None
       | None \<Rightarrow> runZfs E ''zfs destroy snapshot'' (snapDataset snap) (buildZFSSnapDestroyArgs snap)))"

text \<open>The snapshot a volume clone is made from: it carries the volume's name and specification.\<close>

definition cloneSnap :: "ZFSVolume \<Rightarrow> string \<Rightarrow> ZFSSnapshot" where
  "cloneSnap vol srcVol = emptySnapshot\<lparr> Name := Name vol, SnapSpec := Spec vol, Labels := [(ZFSVolKey, srcVol)] \<rparr>"

definition genUUID :: "env \<Rightarrow> string \<Rightarrow> string \<Rightarrow> gerror option go" where
  "genUUID E fs device =
     goBind (goCall (\<lambda>h. generateUUID (host E) h fs device) (EvGenerateUUID fs device))
       (\<lambda>r. goRet (sysErr r))"

text \<open>\<open>CreateClone\<close> after the snapshot it may need.\<close>

definition cloneFrom :: "env \<Rightarrow> ZFSVolume \<Rightarrow> gerror option go" where
  "cloneFrom E vol =
     goBind (getVolume E (volumePath vol)) (\<lambda>err.
     goBind (case err of
               None \<Rightarrow> goRet None
             | Some _ \<Rightarrow> runZfs E ''zfs clone'' (volumePath vol) (buildCloneCreateArgs vol))
       (\<lambda>cerr. case cerr of
          Some e \<Rightarrow> goRet (Some e)
        | None \<Rightarrow>
            if FsType (Spec vol) = ''xfs'' then genUUID E ''xfs'' (ZFSDevPath @ volumePath vol)
            else if FsType (Spec vol) = ''btrfs'' then genUUID E ''btrfs'' (ZFSDevPath @ volumePath vol)
            else goRet None))"

definition zfs_CreateClone :: "env \<Rightarrow> ZFSVolume \<Rightarrow> gerror option go" where
  "zfs_CreateClone E vol =
     (case map_of (Labels vol) ZFSSrcVolKey of
        Some srcVol \<Rightarrow> goBind (zfs_CreateSnapshot E (cloneSnap vol srcVol)) (\<lambda>serr. case serr of
            Some e \<Rightarrow> goRet (Some e)
          | None \<Rightarrow> cloneFrom E vol)
      | None \<Rightarrow> cloneFrom E vol)"

definition SetDatasetMountProp :: "env \<Rightarrow> string \<Rightarrow> string \<Rightarrow> gerror option go" where
  "SetDatasetMountProp E volume mountpath =
     runZfs E ''zfs set mountpoint'' volume [ZFSSetArg, ''mountpoint='' @ mountpath, volume]"

definition GetVolumeProperty :: "env \<Rightarrow> ZFSVolume \<Rightarrow> string \<Rightarrow> (gerror + string) go" where
  "GetVolumeProperty E vol prop =
     goBind (runCmd E ZFSVolCmd [ZFSGetArg, ''-pH'', ''-o'', ''value'', prop, volumePath vol]) (\<lambda>(out, err).
       case NewZFSError (''zfs get '' @ prop) (volumePath vol) err out of
         Some zerr \<Rightarrow> goRet (Inl zerr)
       | None \<Rightarrow> if out = [] then goPanic ''slice bounds out of range''
                 else goRet (Inr (butlast out)))"

definition MountZFSDataset :: "env \<Rightarrow> ZFSVolume \<Rightarrow> string \<Rightarrow> gerror option go" where
  "MountZFSDataset E vol mountpath =
     goBind (SetDatasetMountProp E (volumePath vol) mountpath) (\<lambda>err. case err of
       Some e \<Rightarrow> goRet (Some e)
     | None \<Rightarrow> goBind (GetVolumeProperty E vol ''mounted'') (\<lambda>r. case r of
         Inl e \<Rightarrow> goRet (Some e)
       | Inr mounted \<Rightarrow>
           if mounted = ''no'' then runZfs E ''zfs mount'' (volumePath vol) [''mount'', volumePath vol]
           else goRet None))"

definition SetDatasetLegacyMount :: "env \<Rightarrow> ZFSVolume \<Rightarrow> gerror option go" where
  "SetDatasetLegacyMount E vol =
     (if VolumeType (Spec vol) \<noteq> VolTypeDataset then goRet None
      else goBind (GetVolumeProperty E vol ''mountpoint'') (\<lambda>r. case r of
        Inl e \<Rightarrow> goRet (Some e)
      | Inr prop \<Rightarrow>
          if prop \<noteq> ''legacy'' then SetDatasetMountProp E (volumePath vol) ''legacy'' else goRet None))"

definition SetVolumeProp :: "env \<Rightarrow> ZFSVolume \<Rightarrow> gerror option go" where
  "SetVolumeProp E vol =
     (let s = Spec vol in
      if length (Compression s) = 0 \<and> length (Dedup s) = 0 \<and> length (LogBias s) = 0 \<and>
         length (UserProperties s) = 0 \<and>
         (VolumeType s \<noteq> VolTypeDataset \<or> (length (RecordSize s) = 0 \<and> length (ATime s) = 0))
      then goRet None
      else runZfs E ''zfs set'' (volumePath vol) (buildVolumeSetArgs vol))"

definition zfs_DestroyVolume :: "env \<Rightarrow> ZFSVolume \<Rightarrow> gerror option go" where
  "zfs_DestroyVolume E vol =
     goBind (getVolume E (PoolName (Spec vol))) (\<lambda>perr. case perr of
       Some e \<Rightarrow> goRet (Some e)
     | None \<Rightarrow> goBind (getVolume E (volumePath vol)) (\<lambda>err. case err of
         Some _ \<Rightarrow> goRet None
       | None \<Rightarrow> goBind (runZfs E ''zfs destroy'' (volumePath vol) (buildVolumeDestroyArgs vol)) (\<lambda>derr.
           case derr of
             Some e \<Rightarrow> goRet (Some e)
           | None \<Rightarrow> goBind (case map_of (Labels vol) ZFSSrcVolKey of
                               Some srcVol \<Rightarrow> zfs_DestroySnapshot E (cloneSnap vol srcVol)
                             | None \<Rightarrow> goRet None)
               (\<lambda>_. goRet None))))"

definition GetVolumeDevPath :: "env \<Rightarrow> ZFSVolume \<Rightarrow> (gerror + string) go" where
  "GetVolumeDevPath E vol =
     (if VolumeType (Spec vol) = VolTypeDataset then goRet (Inr (volumePath vol))
      else goBind (goCall (\<lambda>h. evalSymlinks (host E) h (ZFSDevPath @ volumePath vol))
                          (EvSymlinks (ZFSDevPath @ volumePath vol)))
        (\<lambda>r. case r of Inl t \<Rightarrow> goRet (Inl (EApi False t)) | Inr dev \<Rightarrow> goRet (Inr dev)))"

subsection \<open>Resizing\<close>

definition ResizeExtn :: "env \<Rightarrow> string \<Rightarrow> gerror option go" where
  "ResizeExtn E devpath = goBind (runExec E ''resize2fs'' [devpath]) (\<lambda>(out, err). goRet err)"

definition ResizeXFS :: "env \<Rightarrow> string \<Rightarrow> gerror option go" where
  "ResizeXFS E path = goBind (runExec E ''xfs_growfs'' [path]) (\<lambda>(out, err). goRet err)"

text \<open>A failure to list the mounts is an empty list. Only the first mount at the path counts.\<close>

definition handleVolResize :: "env \<Rightarrow> ZFSVolume \<Rightarrow> string \<Rightarrow> gerror option go" where
  "handleVolResize E vol volPath =
     goBind (GetVolumeDevPath E vol) (\<lambda>r. case r of
       Inl e \<Rightarrow> goRet (Some e)
     | Inr devpath \<Rightarrow> goBind (goCall (\<lambda>h. mountList (host E) h) EvMountList) (\<lambda>mounts.
         case find (\<lambda>(dev, path). path = volPath) mounts of
           None \<Rightarrow> goRet None
         | Some _ \<Rightarrow>
             if FsType (Spec vol) = ''xfs'' then ResizeXFS E volPath
             else if FsType (Spec vol) = ''zfs'' then goRet None
             else ResizeExtn E devpath))"

definition ResizeZFSVolume :: "env \<Rightarrow> ZFSVolume \<Rightarrow> string \<Rightarrow> bool \<Rightarrow> gerror option go" where
  "ResizeZFSVolume E vol mountpath resizefs =
     goBind (GetVolumeProperty E vol (reservationPropertyName (QuotaType (Spec vol)))) (\<lambda>r. case r of
       Inl e \<Rightarrow> goRet (Some e)
     | Inr oldReservation \<Rightarrow>
         goBind (runZfs E ''zfs set quota'' (volumePath vol) (buildVolumeResizeArgs vol)) (\<lambda>err. case err of
           Some zerr \<Rightarrow>
             goBind (runCmd E ZFSVolCmd (buildVolumeResizeArgs
                       (vol\<lparr> Spec := (Spec vol)\<lparr> Capacity := oldReservation \<rparr> \<rparr>)))
               (\<lambda>_. goRet (Some zerr))
         | None \<Rightarrow> if resizefs then handleVolResize E vol mountpath else goRet None))"

subsection \<open>Backup and restore\<close>

definition bkpSnap :: "ZFSBackup \<Rightarrow> ZFSVolume \<Rightarrow> ZFSSnapshot" where
  "bkpSnap bkp vol = emptySnapshot\<lparr> Name := BkpSnapName (BkpSpec bkp),
     SnapSpec := emptyInfo\<lparr> PoolName := PoolName (Spec vol) \<rparr>, Labels := [(ZFSVolKey, Name vol)] \<rparr>"

definition zfs_CreateBackup :: "env \<Rightarrow> ZFSBackup \<Rightarrow> gerror option go" where
  "zfs_CreateBackup E bkp =
     goBind (GetZFSVolume E (BkpVolumeName (BkpSpec bkp))) (\<lambda>r. case r of
       Inl e \<Rightarrow> goRet (Some e)
     | Inr vol \<Rightarrow> goBind (zfs_CreateSnapshot E (bkpSnap bkp vol)) (\<lambda>serr. case serr of
         Some e \<Rightarrow> goRet (Some e)
       | None \<Rightarrow> (case buildVolumeBackupArgs bkp vol of
           Inl e \<Rightarrow> goRet (Some e)
         | Inr (sendArgs, ncArgs) \<Rightarrow>
             goBind (runPipe E (ZFSVolCmd, sendArgs) (NetCatCmd, ncArgs)) (\<lambda>(out, err).
             goRet (NewZFSError ''zfs send (backup)'' (volumePath vol) err out)))))"

definition DestoryBackup :: "env \<Rightarrow> ZFSBackup \<Rightarrow> gerror option go" where
  "DestoryBackup E bkp =
     goBind (GetZFSVolume E (BkpVolumeName (BkpSpec bkp))) (\<lambda>r. case r of
       Inl e \<Rightarrow> if IsNotFound (lib E) e then goRet None else goRet (Some e)
     | Inr vol \<Rightarrow> zfs_DestroySnapshot E (bkpSnap bkp vol))"

fun deviceLoop :: "nat \<Rightarrow> env \<Rightarrow> string \<Rightarrow> (gerror + string) go" where
  "deviceLoop 0 E device = goStop (EvWait ''device'')"
| "deviceLoop (Suc n) E device =
     goBind (goSelect E ''device'') (\<lambda>c.
       if c = TimedOut then goRet (Inl (EText (''zfs: not able to get the device: '' @ device)))
       else goBind (goCall (\<lambda>h. stat (host E) h device) (EvStat device)) (\<lambda>st.
         if st = StatOk then goRet (Inr device) else deviceLoop n E device))"

definition getDevice :: "env \<Rightarrow> string \<Rightarrow> (gerror + string) go" where
  "getDevice E volume = deviceLoop (polls E) E (ZFSDevPath @ volume)"

definition restoreUUID :: "env \<Rightarrow> ZFSRestore \<Rightarrow> string \<Rightarrow> gerror option go" where
  "restoreUUID E rstr fs =
     goBind (getDevice E (restorePath rstr)) (\<lambda>r. case r of
       Inl e \<Rightarrow> goRet (Some e) | Inr device \<Rightarrow> genUUID E fs device)"

text \<open>
  \<open>CreateRestore\<close> fills in the volume specification of the object it is given, so the model returns
  the object with the error.
\<close>

definition restoreFrom :: "env \<Rightarrow> ZFSRestore \<Rightarrow> gerror option go" where
  "restoreFrom E rstr =
     (case buildVolumeRestoreArgs rstr of
        Inl e \<Rightarrow> goRet (Some e)
      | Inr (ncArgs, recvArgs) \<Rightarrow>
          goBind (runPipe E (NetCatCmd, ncArgs) (ZFSVolCmd, recvArgs)) (\<lambda>(out, err).
            case NewZFSError ''zfs recv (restore)'' (restorePath rstr) err out of
              Some zerr \<Rightarrow> goRet (Some zerr)
            | None \<Rightarrow>
                if FsType (VolSpec rstr) = ''xfs'' then restoreUUID E rstr ''xfs''
                else if FsType (VolSpec rstr) = ''btrfs'' then restoreUUID E rstr ''btrfs''
                else goRet None))"

definition zfs_CreateRestore :: "env \<Rightarrow> ZFSRestore \<Rightarrow> (gerror option \<times> ZFSRestore) go" where
  "zfs_CreateRestore E rstr =
     goBind (if length (PoolName (VolSpec rstr)) = 0
             then goBind (GetZFSVolume E (RstrVolumeName (RstrSpec rstr))) (\<lambda>r. case r of
                    Inl e \<Rightarrow> goRet (Inl e)
                  | Inr vol \<Rightarrow> goRet (Inr (rstr\<lparr> VolSpec := Spec vol \<rparr>)))
             else goRet (Inr rstr))
       (\<lambda>r. case r of
          Inl e \<Rightarrow> goRet (Some e, rstr)
        | Inr rstr' \<Rightarrow> goBind (restoreFrom E rstr') (\<lambda>err. goRet (err, rstr')))"

subsection \<open>Pools\<close>

text \<open>
  One line of \<open>zfs list\<close>: \<open>None\<close> is a panic, \<open>Some None\<close> a line of a dataset, which is skipped.
\<close>

definition decodeLine :: "lib \<Rightarrow> string \<Rightarrow> (gerror + Pool) option option" where
  "decodeLine L line =
     (let items = splitOn (CHR 0x09) (TrimSpace line)
      in if contains (hd items) ''/'' then Some None
         else if length items \<le> 2 then None
         else case ParseInt (items ! 2) of
                None \<Rightarrow> Some (Some (Inl (EText (''cannot get free size for pool '' @ hd items @ '': ''
                                           @ parseIntErr L (items ! 2)))))
              | Some free \<Rightarrow>
                  if length items \<le> 3 then None
                  else case ParseInt (items ! 3) of
                         None \<Rightarrow> Some (Some (Inl (EText (''cannot get free size for pool '' @ hd items @ '': ''
                                                    @ parseIntErr L (items ! 3)))))
                       | Some used \<Rightarrow> Some (Some (Inr \<lparr> PoolNodeName = hd items, UUID = items ! 1,
                                                        Free = free, Used = used \<rparr>)))"

fun decodeLines :: "lib \<Rightarrow> string list \<Rightarrow> Pool list \<Rightarrow> (Pool list \<times> gerror option) option" where
  "decodeLines L [] pools = Some (pools, None)"
| "decodeLines L (l # ls) pools =
     (case decodeLine L l of
        None \<Rightarrow> None
      | Some None \<Rightarrow> decodeLines L ls pools
      | Some (Some (Inl e)) \<Rightarrow> Some (pools, Some e)
      | Some (Some (Inr pool)) \<Rightarrow> decodeLines L ls (pools @ [pool]))"

definition decodeListOutput :: "lib \<Rightarrow> string \<Rightarrow> (Pool list \<times> gerror option) option" where
  "decodeListOutput L raw = decodeLines L (scanLines raw) []"

definition ListZFSPool :: "env \<Rightarrow> (Pool list \<times> gerror option) go" where
  "ListZFSPool E =
     goBind (runCmd E ZFSVolCmd [ZFSListArg, ''-d'', ''1'', ''-s'', ''name'', ''-o'',
               ''name,guid,available,used'', ''-H'', ''-p'']) (\<lambda>(out, err).
       case NewZFSError ''zfs list (pools)'' [] err out of
         Some zerr \<Rightarrow> goRet ([], Some zerr)
       | None \<Rightarrow> (case decodeListOutput (lib E) out of
                    None \<Rightarrow> goPanic ''index out of range''
                  | Some r \<Rightarrow> goRet r))"

section \<open>Rules\<close>

text \<open>The entries of work done on the node, without any request to the API server.\<close>

fun onNode :: "event \<Rightarrow> bool" where
  "onNode (EvExec _ _ _) = True"
| "onNode (EvPipe _) = True"
| "onNode (EvStart _ _ _) = True"
| "onNode (EvKill _ _) = True"
| "onNode (EvExit _ _ _) = True"
| "onNode (EvBuffers _ _) = True"
| "onNode (EvStat _ _) = True"
| "onNode (EvSymlinks _ _) = True"
| "onNode (EvGenerateUUID _ _ _) = True"
| "onNode (EvSelect _ _) = True"
| "onNode (EvMountList _) = True"
| "onNode (EvPanic _) = True"
| "onNode (EvWait _) = True"
| "onNode _ = False"

text \<open>The same with the requests that fetch a volume.\<close>

fun onNodeOrFetch :: "event \<Rightarrow> bool" where
  "onNodeOrFetch (EvClientset _ _) = True"
| "onNodeOrFetch (EvVol (KGet _ _ _)) = True"
| "onNodeOrFetch e = onNode e"

lemma onNode_imp_fetch: "onNode e \<Longrightarrow> onNodeOrFetch e"
  by (cases e) auto

lemma runCmd_run [go_simps]:
  "runCmd E cmd args h =
     (Some (fst (exec (host E) h cmd args), sysErr (snd (exec (host E) h cmd args))),
      h @ [EvExec cmd args (exec (host E) h cmd args)])"
  by (simp add: runCmd_def go_simps)

lemma NewZFSError_None_iff [simp]: "NewZFSError op ds err out = None \<longleftrightarrow> err = None"
  by (simp add: NewZFSError_def split: option.split)

lemma NewZFSError_None [simp]: "NewZFSError op ds None out = None"
  by simp

lemma getVolume_run [go_simps]:
  "getVolume E d h =
     (let r = exec (host E) h ZFSVolCmd [ZFSListArg, d] in
      (Some (NewZFSError ''zfs list'' d (sysErr (snd r)) (fst r)), h @ [EvExec ZFSVolCmd [ZFSListArg, d] r]))"
  by (simp add: getVolume_def go_simps Let_def)

lemma runZfs_run [go_simps]:
  "runZfs E op d args h =
     (let r = exec (host E) h ZFSVolCmd args in
      (Some (NewZFSError op d (sysErr (snd r)) (fst r)), h @ [EvExec ZFSVolCmd args r]))"
  by (simp add: runZfs_def go_simps Let_def)

lemma only_runCmd [only_rules]: "(\<And>r. P (EvExec cmd args r)) \<Longrightarrow> only P (runCmd E cmd args)"
  unfolding runCmd_def by (intro only_rules)

lemma only_runZfs [only_rules]: "(\<And>r. P (EvExec ZFSVolCmd args r)) \<Longrightarrow> only P (runZfs E op d args)"
  unfolding runZfs_def by (intro only_rules)

lemma only_getVolume [only_rules]:
  "(\<And>r. P (EvExec ZFSVolCmd [ZFSListArg, d] r)) \<Longrightarrow> only P (getVolume E d)"
  unfolding getVolume_def by (intro only_rules)

lemma returns_cmds [returns_rules]:
  "always_returns (runCmd E cmd args)" "always_returns (runZfs E op d args)" "always_returns (getVolume E d)"
  unfolding runCmd_def runZfs_def getVolume_def by (intro returns_rules)+

lemmas onNode_defs = zfs_CreateVolume_def zfs_CreateSnapshot_def zfs_DestroySnapshot_def
  zfs_DestroyVolume_def zfs_CreateClone_def cloneFrom_def genUUID_def SetDatasetMountProp_def GetVolumeProperty_def
  MountZFSDataset_def SetDatasetLegacyMount_def SetVolumeProp_def GetVolumeDevPath_def ResizeExtn_def
  ResizeXFS_def

lemma only_onNode [only_rules]:
  "only onNode (zfs_CreateVolume E vol)" "only onNode (zfs_CreateSnapshot E snap)"
  "only onNode (zfs_DestroySnapshot E snap)" "only onNode (zfs_DestroyVolume E vol)"
  "only onNode (zfs_CreateClone E vol)" "only onNode (genUUID E fs dev)"
  "only onNode (SetVolumeProp E vol)" "only onNode (GetVolumeProperty E vol prop)"
  "only onNode (GetVolumeDevPath E vol)"
  unfolding onNode_defs Let_def by (intro only_rules; simp)+

lemma returns_onNode [returns_rules]:
  "always_returns (zfs_CreateVolume E vol)" "always_returns (zfs_CreateSnapshot E snap)"
  "always_returns (zfs_DestroySnapshot E snap)" "always_returns (zfs_DestroyVolume E vol)"
  "always_returns (zfs_CreateClone E vol)" "always_returns (SetVolumeProp E vol)"
  unfolding onNode_defs Let_def by (intro returns_rules)+

lemma only_handleVolResize [only_rules]: "only onNode (handleVolResize E vol path)"
  unfolding handleVolResize_def onNode_defs Let_def by (intro only_rules; simp)

lemma only_ResizeZFSVolume [only_rules]: "only onNode (ResizeZFSVolume E vol path fs)"
  unfolding ResizeZFSVolume_def by (intro only_rules; simp)

lemma only_pipe_steps [only_rules]:
  "only onNode (startCmd E c)" "only onNode (killCmd c)" "only onNode (waitCmd E s c)"
  "only onNode (readBuffers E)"
  unfolding startCmd_def killCmd_def waitCmd_def readBuffers_def by (intro only_rules; simp)+

lemma returns_pipe_steps [returns_rules]:
  "always_returns (startCmd E c)" "always_returns (killCmd c)" "always_returns (waitCmd E s c)"
  "always_returns (readBuffers E)"
  unfolding startCmd_def killCmd_def waitCmd_def readBuffers_def by (intro returns_rules)+

lemma only_observeExit [only_rules]: "only onNode (observeExit E cmds s)"
  unfolding observeExit_def by (intro only_rules)

lemma only_runPipe [only_rules]: "only onNode (runPipe E src dst)"
  unfolding runPipe_def Let_def by (intro only_rules; simp)

lemma returns_runPipe [returns_rules]: "always_returns (runPipe E src dst)"
  unfolding runPipe_def observeExit_def Let_def by (intro returns_rules)

lemma only_fetch: "only onNode m \<Longrightarrow> only onNodeOrFetch m"
  by (erule only_mono) (rule onNode_imp_fetch)

lemmas only_onNode_fetch [only_rules] = only_onNode [THEN only_fetch] only_runPipe [THEN only_fetch]

lemma only_deviceLoop [only_rules]: "only onNode (deviceLoop n E dev)"
  by (induction n) (simp only: deviceLoop.simps, intro only_rules; simp)+

lemma only_restoreFrom [only_rules]: "only onNode (restoreFrom E rstr)"
  unfolding restoreFrom_def restoreUUID_def getDevice_def by (intro only_rules)

lemmas only_restoreFrom_fetch [only_rules] = only_restoreFrom [THEN only_fetch]

lemma only_backup [only_rules]: "only onNodeOrFetch (zfs_CreateBackup E bkp)"
  unfolding zfs_CreateBackup_def by (intro only_rules; simp)

lemma only_DestoryBackup [only_rules]: "only onNodeOrFetch (DestoryBackup E bkp)"
  unfolding DestoryBackup_def by (intro only_rules; simp)

lemma only_CreateRestore [only_rules]: "only onNodeOrFetch (zfs_CreateRestore E rstr)"
  unfolding zfs_CreateRestore_def by (intro only_rules; simp)

end
