(* ===== verification/Datasets.thy ===== *)
theory Datasets
  imports ZfsUtil
begin

text \<open>
  An abstract view of the node: the set of datasets, volumes and snapshots that exist, as the
  commands that succeeded leave it. \<open>datasets base h\<close> starts from \<open>base\<close> and applies the effect that
  \<open>zfs(8)\<close> documents for each successful command of the trace \<open>h\<close>.

  The lemmas show what the operations of \<open>zfs_util.go\<close> do to that set. Those about creating and
  destroying assume \<open>lists_truthfully\<close>: \<open>zfs list d\<close> succeeds exactly if \<open>d\<close> exists.
\<close>

section \<open>The abstract state\<close>

definition under :: "string \<Rightarrow> string \<Rightarrow> bool" where
  "under v d \<longleftrightarrow> d = v \<or> prefix (v @ ''/'') d \<or> prefix (v @ ''@'') d"

fun zfsEffect :: "string list \<Rightarrow> string list \<Rightarrow> string list" where
  "zfsEffect (a # rest) ds =
     (if a = ZFSCreateArg \<or> a = ZFSCloneArg \<or> a = ZFSSnapshotArg \<or> a = ZFSRecvArg then last (a # rest) # ds
      else if a = ZFSDestroyArg then
        (case rest of
           [v] \<Rightarrow> filter (\<lambda>d. d \<noteq> v) ds
         | [o1, v] \<Rightarrow> if o1 = ''-r'' then filter (\<lambda>d. \<not> under v d) ds else ds
         | _ \<Rightarrow> ds)
      else ds)"
| "zfsEffect [] ds = ds"

fun effect :: "event \<Rightarrow> string list \<Rightarrow> string list" where
  "effect (EvExec cmd args (out, None)) ds = (if cmd = ZFSVolCmd then zfsEffect args ds else ds)"
| "effect (EvExit Destination (cmd # args) None) ds =
     (if cmd = ZFSVolCmd then zfsEffect args ds else ds)"
| "effect _ ds = ds"

definition datasets :: "string list \<Rightarrow> event list \<Rightarrow> string list" where
  "datasets base h = fold effect h base"

definition lists_truthfully :: "env \<Rightarrow> string list \<Rightarrow> bool" where
  "lists_truthfully E base \<longleftrightarrow>
     (\<forall>h d. snd (exec (host E) h ZFSVolCmd [ZFSListArg, d]) = None \<longleftrightarrow> d \<in> set (datasets base h))"

text \<open>No child survives the failure of the other: whenever one fails, the other is killed.\<close>

definition peerKilled :: "cmd \<Rightarrow> cmd \<Rightarrow> event list \<Rightarrow> bool" where
  "peerKilled src dst es \<longleftrightarrow>
     (\<forall>as t. EvExit Source as (Some t) \<in> set es \<and> EvStart (fst dst) (snd dst) None \<in> set es
        \<longrightarrow> EvKill (fst dst) (snd dst) \<in> set es) \<and>
     (\<forall>as t. EvExit Destination as (Some t) \<in> set es \<longrightarrow> EvKill (fst src) (snd src) \<in> set es) \<and>
     (\<forall>t. EvStart (fst src) (snd src) None \<in> set es \<and> EvStart (fst dst) (snd dst) (Some t) \<in> set es
        \<longrightarrow> EvKill (fst src) (snd src) \<in> set es)"


text \<open>A node where \<open>zfs list\<close> tells the truth and every other command succeeds, and a small volume.\<close>

definition truthEnv :: "string list \<Rightarrow> env" where
  "truthEnv base = quietEnv\<lparr> host := quietHost\<lparr> exec := (\<lambda>h cmd args.
     if cmd = ZFSVolCmd \<and> args \<noteq> [] \<and> hd args = ZFSListArg \<and> last args \<notin> set (datasets base h)
     then ([], Some ''dataset does not exist'') else ([], None)) \<rparr> \<rparr>"

definition demoVol :: ZFSVolume where
  "demoVol = emptyVolume\<lparr> Name := ''v1'', Spec := emptyInfo\<lparr> PoolName := ''pool'', Capacity := ''1024'',
     VolumeType := VolTypeDataset, FsType := ''zfs'' \<rparr> \<rparr>"

definition demoBkp :: ZFSBackup where
  "demoBkp = emptyBackup\<lparr> Name := ''b1'', BkpSpec := \<lparr> BkpVolumeName = ''v1'', BkpOwnerNodeID = ''node-1'',
     BkpSnapName = ''s1'', PrevSnapName = [], BackupDest = ''10.0.0.1:9000'' \<rparr> \<rparr>"

definition demoBkpEnv :: env where
  "demoBkpEnv = (truthEnv [''pool/v1''])\<lparr> cluster := quietCluster\<lparr> volApi := quietApi\<lparr> apiGet := (\<lambda>h ns n. Inr demoVol) \<rparr> \<rparr> \<rparr>"

section \<open>Effects of single commands\<close>

lemma datasets_append [simp]: "datasets base (h @ es) = fold effect es (datasets base h)"
  by (simp add: datasets_def)

lemma effect_failed [simp]: "effect (EvExec cmd args (out, Some t)) ds = ds"
  by simp

lemma effect_list [simp]: "effect (EvExec ZFSVolCmd [ZFSListArg, d] r) ds = ds"
  by (cases r; cases "snd r") auto

lemma effect_uuid [simp]: "effect (EvGenerateUUID fs dev r) ds = ds"
  by simp

lemma zfsEffect_adds:
  "a \<in> {ZFSCreateArg, ZFSCloneArg, ZFSSnapshotArg, ZFSRecvArg} \<Longrightarrow> zfsEffect (a # mid @ [d]) ds = d # ds"
  by (auto simp: zfsEffect.simps)

lemma buildZvolCreateArgs_shape: "\<exists>mid. buildZvolCreateArgs vol = ZFSCreateArg # mid @ [volumePath vol]"
  by (simp add: buildZvolCreateArgs_def Let_def)

lemma buildDatasetCreateArgs_shape: "\<exists>mid. buildDatasetCreateArgs vol = ZFSCreateArg # mid @ [volumePath vol]"
proof -
  have "[''-o'', ''mountpoint=legacy'', volumePath vol] = [''-o'', ''mountpoint=legacy''] @ [volumePath vol]"
    by simp
  then show ?thesis unfolding buildDatasetCreateArgs_def Let_def
    by (simp only: append_assoc [symmetric] append_Cons append_Nil) simp
qed

lemma buildCloneCreateArgs_shape: "\<exists>mid. buildCloneCreateArgs vol = ZFSCloneArg # mid @ [volumePath vol]"
proof -
  have "[PoolName (Spec vol) @ ''/'' @ SnapName (Spec vol), volumePath vol]
      = [PoolName (Spec vol) @ ''/'' @ SnapName (Spec vol)] @ [volumePath vol]" by simp
  then show ?thesis unfolding buildCloneCreateArgs_def Let_def
    by (simp only: append_assoc [symmetric] append_Cons append_Nil) simp
qed

lemma buildZFSSnapCreateArgs_shape: "\<exists>mid. buildZFSSnapCreateArgs snap = ZFSSnapshotArg # mid @ [snapDataset snap]"
  by (simp add: buildZFSSnapCreateArgs_def)

lemma zfsEffect_create [simp]:
  "zfsEffect (buildZvolCreateArgs vol) ds = volumePath vol # ds"
  "zfsEffect (buildDatasetCreateArgs vol) ds = volumePath vol # ds"
  "zfsEffect (buildCloneCreateArgs vol) ds = volumePath vol # ds"
  "zfsEffect (buildZFSSnapCreateArgs snap) ds = snapDataset snap # ds"
  using buildZvolCreateArgs_shape [of vol] buildDatasetCreateArgs_shape [of vol]
    buildCloneCreateArgs_shape [of vol] buildZFSSnapCreateArgs_shape [of snap]
  by (auto simp del: zfsEffect.simps simp add: zfsEffect_adds)

lemma zfsEffect_destroy [simp]:
  "zfsEffect (buildVolumeDestroyArgs vol) ds = filter (\<lambda>d. \<not> under (volumePath vol) d) ds"
  "zfsEffect (buildZFSSnapDestroyArgs snap) ds = filter (\<lambda>d. d \<noteq> snapDataset snap) ds"
  by (simp_all add: buildVolumeDestroyArgs_def buildZFSSnapDestroyArgs_def)

lemma under_self [simp]: "under v v"
  by (simp add: under_def)

section \<open>Effects of the operations\<close>

lemma exec_cases:
  obtains (ok) out where "exec (host E) h cmd args = (out, None)"
  | (failed) out t where "exec (host E) h cmd args = (out, Some t)"
proof (cases "exec (host E) h cmd args")
  case (Pair out err)
  then show ?thesis using that by (cases err) auto
qed

lemma listed: "lists_truthfully E base \<Longrightarrow>
  (snd (exec (host E) h ZFSVolCmd [ZFSListArg, d]) = None) = (d \<in> set (datasets base h))"
  by (simp add: lists_truthfully_def)

lemma sysErr_Some [simp]: "sysErr (Some t) = Some (EApi False t)"
  by (simp add: sysErr_def)

lemma NewZFSError_Some [simp]: "NewZFSError op ds (Some e) out = Some (EZfs op ds (TrimSpace out) e)"
  by (simp add: NewZFSError_def)

lemma createVolume_present:
  assumes law: "lists_truthfully E base" and run: "zfs_CreateVolume E vol h = (Some None, h')"
  shows "volumePath vol \<in> set (datasets base h')"
proof (cases "volumePath vol \<in> set (datasets base h)")
  case True
  with listed [OF law, of h "volumePath vol"] run show ?thesis
    by (auto simp: zfs_CreateVolume_def go_simps Let_def)
next
  case False
  then have l: "snd (exec (host E) h ZFSVolCmd [ZFSListArg, volumePath vol]) \<noteq> None"
    using listed [OF law] by blast
  let ?args = "if VolumeType (Spec vol) = VolTypeDataset then buildDatasetCreateArgs vol else buildZvolCreateArgs vol"
  let ?h1 = "h @ [EvExec ZFSVolCmd [ZFSListArg, volumePath vol] (exec (host E) h ZFSVolCmd [ZFSListArg, volumePath vol])]"
  show ?thesis
    by (rule exec_cases [of E ?h1 ZFSVolCmd ?args])
       (use l run in \<open>auto simp: zfs_CreateVolume_def go_simps Let_def\<close>)
qed

lemma createSnapshot_present:
  assumes law: "lists_truthfully E base" and run: "zfs_CreateSnapshot E snap h = (Some None, h')"
  shows "snapDataset snap \<in> set (datasets base h')"
proof (cases "snapDataset snap \<in> set (datasets base h)")
  case True
  with listed [OF law, of h "snapDataset snap"] run show ?thesis
    by (auto simp: zfs_CreateSnapshot_def go_simps Let_def)
next
  case False
  then have l: "snd (exec (host E) h ZFSVolCmd [ZFSListArg, snapDataset snap]) \<noteq> None"
    using listed [OF law] by blast
  let ?h1 = "h @ [EvExec ZFSVolCmd [ZFSListArg, snapDataset snap] (exec (host E) h ZFSVolCmd [ZFSListArg, snapDataset snap])]"
  show ?thesis
    by (rule exec_cases [of E ?h1 ZFSVolCmd "buildZFSSnapCreateArgs snap"])
       (use l run in \<open>auto simp: zfs_CreateSnapshot_def go_simps Let_def\<close>)
qed

text \<open>An operation that creates leaves everything that is there.\<close>

lemma createSnapshot_keeps: "set (datasets base h) \<subseteq> set (datasets base (snd (zfs_CreateSnapshot E snap h)))"
proof -
  let ?l = "exec (host E) h ZFSVolCmd [ZFSListArg, snapDataset snap]"
  let ?h1 = "h @ [EvExec ZFSVolCmd [ZFSListArg, snapDataset snap] ?l]"
  show ?thesis
    by (rule exec_cases [of E ?h1 ZFSVolCmd "buildZFSSnapCreateArgs snap"])
       (auto simp: zfs_CreateSnapshot_def go_simps Let_def split: option.splits)
qed

lemma destroySnapshot_only:
  assumes "d \<in> set (datasets base h)" and "d \<noteq> snapDataset snap"
  shows "d \<in> set (datasets base (snd (zfs_DestroySnapshot E snap h)))"
proof -
  let ?h1 = "h @ [EvExec ZFSVolCmd [ZFSListArg, PoolName (SnapSpec snap)] (exec (host E) h ZFSVolCmd [ZFSListArg, PoolName (SnapSpec snap)])]"
  let ?h2 = "?h1 @ [EvExec ZFSVolCmd [ZFSListArg, snapDataset snap] (exec (host E) ?h1 ZFSVolCmd [ZFSListArg, snapDataset snap])]"
  show ?thesis
    by (rule exec_cases [of E ?h2 ZFSVolCmd "buildZFSSnapDestroyArgs snap"])
       (use assms in \<open>auto simp: zfs_DestroySnapshot_def go_simps Let_def split: option.splits\<close>)
qed

lemma destroySnapshot_shrinks: "set (datasets base (snd (zfs_DestroySnapshot E snap h))) \<subseteq> set (datasets base h)"
proof -
  let ?h1 = "h @ [EvExec ZFSVolCmd [ZFSListArg, PoolName (SnapSpec snap)] (exec (host E) h ZFSVolCmd [ZFSListArg, PoolName (SnapSpec snap)])]"
  let ?h2 = "?h1 @ [EvExec ZFSVolCmd [ZFSListArg, snapDataset snap] (exec (host E) ?h1 ZFSVolCmd [ZFSListArg, snapDataset snap])]"
  show ?thesis
    by (rule exec_cases [of E ?h2 ZFSVolCmd "buildZFSSnapDestroyArgs snap"])
       (auto simp: zfs_DestroySnapshot_def go_simps Let_def split: option.splits)
qed

lemma destroySnapshot_absent:
  assumes law: "lists_truthfully E base" and run: "zfs_DestroySnapshot E snap h = (Some None, h')"
  shows "snapDataset snap \<notin> set (datasets base h')"
proof -
  let ?h1 = "h @ [EvExec ZFSVolCmd [ZFSListArg, PoolName (SnapSpec snap)] (exec (host E) h ZFSVolCmd [ZFSListArg, PoolName (SnapSpec snap)])]"
  let ?h2 = "?h1 @ [EvExec ZFSVolCmd [ZFSListArg, snapDataset snap] (exec (host E) ?h1 ZFSVolCmd [ZFSListArg, snapDataset snap])]"
  have l: "(snd (exec (host E) ?h1 ZFSVolCmd [ZFSListArg, snapDataset snap]) = None) = (snapDataset snap \<in> set (datasets base ?h1))"
    by (rule listed [OF law])
  show ?thesis
    by (rule exec_cases [of E ?h2 ZFSVolCmd "buildZFSSnapDestroyArgs snap"];
        cases "snd (exec (host E) ?h1 ZFSVolCmd [ZFSListArg, snapDataset snap])")
       (use l run in \<open>auto simp: zfs_DestroySnapshot_def go_simps Let_def split: option.splits\<close>)
qed

lemma destroyVolume_absent:
  assumes law: "lists_truthfully E base" and run: "zfs_DestroyVolume E vol h = (Some None, h')"
  shows "volumePath vol \<notin> set (datasets base h')"
proof -
  let ?h1 = "h @ [EvExec ZFSVolCmd [ZFSListArg, PoolName (Spec vol)] (exec (host E) h ZFSVolCmd [ZFSListArg, PoolName (Spec vol)])]"
  let ?h2 = "?h1 @ [EvExec ZFSVolCmd [ZFSListArg, volumePath vol] (exec (host E) ?h1 ZFSVolCmd [ZFSListArg, volumePath vol])]"
  have pool: "snd (exec (host E) h ZFSVolCmd [ZFSListArg, PoolName (Spec vol)]) = None"
    using run by (auto simp: zfs_DestroyVolume_def go_simps Let_def split: option.splits)
  show ?thesis
  proof (cases "snd (exec (host E) ?h1 ZFSVolCmd [ZFSListArg, volumePath vol])")
    case (Some t)
    then have "volumePath vol \<notin> set (datasets base ?h1)" using listed [OF law] by (metis option.distinct(1))
    with Some pool run show ?thesis
      by (auto simp: zfs_DestroyVolume_def go_simps Let_def)
  next
    case None
    show ?thesis
    proof (rule exec_cases [of E ?h2 ZFSVolCmd "buildVolumeDestroyArgs vol"])
      fix out t
      assume "exec (host E) ?h2 ZFSVolCmd (buildVolumeDestroyArgs vol) = (out, Some t)"
      with None pool run show ?thesis by (auto simp: zfs_DestroyVolume_def go_simps Let_def)
    next
      fix out
      assume ok: "exec (host E) ?h2 ZFSVolCmd (buildVolumeDestroyArgs vol) = (out, None)"
      let ?h3 = "?h2 @ [EvExec ZFSVolCmd (buildVolumeDestroyArgs vol) (out, None)]"
      have gone: "volumePath vol \<notin> set (datasets base ?h3)" by simp
      show ?thesis
      proof (cases "map_of (Labels vol) ZFSSrcVolKey")
        case (Some srcVol)
        then have "h' = snd (zfs_DestroySnapshot E (cloneSnap vol srcVol) ?h3)"
          using None pool ok run
          by (auto simp: zfs_DestroyVolume_def go_simps Let_def split: prod.splits option.splits)
        with gone destroySnapshot_shrinks [of base E "cloneSnap vol srcVol" ?h3] show ?thesis by blast
      qed (use None pool ok run gone in \<open>auto simp: zfs_DestroyVolume_def go_simps Let_def\<close>)
    qed
  qed
qed

lemma destroyVolume_frame:
  assumes there: "d \<in> set (datasets base h)" and out: "\<not> under (volumePath vol) d"
    and snap: "\<And>src. map_of (Labels vol) ZFSSrcVolKey = Some src \<Longrightarrow> d \<noteq> snapDataset (cloneSnap vol src)"
  shows "d \<in> set (datasets base (snd (zfs_DestroyVolume E vol h)))"
proof -
  let ?h1 = "h @ [EvExec ZFSVolCmd [ZFSListArg, PoolName (Spec vol)] (exec (host E) h ZFSVolCmd [ZFSListArg, PoolName (Spec vol)])]"
  let ?h2 = "?h1 @ [EvExec ZFSVolCmd [ZFSListArg, volumePath vol] (exec (host E) ?h1 ZFSVolCmd [ZFSListArg, volumePath vol])]"
  show ?thesis
  proof (rule exec_cases [of E ?h2 ZFSVolCmd "buildVolumeDestroyArgs vol"])
    fix o1 t
    assume "exec (host E) ?h2 ZFSVolCmd (buildVolumeDestroyArgs vol) = (o1, Some t)"
    with there show ?thesis
      by (auto simp: zfs_DestroyVolume_def go_simps Let_def split: option.splits)
  next
    fix o1
    assume ok: "exec (host E) ?h2 ZFSVolCmd (buildVolumeDestroyArgs vol) = (o1, None)"
    let ?h3 = "?h2 @ [EvExec ZFSVolCmd (buildVolumeDestroyArgs vol) (o1, None)]"
    have d3: "d \<in> set (datasets base ?h3)" using there out by simp
    show ?thesis
    proof (cases "map_of (Labels vol) ZFSSrcVolKey")
      case (Some src)
      have "d \<in> set (datasets base (snd (zfs_DestroySnapshot E (cloneSnap vol src) ?h3)))"
        using d3 snap [OF Some] by (rule destroySnapshot_only)
      with Some ok there show ?thesis
        by (auto simp: zfs_DestroyVolume_def go_simps Let_def split: prod.splits option.splits)
    qed (use ok there out in \<open>auto simp: zfs_DestroyVolume_def go_simps Let_def split: option.splits\<close>)
  qed
qed

lemma cloneFrom_present:
  assumes law: "lists_truthfully E base" and run: "cloneFrom E vol h = (Some None, h')"
  shows "volumePath vol \<in> set (datasets base h') \<and> set (datasets base h) \<subseteq> set (datasets base h')"
proof -
  let ?h1 = "h @ [EvExec ZFSVolCmd [ZFSListArg, volumePath vol] (exec (host E) h ZFSVolCmd [ZFSListArg, volumePath vol])]"
  have l: "(snd (exec (host E) h ZFSVolCmd [ZFSListArg, volumePath vol]) = None) = (volumePath vol \<in> set (datasets base h))"
    by (rule listed [OF law])
  show ?thesis
    by (rule exec_cases [of E ?h1 ZFSVolCmd "buildCloneCreateArgs vol"];
        cases "snd (exec (host E) h ZFSVolCmd [ZFSListArg, volumePath vol])")
       (use l run in \<open>auto simp: cloneFrom_def genUUID_def go_simps Let_def split: if_splits\<close>)
qed

lemma createClone_present:
  assumes law: "lists_truthfully E base" and run: "zfs_CreateClone E vol h = (Some None, h')"
  shows "volumePath vol \<in> set (datasets base h')"
    and "map_of (Labels vol) ZFSSrcVolKey = Some src \<Longrightarrow> snapDataset (cloneSnap vol src) \<in> set (datasets base h')"
proof -
  show "volumePath vol \<in> set (datasets base h')"
    using run cloneFrom_present [OF law]
    by (auto simp: zfs_CreateClone_def goBind_def goRet_def split: option.splits prod.splits)
  assume src: "map_of (Labels vol) ZFSSrcVolKey = Some src"
  obtain h1 where h1: "zfs_CreateSnapshot E (cloneSnap vol src) h = (Some None, h1)" "cloneFrom E vol h1 = (Some None, h')"
    using run src by (auto simp: zfs_CreateClone_def goBind_def goRet_def split: option.splits prod.splits)
  show "snapDataset (cloneSnap vol src) \<in> set (datasets base h')"
    using createSnapshot_present [OF law h1(1)] cloneFrom_present [OF law h1(2)] by blast
qed

section \<open>Pipelines\<close>

lemma observeExit_run [go_simps]:
  "observeExit E cmds s h =
     (case exit (host E) h s of
        None \<Rightarrow> (Some [], h @ [EvExit s (fst (cmds s) # snd (cmds s)) None])
      | Some t \<Rightarrow> (Some [EFmt (''zfs: pipe '' @ sideName s @ '' '' @ argv (cmds s) @ '': '') (EApi False t)],
                   h @ [EvExit s (fst (cmds s) # snd (cmds s)) (Some t),
                        EvKill (fst (cmds (other s))) (snd (cmds (other s)))]))"
  by (simp add: observeExit_def waitCmd_def killCmd_def go_simps split: option.split)

lemma other_neq [simp]: "other s \<noteq> s" "s \<noteq> other s" "other (other s) = s"
  by (cases s; simp)+

text \<open>The trace of a pipeline that reports no error.\<close>

lemma runPipe_ok:
  assumes "runPipe E src dst h = (Some (out, None), h')"
  obtains s a b where "h' = h @ [EvPipe None, EvStart (fst src) (snd src) None, EvStart (fst dst) (snd dst) None,
      EvExit s (if s = Source then fst src # snd src else fst dst # snd dst) None,
      EvExit (other s) (if s = Source then fst dst # snd dst else fst src # snd src) None,
      EvBuffers a b]" and "out = a @ b"
proof -
  have "\<exists>s a b. h' = h @ [EvPipe None, EvStart (fst src) (snd src) None, EvStart (fst dst) (snd dst) None,
      EvExit s (if s = Source then fst src # snd src else fst dst # snd dst) None,
      EvExit (other s) (if s = Source then fst dst # snd dst else fst src # snd src) None,
      EvBuffers a b] \<and> out = a @ b"
  proof (cases "firstExit (host E) (h @ [EvPipe None, EvStart (fst src) (snd src) None, EvStart (fst dst) (snd dst) None])")
    case Source
    with assms show ?thesis
      by (auto simp: runPipe_def startCmd_def killCmd_def waitCmd_def readBuffers_def Let_def go_simps
          split: option.splits if_splits intro!: exI [of _ Source])
  next
    case Destination
    with assms show ?thesis
      by (auto simp: runPipe_def startCmd_def killCmd_def waitCmd_def readBuffers_def Let_def go_simps
          split: option.splits if_splits intro!: exI [of _ Destination])
  qed
  then show thesis using that by blast
qed

lemma runPipe_peerKilled:
  assumes "runPipe E src dst h = (Some (out, err), h @ es)"
  shows "peerKilled src dst es"
proof (cases "firstExit (host E) (h @ [EvPipe None, EvStart (fst src) (snd src) None, EvStart (fst dst) (snd dst) None])")
  case Source
  with assms show ?thesis
    by (auto simp: peerKilled_def runPipe_def startCmd_def killCmd_def waitCmd_def readBuffers_def Let_def go_simps
        split: option.splits if_splits)
next
  case Destination
  with assms show ?thesis
    by (auto simp: peerKilled_def runPipe_def startCmd_def killCmd_def waitCmd_def readBuffers_def Let_def go_simps
        split: option.splits if_splits)
qed

lemma runPipe_exits:
  assumes "runPipe E src dst h = (Some (out, None), h @ es)"
  shows "EvExit Source (fst src # snd src) None \<in> set es \<and> EvExit Destination (fst dst # snd dst) None \<in> set es"
proof (rule runPipe_ok [OF assms])
  fix s a b
  assume "h @ es = h @ [EvPipe None, EvStart (fst src) (snd src) None, EvStart (fst dst) (snd dst) None,
      EvExit s (if s = Source then fst src # snd src else fst dst # snd dst) None,
      EvExit (other s) (if s = Source then fst dst # snd dst else fst src # snd src) None, EvBuffers a b]"
  then show ?thesis by (cases s) auto
qed

lemma runPipe_exits_ok:
  assumes "runPipe E src dst h = (Some (out, err), h @ es)"
    and "EvExit Source (fst src # snd src) None \<in> set es" and "EvExit Destination (fst dst # snd dst) None \<in> set es"
  shows "err = None"
proof (cases "firstExit (host E) (h @ [EvPipe None, EvStart (fst src) (snd src) None, EvStart (fst dst) (snd dst) None])")
  case Source
  with assms show ?thesis
    by (auto simp: runPipe_def startCmd_def killCmd_def waitCmd_def readBuffers_def Let_def go_simps
        split: option.splits if_splits)
next
  case Destination
  with assms show ?thesis
    by (auto simp: runPipe_def startCmd_def killCmd_def waitCmd_def readBuffers_def Let_def go_simps
        split: option.splits if_splits)
qed

lemma runPipe_datasets:
  assumes "runPipe E src (NetCatCmd, args) h = (Some (out, None), h')"
  shows "datasets base h' = datasets base h"
proof (rule runPipe_ok [OF assms])
  fix s a b
  assume "h' = h @ [EvPipe None, EvStart (fst src) (snd src) None,
      EvStart (fst (NetCatCmd, args)) (snd (NetCatCmd, args)) None,
      EvExit s (if s = Source then fst src # snd src else fst (NetCatCmd, args) # snd (NetCatCmd, args)) None,
      EvExit (other s) (if s = Source then fst (NetCatCmd, args) # snd (NetCatCmd, args) else fst src # snd src) None,
      EvBuffers a b]"
  then show ?thesis by (cases s) auto
qed

lemma GetZFSVolume_event:
  assumes "GetZFSVolume E name h = (Some (Inr vol), h')"
  shows "EvVol (KGet (OpenEBSNamespace E) name (Inr vol)) \<in> set h'"
  using assms vk.Get_answer [of E name "ownClient E" h vol]
  by (auto simp: GetZFSVolume_def vol_Get_def asOwn_run split: prod.splits option.splits)

lemma truthEnv_law: "lists_truthfully (truthEnv base) base"
  by (simp add: lists_truthfully_def truthEnv_def)

lemmas demo_simps = truthEnv_def quiet_defs demoVol_def emptyVolume_def emptyInfo_def volumePath_def
  zfs_CreateVolume_def go_simps Let_def datasets_def buildDatasetCreateArgs_def buildVolumeDestroyArgs_def
  ifSet_def propOpts_def quotaProperty_def snapDataset_def

lemma createBackup_sound:
  assumes law: "lists_truthfully E base"
    and run: "zfs_CreateBackup E bkp h = (Some None, h')"
  shows "\<exists>vol sendArgs ncArgs.
    EvVol (KGet (OpenEBSNamespace E) (BkpVolumeName (BkpSpec bkp)) (Inr vol)) \<in> set h' \<and>
    snapDataset (bkpSnap bkp vol) \<in> set (datasets base h') \<and>
    buildVolumeBackupArgs bkp vol = Inr (sendArgs, ncArgs) \<and>
    EvExit Source (ZFSVolCmd # sendArgs) None \<in> set h' \<and>
    EvExit Destination (NetCatCmd # ncArgs) None \<in> set h'"
proof -
  obtain vol h1 h2 where g: "GetZFSVolume E (BkpVolumeName (BkpSpec bkp)) h = (Some (Inr vol), h1)"
    and s: "zfs_CreateSnapshot E (bkpSnap bkp vol) h1 = (Some None, h2)"
    and rest: "(case buildVolumeBackupArgs bkp vol of Inl e \<Rightarrow> goRet (Some e) | Inr (sendArgs, ncArgs) \<Rightarrow>
        goBind (runPipe E (ZFSVolCmd, sendArgs) (NetCatCmd, ncArgs)) (\<lambda>(out, err).
        goRet (NewZFSError ''zfs send (backup)'' (volumePath vol) err out))) h2 = (Some None, h')"
    using run by (auto simp: zfs_CreateBackup_def goBind_def goRet_def split: prod.splits option.splits sum.splits)
  obtain sendArgs ncArgs out where args: "buildVolumeBackupArgs bkp vol = Inr (sendArgs, ncArgs)"
    and p: "runPipe E (ZFSVolCmd, sendArgs) (NetCatCmd, ncArgs) h2 = (Some (out, None), h')"
    using rest by (auto simp: goBind_def goRet_def split: prod.splits option.splits sum.splits)
  obtain es where es: "h' = h2 @ es" using only_snd [OF only_runPipe p] by blast
  have snap: "snapDataset (bkpSnap bkp vol) \<in> set (datasets base h2)" by (rule createSnapshot_present [OF law s])
  have fetched: "EvVol (KGet (OpenEBSNamespace E) (BkpVolumeName (BkpSpec bkp)) (Inr vol)) \<in> set h1"
    by (rule GetZFSVolume_event [OF g])
  obtain fs where "h2 = h1 @ fs" using only_snd [OF only_onNode(2) s] by blast
  then have "EvVol (KGet (OpenEBSNamespace E) (BkpVolumeName (BkpSpec bkp)) (Inr vol)) \<in> set h'"
    using fetched es by simp
  moreover have "snapDataset (bkpSnap bkp vol) \<in> set (datasets base h')"
    using snap runPipe_datasets [OF p] by simp
  moreover have "EvExit Source (ZFSVolCmd # sendArgs) None \<in> set es \<and> EvExit Destination (NetCatCmd # ncArgs) None \<in> set es"
    using runPipe_exits [OF p [unfolded es]] by simp
  ultimately show ?thesis using args es by auto
qed

section \<open>Properties\<close>

text \<open>C9: Creating a volume is idempotent: after \<open>CreateVolume\<close> succeeds the dataset is there, and running it
  again for the same object only looks the dataset up and creates nothing.\<close>
theorem create_idempotent:
  assumes law: "lists_truthfully E base"
    and run: "zfs_CreateVolume E vol h = (Some None, h')"
  shows "volumePath vol \<in> set (datasets base h') \<and>
    (\<exists>out. zfs_CreateVolume E vol h' = (Some None, h' @ [EvExec ZFSVolCmd [ZFSListArg, volumePath vol] (out, None)]))"
proof -
  have present: "volumePath vol \<in> set (datasets base h')" by (rule createVolume_present [OF law run])
  then have "snd (exec (host E) h' ZFSVolCmd [ZFSListArg, volumePath vol]) = None" using listed [OF law] by blast
  then show ?thesis using present
    by (cases "exec (host E) h' ZFSVolCmd [ZFSListArg, volumePath vol]")
       (simp add: zfs_CreateVolume_def go_simps Let_def)
qed

theorem create_idempotent_witness:
  "let E = truthEnv [''pool'']; h' = snd (zfs_CreateVolume E demoVol []) in
   volumePath demoVol \<in> set (datasets [''pool''] h') \<and>
   (\<exists>out. zfs_CreateVolume E demoVol h' =
      (Some None, h' @ [EvExec ZFSVolCmd [ZFSListArg, volumePath demoVol] (out, None)]))"
  unfolding Let_def
  by (rule create_idempotent [OF truthEnv_law, where h = "[]"]) (simp add: demo_simps)

text \<open>C6: Destroying a volume removes exactly what it should: after \<open>DestroyVolume\<close> succeeds the dataset is gone,
  and everything is left alone that is not the dataset, below it or a snapshot of it, except the snapshot the
  volume was cloned from when its source is another volume.\<close>
theorem destroy_exact:
  assumes law: "lists_truthfully E base"
    and run: "zfs_DestroyVolume E vol h = (Some None, h')"
  shows "volumePath vol \<notin> set (datasets base h') \<and>
    (\<forall>d \<in> set (datasets base h). \<not> under (volumePath vol) d \<and>
        (\<forall>src. map_of (Labels vol) ZFSSrcVolKey = Some src \<longrightarrow> d \<noteq> snapDataset (cloneSnap vol src))
      \<longrightarrow> d \<in> set (datasets base h'))"
proof -
  have "h' = snd (zfs_DestroyVolume E vol h)" using run by simp
  then show ?thesis using destroyVolume_absent [OF law run] destroyVolume_frame [of _ base h vol E] by blast
qed

theorem destroy_exact_witness:
  "let E = truthEnv [''pool'', ''pool/v1'', ''pool/v1@s'', ''pool/v10'']; base = [''pool'', ''pool/v1'', ''pool/v1@s'', ''pool/v10''];
       h' = snd (zfs_DestroyVolume E demoVol []) in
   volumePath demoVol \<notin> set (datasets base h') \<and> ''pool/v10'' \<in> set (datasets base h')"
proof -
  let ?base = "[''pool'', ''pool/v1'', ''pool/v1@s'', ''pool/v10'']"
  have "zfs_DestroyVolume (truthEnv ?base) demoVol [] = (Some None, snd (zfs_DestroyVolume (truthEnv ?base) demoVol []))"
    by (simp add: demo_simps zfs_DestroyVolume_def)
  note exact = destroy_exact [OF truthEnv_law this]
  show ?thesis unfolding Let_def
    using exact by (auto simp: datasets_def under_def demoVol_def volumePath_def emptyVolume_def)
qed

text \<open>After \<open>CreateClone\<close> succeeds the clone is there, and so is the snapshot of the source volume it was made
  from when the source is a volume.\<close>
lemma clone_present:
  assumes law: "lists_truthfully E base"
    and run: "zfs_CreateClone E vol h = (Some None, h')"
  shows "volumePath vol \<in> set (datasets base h') \<and>
    (\<forall>src. map_of (Labels vol) ZFSSrcVolKey = Some src \<longrightarrow> snapDataset (cloneSnap vol src) \<in> set (datasets base h'))"
  using createClone_present [OF law run] by blast

text \<open>C10: \<open>runPipe\<close> reports success exactly if both children started and both exited successfully, and whenever one
  of them fails the other one is killed, so no child is left running on its own.\<close>
theorem runPipe_all_or_nothing:
  assumes run: "runPipe E src dst h = (Some (out, err), h @ es)"
  shows "(err = None \<longleftrightarrow> EvExit Source (fst src # snd src) None \<in> set es \<and>
             EvExit Destination (fst dst # snd dst) None \<in> set es) \<and> peerKilled src dst es"
proof
  show "peerKilled src dst es" by (rule runPipe_peerKilled [OF run])
  show "err = None \<longleftrightarrow> EvExit Source (fst src # snd src) None \<in> set es \<and>
             EvExit Destination (fst dst # snd dst) None \<in> set es"
  proof
    assume "err = None"
    with run have "runPipe E src dst h = (Some (out, None), h @ es)" by simp
    then show "EvExit Source (fst src # snd src) None \<in> set es \<and> EvExit Destination (fst dst # snd dst) None \<in> set es"
      by (rule runPipe_exits)
  next
    assume "EvExit Source (fst src # snd src) None \<in> set es \<and> EvExit Destination (fst dst # snd dst) None \<in> set es"
    then show "err = None" using runPipe_exits_ok [OF run] by blast
  qed
qed

theorem runPipe_all_or_nothing_witness:
  "let E = quietEnv\<lparr> host := quietHost\<lparr> exit := (\<lambda>h s. if s = Source then Some ''exit status 1'' else None) \<rparr> \<rparr>;
       r = runPipe E (''zfs'', [''send'']) (''nc'', []) []
   in \<exists>out err. fst r = Some (out, err) \<and> err \<noteq> None \<and> peerKilled (''zfs'', [''send'']) (''nc'', []) (snd r)"
proof -
  let ?E = "quietEnv\<lparr> host := quietHost\<lparr> exit := (\<lambda>h s. if s = Source then Some ''exit status 1'' else None) \<rparr> \<rparr>"
  let ?r = "runPipe ?E (''zfs'', [''send'']) (''nc'', []) []"
  obtain out err where run: "?r = (Some (out, err), [] @ snd ?r)"
    by (simp add: runPipe_def startCmd_def killCmd_def waitCmd_def readBuffers_def go_simps Let_def quiet_defs)
  have "EvExit Source [''zfs'', ''send''] None \<notin> set (snd ?r)"
    by (simp add: runPipe_def startCmd_def killCmd_def waitCmd_def readBuffers_def go_simps Let_def quiet_defs)
  with runPipe_all_or_nothing [OF run] have "err \<noteq> None \<and> peerKilled (''zfs'', [''send'']) (''nc'', []) (snd ?r)" by auto
  moreover have "fst ?r = Some (out, err)" using run by (metis fst_conv)
  ultimately show ?thesis unfolding Let_def by blast
qed

text \<open>C15: A backup that reports success has the snapshot it was asked for on the node, and both the \<open>zfs send\<close> of that
  snapshot and the transfer to the backup server exited successfully.\<close>
theorem backup_sound:
  assumes law: "lists_truthfully E base"
    and run: "zfs_CreateBackup E bkp h = (Some None, h')"
  shows "\<exists>vol sendArgs ncArgs.
    EvVol (KGet (OpenEBSNamespace E) (BkpVolumeName (BkpSpec bkp)) (Inr vol)) \<in> set h' \<and>
    snapDataset (bkpSnap bkp vol) \<in> set (datasets base h') \<and>
    buildVolumeBackupArgs bkp vol = Inr (sendArgs, ncArgs) \<and>
    EvExit Source (ZFSVolCmd # sendArgs) None \<in> set h' \<and>
    EvExit Destination (NetCatCmd # ncArgs) None \<in> set h'"
  by (rule createBackup_sound [OF law run])

theorem backup_sound_witness:
  "let E = demoBkpEnv; h' = snd (zfs_CreateBackup E demoBkp [])
   in \<exists>vol. EvVol (KGet ''openebs'' ''v1'' (Inr vol)) \<in> set h' \<and> snapDataset (bkpSnap demoBkp vol) \<in> set (datasets [''pool/v1''] h')"
proof -
  have run: "zfs_CreateBackup demoBkpEnv demoBkp [] = (Some None, snd (zfs_CreateBackup demoBkpEnv demoBkp []))"
    by (simp add: demoBkpEnv_def demoBkp_def zfs_CreateBackup_def GetZFSVolume_def vol_Get_def kube_Get_def volKind_def
        apiAnswer_def emptyBackup_def bkpSnap_def emptySnapshot_def mget_def zfs_CreateSnapshot_def buildVolumeBackupArgs_def
        buildZFSSnapCreateArgs_def runPipe_def startCmd_def waitCmd_def killCmd_def readBuffers_def demo_simps)
  have "lists_truthfully demoBkpEnv [''pool/v1'']"
    by (simp add: demoBkpEnv_def lists_truthfully_def truthEnv_def)
  from backup_sound [OF this run] show ?thesis
    unfolding Let_def by (auto simp: demoBkp_def demoBkpEnv_def truthEnv_def quiet_defs)
qed

end
