(* ===== verification/WorkQueue.thy ===== *)
theory WorkQueue
  imports World
begin

text \<open>
  What the five controllers of \<open>pkg/mgmt\<close> share: the loop that takes keys off a rate-limited work
  queue (\<open>processNextWorkItem\<close>, \<open>runWorker\<close>), the objects an informer hands to an event handler,
  and the Kubernetes events of \<open>pkg/zfs/events.go\<close>. The work queue itself is client-go's; its calls
  are entries of the trace.

  The locale \<open>reconciler\<close> is the interface between the loop and a controller: a handler that does
  not touch the queue. Each controller is shown to be one, and inherits the loop's bookkeeping.
\<close>

section \<open>Definitions\<close>

definition maxEventMessageLen :: nat where
  "maxEventMessageLen = 1024"

definition truncateEventMessage :: "string \<Rightarrow> string" where
  "truncateEventMessage msg =
     (if length msg \<le> maxEventMessageLen then msg else take (maxEventMessageLen - 3) msg @ ''...'')"

definition EmitFailureEvent :: "env \<Rightarrow> string \<Rightarrow> string \<Rightarrow> string \<Rightarrow> gerror option \<Rightarrow> unit go" where
  "EmitFailureEvent E kind name reason err =
     (case err of
        None \<Rightarrow> goRet ()
      | Some e \<Rightarrow> goEmit (EvRecord kind name ''Warning'' reason (truncateEventMessage (errText (lib E) e))))"

definition EmitSuccessEvent :: "string \<Rightarrow> string \<Rightarrow> string \<Rightarrow> string \<Rightarrow> unit go" where
  "EmitSuccessEvent kind name reason message =
     goEmit (EvRecord kind name ''Normal'' reason (truncateEventMessage message))"

text \<open>
  What an informer passes to a handler: an object of the expected type, the tombstone of an object
  (of the expected type or not), or something else.
\<close>

datatype 'o informerObj = Obj 'o | Tombstone "'o option" | OtherObj

definition couldnt :: "string \<Rightarrow> string" where
  "couldnt what = ''Couldn'' @ [CHR 0x27] @ ''t get '' @ what"

definition qAdd :: "string \<Rightarrow> unit go" where
  "qAdd key = goEmit (EvQAdd key)"

text \<open>
  One work item. A key whose handling fails goes back on the queue with a delay, one that succeeds
  or is no string is forgotten; the item is marked done in every case.
\<close>

definition processNextWorkItem :: "env \<Rightarrow> (string \<Rightarrow> gerror option go) \<Rightarrow> bool go" where
  "processNextWorkItem E syncHandler =
     goBind (goCall (\<lambda>h. qGet (cluster E) h) EvQGet) (\<lambda>item. case item of
       QShutdown \<Rightarrow> goRet False
     | QOther \<Rightarrow>
         goBind (goEmit (EvQForget item)) (\<lambda>_.
         goBind (HandleError ''expected string in workqueue'') (\<lambda>_.
         goBind (goEmit (EvQDone item)) (\<lambda>_. goRet True)))
     | QKey key \<Rightarrow> goBind (syncHandler key) (\<lambda>err. case err of
         Some e \<Rightarrow>
           goBind (goEmit (EvQAddRateLimited key)) (\<lambda>_.
           goBind (goEmit (EvQDone item)) (\<lambda>_.
           goBind (HandleError (''error syncing '' @ squote key @ '': '' @ errText (lib E) e @ '', requeuing''))
             (\<lambda>_. goRet True)))
       | None \<Rightarrow>
           goBind (goEmit (EvQForget item)) (\<lambda>_.
           goBind (goEmit (EvQDone item)) (\<lambda>_. goRet True))))"

fun runWorker :: "nat \<Rightarrow> env \<Rightarrow> (string \<Rightarrow> gerror option go) \<Rightarrow> unit go" where
  "runWorker 0 E syncHandler = goStop (EvWait ''work queue'')"
| "runWorker (Suc n) E syncHandler =
     goBind (processNextWorkItem E syncHandler) (\<lambda>more.
       if more then runWorker n E syncHandler else goRet ())"

section \<open>Rules\<close>

fun onQueue :: "event \<Rightarrow> bool" where
  "onQueue (EvQGet _) = True"
| "onQueue (EvQAdd _) = True"
| "onQueue (EvQAddRateLimited _) = True"
| "onQueue (EvQForget _) = True"
| "onQueue (EvQDone _) = True"
| "onQueue _ = False"

text \<open>
  How a trace leaves the queue: an item taken is outstanding until it is marked done, and each one
  taken is either forgotten or put back.
\<close>

fun taken :: "event \<Rightarrow> qitem list" where
  "taken (EvQGet QShutdown) = []"
| "taken (EvQGet i) = [i]"
| "taken _ = []"

fun settled :: "event \<Rightarrow> qitem list" where
  "settled (EvQForget i) = [i]"
| "settled (EvQAddRateLimited k) = [QKey k]"
| "settled _ = []"

fun finished :: "event \<Rightarrow> qitem list" where
  "finished (EvQDone i) = [i]"
| "finished _ = []"

definition tally :: "(event \<Rightarrow> qitem list) \<Rightarrow> event list \<Rightarrow> qitem list" where
  "tally f es = concat (map f es)"

lemma truncateEventMessage_length: "length (truncateEventMessage msg) \<le> 1024"
  by (simp add: truncateEventMessage_def maxEventMessageLen_def)

lemma truncateEventMessage_id: "length msg \<le> 1024 \<Longrightarrow> truncateEventMessage msg = msg"
  by (simp add: truncateEventMessage_def maxEventMessageLen_def)

lemma truncateEventMessage_prefix: "prefix (take 1021 msg) (truncateEventMessage msg)"
  by (auto simp: truncateEventMessage_def maxEventMessageLen_def take_is_prefix)

lemma EmitFailureEvent_run [go_simps]:
  "EmitFailureEvent E kind name reason (Some e) h =
     (Some (), h @ [EvRecord kind name ''Warning'' reason (truncateEventMessage (errText (lib E) e))])"
  by (simp add: EmitFailureEvent_def go_simps)

lemma EmitSuccessEvent_run [go_simps]:
  "EmitSuccessEvent kind name reason msg h =
     (Some (), h @ [EvRecord kind name ''Normal'' reason (truncateEventMessage msg)])"
  by (simp add: EmitSuccessEvent_def go_simps)

lemma only_EmitFailureEvent [only_rules]:
  "(\<And>m. length m \<le> 1024 \<Longrightarrow> P (EvRecord kind name ''Warning'' reason m)) \<Longrightarrow>
   only P (EmitFailureEvent E kind name reason err)"
  unfolding EmitFailureEvent_def by (intro only_rules) (simp add: truncateEventMessage_length)

lemma only_EmitSuccessEvent [only_rules]:
  "(\<And>m. length m \<le> 1024 \<Longrightarrow> P (EvRecord kind name ''Normal'' reason m)) \<Longrightarrow>
   only P (EmitSuccessEvent kind name reason msg)"
  unfolding EmitSuccessEvent_def by (intro only_rules) (simp add: truncateEventMessage_length)

lemma returns_Emit [returns_rules]:
  "always_returns (EmitFailureEvent E kind name reason err)"
  "always_returns (EmitSuccessEvent kind name reason msg)"
  unfolding EmitFailureEvent_def EmitSuccessEvent_def by (intro returns_rules)+

lemma only_qitem [only_rules]:
  "(i = QShutdown \<Longrightarrow> only P a) \<Longrightarrow> (\<And>k. i = QKey k \<Longrightarrow> only P (b k)) \<Longrightarrow> (i = QOther \<Longrightarrow> only P c) \<Longrightarrow>
   only P (case i of QShutdown \<Rightarrow> a | QKey k \<Rightarrow> b k | QOther \<Rightarrow> c)"
  by (cases i) simp_all

lemma only_informerObj [only_rules]:
  "(\<And>x. i = Obj x \<Longrightarrow> only P (a x)) \<Longrightarrow> (\<And>t. i = Tombstone t \<Longrightarrow> only P (b t)) \<Longrightarrow> (i = OtherObj \<Longrightarrow> only P c) \<Longrightarrow>
   only P (case i of Obj x \<Rightarrow> a x | Tombstone t \<Rightarrow> b t | OtherObj \<Rightarrow> c)"
  by (cases i) simp_all

lemma only_qAdd [only_rules]: "P (EvQAdd key) \<Longrightarrow> only P (qAdd key)"
  unfolding qAdd_def by (intro only_rules)

lemma tally_append [simp]: "tally f (xs @ ys) = tally f xs @ tally f ys"
  by (simp add: tally_def)

lemma tally_Nil [simp]: "tally f [] = []"
  by (simp add: tally_def)

lemma tally_Cons [simp]: "tally f (x # xs) = f x @ tally f xs"
  by (simp add: tally_def)

lemma tally_offQueue:
  assumes "list_all (\<lambda>e. \<not> onQueue e) es"
  shows "tally taken es = [] \<and> tally settled es = [] \<and> tally finished es = []"
  using assms
proof (induction es)
  case (Cons e es)
  then show ?case by (cases e) auto
qed simp

text \<open>A handler that leaves the queue alone.\<close>

locale reconciler =
  fixes E :: env and syncHandler :: "string \<Rightarrow> gerror option go"
  assumes off_queue: "only (\<lambda>e. \<not> onQueue e) (syncHandler key)"
begin

lemma handler_extends:
  assumes "syncHandler key h = (r, h')"
  obtains es where "h' = h @ es" "tally taken es = []" "tally settled es = []" "tally finished es = []"
proof -
  obtain es where "h' = h @ es" "list_all (\<lambda>e. \<not> onQueue e) es" by (rule only_snd [OF off_queue assms])
  then show ?thesis using that tally_offQueue by blast
qed

text \<open>
  An item that is taken is settled once and marked done once, and it is put back exactly if the
  handler failed.
\<close>

lemma item_accounted:
  assumes "processNextWorkItem E syncHandler h = (Some cont, h')"
  shows "\<exists>es. h' = h @ es \<and> tally settled es = tally taken es \<and> tally finished es = tally taken es \<and>
              (cont \<longleftrightarrow> tally taken es \<noteq> [])"
proof (cases "qGet (cluster E) h")
  case QShutdown
  with assms show ?thesis by (auto simp: processNextWorkItem_def go_simps)
next
  case QOther
  with assms show ?thesis by (auto simp: processNextWorkItem_def go_simps)
next
  case (QKey key)
  let ?h1 = "h @ [EvQGet (QKey key)]"
  obtain r h1 where r: "syncHandler key ?h1 = (r, h1)" by fastforce
  obtain es where es: "h1 = ?h1 @ es" "tally taken es = []" "tally settled es = []" "tally finished es = []"
    by (rule handler_extends [OF r])
  show ?thesis using assms QKey r es
    by (auto simp: processNextWorkItem_def go_simps split: option.splits)
qed

lemma requeued_iff:
  assumes "qGet (cluster E) h = QKey key" and "syncHandler key (h @ [EvQGet (QKey key)]) = (Some err, h1)"
  shows "\<exists>es. snd (processNextWorkItem E syncHandler h) = h1 @ es \<and>
     (EvQAddRateLimited key \<in> set es \<longleftrightarrow> err \<noteq> None) \<and> (EvQForget (QKey key) \<in> set es \<longleftrightarrow> err = None)"
  using assms by (cases err) (auto simp: processNextWorkItem_def go_simps)

text \<open>The same over the whole life of a worker: when it returns, nothing it took is outstanding.\<close>

lemma worker_accounted:
  assumes "runWorker n E syncHandler h = (Some (), h')"
  shows "\<exists>es. h' = h @ es \<and> tally settled es = tally taken es \<and> tally finished es = tally taken es"
  using assms
proof (induction n arbitrary: h)
  case 0
  then show ?case by (simp add: go_simps)
next
  case (Suc n)
  then obtain cont h1 where step: "processNextWorkItem E syncHandler h = (Some cont, h1)"
    and rest: "(if cont then runWorker n E syncHandler else goRet ()) h1 = (Some (), h')"
    by (auto simp: goBind_def split: prod.splits option.splits)
  obtain es where es: "h1 = h @ es" "tally settled es = tally taken es" "tally finished es = tally taken es"
    using item_accounted [OF step] by blast
  show ?case
  proof (cases cont)
    case True
    with rest Suc.IH obtain fs where "h' = h1 @ fs" "tally settled fs = tally taken fs" "tally finished fs = tally taken fs"
      by (metis (full_types))
    with es show ?thesis by (intro exI [of _ "es @ fs"]) simp
  next
    case False
    with rest es show ?thesis by (auto simp: go_simps)
  qed
qed

end

end
