(* ===== verification/Reconcilers.thy ===== *)
theory Reconcilers
  imports Datasets WorkQueue
begin

text \<open>
  The node agent's controllers for volumes, snapshots, backups and restores (\<open>pkg/mgmt/volume\<close>,
  \<open>snapshot\<close>, \<open>backup\<close>, \<open>restore\<close>): what brings the node in line with an object (\<open>sync...\<close>), the
  handler of a queue key, the event handlers that decide what is queued, and the worker. Start-up
  (informers, caches, goroutines) is not modelled. The object a handler works on is a copy, so its
  changes reach the cluster only through updates.
\<close>

section \<open>Shared parts\<close>

definition isDeletionCandidate :: "'a ObjectMeta_scheme \<Rightarrow> bool" where
  "isDeletionCandidate obj \<longleftrightarrow> DeletionTimestamp obj \<noteq> None"

definition finList :: "string list \<Rightarrow> string" where
  "finList fs = ''['' @ joinWith '' '' fs @ '']''"

text \<open>The handler of a key: look the object up in the informer's cache and sync it.\<close>

definition syncKey :: "env \<Rightarrow> 'a ObjectMeta_scheme kind \<Rightarrow> string \<Rightarrow> ('a ObjectMeta_scheme \<Rightarrow> gerror option go)
    \<Rightarrow> string \<Rightarrow> gerror option go" where
  "syncKey E K what sync key =
     (case splitKey (lib E) key of
        None \<Rightarrow> goBind (HandleError (''invalid resource key: '' @ key)) (\<lambda>_. goRet None)
      | Some (ns, name) \<Rightarrow>
          goBind (goCall (\<lambda>h. apiCached (kApi K (cluster E)) h ns name) (\<lambda>r. kEv K (KCached ns name r))) (\<lambda>r.
          case r of
            Inl e \<Rightarrow>
              if IsNotFound (lib E) (extErr e)
              then goBind (HandleError (what @ '' '' @ squote key @ '' has been deleted'')) (\<lambda>_. goRet None)
              else goRet (Some (extErr e))
          | Inr obj \<Rightarrow> sync obj))"

definition enqueueObj :: "env \<Rightarrow> 'a ObjectMeta_scheme \<Rightarrow> unit go" where
  "enqueueObj E obj = qAdd (metaKey (lib E) (Namespace obj) (Name obj))"

section \<open>Volumes\<close>

text \<open>The deletion branch of \<open>syncZV\<close> once no user finalizer is left.\<close>

definition destroyZV :: "env \<Rightarrow> ZFSVolume \<Rightarrow> gerror option go" where
  "destroyZV E zv =
     goBind (zfs_DestroyVolume E zv) (\<lambda>err. case err of
       None \<Rightarrow>
         goBind (EmitSuccessEvent ''ZFSVolume'' (Name zv) ''Destroyed'' ''volume destroyed'') (\<lambda>_.
         RemoveVolumeFinalizer E zv)
     | Some e \<Rightarrow>
         goBind (EmitFailureEvent E ''ZFSVolume'' (Name zv) ''DestroyFailed'' (Some e)) (\<lambda>_. goRet (Some e)))"

text \<open>The branch that creates the volume or clones it from a snapshot.\<close>

definition provisionZV :: "env \<Rightarrow> ZFSVolume \<Rightarrow> gerror option go" where
  "provisionZV E zv =
     (let clone = length (SnapName (Spec zv)) > 0 in
      goBind (if clone then zfs_CreateClone E zv else zfs_CreateVolume E zv) (\<lambda>err. case err of
        None \<Rightarrow>
          goBind (if clone
                  then EmitSuccessEvent ''ZFSVolume'' (Name zv) ''Cloned'' (''clone created from '' @ SnapName (Spec zv))
                  else EmitSuccessEvent ''ZFSVolume'' (Name zv) ''Provisioned'' ''volume provisioned'') (\<lambda>_.
          UpdateZvolInfo E zv ZFSStatusReady)
      | Some e \<Rightarrow>
          goBind (EmitFailureEvent E ''ZFSVolume'' (Name zv)
                    (if clone then ''CloneFailed'' else ''ProvisionFailed'') (Some e)) (\<lambda>_.
          UpdateZvolInfo E zv ZFSStatusFailed)))"

definition syncZV :: "env \<Rightarrow> ZFSVolume \<Rightarrow> gerror option go" where
  "syncZV E zv =
     (if isDeletionCandidate zv then
        (let userFin = GetUserFinalizers (Finalizers zv) in
         if length userFin = 0 then destroyZV E zv
         else goRet (Some (EText (''volume: can not destroy, waiting for finalizers to be removed ''
                                  @ finList userFin))))
      else (case Validate (Spec zv) of
        Some e \<Rightarrow> goRet (Some (EFmt ''volume is invalid: '' e))
      | None \<Rightarrow>
          if IsVolumeReady zv then
            goBind (SetVolumeProp E zv) (\<lambda>err. case err of
              Some e \<Rightarrow>
                goBind (EmitFailureEvent E ''ZFSVolume'' (Name zv) ''SetPropertyFailed'' (Some e)) (\<lambda>_.
                goRet (Some e))
            | None \<Rightarrow> goRet None)
          else provisionZV E zv))"

section \<open>Snapshots\<close>

definition destroySnap :: "env \<Rightarrow> ZFSSnapshot \<Rightarrow> gerror option go" where
  "destroySnap E snap =
     goBind (zfs_DestroySnapshot E snap) (\<lambda>err. case err of
       None \<Rightarrow>
         goBind (EmitSuccessEvent ''ZFSSnapshot'' (Name snap) ''SnapshotDestroyed'' ''snapshot destroyed'') (\<lambda>_.
         RemoveSnapFinalizer E snap)
     | Some e \<Rightarrow>
         goBind (EmitFailureEvent E ''ZFSSnapshot'' (Name snap) ''SnapshotDestroyFailed'' (Some e)) (\<lambda>_.
         goRet (Some e)))"

definition takeSnap :: "env \<Rightarrow> ZFSSnapshot \<Rightarrow> gerror option go" where
  "takeSnap E snap =
     goBind (zfs_CreateSnapshot E snap) (\<lambda>err. case err of
       None \<Rightarrow>
         goBind (EmitSuccessEvent ''ZFSSnapshot'' (Name snap) ''Snapshotted'' ''snapshot created'') (\<lambda>_.
         UpdateSnapInfo E snap)
     | Some e \<Rightarrow>
         goBind (EmitFailureEvent E ''ZFSSnapshot'' (Name snap) ''SnapshotFailed'' (Some e)) (\<lambda>_. goRet (Some e)))"

definition syncSnap :: "env \<Rightarrow> ZFSSnapshot \<Rightarrow> gerror option go" where
  "syncSnap E snap =
     (if isDeletionCandidate snap then
        (let userFin = GetUserFinalizers (Finalizers snap) in
         if length userFin = 0 then destroySnap E snap
         else goRet (Some (EText (''snapshot: can not destroy, waiting for finalizers to be removed ''
                                  @ finList userFin))))
      else (case Validate (SnapSpec snap) of
        Some e \<Rightarrow> goRet (Some (EFmt ''snapshot is invalid: '' e))
      | None \<Rightarrow> if SnapState snap \<noteq> ZFSStatusReady then takeSnap E snap else goRet None))"

section \<open>Backups\<close>

definition syncBkp :: "env \<Rightarrow> ZFSBackup \<Rightarrow> gerror option go" where
  "syncBkp E bkp =
     (if isDeletionCandidate bkp then
        goBind (DestoryBackup E bkp) (\<lambda>err. case err of
          None \<Rightarrow> RemoveBkpFinalizer E bkp
        | Some e \<Rightarrow>
            goBind (EmitFailureEvent E ''ZFSBackup'' (Name bkp) ''DestroyFailed'' (Some e)) (\<lambda>_. goRet (Some e)))
      else if BkpStatus bkp = BKPZFSStatusInit then
        goBind (zfs_CreateBackup E bkp) (\<lambda>err. case err of
          None \<Rightarrow>
            goBind (EmitSuccessEvent ''ZFSBackup'' (Name bkp) ''BackupCompleted'' ''backup completed'') (\<lambda>_.
            UpdateBkpInfo E bkp BKPZFSStatusDone)
        | Some e \<Rightarrow>
            goBind (EmitFailureEvent E ''ZFSBackup'' (Name bkp) ''BackupFailed'' (Some e)) (\<lambda>_.
            UpdateBkpInfo E bkp BKPZFSStatusFailed))
      else goRet None)"

section \<open>Restores\<close>

definition syncRestore :: "env \<Rightarrow> ZFSRestore \<Rightarrow> gerror option go" where
  "syncRestore E rstr =
     (if \<not> isDeletionCandidate rstr \<and> RstrStatus rstr = RSTZFSStatusInit then
        goBind (zfs_CreateRestore E rstr) (\<lambda>(err, rstr'). case err of
          None \<Rightarrow>
            goBind (EmitSuccessEvent ''ZFSRestore'' (Name rstr') ''RestoreCompleted'' ''restore completed'') (\<lambda>_.
            UpdateRestoreInfo E rstr' RSTZFSStatusDone)
        | Some e \<Rightarrow>
            goBind (EmitFailureEvent E ''ZFSRestore'' (Name rstr') ''RestoreFailed'' (Some e)) (\<lambda>_.
            UpdateRestoreInfo E rstr' RSTZFSStatusFailed))
      else goRet None)"

section \<open>Handlers and workers\<close>

definition ZV_syncHandler :: "env \<Rightarrow> string \<Rightarrow> gerror option go" where
  "ZV_syncHandler E key = syncKey E volKind ''zfsvolume'' (syncZV E) key"

definition enqueueZV :: "env \<Rightarrow> ZFSVolume \<Rightarrow> unit go" where
  "enqueueZV E obj = enqueueObj E obj"

definition addZV :: "env \<Rightarrow> ZFSVolume informerObj \<Rightarrow> unit go" where
  "addZV E obj =
     (case obj of
        Obj zv \<Rightarrow> if NodeID E \<noteq> OwnerNodeID (Spec zv) then goRet () else enqueueZV E zv
      | _ \<Rightarrow> HandleError (couldnt ''zv object''))"

text \<open>An old object of another type would be a nil pointer in the comparison.\<close>

definition updateZV :: "env \<Rightarrow> ZFSVolume informerObj \<Rightarrow> ZFSVolume informerObj \<Rightarrow> unit go" where
  "updateZV E oldObj newObj =
     (case newObj of
        Obj newZV \<Rightarrow>
          if NodeID E \<noteq> OwnerNodeID (Spec newZV) then goRet ()
          else (case oldObj of
            Obj oldZV \<Rightarrow>
              if PropertyChanged oldZV newZV \<or> isDeletionCandidate newZV \<or> State newZV = ZFSStatusPending
              then enqueueZV E newZV else goRet ()
          | _ \<Rightarrow> goPanic ''nil pointer dereference'')
      | _ \<Rightarrow> HandleError (couldnt ''zv object''))"

definition deleteZV :: "env \<Rightarrow> ZFSVolume informerObj \<Rightarrow> unit go" where
  "deleteZV E obj =
     (let handle = (\<lambda>zv. if NodeID E \<noteq> OwnerNodeID (Spec zv) then goRet () else enqueueZV E zv)
      in case obj of
           Obj zv \<Rightarrow> handle zv
         | Tombstone (Some zv) \<Rightarrow> handle zv
         | Tombstone None \<Rightarrow> HandleError ''Tombstone contained object that is not a zfsvolume''
         | OtherObj \<Rightarrow> HandleError (couldnt ''object from tombstone''))"

definition ZV_processNextWorkItem :: "env \<Rightarrow> bool go" where
  "ZV_processNextWorkItem E = processNextWorkItem E (ZV_syncHandler E)"

definition ZV_runWorker :: "env \<Rightarrow> unit go" where
  "ZV_runWorker E = runWorker (polls E) E (ZV_syncHandler E)"

definition Snap_syncHandler :: "env \<Rightarrow> string \<Rightarrow> gerror option go" where
  "Snap_syncHandler E key = syncKey E snapKind ''zfs snapshot'' (syncSnap E) key"

definition enqueueSnap :: "env \<Rightarrow> ZFSSnapshot \<Rightarrow> unit go" where
  "enqueueSnap E obj = enqueueObj E obj"

definition addSnap :: "env \<Rightarrow> ZFSSnapshot informerObj \<Rightarrow> unit go" where
  "addSnap E obj =
     (case obj of
        Obj snap \<Rightarrow> if NodeID E \<noteq> OwnerNodeID (SnapSpec snap) then goRet () else enqueueSnap E snap
      | _ \<Rightarrow> HandleError (couldnt ''snap object''))"

definition updateSnap :: "env \<Rightarrow> ZFSSnapshot informerObj \<Rightarrow> ZFSSnapshot informerObj \<Rightarrow> unit go" where
  "updateSnap E oldObj newObj =
     (case newObj of
        Obj newSnap \<Rightarrow>
          if NodeID E \<noteq> OwnerNodeID (SnapSpec newSnap) then goRet ()
          else if isDeletionCandidate newSnap then enqueueSnap E newSnap else goRet ()
      | _ \<Rightarrow> HandleError (couldnt ''snap object''))"

definition deleteSnap :: "env \<Rightarrow> ZFSSnapshot informerObj \<Rightarrow> unit go" where
  "deleteSnap E obj =
     (let handle = (\<lambda>snap. if NodeID E \<noteq> OwnerNodeID (SnapSpec snap) then goRet () else enqueueSnap E snap)
      in case obj of
           Obj snap \<Rightarrow> handle snap
         | Tombstone (Some snap) \<Rightarrow> handle snap
         | Tombstone None \<Rightarrow> HandleError ''Tombstone contained object that is not a zfssnap''
         | OtherObj \<Rightarrow> HandleError (couldnt ''object from tombstone''))"

definition Snap_processNextWorkItem :: "env \<Rightarrow> bool go" where
  "Snap_processNextWorkItem E = processNextWorkItem E (Snap_syncHandler E)"

definition Snap_runWorker :: "env \<Rightarrow> unit go" where
  "Snap_runWorker E = runWorker (polls E) E (Snap_syncHandler E)"

definition Bkp_syncHandler :: "env \<Rightarrow> string \<Rightarrow> gerror option go" where
  "Bkp_syncHandler E key = syncKey E bkpKind ''zfs backup'' (syncBkp E) key"

definition enqueueBkp :: "env \<Rightarrow> ZFSBackup \<Rightarrow> unit go" where
  "enqueueBkp E obj = enqueueObj E obj"

definition addBkp :: "env \<Rightarrow> ZFSBackup informerObj \<Rightarrow> unit go" where
  "addBkp E obj =
     (case obj of
        Obj bkp \<Rightarrow> if NodeID E \<noteq> BkpOwnerNodeID (BkpSpec bkp) then goRet () else enqueueBkp E bkp
      | _ \<Rightarrow> HandleError (couldnt ''backup object''))"

definition updateBkp :: "env \<Rightarrow> ZFSBackup informerObj \<Rightarrow> ZFSBackup informerObj \<Rightarrow> unit go" where
  "updateBkp E oldObj newObj =
     (case newObj of
        Obj newBkp \<Rightarrow>
          if NodeID E \<noteq> BkpOwnerNodeID (BkpSpec newBkp) then goRet ()
          else if isDeletionCandidate newBkp then enqueueBkp E newBkp else goRet ()
      | _ \<Rightarrow> HandleError (couldnt ''bkp object''))"

definition deleteBkp :: "env \<Rightarrow> ZFSBackup informerObj \<Rightarrow> unit go" where
  "deleteBkp E obj =
     (let handle = (\<lambda>bkp. if NodeID E \<noteq> BkpOwnerNodeID (BkpSpec bkp) then goRet () else enqueueBkp E bkp)
      in case obj of
           Obj bkp \<Rightarrow> handle bkp
         | Tombstone (Some bkp) \<Rightarrow> handle bkp
         | Tombstone None \<Rightarrow> HandleError ''Tombstone contained object that is not a zfsbackup''
         | OtherObj \<Rightarrow> HandleError (couldnt ''object from tombstone''))"

definition Bkp_processNextWorkItem :: "env \<Rightarrow> bool go" where
  "Bkp_processNextWorkItem E = processNextWorkItem E (Bkp_syncHandler E)"

definition Bkp_runWorker :: "env \<Rightarrow> unit go" where
  "Bkp_runWorker E = runWorker (polls E) E (Bkp_syncHandler E)"

definition Restore_syncHandler :: "env \<Rightarrow> string \<Rightarrow> gerror option go" where
  "Restore_syncHandler E key = syncKey E rstrKind ''zfs restore'' (syncRestore E) key"

definition enqueueRestore :: "env \<Rightarrow> ZFSRestore \<Rightarrow> unit go" where
  "enqueueRestore E obj = enqueueObj E obj"

definition addRestore :: "env \<Rightarrow> ZFSRestore informerObj \<Rightarrow> unit go" where
  "addRestore E obj =
     (case obj of
        Obj rstr \<Rightarrow> if NodeID E \<noteq> RstrOwnerNodeID (RstrSpec rstr) then goRet () else enqueueRestore E rstr
      | _ \<Rightarrow> HandleError (couldnt ''rstr object''))"

definition updateRestore :: "env \<Rightarrow> ZFSRestore informerObj \<Rightarrow> ZFSRestore informerObj \<Rightarrow> unit go" where
  "updateRestore E oldObj newObj =
     (case newObj of
        Obj newRstr \<Rightarrow>
          if NodeID E \<noteq> RstrOwnerNodeID (RstrSpec newRstr) then goRet ()
          else if isDeletionCandidate newRstr then enqueueRestore E newRstr else goRet ()
      | _ \<Rightarrow> HandleError (couldnt ''rstr object''))"

definition deleteRestore :: "env \<Rightarrow> ZFSRestore informerObj \<Rightarrow> unit go" where
  "deleteRestore E obj =
     (let handle = (\<lambda>rstr. if NodeID E \<noteq> RstrOwnerNodeID (RstrSpec rstr) then goRet () else enqueueRestore E rstr)
      in case obj of
           Obj rstr \<Rightarrow> handle rstr
         | Tombstone (Some rstr) \<Rightarrow> handle rstr
         | Tombstone None \<Rightarrow> HandleError ''Tombstone contained object that is not a zfsbackup''
         | OtherObj \<Rightarrow> HandleError (couldnt ''object from tombstone''))"

definition Restore_processNextWorkItem :: "env \<Rightarrow> bool go" where
  "Restore_processNextWorkItem E = processNextWorkItem E (Restore_syncHandler E)"

definition Restore_runWorker :: "env \<Rightarrow> unit go" where
  "Restore_runWorker E = runWorker (polls E) E (Restore_syncHandler E)"

definition inert :: "event \<Rightarrow> bool" where
  "inert e \<longleftrightarrow> (\<forall>ds. effect e ds = ds)"

text \<open>Work on the node, and Kubernetes events.\<close>

fun onNodeRec :: "event \<Rightarrow> bool" where
  "onNodeRec (EvRecord _ _ _ _ _) = True"
| "onNodeRec e = onNode e"

section \<open>Rules\<close>

lemma offQueue_fetch: "onNodeOrFetch e \<Longrightarrow> \<not> onQueue e"
  by (cases e) (auto elim: onNodeOrFetch.elims)

lemma only_offQueue: "only onNodeOrFetch m \<Longrightarrow> only (\<lambda>e. \<not> onQueue e) m"
  by (erule only_mono) (rule offQueue_fetch)

lemmas offQueue_ops = only_onNode_fetch [THEN only_offQueue] only_backup [THEN only_offQueue]
  only_DestoryBackup [THEN only_offQueue] only_CreateRestore [THEN only_offQueue]

lemmas write_defs = RemoveVolumeFinalizer_def RemoveSnapFinalizer_def RemoveBkpFinalizer_def
  UpdateZvolInfo_eq UpdateSnapInfo_eq UpdateBkpInfo_eq UpdateRestoreInfo_eq

lemma only_sync_offQueue:
  "only (\<lambda>e. \<not> onQueue e) (syncZV E zv)" "only (\<lambda>e. \<not> onQueue e) (syncSnap E snap)"
  "only (\<lambda>e. \<not> onQueue e) (syncBkp E bkp)" "only (\<lambda>e. \<not> onQueue e) (syncRestore E rstr)"
  unfolding syncZV_def syncSnap_def syncBkp_def syncRestore_def destroyZV_def provisionZV_def destroySnap_def
    takeSnap_def write_defs Let_def
  by (intro only_rules offQueue_ops; simp)+

lemma only_syncKey:
  assumes "\<And>obj. only (\<lambda>e. \<not> onQueue e) (sync obj)" and "\<And>e. \<not> onQueue (kEv K e)"
  shows "only (\<lambda>e. \<not> onQueue e) (syncKey E K what sync key)"
  unfolding syncKey_def by (intro only_rules assms; simp add: assms)

interpretation zvr: reconciler E "ZV_syncHandler E" for E
  by unfold_locales (simp add: ZV_syncHandler_def only_syncKey only_sync_offQueue)

interpretation snr: reconciler E "Snap_syncHandler E" for E
  by unfold_locales (simp add: Snap_syncHandler_def only_syncKey only_sync_offQueue)

interpretation bkr: reconciler E "Bkp_syncHandler E" for E
  by unfold_locales (simp add: Bkp_syncHandler_def only_syncKey only_sync_offQueue)

interpretation rsr: reconciler E "Restore_syncHandler E" for E
  by unfold_locales (simp add: Restore_syncHandler_def only_syncKey only_sync_offQueue)

subsection \<open>Entries that leave the node's datasets alone\<close>

lemma inert_events [simp]:
  "inert (EvClientset p r)" "inert (EvVol v)" "inert (EvSnap s)" "inert (EvBkp b)" "inert (EvRstr x)"
  "inert (EvRecord k n t rs m)" "inert (EvHandleError m)"
  by (simp_all add: inert_def)

lemma inert_datasets: "list_all inert es \<Longrightarrow> datasets base (h @ es) = datasets base h"
  by (induction es arbitrary: h) (simp_all add: inert_def)

lemma only_inert_datasets: "only inert m \<Longrightarrow> m h = (r, h') \<Longrightarrow> datasets base h' = datasets base h"
  by (erule only_snd, assumption) (simp only: inert_datasets)

lemma only_inert_writes:
  "only inert (putVol E v)" "only inert (putSnap E s)" "only inert (putBkp E b)" "only inert (putRstr E x)"
  by (intro only_rules; simp)+

lemma returns_run: "always_returns m \<Longrightarrow> \<exists>x h'. m h = (Some x, h')"
  unfolding always_returns_def by (metis option.exhaust prod.collapse)

text \<open>Running \<open>m\<close> and then \<open>f\<close> splits the trace into the part of each.\<close>

lemma bind_run:
  assumes "goBind m f h = (Some y, h')"
  obtains x h1 where "m h = (Some x, h1)" and "f x h1 = (Some y, h')"
  using assms by (auto simp: goBind_def split: prod.splits option.splits)

lemma only_mem:
  assumes "only P m" and "m h = (r, h @ es)" and "e \<in> set es"
  shows "P e"
  using assms unfolding only_def by (metis append_eq_append_conv list_all_iff snd_conv)

lemma onNode_imp_rec: "onNode e \<Longrightarrow> onNodeRec e"
  by (cases e) auto

lemma onNodeRec_api [simp]: "onNodeRec e \<Longrightarrow> \<not> isApi e"
  by (cases e) auto

lemma only_toRec: "only onNode m \<Longrightarrow> only onNodeRec m"
  by (erule only_mono) (rule onNode_imp_rec)

lemmas only_onNodeRec = only_onNode [THEN only_toRec]

lemma putVol_events:
  assumes "putVol E v h = (r, h @ es)" and "EvVol (KUpdate ns w a) \<in> set es"
  shows "w = v"
proof -
  have "only (\<lambda>e. \<forall>ns w a. e = EvVol (KUpdate ns w a) \<longrightarrow> w = v) (putVol E v)" by (intro only_rules; simp)
  from only_mem [OF this assms] show ?thesis by simp
qed

lemma putSnap_events:
  assumes "putSnap E v h = (r, h @ es)" and "EvSnap (KUpdate ns w a) \<in> set es"
  shows "w = v"
proof -
  have "only (\<lambda>e. \<forall>ns w a. e = EvSnap (KUpdate ns w a) \<longrightarrow> w = v) (putSnap E v)" by (intro only_rules; simp)
  from only_mem [OF this assms] show ?thesis by simp
qed

lemma noWrite_fetch: "onNodeOrFetch e \<Longrightarrow> e \<noteq> EvVol (KUpdate ns v a) \<and> e \<noteq> EvSnap s \<and> e \<noteq> EvBkp b \<and> e \<noteq> EvRstr x"
  by (cases e) auto

text \<open>
  The pattern of the controllers: an operation on the node, a Kubernetes event, and on success or in
  any case a write. An update in the trace then comes from the write, and the node's datasets are
  those the operation left.
\<close>

lemma op_then_write:
  assumes run: "goBind op (\<lambda>err. case err of
        None \<Rightarrow> goBind (EmitSuccessEvent k n rs m) (\<lambda>_. wr)
      | Some e \<Rightarrow> goBind (EmitFailureEvent E k n rs' (Some e)) (\<lambda>_. goRet (Some e))) h = (Some r, h @ es)"
    and op: "only onNode op" and wr: "only inert wr" and upd: "ev \<in> set es" "isApi ev"
  obtains h1 rec es2 where "op h = (Some None, h1)" and "wr (h1 @ [rec]) = (Some r, (h1 @ [rec]) @ es2)"
    and "ev \<in> set es2" and "\<And>base. datasets base (h @ es) = datasets base h1"
proof -
  obtain err h1 where d: "op h = (Some err, h1)"
    and rest: "(case err of None \<Rightarrow> goBind (EmitSuccessEvent k n rs m) (\<lambda>_. wr)
      | Some e \<Rightarrow> goBind (EmitFailureEvent E k n rs' (Some e)) (\<lambda>_. goRet (Some e))) h1 = (Some r, h @ es)"
    using run by (rule bind_run)
  obtain es1 where es1: "h1 = h @ es1" "list_all onNode es1" using only_snd [OF op d] by blast
  have quiet: "ev \<notin> set es1"
  proof
    assume "ev \<in> set es1"
    with es1 have "onNode ev" by (auto simp: list_all_iff)
    with upd(2) show False by (cases ev) auto
  qed
  have ok: "err = None"
    using rest upd es1 quiet by (cases err) (auto simp: go_simps)
  define rec where "rec = EvRecord k n ''Normal'' rs (truncateEventMessage m)"
  have w: "wr (h1 @ [rec]) = (Some r, h @ es)" using rest ok by (simp add: go_simps rec_def)
  obtain es2 where es2: "h @ es = (h1 @ [rec]) @ es2" using only_snd [OF wr w] by blast
  have "ev \<in> set es2" using upd es1 es2 quiet by (auto simp: rec_def)
  moreover have "datasets base (h @ es) = datasets base h1" for base
    using only_inert_datasets [OF wr w] inert_datasets [of "[rec]" base h1] by (simp add: rec_def)
  ultimately show ?thesis using that d ok w es2 by auto
qed

lemma destroyZV_update:
  assumes law: "lists_truthfully E base"
    and run: "destroyZV E zv h = (Some r, h @ es)" and upd: "EvVol (KUpdate ns v a) \<in> set es"
  shows "volumePath zv \<notin> set (datasets base (h @ es)) \<and> v = zv\<lparr> Finalizers := [] \<rparr>"
  using run [unfolded destroyZV_def RemoveVolumeFinalizer_def] only_onNode(4) only_inert_writes(1) upd
proof (rule op_then_write)
  fix h1 rec es2
  assume "zfs_DestroyVolume E zv h = (Some None, h1)" "\<And>b. datasets b (h @ es) = datasets b h1"
    and "putVol E (zv\<lparr>Finalizers := []\<rparr>) (h1 @ [rec]) = (Some r, (h1 @ [rec]) @ es2)" "EvVol (KUpdate ns v a) \<in> set es2"
  then show ?thesis using destroyVolume_absent [OF law] putVol_events by metis
qed simp

lemma createOrClone_present:
  assumes law: "lists_truthfully E base"
    and run: "(if c then zfs_CreateClone E zv else zfs_CreateVolume E zv) h = (Some None, h')"
  shows "volumePath zv \<in> set (datasets base h')"
  using run createClone_present(1) [OF law] createVolume_present [OF law] by (auto split: if_splits)

lemma provisionZV_update:
  assumes law: "lists_truthfully E base"
    and run: "provisionZV E zv h = (Some r, h @ es)" and upd: "EvVol (KUpdate ns v a) \<in> set es"
  shows "v = markedVol E zv ZFSStatusFailed \<or>
         v = markedVol E zv ZFSStatusReady \<and> volumePath zv \<in> set (datasets base (h @ es))"
proof -
  let ?c = "length (SnapName (Spec zv)) > 0"
  obtain err h1 where c: "(if ?c then zfs_CreateClone E zv else zfs_CreateVolume E zv) h = (Some err, h1)"
    and rest: "(case err of
       None \<Rightarrow> goBind (if ?c
          then EmitSuccessEvent ''ZFSVolume'' (Name zv) ''Cloned'' (''clone created from '' @ SnapName (Spec zv))
          else EmitSuccessEvent ''ZFSVolume'' (Name zv) ''Provisioned'' ''volume provisioned'') (\<lambda>_. UpdateZvolInfo E zv ZFSStatusReady)
     | Some e \<Rightarrow> goBind (EmitFailureEvent E ''ZFSVolume'' (Name zv) (if ?c then ''CloneFailed'' else ''ProvisionFailed'') (Some e))
          (\<lambda>_. UpdateZvolInfo E zv ZFSStatusFailed)) h1 = (Some r, h @ es)"
    using run unfolding provisionZV_def Let_def by (rule bind_run)
  have on: "only onNode (if ?c then zfs_CreateClone E zv else zfs_CreateVolume E zv)" by (intro only_rules)
  obtain es1 where es1: "h1 = h @ es1" "list_all onNode es1" using only_snd [OF on c] by blast
  define st where st: "st = (if err = None then ZFSStatusReady else ZFSStatusFailed)"
  have "\<exists>t rs m. putVol E (markedVol E zv st) (h1 @ [EvRecord ''ZFSVolume'' (Name zv) t rs m]) = (Some r, h @ es)"
    using rest by (cases err) (auto simp: go_simps UpdateZvolInfo_eq st split: if_splits)
  then obtain t rs m where put': "putVol E (markedVol E zv st) (h1 @ [EvRecord ''ZFSVolume'' (Name zv) t rs m]) = (Some r, h @ es)"
    by blast
  define rec where "rec = EvRecord ''ZFSVolume'' (Name zv) t rs m"
  have rec: "inert rec" "\<not> isApi rec" by (simp_all add: rec_def)
  have put: "putVol E (markedVol E zv st) (h1 @ [rec]) = (Some r, h @ es)" using put' by (simp add: rec_def)
  obtain es2 where es2: "h @ es = (h1 @ [rec]) @ es2" using only_snd [OF only_inert_writes(1) put] by blast
  have "EvVol (KUpdate ns v a) \<in> set es2" using upd es1 es2 rec by (auto simp: list_all_iff)
  with putVol_events [OF put [unfolded es2]] have v: "v = markedVol E zv st" by blast
  have same: "datasets base (h @ es) = datasets base h1"
    using only_inert_datasets [OF only_inert_writes(1) put] inert_datasets [of "[rec]" base h1] rec by simp
  show ?thesis
  proof (cases err)
    case None
    with c have "volumePath zv \<in> set (datasets base h1)" by (intro createOrClone_present [OF law]) simp
    with None v st same show ?thesis by simp
  qed (use v st in simp)
qed

lemma destroySnap_update:
  assumes law: "lists_truthfully E base"
    and run: "destroySnap E snap h = (Some r, h @ es)" and upd: "EvSnap (KUpdate ns v a) \<in> set es"
  shows "snapDataset snap \<notin> set (datasets base (h @ es)) \<and> v = snap\<lparr> Finalizers := [] \<rparr>"
  using run [unfolded destroySnap_def RemoveSnapFinalizer_def] only_onNode(3) only_inert_writes(2) upd
proof (rule op_then_write)
  fix h1 rec es2
  assume "zfs_DestroySnapshot E snap h = (Some None, h1)" "\<And>b. datasets b (h @ es) = datasets b h1"
    and "putSnap E (snap\<lparr>Finalizers := []\<rparr>) (h1 @ [rec]) = (Some r, (h1 @ [rec]) @ es2)" "EvSnap (KUpdate ns v a) \<in> set es2"
  then show ?thesis using destroySnapshot_absent [OF law] putSnap_events by metis
qed simp

lemma takeSnap_update:
  assumes law: "lists_truthfully E base"
    and run: "takeSnap E snap h = (Some r, h @ es)" and upd: "EvSnap (KUpdate ns v a) \<in> set es"
  shows "snapDataset snap \<in> set (datasets base (h @ es)) \<and> SnapState v = ZFSStatusReady"
  using run [unfolded takeSnap_def UpdateSnapInfo_eq] only_onNode(2) only_inert_writes(2) upd
proof (rule op_then_write)
  fix h1 rec es2
  let ?w = "snap\<lparr>Finalizers := Finalizers snap @ [ZFSFinalizer],
     Labels := AList.update ZFSNodeKey (NodeID E) (Labels snap), SnapState := ZFSStatusReady\<rparr>"
  assume "zfs_CreateSnapshot E snap h = (Some None, h1)" and same: "\<And>b. datasets b (h @ es) = datasets b h1"
    and put: "putSnap E ?w (h1 @ [rec]) = (Some r, (h1 @ [rec]) @ es2)" "EvSnap (KUpdate ns v a) \<in> set es2"
  then have "snapDataset snap \<in> set (datasets base (h @ es))" using createSnapshot_present [OF law] by simp
  moreover have "v = ?w" by (rule putSnap_events [OF put])
  ultimately show ?thesis by simp
qed simp

subsection \<open>Backups and restores\<close>

lemma putBkp_events:
  assumes "putBkp E v h = (r, h @ es)" and "EvBkp (KUpdate ns w a) \<in> set es"
  shows "w = v"
proof -
  have "only (\<lambda>e. \<forall>ns w a. e = EvBkp (KUpdate ns w a) \<longrightarrow> w = v) (putBkp E v)" by (intro only_rules; simp)
  from only_mem [OF this assms] show ?thesis by simp
qed

lemma putRstr_events:
  assumes "putRstr E v h = (r, h @ es)" and "EvRstr (KUpdate ns w a) \<in> set es"
  shows "w = v"
proof -
  have "only (\<lambda>e. \<forall>ns w a. e = EvRstr (KUpdate ns w a) \<longrightarrow> w = v) (putRstr E v)" by (intro only_rules; simp)
  from only_mem [OF this assms] show ?thesis by simp
qed

lemma syncBkp_update:
  assumes live: "\<not> isDeletionCandidate bkp"
    and run: "syncBkp E bkp h = (Some r, h @ es)" and upd: "EvBkp (KUpdate ns b a) \<in> set es"
  obtains err h1 where "zfs_CreateBackup E bkp h = (Some err, h1)" and "prefix h1 (h @ es)"
    and "\<And>base. datasets base (h @ es) = datasets base h1"
    and "BkpStatus b = (if err = None then BKPZFSStatusDone else BKPZFSStatusFailed)"
    and "BkpStatus bkp = BKPZFSStatusInit"
proof -
  have init: "BkpStatus bkp = BKPZFSStatusInit"
    using run upd live by (auto simp: syncBkp_def go_simps split: if_splits)
  obtain err h1 where c: "zfs_CreateBackup E bkp h = (Some err, h1)"
    and rest: "(case err of
          None \<Rightarrow> goBind (EmitSuccessEvent ''ZFSBackup'' (Name bkp) ''BackupCompleted'' ''backup completed'') (\<lambda>_. UpdateBkpInfo E bkp BKPZFSStatusDone)
        | Some e \<Rightarrow> goBind (EmitFailureEvent E ''ZFSBackup'' (Name bkp) ''BackupFailed'' (Some e)) (\<lambda>_. UpdateBkpInfo E bkp BKPZFSStatusFailed)) h1
      = (Some r, h @ es)"
    using run live init unfolding syncBkp_def by (simp only: if_not_P if_P refl not_False_eq_True if_True if_False) (erule bind_run)
  obtain es1 where es1: "h1 = h @ es1" "list_all onNodeOrFetch es1" using only_snd [OF only_backup c] by blast
  define st where st: "st = (if err = None then BKPZFSStatusDone else BKPZFSStatusFailed)"
  have "\<exists>t rs m. putBkp E (bkp\<lparr> Finalizers := Finalizers bkp @ [ZFSFinalizer], BkpStatus := st \<rparr>)
      (h1 @ [EvRecord ''ZFSBackup'' (Name bkp) t rs m]) = (Some r, h @ es)"
    using rest by (cases err) (auto simp: go_simps UpdateBkpInfo_eq st)
  then obtain t rs m where put: "putBkp E (bkp\<lparr> Finalizers := Finalizers bkp @ [ZFSFinalizer], BkpStatus := st \<rparr>)
      (h1 @ [EvRecord ''ZFSBackup'' (Name bkp) t rs m]) = (Some r, h @ es)" by blast
  obtain es2 where es2: "h @ es = (h1 @ [EvRecord ''ZFSBackup'' (Name bkp) t rs m]) @ es2"
    using only_snd [OF only_inert_writes(3) put] by blast
  have "EvBkp (KUpdate ns b a) \<in> set es2" using upd es1 es2 by (auto simp: list_all_iff)
  then have "b = bkp\<lparr> Finalizers := Finalizers bkp @ [ZFSFinalizer], BkpStatus := st \<rparr>"
    by (rule putBkp_events [OF put [unfolded es2]])
  then have "BkpStatus b = st" by simp
  moreover have "datasets base (h @ es) = datasets base h1" for base
    using only_inert_datasets [OF only_inert_writes(3) put] inert_datasets [of "[EvRecord ''ZFSBackup'' (Name bkp) t rs m]" base h1]
    by simp
  moreover have "prefix h1 (h @ es)" using es2 by simp
  ultimately show ?thesis using that c st init by blast
qed

lemma CreateRestore_spec:
  assumes "zfs_CreateRestore E rstr h = (Some (err, x), h')"
  shows "x = rstr \<or> (\<exists>vol. EvVol (KGet (OpenEBSNamespace E) (RstrVolumeName (RstrSpec rstr)) (Inr vol)) \<in> set h' \<and>
           x = rstr\<lparr> VolSpec := Spec vol \<rparr> \<and> PoolName (VolSpec rstr) = [])"
proof (cases "PoolName (VolSpec rstr) = []")
  case True
  obtain r h1 where g: "GetZFSVolume E (RstrVolumeName (RstrSpec rstr)) h = (Some r, h1)"
    using returns_run [OF returns_GetZFSVolume] by blast
  show ?thesis
  proof (cases r)
    case (Inl e)
    with assms True g show ?thesis by (auto simp: zfs_CreateRestore_def goBind_def goRet_def)
  next
    case (Inr vol)
    then obtain err' h2 where rf: "restoreFrom E (rstr\<lparr> VolSpec := Spec vol \<rparr>) h1 = (Some err', h2)"
      and x: "x = rstr\<lparr> VolSpec := Spec vol \<rparr>" and h2: "h2 = h'"
      using assms True g by (auto simp: zfs_CreateRestore_def goBind_def goRet_def split: prod.splits option.splits)
    obtain es where "h2 = h1 @ es" using only_snd [OF only_restoreFrom rf] by blast
    moreover have "EvVol (KGet (OpenEBSNamespace E) (RstrVolumeName (RstrSpec rstr)) (Inr vol)) \<in> set h1"
      using g Inr by (intro GetZFSVolume_event) simp
    ultimately show ?thesis using x h2 True by auto
  qed
next
  case False
  with assms show ?thesis by (auto simp: zfs_CreateRestore_def goBind_def goRet_def split: prod.splits option.splits)
qed

section \<open>Properties\<close>

lemmas sync_simps = demo_simps go_simps zfs_DestroyVolume_def isDeletionCandidate_def destroyZV_def RemoveVolumeFinalizer_def
  putVol_def vol_Update_def kube_Update_def volKind_def apiAnswer_def errOf_def truncateEventMessage_def
  maxEventMessageLen_def

text \<open>C7: A deleted volume is released in the cluster only after its data is gone: whenever the volume controller
  writes to an object that is being deleted, no user finalizer was left on it, the dataset does not exist any more,
  and the write clears the finalizers.\<close>
theorem volume_finalizer_guards_data:
  assumes law: "lists_truthfully E base" and del: "isDeletionCandidate zv"
    and run: "syncZV E zv h = (Some r, h @ es)" and upd: "EvVol (KUpdate ns v a) \<in> set es"
  shows "GetUserFinalizers (Finalizers zv) = [] \<and> volumePath zv \<notin> set (datasets base (h @ es)) \<and>
    v = zv\<lparr> Finalizers := [] \<rparr>"
proof (cases "GetUserFinalizers (Finalizers zv) = []")
  case True
  with run del have "destroyZV E zv h = (Some r, h @ es)" by (simp add: syncZV_def)
  with True upd show ?thesis using destroyZV_update [OF law] by blast
next
  case False
  with run del upd show ?thesis by (simp add: syncZV_def Let_def go_simps)
qed

theorem volume_finalizer_guards_data_witness:
  "let zv = demoVol\<lparr> DeletionTimestamp := Some ''2026-01-01'', Finalizers := [ZFSFinalizer] \<rparr>;
       base = [''pool'', ''pool/v1'']; h' = snd (syncZV (truthEnv base) zv [])
   in volumePath zv \<in> set base \<and> volumePath zv \<notin> set (datasets base h') \<and>
      EvVol (KUpdate ''openebs'' (zv\<lparr> Finalizers := [] \<rparr>) (Inr (zv\<lparr> Finalizers := [] \<rparr>))) \<in> set h'"
proof -
  let ?zv = "demoVol\<lparr> DeletionTimestamp := Some ''2026-01-01'', Finalizers := [ZFSFinalizer] \<rparr>"
  let ?base = "[''pool'', ''pool/v1'']"
  let ?h' = "snd (syncZV (truthEnv ?base) ?zv [])"
  have upd: "EvVol (KUpdate ''openebs'' (?zv\<lparr> Finalizers := [] \<rparr>) (Inr (?zv\<lparr> Finalizers := [] \<rparr>))) \<in> set ?h'"
    by (simp add: syncZV_def sync_simps)
  have run: "\<exists>r. syncZV (truthEnv ?base) ?zv [] = (Some r, [] @ ?h')"
    by (simp add: syncZV_def sync_simps)
  have del: "isDeletionCandidate ?zv" by (simp add: isDeletionCandidate_def)
  from run obtain r where "syncZV (truthEnv ?base) ?zv [] = (Some r, [] @ ?h')" by blast
  from volume_finalizer_guards_data [OF truthEnv_law del this upd] upd show ?thesis
    unfolding Let_def by (simp add: demoVol_def volumePath_def emptyVolume_def emptyInfo_def)
qed

text \<open>C8: A volume is reported ready only if it exists: whenever the volume controller writes to a live object, the
  object was valid and not ready yet, and what it writes is the object marked failed, or marked ready with the node's
  label and finalizer while the dataset exists.\<close>
theorem ready_means_created:
  assumes law: "lists_truthfully E base" and live: "\<not> isDeletionCandidate zv"
    and run: "syncZV E zv h = (Some r, h @ es)" and upd: "EvVol (KUpdate ns v a) \<in> set es"
  shows "Validate (Spec zv) = None \<and> \<not> IsVolumeReady zv \<and>
    (v = markedVol E zv ZFSStatusFailed \<or>
     v = markedVol E zv ZFSStatusReady \<and> volumePath zv \<in> set (datasets base (h @ es)))"
proof -
  have valid: "Validate (Spec zv) = None"
    using run upd live by (auto simp: syncZV_def go_simps split: option.splits)
  have pending: "\<not> IsVolumeReady zv"
  proof
    assume ready: "IsVolumeReady zv"
    have "only onNodeRec (goBind (SetVolumeProp E zv) (\<lambda>err. case err of
        Some e \<Rightarrow> goBind (EmitFailureEvent E ''ZFSVolume'' (Name zv) ''SetPropertyFailed'' (Some e)) (\<lambda>_. goRet (Some e))
      | None \<Rightarrow> goRet None))" by (intro only_rules only_onNodeRec; simp)
    then have "only onNodeRec (syncZV E zv)" using live valid ready by (simp add: syncZV_def)
    from only_mem [OF this run upd] show False by simp
  qed
  with run live valid have "provisionZV E zv h = (Some r, h @ es)" by (simp add: syncZV_def)
  from provisionZV_update [OF law this upd] valid pending show ?thesis by blast
qed

theorem ready_means_created_witness:
  "let h' = snd (syncZV (truthEnv [''pool'']) demoVol []); v = markedVol (truthEnv [''pool'']) demoVol ZFSStatusReady
   in EvVol (KUpdate ''openebs'' v (Inr v)) \<in> set h' \<and> volumePath demoVol \<in> set (datasets [''pool''] h')"
proof -
  let ?E = "truthEnv [''pool'']"
  let ?h' = "snd (syncZV ?E demoVol [])" and ?v = "markedVol ?E demoVol ZFSStatusReady"
  have upd: "EvVol (KUpdate ''openebs'' ?v (Inr ?v)) \<in> set ?h'"
    by (simp add: syncZV_def provisionZV_def UpdateZvolInfo_eq Validate_def IsVolumeReady_def sync_simps markedVol_def)
  have "\<exists>r. syncZV ?E demoVol [] = (Some r, [] @ ?h')"
    by (simp add: syncZV_def provisionZV_def UpdateZvolInfo_eq Validate_def IsVolumeReady_def sync_simps markedVol_def)
  then obtain r where run: "syncZV ?E demoVol [] = (Some r, [] @ ?h')" by blast
  have live: "\<not> isDeletionCandidate demoVol" by (simp add: isDeletionCandidate_def demoVol_def emptyVolume_def)
  have "?v \<noteq> markedVol ?E demoVol ZFSStatusFailed"
    by (auto simp: markedVol_def demoVol_def emptyVolume_def)
  with ready_means_created [OF truthEnv_law live run upd] upd show ?thesis unfolding Let_def by simp
qed

text \<open>C16: The snapshot controller keeps the same promises: a write to a snapshot that is being deleted follows its
  destruction and clears its finalizers, and a write to a live one marks it ready while the snapshot exists.\<close>
theorem snapshot_writes_sound:
  assumes law: "lists_truthfully E base"
    and run: "syncSnap E snap h = (Some r, h @ es)" and upd: "EvSnap (KUpdate ns v a) \<in> set es"
  shows "if isDeletionCandidate snap
    then GetUserFinalizers (Finalizers snap) = [] \<and> snapDataset snap \<notin> set (datasets base (h @ es)) \<and> Finalizers v = []
    else SnapState snap \<noteq> ZFSStatusReady \<and> snapDataset snap \<in> set (datasets base (h @ es)) \<and> SnapState v = ZFSStatusReady"
proof (cases "isDeletionCandidate snap")
  case True
  then have fin: "GetUserFinalizers (Finalizers snap) = []"
    using run upd by (auto simp: syncSnap_def Let_def go_simps split: if_splits)
  with True run have "destroySnap E snap h = (Some r, h @ es)" by (simp add: syncSnap_def)
  with True fin upd show ?thesis using destroySnap_update [OF law] by force
next
  case False
  then have "Validate (SnapSpec snap) = None \<and> SnapState snap \<noteq> ZFSStatusReady"
    using run upd by (auto simp: syncSnap_def go_simps split: option.splits if_splits)
  with False run have "takeSnap E snap h = (Some r, h @ es)" "SnapState snap \<noteq> ZFSStatusReady" by (simp_all add: syncSnap_def)
  with False upd show ?thesis using takeSnap_update [OF law] by auto
qed

theorem snapshot_writes_sound_witness:
  "let snap = emptySnapshot\<lparr> Name := ''s1'', SnapSpec := emptyInfo\<lparr> PoolName := ''pool'' \<rparr>, Labels := [(ZFSVolKey, ''v1'')] \<rparr>;
       base = [''pool'', ''pool/v1'']; h' = snd (syncSnap (truthEnv base) snap [])
   in snapDataset snap \<in> set (datasets base h')"
proof -
  let ?snap = "emptySnapshot\<lparr> Name := ''s1'', SnapSpec := emptyInfo\<lparr> PoolName := ''pool'' \<rparr>, Labels := [(ZFSVolKey, ''v1'')] \<rparr>"
  let ?E = "truthEnv [''pool'', ''pool/v1'']"
  let ?w = "?snap\<lparr>Finalizers := Finalizers ?snap @ [ZFSFinalizer],
     Labels := AList.update ZFSNodeKey ''node-1'' (Labels ?snap), SnapState := ZFSStatusReady\<rparr>"
  let ?h' = "snd (syncSnap ?E ?snap [])"
  have "(\<exists>r. syncSnap ?E ?snap [] = (Some r, [] @ ?h')) \<and> EvSnap (KUpdate ''openebs'' ?w (Inr ?w)) \<in> set ?h'"
    by (simp add: syncSnap_def takeSnap_def UpdateSnapInfo_eq Validate_def sync_simps emptySnapshot_def mget_def
        zfs_CreateSnapshot_def buildZFSSnapCreateArgs_def putSnap_def snap_Update_def snapKind_def)
  then obtain r where run: "syncSnap ?E ?snap [] = (Some r, [] @ ?h')" and upd: "EvSnap (KUpdate ''openebs'' ?w (Inr ?w)) \<in> set ?h'"
    by blast
  have "\<not> isDeletionCandidate ?snap" by (simp add: isDeletionCandidate_def emptySnapshot_def)
  with snapshot_writes_sound [OF truthEnv_law run upd] show ?thesis unfolding Let_def by simp
qed

text \<open>C17: A backup is reported done only if it was made: when the backup controller writes the status Done, the snapshot
  exists on the node and both ends of the transfer exited successfully; a backup that failed is written as Failed, and
  nothing is written for a backup that is not in state Init.\<close>
theorem backup_done_sound:
  assumes law: "lists_truthfully E base" and live: "\<not> isDeletionCandidate bkp"
    and run: "syncBkp E bkp h = (Some r, h @ es)" and upd: "EvBkp (KUpdate ns b a) \<in> set es"
  shows "BkpStatus bkp = BKPZFSStatusInit \<and>
    (BkpStatus b = BKPZFSStatusFailed \<or> BkpStatus b = BKPZFSStatusDone \<and>
      (\<exists>vol sendArgs ncArgs. buildVolumeBackupArgs bkp vol = Inr (sendArgs, ncArgs) \<and>
         snapDataset (bkpSnap bkp vol) \<in> set (datasets base (h @ es)) \<and>
         EvExit Source (ZFSVolCmd # sendArgs) None \<in> set (h @ es) \<and>
         EvExit Destination (NetCatCmd # ncArgs) None \<in> set (h @ es)))"
  using live run upd
proof (rule syncBkp_update)
  fix err h1
  assume c: "zfs_CreateBackup E bkp h = (Some err, h1)" and pre: "prefix h1 (h @ es)"
    and same: "\<And>base. datasets base (h @ es) = datasets base h1"
    and st: "BkpStatus b = (if err = None then BKPZFSStatusDone else BKPZFSStatusFailed)" "BkpStatus bkp = BKPZFSStatusInit"
  have sub: "set h1 \<subseteq> set (h @ es)" using set_mono_prefix [OF pre] .
  show ?thesis
  proof (cases err)
    case None
    with c have "zfs_CreateBackup E bkp h = (Some None, h1)" by simp
    from createBackup_sound [OF law this] same sub show ?thesis using st None by fastforce
  qed (use st in simp)
qed

theorem backup_done_sound_witness:
  "let bkp = demoBkp\<lparr> BkpStatus := BKPZFSStatusInit \<rparr>; h' = snd (syncBkp demoBkpEnv bkp []);
       b = bkp\<lparr> Finalizers := [ZFSFinalizer], BkpStatus := BKPZFSStatusDone \<rparr>
   in EvBkp (KUpdate ''openebs'' b (Inr b)) \<in> set h' \<and>
      (\<exists>vol. snapDataset (bkpSnap bkp vol) \<in> set (datasets [''pool/v1''] h'))"
proof -
  let ?bkp = "demoBkp\<lparr> BkpStatus := BKPZFSStatusInit \<rparr>"
  let ?b = "?bkp\<lparr> Finalizers := [ZFSFinalizer], BkpStatus := BKPZFSStatusDone \<rparr>"
  let ?h' = "snd (syncBkp demoBkpEnv ?bkp [])"
  have "(\<exists>r. syncBkp demoBkpEnv ?bkp [] = (Some r, [] @ ?h')) \<and> EvBkp (KUpdate ''openebs'' ?b (Inr ?b)) \<in> set ?h'"
    by (simp add: demoBkpEnv_def demoBkp_def zfs_CreateBackup_def GetZFSVolume_def vol_Get_def kube_Get_def
        emptyBackup_def bkpSnap_def emptySnapshot_def mget_def zfs_CreateSnapshot_def buildVolumeBackupArgs_def
        buildZFSSnapCreateArgs_def runPipe_def startCmd_def waitCmd_def killCmd_def readBuffers_def sync_simps
        syncBkp_def UpdateBkpInfo_eq putBkp_def bkp_Update_def bkpKind_def)
  then obtain r where run: "syncBkp demoBkpEnv ?bkp [] = (Some r, [] @ ?h')"
    and upd: "EvBkp (KUpdate ''openebs'' ?b (Inr ?b)) \<in> set ?h'" by blast
  have live: "\<not> isDeletionCandidate ?bkp" by (simp add: isDeletionCandidate_def demoBkp_def emptyBackup_def)
  have law: "lists_truthfully demoBkpEnv [''pool/v1'']" by (simp add: demoBkpEnv_def lists_truthfully_def truthEnv_def)
  have "BkpStatus ?b \<noteq> BKPZFSStatusFailed" by simp
  with backup_done_sound [OF law live run upd] upd show ?thesis unfolding Let_def by auto
qed

text \<open>Unlike volumes and snapshots, a backup that is being deleted is released whatever finalizers other owners still
  have on it: once its snapshot is dealt with, the object is written back with no finalizers at all.\<close>
lemma backup_release_ignores_finalizers:
  assumes del: "isDeletionCandidate bkp" and d: "DestoryBackup E bkp h = (Some None, h1)"
    and cs: "clientsetFor (cluster E) h1 [] = None"
  shows "\<exists>a. snd (syncBkp E bkp h) = h1 @ [EvClientset [] None, EvBkp (KUpdate (OpenEBSNamespace E) (bkp\<lparr> Finalizers := [] \<rparr>) a)]"
  using assms by (simp add: syncBkp_def RemoveBkpFinalizer_def putBkp_def bkp_Update_def kube_Update_def bkpKind_def go_simps
      split: option.split)

lemma backup_release_drops_other_owner:
  "let bkp = demoBkp\<lparr> DeletionTimestamp := Some ''t'', Finalizers := [ZFSFinalizer, ''example.com/keep''] \<rparr>
   in GetUserFinalizers (Finalizers bkp) = [''example.com/keep''] \<and>
      (\<exists>a. EvBkp (KUpdate ''openebs'' (bkp\<lparr> Finalizers := [] \<rparr>) a) \<in> set (snd (syncBkp quietEnv bkp [])))"
proof -
  let ?bkp = "demoBkp\<lparr> DeletionTimestamp := Some ''t'', Finalizers := [ZFSFinalizer, ''example.com/keep''] \<rparr>"
  have d: "DestoryBackup quietEnv ?bkp [] = (Some None, snd (DestoryBackup quietEnv ?bkp []))"
    by (simp add: DestoryBackup_def GetZFSVolume_def vol_Get_def kube_Get_def demoBkp_def emptyBackup_def volKind_def
        apiAnswer_def extErr_def quiet_defs go_simps)
  have del: "isDeletionCandidate ?bkp" by (simp add: isDeletionCandidate_def)
  have cs: "clientsetFor (cluster quietEnv) (snd (DestoryBackup quietEnv ?bkp [])) [] = None" by (simp add: quiet_defs)
  from backup_release_ignores_finalizers [OF del d cs] show ?thesis unfolding Let_def by (auto simp: quietEnv_def)
qed

text \<open>A restore is written back as Done or Failed with the specification it was asked for; only if the object had no
  pool name is its volume specification replaced, by that of the volume it fetched.\<close>
lemma restore_writes_back:
  assumes run: "syncRestore E rstr h = (Some r, h @ es)" and upd: "EvRstr (KUpdate ns x a) \<in> set es"
  shows "RstrStatus rstr = RSTZFSStatusInit \<and> RstrStatus x \<in> {RSTZFSStatusDone, RSTZFSStatusFailed} \<and>
    RstrSpec x = RstrSpec rstr \<and> Finalizers x = Finalizers rstr \<and>
    (VolSpec x = VolSpec rstr \<or> PoolName (VolSpec rstr) = [] \<and>
      (\<exists>vol. EvVol (KGet (OpenEBSNamespace E) (RstrVolumeName (RstrSpec rstr)) (Inr vol)) \<in> set (h @ es) \<and> VolSpec x = Spec vol))"
proof -
  have init: "\<not> isDeletionCandidate rstr" "RstrStatus rstr = RSTZFSStatusInit"
    using run upd by (auto simp: syncRestore_def go_simps split: if_splits)
  obtain res h1 where c: "zfs_CreateRestore E rstr h = (Some res, h1)"
    and rest: "(case res of (err, rstr') \<Rightarrow> case err of
          None \<Rightarrow> goBind (EmitSuccessEvent ''ZFSRestore'' (Name rstr') ''RestoreCompleted'' ''restore completed'') (\<lambda>_. UpdateRestoreInfo E rstr' RSTZFSStatusDone)
        | Some e \<Rightarrow> goBind (EmitFailureEvent E ''ZFSRestore'' (Name rstr') ''RestoreFailed'' (Some e)) (\<lambda>_. UpdateRestoreInfo E rstr' RSTZFSStatusFailed)) h1
      = (Some r, h @ es)"
    using run init unfolding syncRestore_def by (simp only: simp_thms if_True) (erule bind_run)
  obtain err rstr' where res: "res = (err, rstr')" by fastforce
  obtain es1 where es1: "h1 = h @ es1" "list_all onNodeOrFetch es1" using only_snd [OF only_CreateRestore c] by blast
  define st where "st = (if err = None then RSTZFSStatusDone else RSTZFSStatusFailed)"
  have "\<exists>t rs m. putRstr E (rstr'\<lparr> RstrStatus := st \<rparr>) (h1 @ [EvRecord ''ZFSRestore'' (Name rstr') t rs m]) = (Some r, h @ es)"
    using rest res by (cases err) (auto simp: go_simps UpdateRestoreInfo_eq st_def)
  then obtain t rs m where put: "putRstr E (rstr'\<lparr> RstrStatus := st \<rparr>) (h1 @ [EvRecord ''ZFSRestore'' (Name rstr') t rs m]) = (Some r, h @ es)"
    by blast
  obtain es2 where es2: "h @ es = (h1 @ [EvRecord ''ZFSRestore'' (Name rstr') t rs m]) @ es2"
    using only_snd [OF only_inert_writes(4) put] by blast
  have "EvRstr (KUpdate ns x a) \<in> set es2" using upd es1 es2 by (auto simp: list_all_iff)
  then have x: "x = rstr'\<lparr> RstrStatus := st \<rparr>" by (rule putRstr_events [OF put [unfolded es2]])
  have "set h1 \<subseteq> set (h @ es)" using es2 by auto
  with CreateRestore_spec [of E rstr h err rstr' h1] c res x init show ?thesis by (auto simp: st_def)
qed



text \<open>A node agent only takes work for its own node: whatever a volume event handler puts on the queue is the key of an
  object owned by this node, and an update of such an object is queued exactly if a property changed, the object is
  being deleted, or it is pending.\<close>
lemma volume_events_own_node:
  "(\<forall>k. EvQAdd k \<in> set (emits (addZV E obj) h) \<longrightarrow>
      (\<exists>zv. obj = Obj zv \<and> OwnerNodeID (Spec zv) = NodeID E \<and> k = metaKey (lib E) (Namespace zv) (Name zv))) \<and>
   (\<forall>k. EvQAdd k \<in> set (emits (deleteZV E obj) h) \<longrightarrow>
      (\<exists>zv. obj \<in> {Obj zv, Tombstone (Some zv)} \<and> OwnerNodeID (Spec zv) = NodeID E \<and> k = metaKey (lib E) (Namespace zv) (Name zv))) \<and>
   (\<forall>k. EvQAdd k \<in> set (emits (updateZV E (Obj old) (Obj new)) h) \<longleftrightarrow>
      OwnerNodeID (Spec new) = NodeID E \<and> k = metaKey (lib E) (Namespace new) (Name new) \<and>
      (PropertyChanged old new \<or> isDeletionCandidate new \<or> State new = ZFSStatusPending))"
  by (auto simp: emits_def addZV_def deleteZV_def updateZV_def enqueueZV_def enqueueObj_def qAdd_def go_simps Let_def
      split: informerObj.splits option.splits if_splits)

end
