(* ===== verification/NodeController.thy ===== *)
theory NodeController
  imports Reconcilers
begin

text \<open>
  \<open>pkg/mgmt/zfsnode\<close>: the controller that publishes the pools of the node as a ZFSNode object, owned by
  the Kubernetes node. \<open>ref\<close> is the owner reference the controller was built with. Two pool lists are
  equal for \<open>equality.Semantic\<close> exactly if they are equal here, since a quantity is its value.
\<close>

section \<open>Definitions\<close>

text \<open>\<open>isOwnerRefsUpdateRequired\<close>: the references to set, and whether they differ from the given ones.\<close>

fun isOwnerRefsUpdateRequired :: "OwnerReference \<Rightarrow> OwnerReference list \<Rightarrow> OwnerReference list \<times> bool" where
  "isOwnerRefsUpdateRequired ref [] = ([ref], True)"
| "isOwnerRefsUpdateRequired ref (r # rs) =
     (if RefUID r \<noteq> RefUID ref
      then (let (rs', u) = isOwnerRefsUpdateRequired ref rs in (r # rs', u))
      else if RefController r \<noteq> RefController ref then (r\<lparr> RefController := RefController ref \<rparr> # rs, True)
      else (r # rs, False))"

definition createNode :: "env \<Rightarrow> OwnerReference \<Rightarrow> string \<Rightarrow> string \<Rightarrow> Pool list \<Rightarrow> gerror option go" where
  "createNode E ref ns name pools =
     (case Build (node_WithOwnerReferences [ref] (node_WithPools pools (node_WithName name
                   (node_WithNamespace ns node_NewBuilder)))) of
        Inl e \<Rightarrow> goRet (Some e)
      | Inr node \<Rightarrow>
          goBind (node_Create E (Some node) (kube_WithNamespace ns NewKubeclient)) (\<lambda>(r, k). case r of
            Inl e \<Rightarrow> goRet (Some (EText (''create zfs node '' @ ns @ ''/'' @ name @ '': '' @ errText (lib E) e)))
          | Inr _ \<Rightarrow> goRet None))"

definition refreshNode :: "env \<Rightarrow> OwnerReference \<Rightarrow> string \<Rightarrow> string \<Rightarrow> Pool list \<Rightarrow> ZFSNode \<Rightarrow> gerror option go" where
  "refreshNode E ref ns name pools node =
     (let (refs, req) = isOwnerRefsUpdateRequired ref (OwnerReferences node);
          node1 = (if req then node\<lparr> OwnerReferences := refs \<rparr> else node);
          changed = (Pools node1 \<noteq> pools);
          node2 = (if changed then node1\<lparr> Pools := pools \<rparr> else node1)
      in if \<not> (req \<or> changed) then goRet None
         else goBind (node_Update E (Some node2) (kube_WithNamespace ns NewKubeclient)) (\<lambda>(r, k). case r of
           Inl e \<Rightarrow> goRet (Some (EText (''update zfs node '' @ ns @ ''/'' @ name @ '': '' @ errText (lib E) e)))
         | Inr _ \<Rightarrow> goRet None))"

definition syncNode :: "env \<Rightarrow> OwnerReference \<Rightarrow> string \<Rightarrow> string \<Rightarrow> gerror option go" where
  "syncNode E ref ns name =
     goBind (goCall (\<lambda>h. apiCached (nodeApi (cluster E)) h ns name) (\<lambda>r. EvNode (KCached ns name r))) (\<lambda>r.
       case r of
         Inl e \<Rightarrow>
           if \<not> IsNotFound (lib E) (extErr e) then goRet (Some (extErr e))
           else goBind (ListZFSPool E) (\<lambda>(pools, err). case err of
             Some e \<Rightarrow> goRet (Some e)
           | None \<Rightarrow> createNode E ref ns name pools)
       | Inr node \<Rightarrow> goBind (ListZFSPool E) (\<lambda>(pools, err). case err of
             Some e \<Rightarrow> goRet (Some e)
           | None \<Rightarrow> refreshNode E ref ns name pools node))"

definition Node_syncHandler :: "env \<Rightarrow> OwnerReference \<Rightarrow> string \<Rightarrow> gerror option go" where
  "Node_syncHandler E ref key =
     (case splitKey (lib E) key of
        None \<Rightarrow> goBind (HandleError (''invalid resource key: '' @ key)) (\<lambda>_. goRet None)
      | Some (ns, name) \<Rightarrow> syncNode E ref ns name)"

definition enqueueNode :: "env \<Rightarrow> ZFSNode \<Rightarrow> unit go" where
  "enqueueNode E node =
     (if Namespace node \<noteq> OpenEBSNamespace E \<or> Name node \<noteq> NodeID E then goRet ()
      else enqueueObj E node)"

definition addNode :: "env \<Rightarrow> ZFSNode informerObj \<Rightarrow> unit go" where
  "addNode E obj =
     (case obj of Obj node \<Rightarrow> enqueueNode E node | _ \<Rightarrow> HandleError (couldnt ''node object''))"

definition updateNode :: "env \<Rightarrow> ZFSNode informerObj \<Rightarrow> ZFSNode informerObj \<Rightarrow> unit go" where
  "updateNode E oldObj newObj =
     (case newObj of Obj node \<Rightarrow> enqueueNode E node | _ \<Rightarrow> HandleError (couldnt ''node object''))"

definition deleteNode :: "env \<Rightarrow> ZFSNode informerObj \<Rightarrow> unit go" where
  "deleteNode E obj =
     (case obj of
        Obj node \<Rightarrow> enqueueNode E node
      | Tombstone (Some node) \<Rightarrow> enqueueNode E node
      | Tombstone None \<Rightarrow> HandleError ''Tombstone contained object that is not a ZFSNode''
      | OtherObj \<Rightarrow> HandleError (couldnt ''object from tombstone''))"

text \<open>
  The timer loop of \<open>Run\<close>: the node's key is queued at every tick until the controller is stopped.
  The loop's \<open>select\<close> has no default case, so a turn that picks neither is spent waiting.
\<close>

fun tickLoop :: "nat \<Rightarrow> env \<Rightarrow> unit go" where
  "tickLoop 0 E = goStop (EvWait ''node controller'')"
| "tickLoop (Suc n) E =
     goBind (goSelect E ''node controller'') (\<lambda>c. case c of
       CtxDone \<Rightarrow> goRet ()
     | TimedOut \<Rightarrow> goBind (qAdd (OpenEBSNamespace E @ ''/'' @ NodeID E)) (\<lambda>_. tickLoop n E)
     | Default \<Rightarrow> tickLoop n E)"

definition Node_processNextWorkItem :: "env \<Rightarrow> OwnerReference \<Rightarrow> bool go" where
  "Node_processNextWorkItem E ref = processNextWorkItem E (Node_syncHandler E ref)"

definition Node_runWorker :: "env \<Rightarrow> OwnerReference \<Rightarrow> unit go" where
  "Node_runWorker E ref = runWorker (polls E) E (Node_syncHandler E ref)"

definition owned :: "OwnerReference \<Rightarrow> ZFSNode \<Rightarrow> bool" where
  "owned ref node \<longleftrightarrow> (\<exists>r \<in> set (OwnerReferences node). RefUID r = RefUID ref \<and> RefController r = RefController ref)"

text \<open>What a trace shows to be published: a node object with these pools that the cluster accepted.\<close>

definition published :: "OwnerReference \<Rightarrow> string \<Rightarrow> Pool list \<Rightarrow> event list \<Rightarrow> bool" where
  "published ref ns pools es \<longleftrightarrow>
     (\<exists>node x. (EvNode (KCreate ns node (Inr x)) \<in> set es \<or> EvNode (KUpdate ns node (Inr x)) \<in> set es) \<and>
        Pools node = pools \<and> owned ref node)"

section \<open>Rules\<close>

lemma only_ListZFSPool_offQueue [only_rules]: "only (\<lambda>e. \<not> onQueue e) (ListZFSPool E)"
  unfolding ListZFSPool_def by (intro only_rules; simp)

lemma only_syncNode_offQueue: "only (\<lambda>e. \<not> onQueue e) (syncNode E ref ns name)"
  unfolding syncNode_def createNode_def refreshNode_def Let_def by (intro only_rules; simp)

interpretation ndr: reconciler E "Node_syncHandler E ref" for E ref
proof
  fix key
  show "only (\<lambda>e. \<not> onQueue e) (Node_syncHandler E ref key)"
    unfolding Node_syncHandler_def by (intro only_rules only_syncNode_offQueue) simp
qed

lemma ownerRefs_unchanged: "isOwnerRefsUpdateRequired ref rs = (rs', False) \<Longrightarrow> rs' = rs"
  by (induction rs arbitrary: rs') (auto split: if_splits prod.splits)

lemma ownerRefs_has:
  "isOwnerRefsUpdateRequired ref rs = (rs', u) \<Longrightarrow>
   \<exists>r \<in> set rs'. RefUID r = RefUID ref \<and> RefController r = RefController ref"
  by (induction rs arbitrary: rs' u) (auto split: if_splits prod.splits)

lemma ownerRefs_others:
  "isOwnerRefsUpdateRequired ref rs = (rs', u) \<Longrightarrow>
   filter (\<lambda>r. RefUID r \<noteq> RefUID ref) rs' = filter (\<lambda>r. RefUID r \<noteq> RefUID ref) rs"
  by (induction rs arbitrary: rs' u) (auto split: if_splits prod.splits)

lemma ownerRefs_idempotent:
  "isOwnerRefsUpdateRequired ref rs = (rs', u) \<Longrightarrow> isOwnerRefsUpdateRequired ref rs' = (rs', False)"
  by (induction rs arbitrary: rs' u) (auto split: if_splits prod.splits)

lemma createNode_published:
  assumes "createNode E ref ns name pools h = (Some None, h')"
  shows "published ref ns pools h'"
proof -
  obtain node where b: "Build (node_WithOwnerReferences [ref] (node_WithPools pools (node_WithName name
                   (node_WithNamespace ns node_NewBuilder)))) = Inr node"
    using assms by (auto simp: createNode_def goRet_def split: sum.splits)
  then have node: "Pools node = pools" "OwnerReferences node = [ref]"
    by (auto simp: Build_def builder_defs setObj_def nonEmpty_def split: if_splits)
  obtain x k where "node_Create E (Some node) (kube_WithNamespace ns NewKubeclient) h = (Some (Inr x, k), h')"
    using assms b by (auto simp: createNode_def goBind_def goRet_def split: sum.splits prod.splits option.splits)
  from nk.Create_answer [OF this [unfolded node_Create_def]]
  have "EvNode (KCreate ns node (Inr x)) \<in> set h'" by (auto simp: kube_WithNamespace_def)
  moreover have "owned ref node" using node by (simp add: owned_def)
  ultimately show ?thesis unfolding published_def using node by blast
qed

lemma ListZFSPool_ok:
  assumes "ListZFSPool E h = (Some (pools, None), h')"
  shows "\<exists>args out. h' = h @ [EvExec ZFSVolCmd args (out, None)] \<and> decodeListOutput (lib E) out = Some (pools, None)"
proof -
  let ?args = "[ZFSListArg, ''-d'', ''1'', ''-s'', ''name'', ''-o'', ''name,guid,available,used'', ''-H'', ''-p'']"
  show ?thesis
    by (rule exec_cases [of E h ZFSVolCmd ?args])
       (use assms in \<open>auto simp: ListZFSPool_def go_simps split: option.splits\<close>)
qed

lemma refreshNode_published:
  assumes "refreshNode E ref ns name pools node h = (Some None, h')"
  shows "Pools node = pools \<and> owned ref node \<and> h' = h \<or> published ref ns pools h'"
proof -
  obtain refs u where r: "isOwnerRefsUpdateRequired ref (OwnerReferences node) = (refs, u)" by fastforce
  let ?node2 = "let n = (if u then node\<lparr> OwnerReferences := refs \<rparr> else node) in if Pools n \<noteq> pools then n\<lparr> Pools := pools \<rparr> else n"
  have own: "owned ref ?node2" using ownerRefs_has [OF r] ownerRefs_unchanged [of ref "OwnerReferences node" refs] r
    by (cases u) (auto simp: owned_def Let_def)
  have pools: "Pools ?node2 = pools" by (simp add: Let_def)
  show ?thesis
  proof (cases "u \<or> Pools node \<noteq> pools")
    case True
    then obtain x k where "node_Update E (Some ?node2) (kube_WithNamespace ns NewKubeclient) h = (Some (Inr x, k), h')"
      using assms r by (auto simp: refreshNode_def Let_def goBind_def goRet_def split: sum.splits prod.splits option.splits if_splits)
    from nk.Update_answer [OF this [unfolded node_Update_def]]
    have "EvNode (KUpdate ns ?node2 (Inr x)) \<in> set h'" by (auto simp: kube_WithNamespace_def)
    then show ?thesis unfolding published_def using pools own by blast
  next
    case False
    with assms r own show ?thesis by (simp add: refreshNode_def Let_def goRet_def)
  qed
qed

section \<open>Properties\<close>

text \<open>C19: A successful sync publishes the pools the node has: the pools that \<open>zfs list\<close> printed are in an object that the
  cluster accepted, or were in the cached object already, with an owner reference to the node.\<close>
theorem syncNode_publishes:
  assumes run: "syncNode E ref ns name h = (Some None, h')"
  shows "\<exists>args out pools. EvExec ZFSVolCmd args (out, None) \<in> set h' \<and> decodeListOutput (lib E) out = Some (pools, None) \<and>
    ((\<exists>node. EvNode (KCached ns name (Inr node)) \<in> set h' \<and> Pools node = pools \<and> owned ref node) \<or> published ref ns pools h')"
proof -
  obtain r where r: "apiCached (nodeApi (cluster E)) h ns name = r" by simp
  let ?h1 = "h @ [EvNode (KCached ns name r)]"
  obtain pools h2 where l: "ListZFSPool E ?h1 = (Some (pools, None), h2)"
    and rest: "(case r of Inl e \<Rightarrow> createNode E ref ns name pools | Inr node \<Rightarrow> refreshNode E ref ns name pools node) h2 = (Some None, h')"
    using run r by (auto simp: syncNode_def goBind_def goCall_def goRet_def split: sum.splits prod.splits option.splits if_splits)
  obtain args out where out: "EvExec ZFSVolCmd args (out, None) \<in> set h2" "decodeListOutput (lib E) out = Some (pools, None)"
    and ext: "\<exists>es. h2 = ?h1 @ es"
  proof -
    obtain args out where "h2 = ?h1 @ [EvExec ZFSVolCmd args (out, None)]" "decodeListOutput (lib E) out = Some (pools, None)"
      using ListZFSPool_ok [OF l] by blast
    then show ?thesis using that [of args out] by simp
  qed
  have sub: "set h2 \<subseteq> set h'"
  proof -
    have ext: "only (\<lambda>_. True) (case r of Inl e \<Rightarrow> createNode E ref ns name pools | Inr node \<Rightarrow> refreshNode E ref ns name pools node)"
      unfolding createNode_def refreshNode_def Let_def by (intro only_rules; simp)
    obtain es where "h' = h2 @ es" by (rule only_snd [OF ext rest])
    then show ?thesis by simp
  qed
  have "(\<exists>node. EvNode (KCached ns name (Inr node)) \<in> set h' \<and> Pools node = pools \<and> owned ref node) \<or> published ref ns pools h'"
  proof (cases r)
    case (Inl e)
    with rest show ?thesis using createNode_published by auto
  next
    case (Inr node)
    then have "EvNode (KCached ns name (Inr node)) \<in> set h2" using ext by auto
    with rest Inr sub show ?thesis using refreshNode_published [of E ref ns name pools node h2 h'] by auto
  qed
  with out sub show ?thesis by blast
qed

theorem syncNode_publishes_witness:
  "let ref = \<lparr> RefAPIVersion = ''v1'', RefKind = ''Node'', RefName = ''n'', RefUID = ''u1'', RefController = Some True \<rparr>
   in \<exists>pools. decodeListOutput quietLib [] = Some (pools, None) \<and>
        published ref ''openebs'' pools (snd (syncNode quietEnv ref ''openebs'' ''node-1'' []))"
proof -
  let ?ref = "\<lparr> RefAPIVersion = ''v1'', RefKind = ''Node'', RefName = ''n'', RefUID = ''u1'', RefController = Some True \<rparr>"
  let ?h' = "snd (syncNode quietEnv ?ref ''openebs'' ''node-1'' [])"
  note eval = syncNode_def ListZFSPool_def createNode_def Build_def builder_defs nonEmpty_def node_Create_def kube_Create_def
    nodeKind_def kube_WithNamespace_def NewKubeclient_def decodeListOutput_def scanLines_def extErr_def quiet_defs go_simps
    apiAnswer_def emptyNode_def Let_def
  have run: "syncNode quietEnv ?ref ''openebs'' ''node-1'' [] = (Some None, ?h')" by (simp add: eval)
  have only_quiet: "\<forall>args out. EvExec ZFSVolCmd args (out, None) \<in> set ?h' \<longrightarrow> out = []"
    and no_cached: "\<forall>node. EvNode (KCached ''openebs'' ''node-1'' (Inr node)) \<notin> set ?h'" by (simp_all add: eval)
  have "lib quietEnv = quietLib" by (simp add: quietEnv_def)
  with syncNode_publishes [OF run] only_quiet no_cached show ?thesis unfolding Let_def by metis
qed

text \<open>Settling the owner references of a node object keeps every reference to another owner, ends with a reference to
  the node that has the required controller flag, and a second pass finds nothing to change.\<close>
lemma ownerRefs_settle:
  assumes "isOwnerRefsUpdateRequired ref rs = (rs', u)"
  shows "filter (\<lambda>r. RefUID r \<noteq> RefUID ref) rs' = filter (\<lambda>r. RefUID r \<noteq> RefUID ref) rs \<and>
    (\<exists>r \<in> set rs'. RefUID r = RefUID ref \<and> RefController r = RefController ref) \<and>
    isOwnerRefsUpdateRequired ref rs' = (rs', False) \<and> (\<not> u \<longrightarrow> rs' = rs)"
  using ownerRefs_others [OF assms] ownerRefs_has [OF assms] ownerRefs_idempotent [OF assms]
    ownerRefs_unchanged [of ref rs rs'] assms by (cases u) simp_all

end
