(* ===== verification/Listing.thy ===== *)
theory Listing
  imports ZfsUtil
begin

text \<open>
  The pool listing read back: \<open>zfs list -H -p\<close> prints one line per pool or dataset with
  tab-separated fields, and \<open>decodeListOutput\<close> (\<open>pkg/zfs/zfs_util.go\<close>) recovers exactly
  the pools from it, in order and with their sizes.
\<close>

section \<open>What the command prints\<close>

definition printable :: "char \<Rightarrow> bool" where
  "printable c = (0x20 \<le> (of_char c :: nat) \<and> (of_char c :: nat) < 0x7F)"

definition listLine :: "Pool \<Rightarrow> string" where
  "listLine p = PoolNodeName p @ CHR 0x09 # UUID p @ CHR 0x09 # FormatInt (Free p)
     @ CHR 0x09 # FormatInt (Used p)"

definition listing :: "Pool list \<Rightarrow> string" where
  "listing ps = concat (map (\<lambda>p. listLine p @ [CHR 0x0A]) ps)"

text \<open>A name and a guid of printable characters, 64-bit sizes, and a line the scanner can hold.\<close>

definition listable :: "Pool \<Rightarrow> bool" where
  "listable p = (PoolNodeName p \<noteq> [] \<and> hd (PoolNodeName p) \<noteq> CHR '' ''
     \<and> list_all printable (PoolNodeName p) \<and> list_all printable (UUID p)
     \<and> is_i64 (Free p) \<and> is_i64 (Used p) \<and> length (listLine p) < 65536)"

definition isPoolLine :: "Pool \<Rightarrow> bool" where
  "isPoolLine p = (\<not> contains (PoolNodeName p) ''/'')"

definition listedPools :: "Pool list" where
  "listedPools = [\<lparr> PoolNodeName = ''zfspv-pool'', UUID = ''4734063099997348493'', Free = 103498467328, Used = 4096 \<rparr>,
     \<lparr> PoolNodeName = ''zfspv-pool/pvc-1'', UUID = ''3380225606535803752'', Free = 4294942720, Used = 512 \<rparr>]"

section \<open>Characters\<close>

lemma printable_not [simp]: "\<not> printable (CHR 0x09)" "\<not> printable (CHR 0x0A)"
  by (simp_all add: printable_def)

lemma natDigits_set: "set (natDigits n) \<subseteq> set ''0123456789''"
proof (induction n rule: natDigits.induct)
  case (1 n)
  have "''0123456789'' ! (n mod 10) \<in> set ''0123456789''" by (rule nth_mem) simp
  moreover have "n < 10 \<Longrightarrow> ''0123456789'' ! n \<in> set ''0123456789''" by (rule nth_mem) simp
  ultimately show ?case using 1 by (subst natDigits.simps) (auto simp del: natDigits.simps)
qed

lemma FormatInt_printable: "list_all printable (FormatInt n)"
proof -
  have digits: "list_all printable ''0123456789''" by (simp add: printable_def)
  have "list_all printable (natDigits k)" for k
    using subsetD [OF natDigits_set] digits unfolding list_all_iff by metis
  moreover have "printable (CHR ''-'')" by (simp add: printable_def)
  ultimately show ?thesis by (simp add: FormatInt_def del: natDigits.simps)
qed

lemma FormatInt_last: "last (FormatInt n) \<in> set ''0123456789''"
proof -
  have "last (natDigits k) \<in> set ''0123456789''" for k
    using natDigits_set [of k] last_in_set [OF natDigits_ne [of k]] by blast
  then show ?thesis by (simp add: FormatInt_def del: natDigits.simps)
qed

lemma no_control: "list_all printable s \<Longrightarrow> \<not> printable c \<Longrightarrow> c \<notin> set s"
  by (auto simp: list_all_iff)

section \<open>Trimming changes no line\<close>

lemma spaceAt_printable: "printable c \<Longrightarrow> c \<noteq> CHR '' '' \<Longrightarrow> spaceAt (c # cs) = 0"
proof -
  assume c: "printable c" "c \<noteq> CHR '' ''"
  have "list_all (\<lambda>p. p \<noteq> [] \<and> (hd p = CHR '' '' \<or> \<not> printable (hd p))) go_spaces"
    by (simp add: go_spaces_def printable_def)
  then have "\<not> prefix p (c # cs)" if "p \<in> set go_spaces" for p
    using that c by (cases p) (auto simp only: list_all_iff prefix_Cons list.sel list.simps)
  then have "find (\<lambda>p. prefix p (c # cs)) go_spaces = None" by (simp add: find_None_iff)
  then show ?thesis by (simp add: spaceAt_def)
qed

lemma spaceEnd_digit:
  assumes "last s \<in> set ''0123456789''" "s \<noteq> []"
  shows "spaceEnd s = 0"
proof -
  have "\<not> suffix p s" if "p \<in> set go_spaces" for p
  proof
    assume "suffix p s"
    moreover have "p \<noteq> []" "last p \<notin> set ''0123456789''"
      using that by (auto simp: go_spaces_def)
    ultimately show False using assms(1) by (auto simp: suffix_def)
  qed
  then have "find (\<lambda>p. suffix p s) go_spaces = None" by (simp add: find_None_iff)
  then show ?thesis by (simp add: spaceEnd_def)
qed

lemma last_listLine: "last (listLine p) \<in> set ''0123456789''"
  using FormatInt_last [of "Used p"] by (simp add: listLine_def)

lemma listLine_ne [simp]: "listLine p \<noteq> []"
  by (simp add: listLine_def)

lemma TrimSpace_listLine: "listable p \<Longrightarrow> TrimSpace (listLine p) = listLine p"
proof -
  assume p: "listable p"
  then obtain c cs where c: "PoolNodeName p = c # cs" by (cases "PoolNodeName p") (auto simp: listable_def)
  with p have "spaceAt (listLine p) = 0"
    by (simp add: listable_def listLine_def spaceAt_printable)
  moreover have "spaceEnd (listLine p) = 0"
    by (rule spaceEnd_digit) (rule last_listLine, simp)
  ultimately show ?thesis
    by (simp add: TrimSpace_def trimLeft.simps [of "listLine p"] trimRight.simps [of "listLine p"])
qed

section \<open>Reading back\<close>

lemma split_listLine:
  assumes "listable p"
  shows "splitOn (CHR 0x09) (listLine p) = [PoolNodeName p, UUID p, FormatInt (Free p), FormatInt (Used p)]"
  using assms FormatInt_printable [of "Free p"] FormatInt_printable [of "Used p"]
  by (simp add: listLine_def listable_def splitOn_append splitOn_none no_control)

lemma decodeLine_listLine:
  assumes "listable p"
  shows "decodeLine L (listLine p) = Some (if isPoolLine p then Some (Inr p) else None)"
  using assms
  by (simp add: decodeLine_def TrimSpace_listLine split_listLine isPoolLine_def ParseInt_FormatInt
      listable_def)

lemma decodeLines_listing:
  "list_all listable ps \<Longrightarrow>
   decodeLines L (map listLine ps) acc = Some (acc @ filter isPoolLine ps, None)"
  by (induction ps arbitrary: acc) (auto simp: decodeLine_listLine)

lemma split_lines:
  "\<forall>l\<in>set ls. c \<notin> set l \<Longrightarrow> splitOn c (concat (map (\<lambda>l. l @ [c]) ls)) = ls @ [[]]"
  by (induction ls) (auto simp: splitOn_append)

lemma newline_not_in_line: "listable p \<Longrightarrow> CHR 0x0A \<notin> set (listLine p)"
  using FormatInt_printable [of "Free p"] FormatInt_printable [of "Used p"]
  by (simp add: listLine_def listable_def no_control)

lemma dropCR_listLine [simp]: "dropCR (listLine p) = listLine p"
  using last_listLine [of p] by (auto simp: dropCR_def)

lemma scanLines_listing:
  assumes "list_all listable ps"
  shows "scanLines (listing ps) = map listLine ps"
proof -
  have "listing ps = concat (map (\<lambda>l. l @ [CHR 0x0A]) (map listLine ps))"
    by (simp add: listing_def comp_def)
  then have "splitOn (CHR 0x0A) (listing ps) = map listLine ps @ [[]]"
    using assms newline_not_in_line by (simp only:) (rule split_lines, auto simp: list_all_iff)
  moreover have "takeWhile (\<lambda>l. length l < 65536) (map listLine ps) = map listLine ps"
    using assms by (auto simp: takeWhile_eq_all_conv list_all_iff listable_def)
  moreover have "map dropCR (map listLine ps) = map listLine ps" by simp
  ultimately show ?thesis
    by (simp only: scanLines_def Let_def last_snoc butlast_snoc simp_thms if_True)
qed

text \<open>C34: Decoding what the pool listing prints gives back exactly the listed pools, in the printed
  order, with names, guids and sizes; datasets below a pool (names with a slash) are left out, and
  neither an error nor an index out of range occurs.  The entries have printable names and guids and
  64-bit sizes, and each line fits in the buffer of the scanner.\<close>

theorem pool_listing_roundtrip:
  assumes "list_all listable ps"
  shows "decodeListOutput L (listing ps) = Some (filter isPoolLine ps, None)"
  using assms by (simp add: decodeListOutput_def scanLines_listing decodeLines_listing)

theorem pool_listing_roundtrip_witness:
  "decodeListOutput quietLib (listing listedPools) = Some ([hd listedPools], None)"
proof -
  have "list_all listable listedPools"
    by (simp add: listedPools_def listable_def listLine_def printable_def FormatInt_def natDigits.simps is_i64_def)
  then show ?thesis
    using pool_listing_roundtrip [of listedPools quietLib]
    by (simp add: listedPools_def isPoolLine_def)
qed

end
