(* ===== verification/VolumeLock.thy ===== *)
theory VolumeLock
  imports Prelude
begin

text \<open>
  \<open>pkg/driver/volume_lock.go\<close>: the lock the controller's requests take on the names of the volume and
  the snapshot they work on. The test and the entry of a name are done under the mutex of the condition
  variable, so each is one step of the system; a waiting request has no step until the name is free.

  A request is the sequence of its lock actions; between them it does its work. \<open>lockStep\<close> interleaves
  the actions of any number of requests.
\<close>

section \<open>Definitions\<close>

datatype action = Acquire string | Release string

text \<open>\<open>OneLock\<close> is a request under \<open>LockVolume\<close>, \<open>TwoLocks\<close> one under \<open>LockVolumeWithSnapshot\<close>.\<close>

datatype request = OneLock string | TwoLocks string string

definition LockVolume :: "string \<Rightarrow> action list \<times> action list" where
  "LockVolume volume = ([Acquire volume], [Release volume])"

definition LockVolumeWithSnapshot :: "string \<Rightarrow> string \<Rightarrow> action list \<times> action list" where
  "LockVolumeWithSnapshot volume snapshot =
     (let (lockVol, unlockVol) = LockVolume volume; (lockSnap, unlockSnap) = LockVolume snapshot
      in (lockVol @ lockSnap, unlockVol @ unlockSnap))"

fun program :: "request \<Rightarrow> action list" where
  "program (OneLock v) = fst (LockVolume v) @ snd (LockVolume v)"
| "program (TwoLocks v s) = fst (LockVolumeWithSnapshot v s) @ snd (LockVolumeWithSnapshot v s)"

record lockState =
  locked :: "string set"
  requests :: "(request \<times> nat) list"

definition newVolumeLock :: "request list \<Rightarrow> lockState" where
  "newVolumeLock rs = \<lparr> locked = {}, requests = map (\<lambda>r. (r, 0)) rs \<rparr>"

text \<open>What an action does to the map of locked names; \<open>None\<close> if it has to wait.\<close>

fun act :: "action \<Rightarrow> string set \<Rightarrow> string set option" where
  "act (Acquire v) L = (if v \<in> L then None else Some (insert v L))"
| "act (Release v) L = Some (L - {v})"

definition nextAction :: "request \<times> nat \<Rightarrow> action option" where
  "nextAction t = (if snd t < length (program (fst t)) then Some (program (fst t) ! snd t) else None)"

inductive lockStep :: "lockState \<Rightarrow> lockState \<Rightarrow> bool" where
  lockStepI: "i < length (requests st) \<Longrightarrow> requests st ! i = (r, pc) \<Longrightarrow> nextAction (r, pc) = Some a \<Longrightarrow>
    act a (locked st) = Some L \<Longrightarrow>
    lockStep st \<lparr> locked = L, requests = (requests st)[i := (r, Suc pc)] \<rparr>"

text \<open>The names a request holds after its first \<open>pc\<close> actions.\<close>

definition holds :: "request \<times> nat \<Rightarrow> string set" where
  "holds t = fold (\<lambda>a L. case a of Acquire v \<Rightarrow> insert v L | Release v \<Rightarrow> L - {v}) (take (snd t) (program (fst t))) {}"

text \<open>A request that locks the same name twice never gets past its first action.\<close>

definition goodPc :: "request \<times> nat \<Rightarrow> bool" where
  "goodPc t \<longleftrightarrow> snd t \<le> length (program (fst t)) \<and> (\<forall>v. fst t = TwoLocks v v \<longrightarrow> snd t \<le> 1)"

definition lockInv :: "lockState \<Rightarrow> bool" where
  "lockInv st \<longleftrightarrow>
     list_all goodPc (requests st)
     \<and> locked st = (\<Union>i\<in>{..<length (requests st)}. holds (requests st ! i))
     \<and> (\<forall>i < length (requests st). \<forall>j < length (requests st).
          i \<noteq> j \<longrightarrow> holds (requests st ! i) \<inter> holds (requests st ! j) = {})"

text \<open>No snapshot has the name of a volume.\<close>

fun volumesOf :: "request \<Rightarrow> string list" where
  "volumesOf (OneLock v) = [v]"
| "volumesOf (TwoLocks v s) = [v]"

fun snapsOf :: "request \<Rightarrow> string list" where
  "snapsOf (OneLock v) = []"
| "snapsOf (TwoLocks v s) = [s]"

definition namesApart :: "request list \<Rightarrow> bool" where
  "namesApart rs \<longleftrightarrow> list_all (\<lambda>r. list_all (\<lambda>r'. list_all (\<lambda>s. s \<notin> set (volumesOf r')) (snapsOf r)) rs) rs"

definition remaining :: "lockState \<Rightarrow> nat" where
  "remaining st = sum_list (map (\<lambda>(r, pc). length (program r) - pc) (requests st))"

definition served :: "lockState \<Rightarrow> bool" where
  "served st \<longleftrightarrow> list_all (\<lambda>(r, pc). pc = length (program r)) (requests st)"

text \<open>A reachable state, used by the witnesses.\<close>

definition demoLocked :: lockState where
  "demoLocked = \<lparr> locked = {''pvc-1''}, requests = [(OneLock ''pvc-1'', 1), (TwoLocks ''pvc-1'' ''snap-1'', 0)] \<rparr>"

section \<open>One request\<close>

lemmas lock_programs = LockVolume_def LockVolumeWithSnapshot_def

lemma holds_0 [simp]: "holds (r, 0) = {}"
  by (simp add: holds_def)

lemma holds_Suc:
  "nextAction (r, pc) = Some a \<Longrightarrow>
     holds (r, Suc pc) = (case a of Acquire v \<Rightarrow> insert v (holds (r, pc)) | Release v \<Rightarrow> holds (r, pc) - {v})"
  by (auto simp: nextAction_def holds_def take_Suc_conv_app_nth split: if_splits action.splits)

lemma pc_cases: "pc \<le> length (program (TwoLocks v s)) \<Longrightarrow> pc = 0 \<or> pc = 1 \<or> pc = 2 \<or> pc = 3 \<or> pc = 4"
  by (auto simp: lock_programs)

lemma next_TwoLocks [simp]:
  "nextAction (TwoLocks v s, 0) = Some (Acquire v)" "nextAction (TwoLocks v s, Suc 0) = Some (Acquire s)"
  "nextAction (TwoLocks v s, 2) = Some (Release v)" "nextAction (TwoLocks v s, 3) = Some (Release s)"
  "nextAction (TwoLocks v s, 4) = None"
  by (simp_all add: nextAction_def lock_programs)

lemma holds_TwoLocks [simp]:
  "holds (TwoLocks v s, Suc 0) = {v}" "holds (TwoLocks v s, 2) = {v, s}"
  "holds (TwoLocks v s, 3) = {v, s} - {v}" "holds (TwoLocks v s, 4) = {}"
  by (auto simp: holds_def lock_programs numeral_eq_Suc)

lemma next_OneLock [simp]:
  "nextAction (OneLock v, 0) = Some (Acquire v)" "nextAction (OneLock v, Suc 0) = Some (Release v)"
  "nextAction (OneLock v, 2) = None"
  by (simp_all add: nextAction_def lock_programs)

lemma holds_OneLock [simp]: "holds (OneLock v, Suc 0) = {v}" "holds (OneLock v, 2) = {}"
  by (auto simp: holds_def lock_programs numeral_eq_Suc)

lemma goodPc_One: "goodPc (OneLock v, pc) \<longleftrightarrow> pc = 0 \<or> pc = 1 \<or> pc = 2"
  by (auto simp: goodPc_def lock_programs)

lemma goodPc_Two: "goodPc (TwoLocks v s, pc) \<longleftrightarrow> pc = 0 \<or> pc = 1 \<or> (v \<noteq> s \<and> (pc = 2 \<or> pc = 3 \<or> pc = 4))"
  by (auto simp: goodPc_def lock_programs)

lemma releases_held:
  assumes "goodPc (r, pc)" "nextAction (r, pc) = Some (Release v)"
  shows "v \<in> holds (r, pc)"
  using assms by (cases r) (auto simp: goodPc_One goodPc_Two)

lemma goodPc_Suc:
  assumes "goodPc (r, pc)" "nextAction (r, pc) = Some a" "\<And>v. a = Acquire v \<Longrightarrow> v \<notin> holds (r, pc)"
  shows "goodPc (r, Suc pc)"
  using assms by (cases r) (auto simp: goodPc_One goodPc_Two)

section \<open>Mutual exclusion\<close>

lemma lockInvD:
  assumes "lockInv st" "i < length (requests st)"
  shows "goodPc (requests st ! i)" "holds (requests st ! i) \<subseteq> locked st"
    and "j < length (requests st) \<Longrightarrow> i \<noteq> j \<Longrightarrow> holds (requests st ! i) \<inter> holds (requests st ! j) = {}"
  using assms by (auto simp: lockInv_def list_all_length)

lemma UN_list_update:
  "i < length xs \<Longrightarrow> (\<Union>k\<in>{..<length xs}. f (xs[i := x] ! k)) = f x \<union> (\<Union>k\<in>{..<length xs} - {i}. f (xs ! k))"
  by (auto simp: nth_list_update split: if_splits)

lemma lockInv_step:
  assumes inv: "lockInv st" and "lockStep st st'"
  shows "lockInv st'"
  using assms(2)
proof cases
  case (lockStepI i r pc a L)
  let ?T = "requests st" and ?T' = "(requests st)[i := (r, Suc pc)]"
  note i = \<open>i < length ?T\<close> and t = \<open>?T ! i = (r, pc)\<close>
  have mine: "holds (?T ! i) = holds (r, pc)" "goodPc (r, pc)" "holds (r, pc) \<subseteq> locked st"
    using lockInvD [OF inv i] t by auto
  have other: "?T' ! k = ?T ! k" if "k \<noteq> i" for k using that by simp
  have own: "?T' ! i = (r, Suc pc)" using i by simp
  have L: "locked st = (\<Union>k\<in>{..<length ?T}. holds (?T ! k))" using inv by (simp add: lockInv_def)
  have split: "(\<Union>k\<in>{..<length ?T'}. holds (?T' ! k)) = holds (r, Suc pc) \<union> (\<Union>k\<in>{..<length ?T} - {i}. holds (?T ! k))"
    using UN_list_update [OF i, of holds "(r, Suc pc)"] by simp
  have rest: "locked st = holds (r, pc) \<union> (\<Union>k\<in>{..<length ?T} - {i}. holds (?T ! k))" using L i mine by auto
  have apart: "holds (r, pc) \<inter> holds (?T ! k) = {}" if "k < length ?T" "k \<noteq> i" for k
    using lockInvD(3) [OF inv i, of k] mine that by auto
  have good: "goodPc (r, Suc pc)"
    using goodPc_Suc [of r pc a] mine lockStepI by (cases a) (auto split: if_splits)
  have "L = holds (r, Suc pc) \<union> (\<Union>k\<in>{..<length ?T} - {i}. holds (?T ! k))
    \<and> (\<forall>k < length ?T. k \<noteq> i \<longrightarrow> holds (r, Suc pc) \<inter> holds (?T ! k) = {})"
  proof (cases a)
    case (Acquire v)
    then have "v \<notin> locked st" "L = insert v (locked st)" using lockStepI by (auto split: if_splits)
    with Acquire holds_Suc [of r pc a] lockStepI rest apart L show ?thesis by auto
  next
    case (Release v)
    then have "v \<in> holds (r, pc)" "L = locked st - {v}" using releases_held mine lockStepI by auto
    with Release holds_Suc [of r pc a] lockStepI rest apart show ?thesis by auto
  qed
  moreover have "list_all goodPc ?T'"
    using good inv i by (auto simp: lockInv_def list_all_length nth_list_update)
  moreover have "holds (?T' ! j) \<inter> holds (?T' ! k) = {}"
    if "j < length ?T" "k < length ?T" "j \<noteq> k" "\<forall>k < length ?T. k \<noteq> i \<longrightarrow> holds (r, Suc pc) \<inter> holds (?T ! k) = {}" for j k
    using that lockInvD(3) [OF inv, of j k] own other by (cases "j = i"; cases "k = i") auto
  ultimately show ?thesis unfolding lockInv_def \<open>st' = _\<close> by (simp add: split [simplified])
qed

lemma lockInv_new: "lockInv (newVolumeLock rs)"
  by (auto simp: lockInv_def newVolumeLock_def list_all_iff goodPc_def)

lemma lockInv_reachable: "lockStep\<^sup>*\<^sup>* (newVolumeLock rs) st \<Longrightarrow> lockInv st"
  by (induction rule: rtranclp_induct) (auto intro: lockInv_new lockInv_step)

section \<open>Progress\<close>

lemma step_keeps_requests: "lockStep st st' \<Longrightarrow> map fst (requests st') = map fst (requests st)"
  by (induction rule: lockStep.induct) (auto simp: map_update intro!: nth_equalityI, metis fst_conv list_update_id nth_list_update nth_map)

lemma reachable_requests: "lockStep\<^sup>*\<^sup>* (newVolumeLock rs) st \<Longrightarrow> map fst (requests st) = rs"
  by (induction rule: rtranclp_induct) (auto simp: newVolumeLock_def comp_def dest: step_keeps_requests)

text \<open>Where a request holds a name: as its volume, or as its snapshot with a release coming next.\<close>

lemma holds_cases:
  assumes "goodPc (r, pc)" "x \<in> holds (r, pc)"
  shows "(\<exists>v. nextAction (r, pc) = Some (Release v))
         \<or> (x \<in> set (volumesOf r) \<and> (\<exists>s. s \<in> set (snapsOf r) \<and> nextAction (r, pc) = Some (Acquire s)))"
  using assms by (cases r) (auto simp: goodPc_One goodPc_Two)

lemma acquire_cases:
  "goodPc (r, pc) \<Longrightarrow> nextAction (r, pc) = Some (Acquire x) \<Longrightarrow> x \<in> set (volumesOf r) \<or> x \<in> set (snapsOf r)"
  by (cases r) (auto simp: goodPc_One goodPc_Two)

lemma release_steps:
  assumes "i < length (requests st)" "requests st ! i = (r, pc)" "nextAction (r, pc) = Some (Release v)"
  shows "\<exists>st'. lockStep st st'"
  using lockStepI [OF assms, of "locked st - {v}"] by auto

lemma namesApartD:
  "namesApart rs \<Longrightarrow> r \<in> set rs \<Longrightarrow> r' \<in> set rs \<Longrightarrow> s \<in> set (snapsOf r) \<Longrightarrow> s \<notin> set (volumesOf r')"
  by (auto simp: namesApart_def list_all_iff)

lemma snapshot_wait_steps:
  assumes inv: "lockInv st" and "namesApart (map fst (requests st))"
    and "s \<in> locked st" "j < length (requests st)" "s \<in> set (snapsOf (fst (requests st ! j)))"
  shows "\<exists>st'. lockStep st st'"
proof -
  from inv \<open>s \<in> locked st\<close> obtain k where k: "k < length (requests st)" "s \<in> holds (requests st ! k)"
    by (auto simp: lockInv_def)
  obtain r pc where t: "requests st ! k = (r, pc)" by (cases "requests st ! k")
  have "r \<in> set (map fst (requests st))" using nth_mem [OF k(1)] t by force
  with namesApartD [OF assms(2) _ _ assms(5)] nth_mem [OF assms(4)] have "s \<notin> set (volumesOf r)" by auto
  with holds_cases [of r pc s] lockInvD(1) [OF inv k(1)] k t obtain v where "nextAction (r, pc) = Some (Release v)"
    by auto
  with release_steps k(1) t show ?thesis by blast
qed

lemma wait_steps:
  assumes inv: "lockInv st" and apart: "namesApart (map fst (requests st))"
    and x: "x \<in> locked st"
  shows "\<exists>st'. lockStep st st'"
proof -
  from inv x obtain k where k: "k < length (requests st)" "x \<in> holds (requests st ! k)" by (auto simp: lockInv_def)
  obtain r pc where t: "requests st ! k = (r, pc)" by (cases "requests st ! k")
  from holds_cases [of r pc x] lockInvD(1) [OF inv k(1)] k t
  consider v where "nextAction (r, pc) = Some (Release v)"
    | s where "s \<in> set (snapsOf r)" "nextAction (r, pc) = Some (Acquire s)" by auto
  then show ?thesis
  proof cases
    case 1
    with release_steps k(1) t show ?thesis by blast
  next
    case 2
    show ?thesis
    proof (cases "s \<in> locked st")
      case True
      with snapshot_wait_steps [OF inv apart _ k(1)] t 2 show ?thesis by auto
    next
      case False
      with 2 lockStepI [OF k(1) t, of "Acquire s" "insert s (locked st)"] show ?thesis by auto
    qed
  qed
qed

lemma unserved_next:
  assumes "lockInv st" "\<not> served st"
  obtains i r pc a where "i < length (requests st)" "requests st ! i = (r, pc)" "nextAction (r, pc) = Some a"
proof -
  from assms(2) have "\<exists>i < length (requests st). \<not> (case requests st ! i of (r, pc) \<Rightarrow> pc = length (program r))"
    by (simp only: served_def list_all_length) simp
  then obtain i where i: "i < length (requests st)" "\<not> (case requests st ! i of (r, pc) \<Rightarrow> pc = length (program r))"
    by (elim exE conjE)
  obtain r pc where t: "requests st ! i = (r, pc)" by (cases "requests st ! i")
  with i(2) have "pc \<noteq> length (program r)" by simp
  moreover from lockInvD(1) [OF assms(1) i(1)] t have "pc \<le> length (program r)" by (simp add: goodPc_def)
  ultimately have "nextAction (r, pc) = Some (program r ! pc)" by (simp add: nextAction_def)
  with i t that show thesis by blast
qed

lemma lock_progress:
  assumes inv: "lockInv st" and "namesApart (map fst (requests st))" "\<not> served st"
  shows "\<exists>st'. lockStep st st'"
proof -
  from unserved_next [OF inv assms(3)] obtain i r pc a
    where i: "i < length (requests st)" "requests st ! i = (r, pc)" "nextAction (r, pc) = Some a" by blast
  show ?thesis
  proof (cases a)
    case (Release v)
    with release_steps i show ?thesis by blast
  next
    case (Acquire v)
    show ?thesis
    proof (cases "v \<in> locked st")
      case True
      with wait_steps assms show ?thesis by blast
    next
      case False
      with Acquire lockStepI [OF i, of "insert v (locked st)"] show ?thesis by auto
    qed
  qed
qed

lemma remaining_step: "lockStep st st' \<Longrightarrow> remaining st = Suc (remaining st')"
proof (induction rule: lockStep.induct)
  case (lockStepI i st r pc a L)
  then have "pc < length (program r)" by (simp add: nextAction_def split: if_splits)
  moreover from lockStepI have "requests st = take i (requests st) @ (r, pc) # drop (Suc i) (requests st)"
    using id_take_nth_drop [of i "requests st"] by simp
  then have "remaining st = sum_list (map (\<lambda>(r, pc). length (program r) - pc) (take i (requests st)))
      + (length (program r) - pc) + sum_list (map (\<lambda>(r, pc). length (program r) - pc) (drop (Suc i) (requests st)))"
    unfolding remaining_def by (metis (no_types, lifting) add.assoc case_prod_conv list.simps(9) map_append sum_list.Cons sum_list.append)
  ultimately show ?case using lockStepI(1) by (simp add: remaining_def upd_conv_take_nth_drop)
qed

text \<open>C11: two requests never hold the same name at the same time, whatever the requests and their
  interleaving, and a name is marked as locked exactly while a request holds it.
\<close>

theorem volume_lock_exclusive:
  assumes "lockStep\<^sup>*\<^sup>* (newVolumeLock rs) st" "i < length rs" "j < length rs" "i \<noteq> j"
  shows "holds (requests st ! i) \<inter> holds (requests st ! j) = {}
     \<and> locked st = (\<Union>k\<in>{..<length rs}. holds (requests st ! k))"
proof -
  from reachable_requests [OF assms(1)] have "length (requests st) = length rs" by (metis length_map)
  with lockInv_reachable [OF assms(1)] assms(2-) show ?thesis unfolding lockInv_def by simp
qed

lemma demoLocked_reachable:
  "lockStep\<^sup>*\<^sup>* (newVolumeLock [OneLock ''pvc-1'', TwoLocks ''pvc-1'' ''snap-1'']) demoLocked"
proof -
  have "lockStep (newVolumeLock [OneLock ''pvc-1'', TwoLocks ''pvc-1'' ''snap-1'']) demoLocked"
    using lockStepI [of 0 "newVolumeLock [OneLock ''pvc-1'', TwoLocks ''pvc-1'' ''snap-1'']" "OneLock ''pvc-1''" 0
        "Acquire ''pvc-1''" "{''pvc-1''}"]
    by (simp add: newVolumeLock_def demoLocked_def)
  then show ?thesis by blast
qed

theorem volume_lock_exclusive_witness:
  "holds (requests demoLocked ! 0) \<inter> holds (requests demoLocked ! 1) = {} \<and> locked demoLocked = {''pvc-1''}"
  using volume_lock_exclusive [OF demoLocked_reachable, of 0 1] by (simp add: demoLocked_def)

text \<open>C12: if no snapshot has the name of a volume, the locks cannot deadlock: a system that can take no
  further step has served every request, and each step brings that end nearer, so it is reached.
\<close>

theorem volume_lock_serves_all:
  assumes "namesApart rs" "lockStep\<^sup>*\<^sup>* (newVolumeLock rs) st"
  shows "(served st \<or> (\<exists>st'. lockStep st st')) \<and> (\<forall>st'. lockStep st st' \<longrightarrow> remaining st' < remaining st)"
proof -
  from reachable_requests [OF assms(2)] assms(1) have "namesApart (map fst (requests st))" by simp
  with lock_progress [OF lockInv_reachable [OF assms(2)]] remaining_step [of st] show ?thesis by auto
qed

theorem volume_lock_serves_all_witness:
  "served demoLocked \<or> (\<exists>st'. lockStep demoLocked st')"
  using volume_lock_serves_all [OF _ demoLocked_reachable] by (simp add: namesApart_def)

lemma stuckI:
  assumes "list_all (\<lambda>t. \<forall>a. nextAction t = Some a \<longrightarrow> act a (locked st) = None) (requests st)"
  shows "\<not> lockStep st st'"
proof
  assume "lockStep st st'"
  then show False using assms by cases (auto simp: list_all_length)
qed

lemma reaches_crossed:
  assumes "a \<noteq> b"
  shows "lockStep\<^sup>*\<^sup>* (newVolumeLock [TwoLocks a b, TwoLocks b a])
           \<lparr> locked = {b, a}, requests = [(TwoLocks a b, Suc 0), (TwoLocks b a, Suc 0)] \<rparr>"
proof -
  let ?s0 = "newVolumeLock [TwoLocks a b, TwoLocks b a]"
    and ?s1 = "\<lparr> locked = {a}, requests = [(TwoLocks a b, Suc 0), (TwoLocks b a, 0)] \<rparr>"
  have "lockStep ?s0 ?s1"
    using lockStepI [of 0 ?s0 "TwoLocks a b" 0 "Acquire a" "{a}"] by (simp add: newVolumeLock_def)
  moreover have "lockStep ?s1 \<lparr> locked = {b, a}, requests = [(TwoLocks a b, Suc 0), (TwoLocks b a, Suc 0)] \<rparr>"
    using lockStepI [of 1 ?s1 "TwoLocks b a" 0 "Acquire b" "{b, a}"] assms by simp
  ultimately show ?thesis by (meson converse_rtranclp_into_rtranclp rtranclp.rtrancl_refl)
qed

text \<open>Where a snapshot may carry the name of a volume, the locks do deadlock: two requests that name
  each other's snapshot as their volume can both end up waiting, and one request for a snapshot with
  the name of its own volume waits for itself.
\<close>

lemma volume_lock_deadlocks:
  assumes "a \<noteq> b"
  shows "(\<exists>st. lockStep\<^sup>*\<^sup>* (newVolumeLock [TwoLocks a b, TwoLocks b a]) st \<and> \<not> served st \<and> (\<forall>st'. \<not> lockStep st st'))
     \<and> (\<exists>st. lockStep\<^sup>*\<^sup>* (newVolumeLock [TwoLocks a a]) st \<and> \<not> served st \<and> (\<forall>st'. \<not> lockStep st st'))"
proof -
  let ?x = "\<lparr> locked = {b, a}, requests = [(TwoLocks a b, Suc 0), (TwoLocks b a, Suc 0)] \<rparr>"
    and ?y = "\<lparr> locked = {a}, requests = [(TwoLocks a a, Suc 0)] \<rparr>"
  have "lockStep (newVolumeLock [TwoLocks a a]) ?y"
    using lockStepI [of 0 "newVolumeLock [TwoLocks a a]" "TwoLocks a a" 0 "Acquire a" "{a}"]
    by (simp add: newVolumeLock_def)
  then have "lockStep\<^sup>*\<^sup>* (newVolumeLock [TwoLocks a a]) ?y" by blast
  moreover have "\<not> lockStep ?x st'" "\<not> lockStep ?y st'" for st' by (rule stuckI; simp)+
  moreover have "\<not> served ?x" "\<not> served ?y" by (simp_all add: served_def lock_programs)
  ultimately show ?thesis using reaches_crossed [OF assms] by blast
qed

end
