(* ===== verification/VolumeLockImpl.thy ===== *)
theory VolumeLockImpl
  imports VolumeLock
begin

text \<open>
  The volume lock as it is built, from a mutex, a map and a condition variable: an action takes the mutex, and either
  does its work and gives the mutex back, or goes to sleep, giving the mutex back, until it is woken. The steps of this
  system refine those of theory VolumeLock, and no wake-up is lost.
\<close>

section \<open>Definitions\<close>

text \<open>
  Where a request is within an action: before the mutex (at the start or after being woken), inside, asleep in
  \<open>cond.Wait\<close>, or done and about to give the mutex back.
\<close>

datatype phase = Outside | Inside | Asleep | Leaving

record thread =
  req :: request
  pc :: nat
  phase :: phase

record implState =
  mutex :: "nat option"
  lockedMap :: "string set"
  threads :: "thread list"

definition implInit :: "request list \<Rightarrow> implState" where
  "implInit rs = \<lparr> mutex = None, lockedMap = {}, threads = map (\<lambda>r. \<lparr> req = r, pc = 0, phase = Outside \<rparr>) rs \<rparr>"

text \<open>\<open>cond.Broadcast\<close>: every sleeper wakes up and has to take the mutex again.\<close>

definition wake :: "thread \<Rightarrow> thread" where
  "wake t = (if phase t = Asleep then t\<lparr> phase := Outside \<rparr> else t)"

inductive implStep :: "implState \<Rightarrow> implState \<Rightarrow> bool" where
  Lock: "i < length (threads c) \<Longrightarrow> t = threads c ! i \<Longrightarrow> phase t = Outside \<Longrightarrow> nextAction (req t, pc t) = Some a \<Longrightarrow>
    mutex c = None \<Longrightarrow>
    implStep c (c\<lparr> mutex := Some i, threads := (threads c)[i := t\<lparr> phase := Inside \<rparr>] \<rparr>)"
| Enter: "i < length (threads c) \<Longrightarrow> t = threads c ! i \<Longrightarrow> phase t = Inside \<Longrightarrow> nextAction (req t, pc t) = Some (Acquire v) \<Longrightarrow>
    v \<notin> lockedMap c \<Longrightarrow>
    implStep c (c\<lparr> lockedMap := insert v (lockedMap c), threads := (threads c)[i := t\<lparr> pc := Suc (pc t), phase := Leaving \<rparr>] \<rparr>)"
| Wait: "i < length (threads c) \<Longrightarrow> t = threads c ! i \<Longrightarrow> phase t = Inside \<Longrightarrow> nextAction (req t, pc t) = Some (Acquire v) \<Longrightarrow>
    v \<in> lockedMap c \<Longrightarrow>
    implStep c (c\<lparr> mutex := None, threads := (threads c)[i := t\<lparr> phase := Asleep \<rparr>] \<rparr>)"
| Delete: "i < length (threads c) \<Longrightarrow> t = threads c ! i \<Longrightarrow> phase t = Inside \<Longrightarrow> nextAction (req t, pc t) = Some (Release v) \<Longrightarrow>
    implStep c (c\<lparr> lockedMap := lockedMap c - {v},
      threads := map wake ((threads c)[i := t\<lparr> pc := Suc (pc t), phase := Leaving \<rparr>]) \<rparr>)"
| Unlock: "i < length (threads c) \<Longrightarrow> t = threads c ! i \<Longrightarrow> phase t = Leaving \<Longrightarrow>
    implStep c (c\<lparr> mutex := None, threads := (threads c)[i := t\<lparr> phase := Outside \<rparr>] \<rparr>)"

text \<open>What the simpler system sees of a state: the map, and how many actions each request has done.\<close>

definition absLock :: "implState \<Rightarrow> lockState" where
  "absLock c = \<lparr> locked = lockedMap c, requests = map (\<lambda>t. (req t, pc t)) (threads c) \<rparr>"

text \<open>
  The mutex is held by the one request that is inside or leaving, and a request sleeps only for a name that is
  locked.
\<close>

definition implInv :: "implState \<Rightarrow> bool" where
  "implInv c \<longleftrightarrow>
     (\<forall>i. mutex c = Some i \<longrightarrow> i < length (threads c))
     \<and> (\<forall>i < length (threads c). phase (threads c ! i) = Inside \<or> phase (threads c ! i) = Leaving \<longleftrightarrow> mutex c = Some i)
     \<and> (\<forall>i < length (threads c). phase (threads c ! i) = Asleep \<longrightarrow>
          (\<exists>v. nextAction (req (threads c ! i), pc (threads c ! i)) = Some (Acquire v) \<and> v \<in> lockedMap c))
     \<and> (\<forall>i < length (threads c). phase (threads c ! i) = Inside \<longrightarrow>
          nextAction (req (threads c ! i), pc (threads c ! i)) \<noteq> None)"

section \<open>Refinement\<close>

lemma absLock_same: "i < length (threads c) \<Longrightarrow> absLock (c\<lparr> mutex := m, threads := (threads c)[i := (threads c ! i)\<lparr> phase := p \<rparr>] \<rparr>) = absLock c"
  by (auto simp: absLock_def intro!: nth_equalityI simp: nth_list_update)

lemma wake_simps [simp]: "req (wake t) = req t" "pc (wake t) = pc t"
  by (simp_all add: wake_def)

text \<open>A step of the implementation is a step of the lock, or none.\<close>

lemma implStep_refines: "implStep c c' \<Longrightarrow> absLock c' = absLock c \<or> lockStep (absLock c) (absLock c')"
proof (induction rule: implStep.induct)
  case (Enter i c t v)
  have "lockStep (absLock c) \<lparr> locked = insert v (locked (absLock c)), requests = (requests (absLock c))[i := (req t, Suc (pc t))] \<rparr>"
    using Enter by (intro lockStepI) (auto simp: absLock_def)
  with Enter show ?case by (simp add: absLock_def map_update)
next
  case (Delete i c t v)
  have "lockStep (absLock c) \<lparr> locked = locked (absLock c) - {v}, requests = (requests (absLock c))[i := (req t, Suc (pc t))] \<rparr>"
    using Delete by (intro lockStepI) (auto simp: absLock_def)
  with Delete show ?case by (simp add: absLock_def map_update comp_def)
qed (simp_all add: absLock_same)

section \<open>No wake-up is lost\<close>

lemma wake_phase [simp]: "phase (wake t) = (if phase t = Asleep then Outside else phase t)"
  by (simp add: wake_def)

lemma implInv_step: "implStep c c' \<Longrightarrow> implInv c \<Longrightarrow> implInv c'"
proof (induction rule: implStep.induct)
  case (Lock i c t a)
  then show ?case by (auto simp: implInv_def nth_list_update)
next
  case (Enter i c t v)
  then show ?case by (auto simp: implInv_def nth_list_update)
next
  case (Wait i c t v)
  then have "mutex c = Some i" by (auto simp: implInv_def)
  with Wait show ?case by (auto simp: implInv_def nth_list_update)
next
  case (Delete i c t v)
  then show ?case by (auto simp: implInv_def nth_list_update)
next
  case (Unlock i c t)
  then have "mutex c = Some i" by (auto simp: implInv_def)
  with Unlock show ?case by (auto simp: implInv_def nth_list_update)
qed

lemma reach_refines:
  assumes "implStep\<^sup>*\<^sup>* (implInit rs) c"
  shows "lockStep\<^sup>*\<^sup>* (newVolumeLock rs) (absLock c) \<and> implInv c"
  using assms
proof (induction rule: rtranclp_induct)
  case base
  show ?case by (simp add: absLock_def implInit_def newVolumeLock_def implInv_def comp_def)
next
  case (step c c')
  then show ?case using implStep_refines [of c c'] implInv_step [of c c'] by (auto intro: rtranclp.rtrancl_into_rtrancl)
qed

lemma impl_progress:
  assumes inv: "implInv c" and st: "lockStep (absLock c) st'"
  shows "\<exists>c'. implStep c c'"
proof (cases "mutex c")
  case (Some i)
  with inv have i: "i < length (threads c)" "phase (threads c ! i) = Inside \<or> phase (threads c ! i) = Leaving"
    unfolding implInv_def by blast+
  then consider "phase (threads c ! i) = Leaving"
    | v where "phase (threads c ! i) = Inside" "nextAction (req (threads c ! i), pc (threads c ! i)) = Some (Acquire v)"
    | v where "phase (threads c ! i) = Inside" "nextAction (req (threads c ! i), pc (threads c ! i)) = Some (Release v)"
    using inv unfolding implInv_def by (metis action.exhaust not_None_eq)
  then show ?thesis using i(1) by cases (blast intro: implStep.intros)+
next
  case None
  from st obtain i r k a L where i: "i < length (requests (absLock c))" "requests (absLock c) ! i = (r, k)"
    "nextAction (r, k) = Some a" "act a (locked (absLock c)) = Some L" by cases blast
  then have t: "i < length (threads c)" "nextAction (req (threads c ! i), pc (threads c ! i)) = Some a"
    "act a (lockedMap c) = Some L" by (auto simp: absLock_def)
  have "phase (threads c ! i) \<noteq> Asleep"
  proof
    assume "phase (threads c ! i) = Asleep"
    with inv t obtain v where "a = Acquire v" "v \<in> lockedMap c" unfolding implInv_def by force
    with t(3) show False by simp
  qed
  moreover have "phase (threads c ! i) \<noteq> Inside" "phase (threads c ! i) \<noteq> Leaving"
    using inv t None unfolding implInv_def by auto
  ultimately have "phase (threads c ! i) = Outside" by (cases "phase (threads c ! i)") auto
  with t None show ?thesis by (blast intro: implStep.Lock)
qed

text \<open>C32: The lock that is built from a mutex, a map and a condition variable behaves as the lock of the requests does: every
  state it reaches shows one that the lock reaches, a request sleeps only while the name it waits for is locked, and it
  is never stuck while the lock could go on.\<close>
theorem volume_lock_refined:
  assumes "implStep\<^sup>*\<^sup>* (implInit rs) c"
  shows "lockStep\<^sup>*\<^sup>* (newVolumeLock rs) (absLock c) \<and> implInv c
    \<and> ((\<exists>st'. lockStep (absLock c) st') \<longrightarrow> (\<exists>c'. implStep c c'))"
  using reach_refines [OF assms] impl_progress by blast

theorem volume_lock_refined_witness:
  "\<exists>c. implStep\<^sup>*\<^sup>* (implInit [OneLock ''v'']) c \<and> lockStep\<^sup>*\<^sup>* (newVolumeLock [OneLock ''v'']) (absLock c)
     \<and> lockedMap c = {''v''}"
proof -
  let ?c0 = "implInit [OneLock ''v'']"
  let ?c1 = "\<lparr> mutex = Some 0, lockedMap = {}, threads = [\<lparr> req = OneLock ''v'', pc = 0, phase = Inside \<rparr>] \<rparr>"
  let ?c2 = "\<lparr> mutex = Some 0, lockedMap = {''v''}, threads = [\<lparr> req = OneLock ''v'', pc = 1, phase = Leaving \<rparr>] \<rparr>"
  have "implStep ?c0 ?c1"
    using implStep.Lock [of 0 ?c0 "threads ?c0 ! 0" "Acquire ''v''"] by (simp add: implInit_def)
  moreover have "implStep ?c1 ?c2"
    using implStep.Enter [of 0 ?c1 "threads ?c1 ! 0" "''v''"] by simp
  ultimately have r: "implStep\<^sup>*\<^sup>* ?c0 ?c2" by (meson converse_rtranclp_into_rtranclp rtranclp.rtrancl_refl)
  with volume_lock_refined [OF r] show ?thesis by (intro exI [of _ ?c2]) simp
qed

end
