(* ===== verification/Regexp.thy ===== *)
theory Regexp
  imports GoLib
begin

text \<open>
  What the scheduler uses of Go's \<open>regexp\<close> package: compiling a pattern and asking whether it matches
  somewhere in a string. \<open>rxParse\<close> covers ASCII patterns of literals, escaped punctuation, \<open>.\<close>, the
  anchors, groups, alternatives and a single postfix operator; any other pattern, and any text with
  bytes outside ASCII, is left to the field \<open>otherCompile\<close>. Only whether there is a match is modelled,
  so greediness plays no role.

  The locale \<open>exact_engine\<close> is what the driver relies on: an anchored, quoted string matches exactly
  that string. It is proved for the modelled engine.
\<close>

section \<open>Expressions and matching\<close>

datatype rx = Eps | Chr char | AnyChar | Bol | Eol | Seq rx rx | Alt rx rx | Star rx

fun starEnds :: "nat \<Rightarrow> (nat \<Rightarrow> nat list) \<Rightarrow> nat list \<Rightarrow> nat list" where
  "starEnds 0 f acc = acc"
| "starEnds (Suc n) f acc = starEnds n f (remdups (acc @ concat (map f acc)))"

text \<open>Where a match of the expression that starts at position \<open>i\<close> of \<open>s\<close> can end.\<close>

fun rxEnds :: "rx \<Rightarrow> string \<Rightarrow> nat \<Rightarrow> nat list" where
  "rxEnds Eps s i = [i]"
| "rxEnds (Chr c) s i = (if i < length s \<and> s ! i = c then [Suc i] else [])"
| "rxEnds AnyChar s i = (if i < length s \<and> s ! i \<noteq> CHR 0x0A then [Suc i] else [])"
| "rxEnds Bol s i = (if i = 0 then [i] else [])"
| "rxEnds Eol s i = (if i = length s then [i] else [])"
| "rxEnds (Seq a b) s i = concat (map (rxEnds b s) (rxEnds a s i))"
| "rxEnds (Alt a b) s i = rxEnds a s i @ rxEnds b s i"
| "rxEnds (Star a) s i = starEnds (Suc (length s)) (rxEnds a s) [i]"

definition rxMatch :: "rx \<Rightarrow> string \<Rightarrow> bool" where
  "rxMatch r s \<longleftrightarrow> list_ex (\<lambda>i. rxEnds r s i \<noteq> []) [0..<Suc (length s)]"

section \<open>Parsing\<close>

text \<open>A sequence is kept in reverse while it is read, and so are the alternatives before it.\<close>

definition seqOf :: "rx list \<Rightarrow> rx" where
  "seqOf rs = foldr Seq (rev rs) Eps"

definition altOf :: "rx list \<Rightarrow> rx list \<Rightarrow> rx" where
  "altOf alts sq = fold (\<lambda>a r. Alt a r) alts (seqOf sq)"

definition punct :: "char \<Rightarrow> bool" where
  "punct c \<longleftrightarrow> c \<in> set metaChars"

datatype token = TEscape | TOpen | TClose | TBar | TPostfix "rx \<Rightarrow> rx" | TAtom rx | TOther

definition tokenOf :: "char \<Rightarrow> token" where
  "tokenOf c =
     (if c = CHR 0x5C then TEscape
      else if c = CHR ''('' then TOpen
      else if c = CHR '')'' then TClose
      else if c = CHR ''|'' then TBar
      else if c = CHR ''*'' then TPostfix Star
      else if c = CHR ''+'' then TPostfix (\<lambda>r. Seq r (Star r))
      else if c = CHR ''?'' then TPostfix (\<lambda>r. Alt r Eps)
      else if c = CHR ''.'' then TAtom AnyChar
      else if c = CHR ''^'' then TAtom Bol
      else if c = CHR ''$'' then TAtom Eol
      else if c = CHR ''['' \<or> c = CHR ''{'' then TOther
      else TAtom (Chr c))"

definition startsWith :: "string \<Rightarrow> string \<Rightarrow> bool" where
  "startsWith cs s \<longleftrightarrow> s \<noteq> [] \<and> hd s \<in> set cs"

fun rxParse :: "string \<Rightarrow> (rx list \<times> rx list) list \<Rightarrow> rx list \<Rightarrow> rx list \<Rightarrow> rx option" where
  "rxParse [] stack alts sq = (if stack = [] then Some (altOf alts sq) else None)"
| "rxParse (c # cs) stack alts sq =
     (case tokenOf c of
        TEscape \<Rightarrow>
          (case cs of
             [] \<Rightarrow> None
           | d # ds \<Rightarrow> if punct d then rxParse ds stack alts (Chr d # sq) else None)
      | TOpen \<Rightarrow> if startsWith ''?'' cs then None else rxParse cs ((alts, sq) # stack) [] []
      | TClose \<Rightarrow> (case stack of [] \<Rightarrow> None | (a, s) # st \<Rightarrow> rxParse cs st a (altOf alts sq # s))
      | TBar \<Rightarrow> rxParse cs stack (seqOf sq # alts) []
      | TPostfix f \<Rightarrow>
          (case sq of
             [] \<Rightarrow> None
           | r # rs \<Rightarrow> if startsWith ''*+?{'' cs then None else rxParse cs stack alts (f r # rs))
      | TAtom r \<Rightarrow> rxParse cs stack alts (r # sq)
      | TOther \<Rightarrow> None)"

text \<open>\<open>regexp.Compile\<close>: an error text, or \<open>MatchString\<close> of the compiled pattern.\<close>

definition regexpCompile :: "lib \<Rightarrow> string \<Rightarrow> string + (string \<Rightarrow> bool)" where
  "regexpCompile L p =
     (case (if ascii p then rxParse p [] [] [] else None) of
        None \<Rightarrow> otherCompile L p
      | Some r \<Rightarrow> Inr (\<lambda>s. if ascii s then rxMatch r s
                           else case otherCompile L p of Inl _ \<Rightarrow> False | Inr f \<Rightarrow> f s))"

text \<open>The parse of an anchored quoted string, and what it matches.\<close>

definition exactRx :: "string \<Rightarrow> rx" where
  "exactRx s = Seq Bol (foldr (\<lambda>c r. Seq (Chr c) r) s (Seq Eol Eps))"

section \<open>Quoted patterns\<close>

lemma ascii_Cons [simp]: "ascii (c # cs) \<longleftrightarrow> of_char c < (128 :: nat) \<and> ascii cs"
  by (simp add: ascii_def)

lemma ascii_Nil [simp]: "ascii []"
  by (simp add: ascii_def)

lemma ascii_append [simp]: "ascii (a @ b) \<longleftrightarrow> ascii a \<and> ascii b"
  by (simp add: ascii_def)

lemma QuoteMeta_Cons [simp]:
  "QuoteMeta (c # cs) = (if c \<in> set metaChars then [CHR 0x5C, c] else [c]) @ QuoteMeta cs"
  by (simp add: QuoteMeta_def)

lemma QuoteMeta_Nil [simp]: "QuoteMeta [] = []"
  by (simp add: QuoteMeta_def)

lemma ascii_QuoteMeta: "ascii (QuoteMeta s) \<longleftrightarrow> ascii s"
  by (induction s) auto

lemma rxParse_quoted:
  "rxParse (QuoteMeta s @ ''$'') [] [] sq = Some (altOf [] (Eol # rev (map Chr s) @ sq))"
proof (induction s arbitrary: sq)
  case Nil
  show ?case by (simp add: tokenOf_def)
next
  case (Cons c s)
  show ?case
  proof (cases "c \<in> set metaChars")
    case True
    then have "rxParse (QuoteMeta (c # s) @ ''$'') [] [] sq = rxParse (QuoteMeta s @ ''$'') [] [] (Chr c # sq)"
      by (simp add: punct_def tokenOf_def)
    with Cons show ?thesis by simp
  next
    case False
    then have "rxParse (QuoteMeta (c # s) @ ''$'') [] [] sq = rxParse (QuoteMeta s @ ''$'') [] [] (Chr c # sq)"
      by (simp add: metaChars_def tokenOf_def)
    with Cons show ?thesis by simp
  qed
qed

lemma foldr_Chr: "foldr Seq (map Chr s @ [Eol]) Eps = foldr (\<lambda>c r. Seq (Chr c) r) s (Seq Eol Eps)"
  by (induction s) auto

lemma rxParse_exact: "rxParse (''^'' @ QuoteMeta s @ ''$'') [] [] [] = Some (exactRx s)"
proof -
  have "rxParse (''^'' @ QuoteMeta s @ ''$'') [] [] [] = rxParse (QuoteMeta s @ ''$'') [] [] [Bol]"
    by (simp add: tokenOf_def)
  also have "\<dots> = Some (altOf [] (Eol # rev (map Chr s) @ [Bol]))" by (rule rxParse_quoted)
  also have "altOf [] (Eol # rev (map Chr s) @ [Bol]) = exactRx s"
    using foldr_Chr [of s] by (simp add: altOf_def seqOf_def exactRx_def rev_map)
  finally show ?thesis .
qed

lemma rxEnds_literal:
  "rxEnds (foldr (\<lambda>c r. Seq (Chr c) r) p (Seq Eol Eps)) s i \<noteq> [] \<longleftrightarrow> drop i s = p \<and> i \<le> length s"
proof (induction p arbitrary: i)
  case Nil
  show ?case by auto
next
  case (Cons c p)
  show ?case
  proof (cases "i < length s \<and> s ! i = c")
    case True
    then have "drop i s = c # drop (Suc i) s" using Cons_nth_drop_Suc [of i s] by auto
    with True Cons [of "Suc i"] show ?thesis by auto
  next
    case False
    then have "drop i s \<noteq> c # p \<or> \<not> i \<le> length s"
      by (metis Cons_nth_drop_Suc drop_all leI list.distinct(1) list.inject)
    with False show ?thesis by auto
  qed
qed

lemma rxMatch_exact: "rxMatch (exactRx p) s \<longleftrightarrow> s = p"
proof -
  have "rxEnds (exactRx p) s i \<noteq> [] \<longleftrightarrow> i = 0 \<and> s = p" for i
    using rxEnds_literal [of p s 0] by (auto simp: exactRx_def)
  then show ?thesis by (auto simp: rxMatch_def list_ex_iff)
qed

text \<open>What the driver needs of a regular expression engine.\<close>

locale exact_engine =
  fixes compile :: "string \<Rightarrow> string + (string \<Rightarrow> bool)"
  assumes exact: "ascii p \<Longrightarrow> \<exists>f. compile (''^'' @ QuoteMeta p @ ''$'') = Inr f \<and> (\<forall>s. ascii s \<longrightarrow> f s = (s = p))"
begin

lemma exact_compiles: "ascii p \<Longrightarrow> compile (''^'' @ QuoteMeta p @ ''$'') \<noteq> Inl e"
  using exact by fastforce

lemma exact_matches: "ascii p \<Longrightarrow> ascii s \<Longrightarrow> compile (''^'' @ QuoteMeta p @ ''$'') = Inr f \<Longrightarrow> f s \<longleftrightarrow> s = p"
  using exact by fastforce

end

interpretation rxe: exact_engine "regexpCompile L" for L
proof
  fix p :: string
  assume p: "ascii p"
  then have "ascii (''^'' @ QuoteMeta p @ ''$'')" by (simp add: ascii_QuoteMeta)
  then show "\<exists>f. regexpCompile L (''^'' @ QuoteMeta p @ ''$'') = Inr f \<and> (\<forall>s. ascii s \<longrightarrow> f s = (s = p))"
    using rxParse_exact [of p] by (simp add: regexpCompile_def rxMatch_exact)
qed

end
