(* ===== verification/Scheduler.thy ===== *)
theory Scheduler
  imports Volume Regexp
begin

text \<open>
  \<open>pkg/driver/schd_helper.go\<close>: the pool selector of a storage class, the weights the scheduling
  algorithms give the nodes and pools, and the choice of a pool on the chosen node. A compiled pattern
  is its \<open>MatchString\<close>; a Go map is an association list without repeated keys; additions on \<open>int64\<close>
  wrap around (\<open>i64\<close>).

  The locale \<open>best_scan\<close> is the loop that keeps the first best element of a list; the roomiest pool
  of a node and the pool for a volume are its two instances.
\<close>

section \<open>Definitions\<close>

type_synonym matcher = "string \<Rightarrow> bool"
type_synonym weights = "(string \<times> int64) list"

abbreviation "VolumeWeighted \<equiv> ''VolumeWeighted''"
abbreviation "CapacityWeighted \<equiv> ''CapacityWeighted''"
abbreviation "SpaceWeighted \<equiv> ''SpaceWeighted''"

fun ownerNode :: "OwnerReference list \<Rightarrow> string option" where
  "ownerNode [] = None"
| "ownerNode (ref # refs) = (if RefKind ref = ''Node'' then Some (RefName ref) else ownerNode refs)"

definition k8sNodeName :: "ZFSNode \<Rightarrow> string" where
  "k8sNodeName node = (case ownerNode (OwnerReferences node) of Some n \<Rightarrow> n | None \<Rightarrow> Name node)"

text \<open>\<open>strings.SplitN(poolname, "/", 2)[0]\<close> is what precedes the first slash.\<close>

definition poolRoot :: "string \<Rightarrow> string" where
  "poolRoot poolname = takeWhile (\<lambda>c. c \<noteq> CHR ''/'') poolname"

text \<open>\<open>None\<close> is the panic of \<open>regexp.MustCompile\<close>.\<close>

definition parsePoolParams :: "lib \<Rightarrow> string \<Rightarrow> string \<Rightarrow> (gerror + matcher) option" where
  "parsePoolParams L poolname poolpattern =
     (if poolname \<noteq> [] \<and> poolpattern \<noteq> [] then
        Some (Inl (EText ''poolname and poolpattern are mutually exclusive, set only one of them''))
      else if poolpattern \<noteq> [] then
        (case regexpCompile L poolpattern of
           Inl e \<Rightarrow> Some (Inl (EFmt (''invalid poolpattern '' @ Quote L poolpattern @ '' : '') (EText e)))
         | Inr f \<Rightarrow> Some (Inr f))
      else if poolname \<noteq> [] then
        (case regexpCompile L (''^'' @ QuoteMeta (poolRoot poolname) @ ''$'') of
           Inl _ \<Rightarrow> None
         | Inr f \<Rightarrow> Some (Inr f))
      else Some (Inl (EText ''either poolname or poolpattern must be set'')))"

definition poolDesc :: "lib \<Rightarrow> string \<Rightarrow> string \<Rightarrow> string" where
  "poolDesc L poolname poolpattern =
     (if poolpattern \<noteq> [] then ''poolpattern '' @ Quote L poolpattern else ''poolname '' @ Quote L poolname)"

definition sourcePoolAllowed :: "string \<Rightarrow> string \<Rightarrow> matcher \<Rightarrow> bool" where
  "sourcePoolAllowed srcPool poolname pattern =
     (if poolname \<noteq> [] then srcPool = poolname else pattern (poolRoot srcPool))"

definition reservesSpace :: "string \<Rightarrow> string \<Rightarrow> bool" where
  "reservesSpace vtype thinProvision =
     (if thinProvision = ''no'' then True else vtype \<noteq> VolTypeDataset \<and> thinProvision \<noteq> ''yes'')"

text \<open>\<open>nmap[key] += n\<close>.\<close>

definition addTo :: "string \<Rightarrow> int \<Rightarrow> weights \<Rightarrow> weights" where
  "addTo key n m = AList.update key (i64 (mget_int m key + n)) m"

definition volumeWeightedMap :: "ZFSVolume list \<Rightarrow> ZFSNode list \<Rightarrow> matcher \<Rightarrow> weights" where
  "volumeWeightedMap zvlist nodelist pattern =
     (let nodename = fold (\<lambda>node. AList.update (Name node) (k8sNodeName node)) nodelist []
      in fold (\<lambda>zv nmap.
           if \<not> pattern (poolRoot (PoolName (Spec zv))) then nmap
           else let node = (case map_of nodename (OwnerNodeID (Spec zv)) of
                              Some n \<Rightarrow> n
                            | None \<Rightarrow> OwnerNodeID (Spec zv))
                in addTo node 1 nmap) zvlist [])"

definition capacityWeightedMap :: "ZFSNode list \<Rightarrow> matcher \<Rightarrow> weights" where
  "capacityWeightedMap nodelist pattern =
     fold (\<lambda>node nmap.
       fold (\<lambda>pool nmap. if pattern (PoolNodeName pool) then addTo (k8sNodeName node) (Used pool) nmap else nmap)
         (Pools node) nmap) nodelist []"

definition maxFreePool :: "Pool list \<Rightarrow> matcher \<Rightarrow> string \<times> int64" where
  "maxFreePool pools pattern =
     fold (\<lambda>pool (selected, maxFree).
       if \<not> pattern (PoolNodeName pool) then (selected, maxFree)
       else if selected = [] \<or> Free pool > maxFree then (PoolNodeName pool, Free pool)
       else (selected, maxFree)) pools ([], 0)"

definition spaceWeightedMap :: "ZFSNode list \<Rightarrow> matcher \<Rightarrow> weights" where
  "spaceWeightedMap nodelist pattern =
     fold (\<lambda>node nmap.
       let (pool, free) = maxFreePool (Pools node) pattern
       in if pool = [] then nmap else AList.update (k8sNodeName node) (i64 (MaxInt64 - free)) nmap) nodelist []"

text \<open>A set of node names stands for the \<open>map[string]bool\<close>, whose values are all true.\<close>

definition suitableNodes :: "ZFSNode list \<Rightarrow> matcher \<Rightarrow> int64 \<Rightarrow> string list \<times> bool" where
  "suitableNodes nodelist pattern size' =
     fold (\<lambda>node (suitable, matched).
       let (pool, free) = maxFreePool (Pools node) pattern
       in if pool = [] then (suitable, matched)
          else (if free > size' then List.insert (k8sNodeName node) suitable else suitable, True))
       nodelist ([], False)"

definition filterKeep :: "string list \<Rightarrow> string list \<Rightarrow> string list" where
  "filterKeep nodes keep = fold (\<lambda>node filtered. if node \<in> set keep then filtered @ [node] else filtered) nodes []"

definition poolWeightMap :: "string \<Rightarrow> Pool list \<Rightarrow> weights" where
  "poolWeightMap schd pools =
     fold (\<lambda>pool. AList.update (PoolNodeName pool)
             (if schd = SpaceWeighted then i64 (MaxInt64 - Free pool) else Used pool)) pools []"

definition poolVolumeMap :: "ZFSVolume list \<Rightarrow> string \<Rightarrow> weights" where
  "poolVolumeMap zvlist nodeid =
     fold (\<lambda>zv pmap. if OwnerNodeID (Spec zv) = nodeid then addTo (poolRoot (PoolName (Spec zv))) 1 pmap else pmap)
       zvlist []"

definition poolForNode :: "Pool list \<Rightarrow> matcher \<Rightarrow> int64 \<Rightarrow> weights \<Rightarrow> string" where
  "poolForNode pools pattern minFree pmap =
     fst (fold (\<lambda>pool (selected, selWeight).
       if \<not> pattern (PoolNodeName pool) then (selected, selWeight)
       else if minFree > 0 \<and> Free pool \<le> minFree then (selected, selWeight)
       else let weight = mget_int pmap (PoolNodeName pool)
            in if selected = [] \<or> weight < selWeight then (PoolNodeName pool, weight)
               else (selected, selWeight)) pools ([], 0))"

text \<open>The functions that read the cluster.\<close>

definition listZFSNodes :: "env \<Rightarrow> (gerror + ZFSNode list) go" where
  "listZFSNodes E = asOwn E (node_List E [])"

definition listZFSVolumes :: "env \<Rightarrow> (gerror + ZFSVolume list) go" where
  "listZFSVolumes E = asOwn E (vol_List E [])"

definition getVolumeWeightedMap :: "env \<Rightarrow> matcher \<Rightarrow> (gerror + weights) go" where
  "getVolumeWeightedMap E pattern =
     goBind (listZFSVolumes E) (\<lambda>r. case r of
       Inl e \<Rightarrow> goRet (Inl e)
     | Inr zvlist \<Rightarrow> goBind (listZFSNodes E) (\<lambda>r. case r of
         Inl e \<Rightarrow> goRet (Inl e)
       | Inr nodelist \<Rightarrow> goRet (Inr (volumeWeightedMap zvlist nodelist pattern))))"

definition getCapacityWeightedMap :: "env \<Rightarrow> matcher \<Rightarrow> (gerror + weights) go" where
  "getCapacityWeightedMap E pattern =
     goBind (listZFSNodes E) (\<lambda>r. case r of
       Inl e \<Rightarrow> goRet (Inl e)
     | Inr nodelist \<Rightarrow> goRet (Inr (capacityWeightedMap nodelist pattern)))"

definition getSpaceWeightedMap :: "env \<Rightarrow> matcher \<Rightarrow> (gerror + weights) go" where
  "getSpaceWeightedMap E pattern =
     goBind (listZFSNodes E) (\<lambda>r. case r of
       Inl e \<Rightarrow> goRet (Inl e)
     | Inr nodelist \<Rightarrow> goRet (Inr (spaceWeightedMap nodelist pattern)))"

definition getNodeMap :: "env \<Rightarrow> string \<Rightarrow> matcher \<Rightarrow> (gerror + weights) go" where
  "getNodeMap E schd pattern =
     (if schd = VolumeWeighted then getVolumeWeightedMap E pattern
      else if schd = CapacityWeighted then getCapacityWeightedMap E pattern
      else if schd = SpaceWeighted then getSpaceWeightedMap E pattern
      else getCapacityWeightedMap E pattern)"

definition getSuitableNodes :: "env \<Rightarrow> matcher \<Rightarrow> int64 \<Rightarrow> (gerror + string list \<times> bool) go" where
  "getSuitableNodes E pattern size' =
     goBind (listZFSNodes E) (\<lambda>r. case r of
       Inl e \<Rightarrow> goRet (Inl e)
     | Inr nodelist \<Rightarrow>
         if nodelist = []
         then goRet (Inl (EText ''no ZFSNode found, the node agents have not reported their pools yet''))
         else goRet (Inr (suitableNodes nodelist pattern size')))"

definition getPoolVolumeMap :: "env \<Rightarrow> string \<Rightarrow> (gerror + weights) go" where
  "getPoolVolumeMap E nodeid =
     goBind (listZFSVolumes E) (\<lambda>r. case r of
       Inl e \<Rightarrow> goRet (Inl e)
     | Inr zvlist \<Rightarrow> goRet (Inr (poolVolumeMap zvlist nodeid)))"

definition getPoolMap :: "env \<Rightarrow> string \<Rightarrow> string \<Rightarrow> Pool list \<Rightarrow> (gerror + weights) go" where
  "getPoolMap E schd nodeid pools =
     (if schd = VolumeWeighted then getPoolVolumeMap E nodeid else goRet (Inr (poolWeightMap schd pools)))"

definition resolvePool :: "env \<Rightarrow> string \<Rightarrow> string \<Rightarrow> matcher \<Rightarrow> int64 \<Rightarrow> (gerror + string) go" where
  "resolvePool E schd nodeid pattern minFree =
     goBind (asOwn E (node_Get E nodeid)) (\<lambda>r. case r of
       Inl e \<Rightarrow> goRet (Inl e)
     | Inr zfsNode \<Rightarrow> goBind (getPoolMap E schd nodeid (Pools zfsNode)) (\<lambda>r. case r of
         Inl e \<Rightarrow> goRet (Inl e)
       | Inr pmap \<Rightarrow> goRet (Inr (poolForNode (Pools zfsNode) pattern minFree pmap))))"

text \<open>
  The first element of \<open>xs\<close> that satisfies \<open>ok\<close> and is not beaten by another: it beats those before it,
  and none after it beats it.
\<close>

definition firstBest :: "(int \<Rightarrow> int \<Rightarrow> bool) \<Rightarrow> ('a \<Rightarrow> bool) \<Rightarrow> ('a \<Rightarrow> int) \<Rightarrow> 'a list \<Rightarrow> 'a \<Rightarrow> bool" where
  "firstBest better ok val xs x \<longleftrightarrow>
     (\<exists>ys zs. xs = ys @ x # zs \<and> ok x
        \<and> (\<forall>y\<in>set ys. ok y \<longrightarrow> better (val x) (val y))
        \<and> (\<forall>z\<in>set zs. ok z \<longrightarrow> \<not> better (val z) (val x)))"

definition namedPools :: "Pool list \<Rightarrow> bool" where
  "namedPools pools \<longleftrightarrow> list_all (\<lambda>p. PoolNodeName p \<noteq> []) pools"

definition qualifies :: "matcher \<Rightarrow> int64 \<Rightarrow> Pool \<Rightarrow> bool" where
  "qualifies pattern minFree p \<longleftrightarrow> pattern (PoolNodeName p) \<and> (minFree > 0 \<longrightarrow> Free p > minFree)"

text \<open>The node a volume counts for: the last ZFSNode object of that name tells, and else the id itself.\<close>

definition hostOf :: "ZFSNode list \<Rightarrow> string \<Rightarrow> string" where
  "hostOf nodes nodeid =
     (case find (\<lambda>n. Name n = nodeid) (rev nodes) of Some n \<Rightarrow> k8sNodeName n | None \<Rightarrow> nodeid)"

definition roomy :: "matcher \<Rightarrow> int64 \<Rightarrow> ZFSNode \<Rightarrow> bool" where
  "roomy pattern size' n \<longleftrightarrow> (\<exists>p\<in>set (Pools n). pattern (PoolNodeName p) \<and> Free p > size')"

text \<open>The pools of all nodes, each with the node that reports it.\<close>

definition reports :: "ZFSNode list \<Rightarrow> (ZFSNode \<times> Pool) list" where
  "reports nodes = concat (map (\<lambda>n. map (Pair n) (Pools n)) nodes)"

text \<open>A node with three pools, used by the witnesses.\<close>

definition demoPools :: "Pool list" where
  "demoPools =
     [\<lparr> PoolNodeName = ''zfspv-a'', UUID = ''1'', Free = 10, Used = 7 \<rparr>,
      \<lparr> PoolNodeName = ''zfspv-b'', UUID = ''2'', Free = 50, Used = 3 \<rparr>,
      \<lparr> PoolNodeName = ''other'', UUID = ''3'', Free = 90, Used = 0 \<rparr>]"

definition demoPattern :: matcher where
  "demoPattern = (\<lambda>s. take 5 s = ''zfspv'')"

definition demoNode :: ZFSNode where
  "demoNode = \<lparr> Name = ''id1'', Namespace = ''openebs'', ResourceVersion = [], Labels = [], Annotations = [], Finalizers = [],
     DeletionTimestamp = None,
     OwnerReferences = [\<lparr> RefAPIVersion = ''v1'', RefKind = ''Node'', RefName = ''worker'', RefUID = ''u'',
                          RefController = Some True \<rparr>],
     Pools = demoPools \<rparr>"

section \<open>The scan for the first best element\<close>

lemma firstBestI:
  assumes "xs = ys @ x # zs" "ok x" "\<And>y. y \<in> set ys \<Longrightarrow> ok y \<Longrightarrow> better (val x) (val y)"
    and "\<And>z. z \<in> set zs \<Longrightarrow> ok z \<Longrightarrow> \<not> better (val z) (val x)"
  shows "firstBest better ok val xs x"
  unfolding firstBest_def using assms by blast

lemma firstBestE:
  assumes "firstBest better ok val xs x"
  obtains ys zs where "xs = ys @ x # zs" "ok x" "\<And>y. y \<in> set ys \<Longrightarrow> ok y \<Longrightarrow> better (val x) (val y)"
    "\<And>z. z \<in> set zs \<Longrightarrow> ok z \<Longrightarrow> \<not> better (val z) (val x)"
  using assms unfolding firstBest_def by blast

locale best_scan =
  fixes better :: "int \<Rightarrow> int \<Rightarrow> bool"
    and ok :: "'a \<Rightarrow> bool"
    and val :: "'a \<Rightarrow> int"
    and nm :: "'a \<Rightarrow> string"
    and step :: "'a \<Rightarrow> string \<times> int \<Rightarrow> string \<times> int"
  assumes step: "step x (s, w) = (if ok x \<and> (s = [] \<or> better (val x) w) then (nm x, val x) else (s, w))"
    and irrefl: "\<not> better a a"
    and trans: "better a b \<Longrightarrow> better b c \<Longrightarrow> better a c"
    and total: "\<not> better a b \<Longrightarrow> \<not> better b c \<Longrightarrow> \<not> better a c"
begin

lemma scan_none: "\<forall>x\<in>set xs. \<not> ok x \<Longrightarrow> fold step xs a = a"
  by (induction xs arbitrary: a) (auto simp: step split: prod.splits)

lemma firstBest_snoc:
  assumes "firstBest better ok val xs x"
  shows "firstBest better ok val (xs @ [y]) (if ok y \<and> better (val y) (val x) then y else x)"
proof -
  from assms obtain ys zs where xs: "xs = ys @ x # zs" and x: "ok x"
    and before: "\<And>y. y \<in> set ys \<Longrightarrow> ok y \<Longrightarrow> better (val x) (val y)"
    and after: "\<And>z. z \<in> set zs \<Longrightarrow> ok z \<Longrightarrow> \<not> better (val z) (val x)"
    by (blast elim: firstBestE)
  show ?thesis
  proof (cases "ok y \<and> better (val y) (val x)")
    case True
    have "better (val y) (val u)" if "u \<in> set xs" "ok u" for u
    proof -
      from that xs consider "u \<in> set ys" | "u = x" | "u \<in> set zs" by auto
      then show ?thesis
      proof cases
        case 1 with before that True trans show ?thesis by blast
      next
        case 2 with True show ?thesis by simp
      next
        case 3 with after that True total show ?thesis by blast
      qed
    qed
    with True have "firstBest better ok val (xs @ [y]) y" by (intro firstBestI [of _ xs y "[]"]) auto
    with True show ?thesis by simp
  next
    case False
    with xs x before after have "firstBest better ok val (xs @ [y]) x"
      by (intro firstBestI [of _ ys x "zs @ [y]"]) auto
    with False show ?thesis by auto
  qed
qed

theorem scan_first_best:
  assumes "\<exists>x\<in>set xs. ok x" "\<forall>x\<in>set xs. ok x \<longrightarrow> nm x \<noteq> []"
  shows "\<exists>x. firstBest better ok val xs x \<and> fold step xs ([], w0) = (nm x, val x)"
  using assms
proof (induction xs rule: rev_induct)
  case Nil
  then show ?case by simp
next
  case (snoc y xs)
  show ?case
  proof (cases "\<exists>x\<in>set xs. ok x")
    case True
    with snoc obtain x where x: "firstBest better ok val xs x" and f: "fold step xs ([], w0) = (nm x, val x)"
      by auto
    from x have "ok x" "x \<in> set xs" by (auto simp: firstBest_def)
    with snoc have "nm x \<noteq> []" by simp
    with f have "fold step (xs @ [y]) ([], w0)
        = (let b = (if ok y \<and> better (val y) (val x) then y else x) in (nm b, val b))"
      by (simp add: step)
    with firstBest_snoc [OF x, of y] show ?thesis unfolding Let_def by blast
  next
    case False
    with snoc have y: "ok y" by auto
    from False have "fold step (xs @ [y]) ([], w0) = (nm y, val y)" by (simp add: scan_none step y)
    moreover from False y have "firstBest better ok val (xs @ [y]) y"
      by (intro firstBestI [of _ xs y "[]"]) auto
    ultimately show ?thesis by blast
  qed
qed

lemma scan_from: "fst (fold step xs a) = fst a \<or> (\<exists>x\<in>set xs. ok x \<and> fst (fold step xs a) = nm x)"
proof (induction xs arbitrary: a)
  case (Cons x xs)
  from Cons [of "step x a"] show ?case by (cases a) (auto simp: step split: if_splits)
qed simp

lemma firstBest_optimal:
  assumes "firstBest better ok val xs x" "y \<in> set xs" "ok y"
  shows "\<not> better (val y) (val x)"
  using assms(1)
proof (rule firstBestE)
  fix ys zs
  assume *: "xs = ys @ x # zs" "\<And>y. y \<in> set ys \<Longrightarrow> ok y \<Longrightarrow> better (val x) (val y)"
    "\<And>z. z \<in> set zs \<Longrightarrow> ok z \<Longrightarrow> \<not> better (val z) (val x)"
  with assms(2) consider "y \<in> set ys" | "y = x" | "y \<in> set zs" by auto
  then show ?thesis using * assms(3) irrefl trans by cases blast+
qed

end

interpretation roomiest: best_scan "(>)" "\<lambda>p. pattern (PoolNodeName p)" Free PoolNodeName
  "\<lambda>pool (selected, maxFree).
       if \<not> pattern (PoolNodeName pool) then (selected, maxFree)
       else if selected = [] \<or> Free pool > maxFree then (PoolNodeName pool, Free pool)
       else (selected, maxFree)" for pattern
  by unfold_locales auto

interpretation lightest: best_scan "(<)" "qualifies pattern minFree" "\<lambda>p. mget_int pmap (PoolNodeName p)" PoolNodeName
  "\<lambda>pool (selected, selWeight).
       if \<not> pattern (PoolNodeName pool) then (selected, selWeight)
       else if minFree > 0 \<and> Free pool \<le> minFree then (selected, selWeight)
       else let weight = mget_int pmap (PoolNodeName pool)
            in if selected = [] \<or> weight < selWeight then (PoolNodeName pool, weight)
               else (selected, selWeight)" for pattern minFree pmap
  by unfold_locales (auto simp: qualifies_def)

section \<open>Pools\<close>

lemma maxFreePool_some:
  assumes "namedPools pools" "p \<in> set pools" "pattern (PoolNodeName p)"
  shows "\<exists>x. firstBest (>) (\<lambda>p. pattern (PoolNodeName p)) Free pools x
             \<and> maxFreePool pools pattern = (PoolNodeName x, Free x)"
  unfolding maxFreePool_def using assms
  by (intro roomiest.scan_first_best) (auto simp: namedPools_def list_all_iff)

lemma maxFreePool_none: "\<forall>p\<in>set pools. \<not> pattern (PoolNodeName p) \<Longrightarrow> maxFreePool pools pattern = ([], 0)"
  unfolding maxFreePool_def by (rule roomiest.scan_none)

lemma maxFreePool_Max:
  assumes "namedPools pools" "p \<in> set pools" "pattern (PoolNodeName p)"
  shows "fst (maxFreePool pools pattern) \<noteq> []"
    and "snd (maxFreePool pools pattern) = Max (Free ` {p \<in> set pools. pattern (PoolNodeName p)})"
proof -
  from maxFreePool_some [of pools p pattern] assms obtain x
    where x: "firstBest (>) (\<lambda>p. pattern (PoolNodeName p)) Free pools x"
      and eq: "maxFreePool pools pattern = (PoolNodeName x, Free x)" by blast
  from x have mem: "x \<in> set pools" "pattern (PoolNodeName x)" by (auto elim: firstBestE)
  with assms(1) eq show "fst (maxFreePool pools pattern) \<noteq> []" by (auto simp: namedPools_def list_all_iff)
  from roomiest.firstBest_optimal [OF x] mem
  have "Max (Free ` {p \<in> set pools. pattern (PoolNodeName p)}) = Free x"
    by (intro Max_eqI) (auto simp: not_less)
  with eq show "snd (maxFreePool pools pattern) = Max (Free ` {p \<in> set pools. pattern (PoolNodeName p)})" by simp
qed

lemma poolForNode_some:
  assumes "namedPools pools" "p \<in> set pools" "qualifies pattern minFree p"
  shows "\<exists>x. firstBest (<) (qualifies pattern minFree) (\<lambda>p. mget_int pmap (PoolNodeName p)) pools x
             \<and> poolForNode pools pattern minFree pmap = PoolNodeName x"
proof -
  from assms have "\<exists>p\<in>set pools. qualifies pattern minFree p"
    and "\<forall>p\<in>set pools. qualifies pattern minFree p \<longrightarrow> PoolNodeName p \<noteq> []"
    by (auto simp: namedPools_def list_all_iff)
  from lightest.scan_first_best [OF this, of pmap 0] show ?thesis unfolding poolForNode_def by auto
qed

lemma poolForNode_none: "\<forall>p\<in>set pools. \<not> qualifies pattern minFree p \<Longrightarrow> poolForNode pools pattern minFree pmap = []"
  unfolding poolForNode_def using lightest.scan_none [of pools pattern minFree pmap "([], 0)"] by simp

lemma poolForNode_from:
  "poolForNode pools pattern minFree pmap \<noteq> [] \<Longrightarrow>
     \<exists>p\<in>set pools. qualifies pattern minFree p \<and> PoolNodeName p = poolForNode pools pattern minFree pmap"
  unfolding poolForNode_def using lightest.scan_from [of pattern minFree pmap pools "([], 0)"] by auto

lemma poolForNode_found:
  "namedPools pools \<Longrightarrow>
     poolForNode pools pattern minFree pmap \<noteq> [] \<longleftrightarrow> (\<exists>p\<in>set pools. qualifies pattern minFree p)"
proof
  assume named: "namedPools pools" and "\<exists>p\<in>set pools. qualifies pattern minFree p"
  then obtain x where x: "firstBest (<) (qualifies pattern minFree) (\<lambda>p. mget_int pmap (PoolNodeName p)) pools x"
    and eq: "poolForNode pools pattern minFree pmap = PoolNodeName x"
    using poolForNode_some by blast
  from x have "x \<in> set pools" by (auto elim: firstBestE)
  with named eq show "poolForNode pools pattern minFree pmap \<noteq> []" by (simp add: namedPools_def list_all_iff)
qed (use poolForNode_none in blast)

section \<open>Nodes\<close>

lemma maxFree_roomy:
  assumes "namedPools (Pools n)" "maxFreePool (Pools n) pattern = (pool, free)"
  shows "pool \<noteq> [] \<and> free > size' \<longleftrightarrow> roomy pattern size' n"
    and "pool \<noteq> [] \<longleftrightarrow> (\<exists>p\<in>set (Pools n). pattern (PoolNodeName p))"
proof -
  show found: "pool \<noteq> [] \<longleftrightarrow> (\<exists>p\<in>set (Pools n). pattern (PoolNodeName p))"
  proof
    assume "pool \<noteq> []"
    with assms(2) maxFreePool_none [of "Pools n" pattern] show "\<exists>p\<in>set (Pools n). pattern (PoolNodeName p)"
      by auto
  next
    assume "\<exists>p\<in>set (Pools n). pattern (PoolNodeName p)"
    with maxFreePool_Max(1) [of "Pools n" _ pattern] assms show "pool \<noteq> []" by auto
  qed
  show "pool \<noteq> [] \<and> free > size' \<longleftrightarrow> roomy pattern size' n"
  proof (cases "\<exists>p\<in>set (Pools n). pattern (PoolNodeName p)")
    case True
    then obtain p where p: "p \<in> set (Pools n)" "pattern (PoolNodeName p)" by blast
    from maxFreePool_Max(2) [of "Pools n" p pattern] p assms
    have fr: "free = Max (Free ` {p \<in> set (Pools n). pattern (PoolNodeName p)})" by simp
    have "free > size' \<longleftrightarrow> roomy pattern size' n" unfolding roomy_def fr using p by (subst Max_gr_iff) auto
    with True found show ?thesis by simp
  next
    case False
    with found show ?thesis by (auto simp: roomy_def)
  qed
qed

lemma suitableNodes_snoc:
  "suitableNodes (ns @ [n]) pattern size' =
     (let (suitable, matched) = suitableNodes ns pattern size'; (pool, free) = maxFreePool (Pools n) pattern
      in if pool = [] then (suitable, matched)
         else (if free > size' then List.insert (k8sNodeName n) suitable else suitable, True))"
  by (simp add: suitableNodes_def)

lemma suitableNodes_spec:
  assumes "\<forall>n\<in>set nodes. namedPools (Pools n)"
  shows "set (fst (suitableNodes nodes pattern size')) = k8sNodeName ` {n \<in> set nodes. roomy pattern size' n}
     \<and> (snd (suitableNodes nodes pattern size') \<longleftrightarrow> (\<exists>n\<in>set nodes. \<exists>p\<in>set (Pools n). pattern (PoolNodeName p)))"
  using assms
proof (induction nodes rule: rev_induct)
  case Nil
  show ?case by (simp add: suitableNodes_def)
next
  case (snoc n ns)
  obtain pool free where m: "maxFreePool (Pools n) pattern = (pool, free)" by (cases "maxFreePool (Pools n) pattern")
  from snoc have named: "namedPools (Pools n)" by simp
  note mr = maxFree_roomy [OF named m]
  show ?case
  proof (cases "pool = []")
    case True
    then have "\<not> roomy pattern size' n" "\<not> (\<exists>p\<in>set (Pools n). pattern (PoolNodeName p))" using mr by blast+
    with True m snoc show ?thesis by (auto simp: suitableNodes_snoc split: prod.splits)
  next
    case False
    then have "free > size' \<longleftrightarrow> roomy pattern size' n" "\<exists>p\<in>set (Pools n). pattern (PoolNodeName p)"
      using mr by blast+
    with False m snoc show ?thesis by (auto simp: suitableNodes_snoc split: prod.splits)
  qed
qed

section \<open>Weights\<close>

lemma i64_add [simp]: "i64 (i64 a + b) = i64 (a + b)"
  by (simp add: i64_def mod_simps algebra_simps)

lemma mget_int_addTo: "mget_int (addTo k n m) x = (if x = k then i64 (mget_int m k + n) else mget_int m x)"
  by (simp add: mget_int_def addTo_def update_conv')

lemma mget_int_Nil [simp]: "mget_int [] x = 0"
  by (simp add: mget_int_def)

lemma weight_bumps:
  "mget_int (fold (\<lambda>x m. if ok x then addTo (key x) (n x) m else m) xs m) k
     = (if \<exists>x\<in>set xs. ok x \<and> key x = k then i64 (mget_int m k + sum_list (map n (filter (\<lambda>x. ok x \<and> key x = k) xs)))
        else mget_int m k)"
  by (induction xs arbitrary: m) (auto simp: mget_int_addTo algebra_simps)

lemma nodename_lookup:
  "(case map_of (fold (\<lambda>node. AList.update (Name node) (k8sNodeName node)) nodes []) nodeid of
      Some n \<Rightarrow> n | None \<Rightarrow> nodeid) = hostOf nodes nodeid"
  unfolding hostOf_def by (induction nodes rule: rev_induct) (auto simp: update_conv')

lemma volumeWeightedMap_eq:
  "volumeWeightedMap zvlist nodes pattern =
     fold (\<lambda>zv nmap. if pattern (poolRoot (PoolName (Spec zv)))
                     then addTo (hostOf nodes (OwnerNodeID (Spec zv))) 1 nmap else nmap) zvlist []"
  unfolding volumeWeightedMap_def Let_def nodename_lookup by (intro fold_cong) auto

lemma is_i64_0 [simp]: "i64 0 = 0"
  by (simp add: i64_def)

text \<open>Under VolumeWeighted the weight of a node is the number of volumes in a matching pool whose node
  id belongs to it, up to the wrap-around of \<open>int64\<close>.
\<close>

lemma volume_weight_counts:
  "mget_int (volumeWeightedMap zvlist nodes pattern) x =
     i64 (int (length (filter (\<lambda>zv. pattern (poolRoot (PoolName (Spec zv)))
                                     \<and> hostOf nodes (OwnerNodeID (Spec zv)) = x) zvlist)))"
proof -
  have "sum_list (map (\<lambda>zv. 1 :: int) l) = int (length l)" for l :: "ZFSVolume list" by (induction l) auto
  moreover have "length (filter P zvlist) = 0" if "\<not> (\<exists>zv\<in>set zvlist. P zv)" for P using that by simp
  ultimately show ?thesis unfolding volumeWeightedMap_eq weight_bumps by simp
qed

lemma capacityWeightedMap_eq:
  "capacityWeightedMap nodes pattern =
     fold (\<lambda>np m. if pattern (PoolNodeName (snd np)) then addTo (k8sNodeName (fst np)) (Used (snd np)) m else m)
       (reports nodes) []"
proof -
  have "fold (\<lambda>node nmap. fold (\<lambda>pool nmap. if pattern (PoolNodeName pool)
            then addTo (k8sNodeName node) (Used pool) nmap else nmap) (Pools node) nmap) nodes m
      = fold (\<lambda>np m. if pattern (PoolNodeName (snd np)) then addTo (k8sNodeName (fst np)) (Used (snd np)) m else m)
          (reports nodes) m" for m
    by (induction nodes arbitrary: m) (simp_all add: reports_def fold_map comp_def cong: if_cong)
  then show ?thesis by (simp add: capacityWeightedMap_def)
qed

text \<open>Under CapacityWeighted the weight of a node is the sum of the used capacity of its matching
  pools, up to the wrap-around of \<open>int64\<close>.
\<close>

lemma capacity_weight_sums:
  "mget_int (capacityWeightedMap nodes pattern) x =
     i64 (sum_list (map (\<lambda>np. Used (snd np))
            (filter (\<lambda>np. pattern (PoolNodeName (snd np)) \<and> k8sNodeName (fst np) = x) (reports nodes))))"
proof -
  have "filter P xs = []" if "\<not> (\<exists>x\<in>set xs. P x)" for P and xs :: "(ZFSNode \<times> Pool) list"
    using that by (simp add: filter_empty_conv)
  then show ?thesis unfolding capacityWeightedMap_eq weight_bumps by simp
qed

lemma spaceWeightedMap_last:
  assumes "distinct (map k8sNodeName nodes)" "n \<in> set nodes" "fst (maxFreePool (Pools n) pattern) \<noteq> []"
  shows "map_of (spaceWeightedMap nodes pattern) (k8sNodeName n)
           = Some (i64 (MaxInt64 - snd (maxFreePool (Pools n) pattern)))"
  using assms
proof (induction nodes rule: rev_induct)
  case Nil
  then show ?case by simp
next
  case (snoc y ns)
  obtain pool free where m: "maxFreePool (Pools y) pattern = (pool, free)" by (cases "maxFreePool (Pools y) pattern")
  show ?case
  proof (cases "n = y")
    case True
    with m snoc show ?thesis by (simp add: spaceWeightedMap_def update_conv')
  next
    case False
    with snoc.prems(2) have "n \<in> set ns" by simp
    with snoc.prems(1) have "k8sNodeName n \<noteq> k8sNodeName y" by (metis distinct.simps(2) image_eqI
      list.set_map map_append distinct_append IntI list.simps(8,9) list.set_intros(1) empty_iff)
    with False m snoc show ?thesis by (simp add: spaceWeightedMap_def update_conv')
  qed
qed

text \<open>C21: under SpaceWeighted the weight of a node with a matching pool is \<open>math.MaxInt64\<close> minus the most
  free capacity of its matching pools, without overflow, and so a node with more room weighs less: it is
  entered for every such node, also a full one.
\<close>

theorem space_weight_inverts:
  assumes "distinct (map k8sNodeName nodes)" "n \<in> set nodes" "namedPools (Pools n)"
    and "\<forall>p\<in>set (Pools n). 0 \<le> Free p \<and> is_i64 (Free p)"
    and "p \<in> set (Pools n)" "pattern (PoolNodeName p)"
  shows "map_of (spaceWeightedMap nodes pattern) (k8sNodeName n)
           = Some (MaxInt64 - Max (Free ` {p \<in> set (Pools n). pattern (PoolNodeName p)}))"
proof -
  let ?M = "Max (Free ` {p \<in> set (Pools n). pattern (PoolNodeName p)})"
  have "?M \<in> Free ` {p \<in> set (Pools n). pattern (PoolNodeName p)}" using assms(5,6) by (intro Max_in) auto
  with assms(4) have "0 \<le> ?M" "is_i64 ?M" by auto
  then have "is_i64 (MaxInt64 - ?M)" by (simp add: is_i64_def MaxInt64_def)
  with spaceWeightedMap_last [OF assms(1,2)] maxFreePool_Max [of "Pools n" p pattern] assms(3,5,6)
  show ?thesis by simp
qed

lemmas demo_sched = demoNode_def demoPools_def demoPattern_def k8sNodeName_def namedPools_def qualifies_def

theorem space_weight_inverts_witness:
  "map_of (spaceWeightedMap [demoNode] demoPattern) ''worker'' = Some (MaxInt64 - 50)"
proof -
  have "{p \<in> set demoPools. demoPattern (PoolNodeName p)} = set (take 2 demoPools)" by (auto simp: demo_sched)
  then show ?thesis
    using space_weight_inverts [of "[demoNode]" demoNode "demoPools ! 0" demoPattern]
    by (simp add: demo_sched is_i64_def)
qed





text \<open>C20: a storage class names its pools by exactly one of the two parameters. A poolname selects the pool
  that is its part before the first slash and no other; setting both, or none, is refused.
\<close>

theorem pool_params_exact:
  assumes "ascii poolname" "poolname \<noteq> []"
  shows "(\<exists>f. parsePoolParams L poolname [] = Some (Inr f) \<and> (\<forall>s. ascii s \<longrightarrow> f s = (s = poolRoot poolname)))
    \<and> (pattern \<noteq> [] \<longrightarrow> (\<exists>e. parsePoolParams L poolname pattern = Some (Inl e)))
    \<and> (\<exists>e. parsePoolParams L [] [] = Some (Inl e))"
proof -
  from assms(1) have "ascii (poolRoot poolname)"
    by (auto simp: ascii_def poolRoot_def list_all_iff dest: set_takeWhileD)
  from rxe.exact [OF this, of L] assms(2)
  show ?thesis by (auto simp: parsePoolParams_def)
qed

theorem pool_params_exact_witness:
  "\<exists>f. parsePoolParams quietLib ''tank.prod/pv'' [] = Some (Inr f) \<and> f ''tank.prod'' \<and> \<not> f ''tankXprod''"
proof -
  have "ascii ''tank.prod/pv''" by simp
  from pool_params_exact [OF this, of quietLib]
  obtain f where "parsePoolParams quietLib ''tank.prod/pv'' [] = Some (Inr f)"
    and f: "\<forall>s. ascii s \<longrightarrow> f s = (s = poolRoot ''tank.prod/pv'')" by auto
  moreover from f have "f ''tank.prod''" "\<not> f ''tankXprod''" by (simp_all add: poolRoot_def)
  ultimately show ?thesis by blast
qed

text \<open>A pool without free space is picked for a volume that reserves nothing.\<close>

lemma poolForNode_full_pool:
  "pattern (PoolNodeName p) \<Longrightarrow> Free p = 0 \<Longrightarrow> poolForNode [p] pattern 0 pmap = PoolNodeName p"
  by (simp add: poolForNode_def Let_def)

end
