(* ===== verification/Csi.thy ===== *)
theory Csi
  imports Scheduler VolumeLock
begin

text \<open>
  The requests the CSI side hands to the driver, reduced to the fields the driver reads, and the
  builders of \<open>pkg/response\<close> for its answers. A message field that may be nil is an option.

  \<open>ctl\<close> holds what the controller service is built with and what it calls outside the repository: the
  scheduler and the parameter helpers of lib-csi, the informer caches of the Kubernetes nodes and the
  ZFSNode objects, label selection, the clock and the names of the
  usage events. As with \<open>env\<close>, answers may depend on the trace so far.
\<close>

section \<open>Requests\<close>

datatype contentSource = FromSnapshot string | FromVolume string | NoSource

record topology =
  Requisite :: "smap list"
  Preferred :: "smap list"

record CreateVolumeRequest =
  VolName :: string
  RequiredBytes :: "int64 option"
  VolParameters :: smap
  VolContentSource :: "contentSource option"
  VolCapabilities :: "nat list option"
  Accessibility :: "topology option"

record CreateSnapshotRequest =
  SnapReqName :: string
  SourceVolumeId :: string
  SnapParameters :: smap

datatype rpc = CREATE_DELETE_VOLUME | CREATE_DELETE_SNAPSHOT | CLONE_VOLUME | EXPAND_VOLUME | GET_CAPACITY | OTHER_RPC string

fun rpcName :: "rpc \<Rightarrow> string" where
  "rpcName CREATE_DELETE_VOLUME = ''CREATE_DELETE_VOLUME''"
| "rpcName CREATE_DELETE_SNAPSHOT = ''CREATE_DELETE_SNAPSHOT''"
| "rpcName CLONE_VOLUME = ''CLONE_VOLUME''"
| "rpcName EXPAND_VOLUME = ''EXPAND_VOLUME''"
| "rpcName GET_CAPACITY = ''GET_CAPACITY''"
| "rpcName (OTHER_RPC n) = n"

text \<open>An access mode is its number in the CSI enumeration.\<close>

abbreviation "SINGLE_NODE_WRITER \<equiv> (1 :: nat)"

section \<open>Responses\<close>

record CreateVolumeResponse =
  VolumeId :: string
  VolCapacityBytes :: int64
  VolumeContext :: smap
  RespContentSource :: "contentSource option"
  AccessibleTopology :: "smap list"

definition NewCreateVolumeResponseBuilder :: CreateVolumeResponse where
  "NewCreateVolumeResponseBuilder =
     \<lparr> VolumeId = [], VolCapacityBytes = 0, VolumeContext = [], RespContentSource = None, AccessibleTopology = [] \<rparr>"

definition resp_WithName :: "string \<Rightarrow> CreateVolumeResponse \<Rightarrow> CreateVolumeResponse" where
  "resp_WithName name b = b\<lparr> VolumeId := name \<rparr>"

definition resp_WithCapacity :: "int64 \<Rightarrow> CreateVolumeResponse \<Rightarrow> CreateVolumeResponse" where
  "resp_WithCapacity capacity b = b\<lparr> VolCapacityBytes := capacity \<rparr>"

definition resp_WithContext :: "smap \<Rightarrow> CreateVolumeResponse \<Rightarrow> CreateVolumeResponse" where
  "resp_WithContext ctx b = b\<lparr> VolumeContext := ctx \<rparr>"

definition resp_WithContentSource :: "contentSource option \<Rightarrow> CreateVolumeResponse \<Rightarrow> CreateVolumeResponse" where
  "resp_WithContentSource cnt b = b\<lparr> RespContentSource := cnt \<rparr>"

definition resp_WithTopology :: "smap \<Rightarrow> CreateVolumeResponse \<Rightarrow> CreateVolumeResponse" where
  "resp_WithTopology segments b = b\<lparr> AccessibleTopology := [segments] \<rparr>"

record CreateSnapshotResponse =
  SnapshotId :: string
  RespSourceVolumeId :: string
  SizeBytes :: int64
  CreationTime :: "int64 \<times> int64"
  ReadyToUse :: bool

definition NewCreateSnapshotResponseBuilder :: CreateSnapshotResponse where
  "NewCreateSnapshotResponseBuilder =
     \<lparr> SnapshotId = [], RespSourceVolumeId = [], SizeBytes = 0, CreationTime = (0, 0), ReadyToUse = False \<rparr>"

definition resp_WithSize :: "int64 \<Rightarrow> CreateSnapshotResponse \<Rightarrow> CreateSnapshotResponse" where
  "resp_WithSize n b = b\<lparr> SizeBytes := n \<rparr>"

definition resp_WithSnapshotID :: "string \<Rightarrow> CreateSnapshotResponse \<Rightarrow> CreateSnapshotResponse" where
  "resp_WithSnapshotID snapshotID b = b\<lparr> SnapshotId := snapshotID \<rparr>"

definition resp_WithSourceVolumeID :: "string \<Rightarrow> CreateSnapshotResponse \<Rightarrow> CreateSnapshotResponse" where
  "resp_WithSourceVolumeID volumeID b = b\<lparr> RespSourceVolumeId := volumeID \<rparr>"

text \<open>The nanoseconds are converted to \<open>int32\<close>.\<close>

definition resp_WithCreationTime :: "int64 \<Rightarrow> int64 \<Rightarrow> CreateSnapshotResponse \<Rightarrow> CreateSnapshotResponse" where
  "resp_WithCreationTime tsec tnsec b = b\<lparr> CreationTime := (tsec, (tnsec + 2 ^ 31) mod 2 ^ 32 - 2 ^ 31) \<rparr>"

definition resp_WithReadyToUse :: "bool \<Rightarrow> CreateSnapshotResponse \<Rightarrow> CreateSnapshotResponse" where
  "resp_WithReadyToUse readyToUse b = b\<lparr> ReadyToUse := readyToUse \<rparr>"

record ControllerExpandVolumeResponse =
  ExpCapacityBytes :: int64
  NodeExpansionRequired :: bool

definition NewControllerExpandVolumeResponseBuilder :: ControllerExpandVolumeResponse where
  "NewControllerExpandVolumeResponseBuilder = \<lparr> ExpCapacityBytes = 0, NodeExpansionRequired = False \<rparr>"

definition resp_WithCapacityBytes :: "int64 \<Rightarrow> ControllerExpandVolumeResponse \<Rightarrow> ControllerExpandVolumeResponse" where
  "resp_WithCapacityBytes capacity b = b\<lparr> ExpCapacityBytes := capacity \<rparr>"

definition resp_WithNodeExpansionRequired :: "bool \<Rightarrow> ControllerExpandVolumeResponse \<Rightarrow> ControllerExpandVolumeResponse" where
  "resp_WithNodeExpansionRequired required b = b\<lparr> NodeExpansionRequired := required \<rparr>"

lemmas response_defs =
  NewCreateVolumeResponseBuilder_def resp_WithName_def resp_WithCapacity_def resp_WithContext_def
  resp_WithContentSource_def resp_WithTopology_def NewCreateSnapshotResponseBuilder_def resp_WithSize_def
  resp_WithSnapshotID_def resp_WithSourceVolumeID_def resp_WithCreationTime_def resp_WithReadyToUse_def
  NewControllerExpandVolumeResponseBuilder_def resp_WithCapacityBytes_def resp_WithNodeExpansionRequired_def

section \<open>The controller's surroundings\<close>

record ctl =
  scheduler :: "event list \<Rightarrow> CreateVolumeRequest \<Rightarrow> weights \<Rightarrow> string list"
  caseInsensitiveMap :: "smap \<Rightarrow> smap"
  insensitiveParameter :: "smap \<Rightarrow> string \<Rightarrow> string"
  capabilities :: "rpc list"
  indexedLabel :: string
  nodeIndexers :: "string list"
  k8sNodes :: "event list \<Rightarrow> (string \<times> smap) list"
  nodesByIndex :: "event list \<Rightarrow> string \<Rightarrow> string \<Rightarrow> string + (string \<times> smap) list"
  selectorMatches :: "smap \<Rightarrow> smap \<Rightarrow> bool"
  zfsNodeByKey :: "event list \<Rightarrow> string \<Rightarrow> string + ZFSNode option"
  now :: "event list \<Rightarrow> int64"
  GoogleAnalyticsEnabled :: string
  VolumeProvision :: string
  VolumeDeprovision :: string

text \<open>
  A request that asks for a name it already holds waits for ever, as nobody else releases it. A wait
  for another request ends if that request does (theory VolumeLock), and is not recorded.
\<close>

fun lockedIn :: "string \<Rightarrow> event list \<Rightarrow> bool" where
  "lockedIn v [] = False"
| "lockedIn v (EvLock w # h) = (if w = v then (lockedIn v h \<or> EvUnlock v \<notin> set h) else lockedIn v h)"
| "lockedIn v (_ # h) = lockedIn v h"

definition goLock :: "string \<Rightarrow> unit go" where
  "goLock v = goBind (goAsk (lockedIn v)) (\<lambda>b. if b then goStop (EvWait ''volume lock'') else goEmit (EvLock v))"

text \<open>\<open>unlock := cs.volumeLock.LockVolume(v); defer unlock()\<close>, and the same with a snapshot.\<close>

definition withVolume :: "string \<Rightarrow> 'a go \<Rightarrow> 'a go" where
  "withVolume v m =
     goBind (goLock v) (\<lambda>_. goBind m (\<lambda>r. goBind (goEmit (EvUnlock v)) (\<lambda>_. goRet r)))"

definition withVolumeAndSnapshot :: "string \<Rightarrow> string \<Rightarrow> 'a go \<Rightarrow> 'a go" where
  "withVolumeAndSnapshot v s m =
     goBind (goLock v) (\<lambda>_. goBind (goLock s) (\<lambda>_. goBind m (\<lambda>r.
       goBind (goEmit (EvUnlock v)) (\<lambda>_. goBind (goEmit (EvUnlock s)) (\<lambda>_. goRet r)))))"

end
