(* ===== verification/Controller.thy ===== *)
theory Controller
  imports Csi ZfsUtil
begin

text \<open>
  \<open>pkg/driver/controller.go\<close>: the CSI controller service. \<open>E\<close> is the environment of all components and
  \<open>C\<close> what the controller service was built with. The size and mapping of a request are computed before
  the lock is taken, as in the code; a handler that dereferences a nil message stops with a panic.
\<close>

section \<open>Helpers\<close>

abbreviation "Mi \<equiv> (1048576 :: int)"
abbreviation "Gi \<equiv> (1073741824 :: int)"

definition getRoundedCapacity :: "int64 \<Rightarrow> int64" where
  "getRoundedCapacity size' =
     (if size' > Gi then i64 (quot64 (i64 (size' + Gi - 1)) Gi * Gi)
      else i64 (quot64 (i64 (size' + Mi - 1)) Mi * Mi))"

definition sendEventOrIgnore :: "ctl \<Rightarrow> string \<Rightarrow> string \<Rightarrow> string \<Rightarrow> string \<Rightarrow> unit go" where
  "sendEventOrIgnore C pvcName pvName capacity method =
     (if GoogleAnalyticsEnabled C = ''true'' then goEmit (EvAnalytics [pvName, pvcName, ''1'', method, capacity])
      else goRet ())"

fun volDestroyLoop :: "nat \<Rightarrow> env \<Rightarrow> string \<Rightarrow> gerror option go" where
  "volDestroyLoop 0 E volname = goStop (EvWait ''volume destruction'')"
| "volDestroyLoop (Suc n) E volname =
     goBind (GetZFSVolume E volname) (\<lambda>r. case r of
       Inl e \<Rightarrow>
         if IsNotFound (lib E) e then goRet None
         else goRet (Some (EStatus Internal (''zfs: destroy wait failed, not able to get the volume ''
                       @ volname @ '' '' @ errText (lib E) e)))
     | Inr _ \<Rightarrow> volDestroyLoop n E volname)"

definition waitForVolDestroy :: "env \<Rightarrow> string \<Rightarrow> gerror option go" where
  "waitForVolDestroy E volname = volDestroyLoop (polls E) E volname"

text \<open>The loop's \<open>select\<close> has no default case; a turn that picks neither case is spent waiting.\<close>

fun readySnapshotLoop :: "nat \<Rightarrow> env \<Rightarrow> string \<Rightarrow> gerror option go" where
  "readySnapshotLoop 0 E snapname = goStop (EvWait ''snapshot creation'')"
| "readySnapshotLoop (Suc n) E snapname =
     goBind (GetZFSSnapshot E snapname) (\<lambda>r. case r of
       Inl e \<Rightarrow> goRet (Some (EStatus Internal (''zfs: wait failed, not able to get the snapshot ''
                       @ snapname @ '' '' @ errText (lib E) e)))
     | Inr snap \<Rightarrow>
         if SnapState snap = ZFSStatusReady then goRet None
         else if SnapState snap = ZFSStatusFailed
           then goRet (Some (EStatus Internal (''snapshot '' @ snapname @ '' creation failed on node ''
                         @ OwnerNodeID (SnapSpec snap))))
         else goBind (goSelect E ''snapshot creation'') (\<lambda>c. case c of
             CtxDone \<Rightarrow> goRet (Some (EStatus DeadlineExceeded
                          (''snapshot '' @ snapname @ '' creation: context deadline reached'')))
           | TimedOut \<Rightarrow> readySnapshotLoop n E snapname
           | Default \<Rightarrow> readySnapshotLoop n E snapname))"

definition waitForReadySnapshot :: "env \<Rightarrow> string \<Rightarrow> gerror option go" where
  "waitForReadySnapshot E snapname = readySnapshotLoop (polls E) E snapname"

text \<open>How \<open>%v\<close> prints a list of strings.\<close>

definition printList :: "string list \<Rightarrow> string" where
  "printList xs = ''['' @ joinWith '' '' xs @ '']''"

section \<open>Requests\<close>

definition validateRequest :: "ctl \<Rightarrow> rpc \<Rightarrow> gerror option" where
  "validateRequest C c =
     (if list_ex (\<lambda>cap. c = cap) (capabilities C) then None
      else Some (EStatus InvalidArgument (''failed to validate request: {'' @ rpcName c @ ''} is not supported'')))"

definition newControllerCapabilities :: "rpc list" where
  "newControllerCapabilities =
     [CREATE_DELETE_VOLUME, CREATE_DELETE_SNAPSHOT, CLONE_VOLUME, EXPAND_VOLUME, GET_CAPACITY]"

definition validateDeleteVolumeReq :: "ctl \<Rightarrow> string \<Rightarrow> gerror option" where
  "validateDeleteVolumeReq C volumeID =
     (if volumeID = [] then
        Some (EStatus InvalidArgument ''failed to handle delete volume request: missing volume id'')
      else case validateRequest C CREATE_DELETE_VOLUME of
             Some e \<Rightarrow> Some (EWrap (''failed to handle delete volume request for {'' @ volumeID @ ''} : validation failed'') e)
           | None \<Rightarrow> None)"

definition validateVolumeCreateReq :: "ctl \<Rightarrow> CreateVolumeRequest \<Rightarrow> gerror option" where
  "validateVolumeCreateReq C req =
     (case validateRequest C CREATE_DELETE_VOLUME of
        Some e \<Rightarrow> Some (EWrap (''failed to handle create volume request for {'' @ VolName req @ ''}'') e)
      | None \<Rightarrow>
          if VolName req = [] then
            Some (EStatus InvalidArgument ''failed to handle create volume request: missing volume name'')
          else if VolCapabilities req = None then
            Some (EStatus InvalidArgument ''failed to handle create volume request: missing volume capabilities'')
          else None)"

definition SupportedVolumeCapabilityAccessModes :: "nat list" where
  "SupportedVolumeCapabilityAccessModes = [SINGLE_NODE_WRITER]"

definition IsSupportedVolumeCapabilityAccessMode :: "nat \<Rightarrow> bool" where
  "IsSupportedVolumeCapabilityAccessMode accessMode =
     list_ex (\<lambda>access. accessMode = access) SupportedVolumeCapabilityAccessModes"

definition isValidVolumeCapabilities :: "nat list \<Rightarrow> bool" where
  "isValidVolumeCapabilities volCaps =
     fold (\<lambda>c foundAll. if \<not> list_ex (\<lambda>m. m = c) SupportedVolumeCapabilityAccessModes then False else foundAll)
       volCaps True"

definition ValidateVolumeCapabilities :: "env \<Rightarrow> string \<Rightarrow> nat list \<Rightarrow> (gerror + nat list option) go" where
  "ValidateVolumeCapabilities E volId volCaps =
     (let volumeID = ToLower (lib E) volId
      in if length volumeID = 0 then goRet (Inl (EStatus InvalidArgument ''Volume ID not provided''))
         else if length volCaps = 0 then goRet (Inl (EStatus InvalidArgument ''Volume capabilities not provided''))
         else goBind (GetZFSVolume E volumeID) (\<lambda>r. case r of
             Inl e \<Rightarrow> goRet (Inl (EStatus NotFound (''Get volume failed err '' @ errText (lib E) e)))
           | Inr _ \<Rightarrow> goRet (Inr (if isValidVolumeCapabilities volCaps then Some volCaps else None))))"

section \<open>Provisioning\<close>

text \<open>
  What \<open>CreateZFSVolume\<close> does about a volume of that name: \<open>Inl\<close> ends the request with the volume or an
  error, \<open>Inr\<close> goes on to provision.
\<close>

definition existingVolume :: "env \<Rightarrow> smap \<Rightarrow> string \<Rightarrow> string \<Rightarrow> ((gerror + ZFSVolume) + unit) go" where
  "existingVolume E parameters volName capacity =
     goBind (GetZFSVolume E volName) (\<lambda>r. case r of
       Inl _ \<Rightarrow> goRet (Inr ())
     | Inr vol \<Rightarrow>
         if DeletionTimestamp vol \<noteq> None then
           (if map_of parameters ''wait'' \<noteq> None then
              goBind (waitForVolDestroy E volName) (\<lambda>err. case err of
                Some e \<Rightarrow> goRet (Inl (Inl e))
              | None \<Rightarrow> goRet (Inr ()))
            else goRet (Inr ()))
         else if Capacity (Spec vol) \<noteq> capacity then
           goRet (Inl (Inl (EStatus AlreadyExists (''volume '' @ volName @ '' already present''))))
         else if State vol \<noteq> ZFSStatusReady then
           goRet (Inl (Inl (EStatus Aborted (''volume '' @ volName @ '' request already pending''))))
         else goRet (Inl (Inr vol)))"

text \<open>The volume object of the request, without the node and pool it will be tried on.\<close>

definition requestedVolume :: "ctl \<Rightarrow> CreateVolumeRequest \<Rightarrow> smap \<Rightarrow> string \<Rightarrow> string \<Rightarrow> gerror + ZFSVolume" where
  "requestedVolume C req parameters volName capacity =
     (let p = mget parameters; orig = VolParameters req in
      Build (vol_WithCompression (p ''compression'')
        (vol_WithLogBias (p ''logbias'')
        (vol_WithATime (p ''atime'')
        (vol_WithShared (p ''shared'')
        (vol_WithQuotaType (p ''quotatype'')
        (vol_WithFsType (p ''fstype'')
        (vol_WithVolumeStatus ZFSStatusPending
        (vol_WithVolumeType (GetVolumeType (p ''fstype''))
        (vol_WithThinProv (p ''thinprovision'')
        (vol_WithKeyLocation (p ''keylocation'')
        (vol_WithKeyFormat (p ''keyformat'')
        (vol_WithEncryption (p ''encryption'')
        (vol_WithDedup (p ''dedup'')
        (vol_WithVolBlockSize (p ''volblocksize'')
        (vol_WithRecordSize (p ''recordsize'')
        (vol_WithCapacity capacity
        (vol_WithPVName (insensitiveParameter C orig ''csi.storage.k8s.io/pv/name'')
        (vol_WithPVCNamespace (insensitiveParameter C orig ''csi.storage.k8s.io/pvc/namespace'')
        (vol_WithPVCName (insensitiveParameter C orig ''csi.storage.k8s.io/pvc/name'')
        (vol_WithName volName vol_NewBuilder)))))))))))))))))))))"

text \<open>The nodes to try, best first, without those that cannot hold a reserving volume.\<close>

definition candidateNodes ::
  "env \<Rightarrow> ctl \<Rightarrow> CreateVolumeRequest \<Rightarrow> smap \<Rightarrow> matcher \<Rightarrow> string \<Rightarrow> int64 \<Rightarrow> (gerror + string list) go" where
  "candidateNodes E C req parameters pattern volName size' =
     (let pool = mget parameters ''poolname''; poolpattern = mget parameters ''poolpattern'';
          reserves = reservesSpace (GetVolumeType (mget parameters ''fstype'')) (mget parameters ''thinprovision'')
      in goBind (getNodeMap E (mget parameters ''scheduler'') pattern) (\<lambda>r. case r of
           Inl e \<Rightarrow> goRet (Inl (EStatus Internal (''get node map failed : '' @ errText (lib E) e)))
         | Inr nmap \<Rightarrow>
             goBind (case map_of parameters ''node'' of
                       Some node \<Rightarrow> goRet [node]
                     | None \<Rightarrow> goAsk (\<lambda>h. scheduler C h req nmap)) (\<lambda>prfList.
             if prfList = [] then
               goRet (Inl (EStatus Internal ''scheduler failed, node list is empty for creating the PV''))
             else
             goBind (if poolpattern \<noteq> [] \<or> reserves then getSuitableNodes E pattern size'
                     else goRet (Inr ([], True))) (\<lambda>r. case r of
               Inl e \<Rightarrow> goRet (Inl (EStatus Internal (''get suitable nodes failed : '' @ errText (lib E) e)))
             | Inr (suitable, matched) \<Rightarrow>
                 if poolpattern \<noteq> [] \<and> \<not> matched then
                   goRet (Inl (EStatus FailedPrecondition (''no pool matching '' @ poolDesc (lib E) pool poolpattern
                     @ '' is present on any node, volume '' @ volName)))
                 else if reserves then
                   (let kept = filterKeep prfList suitable
                    in if kept = [] then
                         goRet (Inl (EStatus ResourceExhausted (''no pool matching '' @ poolDesc (lib E) pool poolpattern
                           @ '' has '' @ FormatInt size' @ '' bytes free, volume '' @ volName)))
                       else goRet (Inr kept))
                 else goRet (Inr prfList)))))"

text \<open>
  The loop over the nodes. \<open>err\<close> is the error of the last attempt; the answer is the volume, or the
  error left when the nodes are exhausted or a wait timed out.
\<close>

fun tryNodes ::
  "env \<Rightarrow> smap \<Rightarrow> matcher \<Rightarrow> int64 \<Rightarrow> ZFSVolume \<Rightarrow> string list \<Rightarrow> gerror option \<Rightarrow> (gerror option + ZFSVolume) go" where
  "tryNodes E parameters pattern minFree volObj [] err = goRet (Inl err)"
| "tryNodes E parameters pattern minFree volObj (node # nodes) err =
     goBind (GetNodeID E node) (\<lambda>r. case r of
       Inl e \<Rightarrow> tryNodes E parameters pattern minFree volObj nodes (Some e)
     | Inr nodeid \<Rightarrow>
         goBind (if mget parameters ''poolpattern'' \<noteq> []
                 then resolvePool E (mget parameters ''scheduler'') nodeid pattern minFree
                 else goRet (Inr (mget parameters ''poolname''))) (\<lambda>r. case r of
           Inl e \<Rightarrow> tryNodes E parameters pattern minFree volObj nodes (Some e)
         | Inr volPool \<Rightarrow>
             if mget parameters ''poolpattern'' \<noteq> [] \<and> volPool = [] then
               tryNodes E parameters pattern minFree volObj nodes
                 (Some (EText (''no pool matching poolpattern '' @ Quote (lib E) (mget parameters ''poolpattern'')
                          @ '' on node '' @ node)))
             else
               (case Build (vol_WithVolumeStatus ZFSStatusPending (vol_WithPoolName volPool
                              (vol_WithOwnerNodeID nodeid (vol_BuildFrom (Some volObj))))) of
                  Inl e \<Rightarrow> tryNodes E parameters pattern minFree volObj nodes (Some e)
                | Inr vol \<Rightarrow> goBind (ProvisionVolume E vol) (\<lambda>(timeout, perr). case perr of
                    None \<Rightarrow> goRet (Inr vol)
                  | Some e \<Rightarrow> if timeout then goRet (Inl (Some e))
                              else tryNodes E parameters pattern minFree volObj nodes (Some e)))))"

text \<open>The last part of \<open>CreateZFSVolume\<close>: try the nodes, and delete the volume object if none will do.\<close>

definition provisionOn ::
  "env \<Rightarrow> smap \<Rightarrow> matcher \<Rightarrow> string \<Rightarrow> int64 \<Rightarrow> string list \<Rightarrow> ZFSVolume \<Rightarrow> (gerror + ZFSVolume) go" where
  "provisionOn E parameters pattern volName size' prfList volObj =
     (let reserves = reservesSpace (GetVolumeType (mget parameters ''fstype'')) (mget parameters ''thinprovision'');
          minFree = (if reserves then size' else 0)
      in goBind (tryNodes E parameters pattern minFree volObj prfList None) (\<lambda>r. case r of
           Inr vol \<Rightarrow> goRet (Inr vol)
         | Inl None \<Rightarrow> goPanic ''nil pointer dereference''
         | Inl (Some e) \<Rightarrow> goBind (zfs_DeleteVolume E volName) (\<lambda>_.
             goRet (Inl (EStatus Internal (''not able to provision the volume, nodes '' @ printList prfList
               @ '', err : '' @ errText (lib E) e))))))"

definition CreateZFSVolume :: "env \<Rightarrow> ctl \<Rightarrow> CreateVolumeRequest \<Rightarrow> (gerror + ZFSVolume) go" where
  "CreateZFSVolume E C req =
     (case RequiredBytes req of
        None \<Rightarrow> goPanic ''nil pointer dereference''
      | Some bytes \<Rightarrow>
          let volName = ToLower (lib E) (VolName req); size' = getRoundedCapacity bytes;
              parameters = caseInsensitiveMap C (VolParameters req); capacity = FormatInt size'
          in goBind (existingVolume E parameters volName capacity) (\<lambda>r. case r of
               Inl answer \<Rightarrow> goRet answer
             | Inr _ \<Rightarrow>
                 (case parsePoolParams (lib E) (mget parameters ''poolname'') (mget parameters ''poolpattern'') of
                    None \<Rightarrow> goPanic ''regexp: Compile''
                  | Some (Inl e) \<Rightarrow> goRet (Inl (EStatus InvalidArgument (errText (lib E) e)))
                  | Some (Inr pattern) \<Rightarrow>
                      goBind (candidateNodes E C req parameters pattern volName size') (\<lambda>r. case r of
                        Inl e \<Rightarrow> goRet (Inl e)
                      | Inr prfList \<Rightarrow>
                          (case requestedVolume C req parameters volName capacity of
                             Inl e \<Rightarrow> goRet (Inl (EStatus Internal (errText (lib E) e)))
                           | Inr volObj \<Rightarrow> provisionOn E parameters pattern volName size' prfList volObj)))))"

section \<open>Clones\<close>

text \<open>Both kinds of clone check the pool and the size of the source and take over its specification.\<close>

definition cloneTemplate :: "ctl \<Rightarrow> CreateVolumeRequest \<Rightarrow> string \<Rightarrow> smap \<Rightarrow> gerror + ZFSVolume" where
  "cloneTemplate C req volName labels =
     (let param = insensitiveParameter C (VolParameters req) in
      Build ((if labels = [] then (\<lambda>b. b) else vol_WithLabels labels)
        (vol_WithVolumeStatus ZFSStatusPending
        (vol_WithPVName (param ''csi.storage.k8s.io/pv/name'')
        (vol_WithPVCNamespace (param ''csi.storage.k8s.io/pvc/namespace'')
        (vol_WithPVCName (param ''csi.storage.k8s.io/pvc/name'')
        (vol_WithName volName vol_NewBuilder)))))))"

definition inheritSpec :: "VolumeInfo \<Rightarrow> string \<Rightarrow> ZFSVolume \<Rightarrow> ZFSVolume" where
  "inheritSpec src snapName volObj =
     volObj\<lparr> Spec := src\<lparr> UserProperties := UserProperties (Spec volObj), SnapName := snapName \<rparr> \<rparr>"

definition CreateVolClone :: "env \<Rightarrow> ctl \<Rightarrow> CreateVolumeRequest \<Rightarrow> string \<Rightarrow> (gerror + ZFSVolume) go" where
  "CreateVolClone E C req srcVol =
     (case RequiredBytes req of
        None \<Rightarrow> goPanic ''nil pointer dereference''
      | Some bytes \<Rightarrow>
          let volName = ToLower (lib E) (VolName req); param = insensitiveParameter C (VolParameters req);
              pool = param ''poolname''; poolpattern = param ''poolpattern'';
              volsize = FormatInt (getRoundedCapacity bytes)
          in (case parsePoolParams (lib E) pool poolpattern of
                None \<Rightarrow> goPanic ''regexp: Compile''
              | Some (Inl e) \<Rightarrow> goRet (Inl (EStatus InvalidArgument (errText (lib E) e)))
              | Some (Inr pattern) \<Rightarrow>
                  goBind (GetZFSVolume E srcVol) (\<lambda>r. case r of
                    Inl e \<Rightarrow> goRet (Inl (EStatus NotFound (errText (lib E) e)))
                  | Inr vol \<Rightarrow>
                      if \<not> sourcePoolAllowed (PoolName (Spec vol)) pool pattern then
                        goRet (Inl (EStatus InvalidArgument (''clone: source pool '' @ PoolName (Spec vol)
                          @ '' is not covered by '' @ poolDesc (lib E) pool poolpattern)))
                      else if Capacity (Spec vol) \<noteq> volsize then
                        goRet (Inl (EStatus Internal ''clone: volume size is not matching''))
                      else
                        (case cloneTemplate C req volName [(ZFSSrcVolKey, Name vol)] of
                           Inl e \<Rightarrow> goRet (Inl e)
                         | Inr obj \<Rightarrow>
                             let volObj = inheritSpec (Spec vol) (Name vol @ ''@'' @ volName) obj
                             in goBind (ProvisionVolume E volObj) (\<lambda>(timeout, err). case err of
                                  Some e \<Rightarrow> goRet (Inl (EStatus Internal (''clone: not able to provision the volume err : ''
                                              @ errText (lib E) e)))
                                | None \<Rightarrow> goRet (Inr volObj))))))"

definition CreateSnapClone :: "env \<Rightarrow> ctl \<Rightarrow> CreateVolumeRequest \<Rightarrow> string \<Rightarrow> (gerror + ZFSVolume) go" where
  "CreateSnapClone E C req snapshot =
     (case RequiredBytes req of
        None \<Rightarrow> goPanic ''nil pointer dereference''
      | Some bytes \<Rightarrow>
          let volName = ToLower (lib E) (VolName req); param = insensitiveParameter C (VolParameters req);
              pool = param ''poolname''; poolpattern = param ''poolpattern'';
              volsize = FormatInt (getRoundedCapacity bytes)
          in (case parsePoolParams (lib E) pool poolpattern of
                None \<Rightarrow> goPanic ''regexp: Compile''
              | Some (Inl e) \<Rightarrow> goRet (Inl (EStatus InvalidArgument (errText (lib E) e)))
              | Some (Inr pattern) \<Rightarrow>
                  let snapshotID = splitOn (CHR ''@'') snapshot
                  in if length snapshotID \<noteq> 2 then
                       goRet (Inl (EStatus NotFound (''snap name is not valid '' @ snapshot
                         @ '', {invalid snapshot name}'')))
                     else goBind (GetZFSSnapshot E (snapshotID ! 1)) (\<lambda>r. case r of
                       Inl e \<Rightarrow> goRet (Inl (EStatus NotFound (errText (lib E) e)))
                     | Inr snap \<Rightarrow>
                         if \<not> sourcePoolAllowed (PoolName (SnapSpec snap)) pool pattern then
                           goRet (Inl (EStatus InvalidArgument (''clone: snapshot pool '' @ PoolName (SnapSpec snap)
                             @ '' is not covered by '' @ poolDesc (lib E) pool poolpattern)))
                         else if Capacity (SnapSpec snap) \<noteq> volsize then
                           goRet (Inl (EStatus Internal ''clone volume size is not matching''))
                         else
                           (case cloneTemplate C req volName [] of
                              Inl e \<Rightarrow> goRet (Inl e)
                            | Inr obj \<Rightarrow>
                                let volObj = inheritSpec (SnapSpec snap) (ToLower (lib E) snapshot) obj
                                in goBind (ProvisionVolume E volObj) (\<lambda>(timeout, err). case err of
                                     Some e \<Rightarrow> goRet (Inl (EStatus Internal (''not able to provision the clone volume err : ''
                                                 @ errText (lib E) e)))
                                   | None \<Rightarrow> goRet (Inr volObj))))))"

section \<open>Volumes\<close>

definition createFrom :: "env \<Rightarrow> ctl \<Rightarrow> CreateVolumeRequest \<Rightarrow> (gerror + ZFSVolume) go" where
  "createFrom E C req =
     (case VolContentSource req of
        Some (FromSnapshot snapshotID) \<Rightarrow> CreateSnapClone E C req snapshotID
      | Some (FromVolume srcVol) \<Rightarrow> CreateVolClone E C req srcVol
      | _ \<Rightarrow> CreateZFSVolume E C req)"

definition volumeResponse :: "ctl \<Rightarrow> CreateVolumeRequest \<Rightarrow> string \<Rightarrow> int64 \<Rightarrow> ZFSVolume \<Rightarrow> CreateVolumeResponse" where
  "volumeResponse C req volName size' vol =
     (let formatOptions = insensitiveParameter C (VolParameters req) ''formatoptions'';
          cntx = [(PoolNameKey, PoolName (Spec vol)), (OpenEBSCasTypeKey, ZFSCasTypeName)]
                 @ (if formatOptions \<noteq> [] then [(FormatOptionsKey, formatOptions)] else [])
      in resp_WithContentSource (VolContentSource req)
           (resp_WithContext cntx
           (resp_WithTopology [(ZFSTopologyKey, OwnerNodeID (Spec vol))]
           (resp_WithCapacity size'
           (resp_WithName volName NewCreateVolumeResponseBuilder)))))"

definition CreateVolume :: "env \<Rightarrow> ctl \<Rightarrow> CreateVolumeRequest \<Rightarrow> (gerror + CreateVolumeResponse) go" where
  "CreateVolume E C req =
     (case validateVolumeCreateReq C req of
        Some e \<Rightarrow> goRet (Inl e)
      | None \<Rightarrow>
          let volName = ToLower (lib E) (VolName req);
              size' = getRoundedCapacity (case RequiredBytes req of None \<Rightarrow> 0 | Some b \<Rightarrow> b);
              pvcName = insensitiveParameter C (VolParameters req) ''csi.storage.k8s.io/pvc/name''
          in withVolume volName
               (goBind (createFrom E C req) (\<lambda>r. case r of
                  Inl e \<Rightarrow> goRet (Inl e)
                | Inr vol \<Rightarrow>
                    goBind (sendEventOrIgnore C pvcName volName (FormatInt size') (VolumeProvision C)) (\<lambda>_.
                    goRet (Inr (volumeResponse C req volName size' vol))))))"

text \<open>\<open>DeleteVolume\<close> once the volume is known to exist and not to be deleted already.\<close>

definition deleteReady :: "env \<Rightarrow> ctl \<Rightarrow> string \<Rightarrow> string \<Rightarrow> ZFSVolume \<Rightarrow> gerror option go" where
  "deleteReady E C reqID volumeID vol =
     (if State vol \<noteq> ZFSStatusReady then
        goRet (Some (EStatus Internal ''can not delete, volume creation is in progress''))
      else
      goBind (GetSnapshotForVolume E volumeID) (\<lambda>r. case r of
        Inl e \<Rightarrow> goRet (Some (EStatus NotFound (''failed to handle delete volume request for {'' @ reqID
                   @ ''}, validation failed checking for snapshots. Error: '' @ errText (lib E) e)))
      | Inr snapList \<Rightarrow>
          goBind (if length snapList = 0 then zfs_DeleteVolume E volumeID else MarkForDeletion E volumeID) (\<lambda>err.
          case err of
            Some e \<Rightarrow> goRet (Some (EWrap ((if length snapList = 0 then ''failed to handle delete volume request for {''
                        else ''failed to annotate volume on deletion request for {'') @ volumeID @ ''}'') e))
          | None \<Rightarrow> goBind (sendEventOrIgnore C [] volumeID (Capacity (Spec vol)) (VolumeDeprovision C))
                      (\<lambda>_. goRet None))))"

definition DeleteVolume :: "env \<Rightarrow> ctl \<Rightarrow> string \<Rightarrow> gerror option go" where
  "DeleteVolume E C reqID =
     (case validateDeleteVolumeReq C reqID of
        Some e \<Rightarrow> goRet (Some e)
      | None \<Rightarrow>
          let volumeID = ToLower (lib E) reqID
          in withVolume volumeID
               (goBind (GetZFSVolume E volumeID) (\<lambda>r. case r of
                  Inl e \<Rightarrow>
                    if IsNotFound (lib E) e then goRet None
                    else goRet (Some (EWrap (''failed to get volume for {'' @ volumeID @ ''}'') e))
                | Inr vol \<Rightarrow>
                    if DeletionTimestamp vol \<noteq> None then goRet None
                    else deleteReady E C reqID volumeID vol)))"

definition ControllerExpandVolume ::
  "env \<Rightarrow> string \<Rightarrow> int64 option \<Rightarrow> (gerror + ControllerExpandVolumeResponse) go" where
  "ControllerExpandVolume E reqID requiredBytes =
     (let volumeID = ToLower (lib E) reqID
      in if volumeID = [] then
           goRet (Inl (EStatus InvalidArgument ''ControllerExpandVolume: no volumeID provided''))
         else withVolume volumeID
           (let updatedSize = getRoundedCapacity (case requiredBytes of None \<Rightarrow> 0 | Some b \<Rightarrow> b) in
            goBind (GetZFSVolume E volumeID) (\<lambda>r. case r of
              Inl e \<Rightarrow> goRet (Inl (EStatus Internal (''ControllerExpandVolumeRequest: failed to get ZFSVolume in for ''
                         @ volumeID @ '', {'' @ errText (lib E) e @ ''}'')))
            | Inr vol \<Rightarrow>
                (case ParseInt (Capacity (Spec vol)) of
                   None \<Rightarrow> goRet (Inl (EStatus Internal (''ControllerExpandVolumeRequest: failed to parse volsize in for ''
                             @ volumeID @ '', {'' @ parseIntErr (lib E) (Capacity (Spec vol)) @ ''}'')))
                 | Some volsize \<Rightarrow>
                     if volsize \<ge> updatedSize then
                       goRet (Inr (resp_WithCapacityBytes volsize NewControllerExpandVolumeResponseBuilder))
                     else goBind (ResizeVolume E vol updatedSize) (\<lambda>err. case err of
                         Some e \<Rightarrow> goRet (Inl (EStatus Internal (''failed to handle ControllerExpandVolumeRequest for ''
                                     @ volumeID @ '', {'' @ errText (lib E) e @ ''}'')))
                       | None \<Rightarrow> goRet (Inr (resp_WithNodeExpansionRequired True
                                   (resp_WithCapacityBytes updatedSize NewControllerExpandVolumeResponseBuilder))))))))"

section \<open>Snapshots\<close>

definition verifySnapshotRequest :: "env \<Rightarrow> CreateSnapshotRequest \<Rightarrow> gerror option go" where
  "verifySnapshotRequest E req =
     (let snapName = ToLower (lib E) (SnapReqName req); volumeID = ToLower (lib E) (SourceVolumeId req)
      in if snapName = [] \<or> volumeID = [] then
           goRet (Some (EStatus InvalidArgument (''CreateSnapshot error invalid request '' @ volumeID @ '': '' @ snapName)))
         else goBind (GetZFSSnapshot E snapName) (\<lambda>r. case r of
           Inl e \<Rightarrow>
             if IsNotFound (lib E) e then goRet None
             else goRet (Some (EStatus NotFound (''CreateSnapshot error snap '' @ snapName @ '' '' @ volumeID
                    @ '' get failed : '' @ errText (lib E) e)))
         | Inr snap \<Rightarrow>
             if mget (Labels snap) ZFSVolKey \<noteq> volumeID then
               goRet (Some (EStatus AlreadyExists (''CreateSnapshot error snapshot '' @ snapName
                 @ '' already exist for different source vol '' @ mget (Labels snap) ZFSVolKey @ '': '' @ volumeID)))
             else goRet None))"

definition snapshotResponse ::
  "env \<Rightarrow> string \<Rightarrow> string \<Rightarrow> int64 \<Rightarrow> ZFSSnapshot \<Rightarrow> gerror + CreateSnapshotResponse" where
  "snapshotResponse E volumeID snapName timeStamp snapObj =
     (case GetZFSSnapshotCapacity (Some snapObj) of
        Inl e \<Rightarrow> Inl (EText (''get zfssnapshot capacity failed: '' @ errText (lib E) e @ '', capacity: ''
                   @ Capacity (SnapSpec snapObj)))
      | Inr n \<Rightarrow> Inr (resp_WithReadyToUse (SnapState snapObj = ZFSStatusReady)
                   (resp_WithCreationTime timeStamp 0
                   (resp_WithSize n
                   (resp_WithSnapshotID (volumeID @ ''@'' @ snapName)
                   (resp_WithSourceVolumeID volumeID NewCreateSnapshotResponseBuilder))))))"

text \<open>\<open>CreateSnapshot\<close> for a snapshot that does not exist yet.\<close>

definition newSnapshot ::
  "env \<Rightarrow> ctl \<Rightarrow> CreateSnapshotRequest \<Rightarrow> string \<Rightarrow> string \<Rightarrow> int64 \<Rightarrow> (gerror + CreateSnapshotResponse) go" where
  "newSnapshot E C req volumeID snapName timeStamp =
     goBind (GetZFSVolume E volumeID) (\<lambda>r. case r of
       Inl e \<Rightarrow> goRet (Inl (EStatus NotFound (''CreateSnapshot not able to get volume '' @ volumeID @ '': '' @ snapName
                  @ '', {'' @ errText (lib E) e @ ''}'')))
     | Inr vol \<Rightarrow>
         let param = insensitiveParameter C (SnapParameters req) in
         (case Build (snap_WithLabels [(ZFSVolKey, Name vol)]
                  (snap_WithVSCName (param ''csi.storage.k8s.io/volumesnapshotcontent/name'')
                  (snap_WithVSNamespace (param ''csi.storage.k8s.io/volumesnapshot/namespace'')
                  (snap_WithVSName (param ''csi.storage.k8s.io/volumesnapshot/name'')
                  (snap_WithName snapName snap_NewBuilder))))) of
            Inl e \<Rightarrow> goRet (Inl (EStatus Internal (''failed to create snapshotobject for '' @ volumeID @ '': '' @ snapName
                       @ '', {'' @ errText (lib E) e @ ''}'')))
          | Inr obj \<Rightarrow>
              let snapObj = obj\<lparr> SnapSpec := (Spec vol)\<lparr> UserProperties := UserProperties (SnapSpec obj) \<rparr>,
                                 SnapState := ZFSStatusPending \<rparr> in
              goBind (ProvisionSnapshot E snapObj) (\<lambda>err. case err of
                Some e \<Rightarrow> goRet (Inl (EStatus Internal (''failed to handle CreateSnapshotRequest for '' @ volumeID
                            @ '': '' @ snapName @ '', {'' @ errText (lib E) e @ ''}'')))
              | None \<Rightarrow>
                  goBind (if map_of (caseInsensitiveMap C (SnapParameters req)) ''wait'' \<noteq> None
                          then waitForReadySnapshot E snapName else goRet None) (\<lambda>err. case err of
                    Some e \<Rightarrow> goRet (Inl e)
                  | None \<Rightarrow> goBind (GetZFSSnapshot E snapName) (\<lambda>r. case r of
                      Inl e \<Rightarrow> goRet (Inl (EText (''get zfssnapshot failed, err: '' @ errText (lib E) e)))
                    | Inr snapObj \<Rightarrow> goRet (snapshotResponse E volumeID snapName timeStamp snapObj))))))"

definition CreateSnapshot :: "env \<Rightarrow> ctl \<Rightarrow> CreateSnapshotRequest \<Rightarrow> (gerror + CreateSnapshotResponse) go" where
  "CreateSnapshot E C req =
     (let snapName = ToLower (lib E) (SnapReqName req); volumeID = ToLower (lib E) (SourceVolumeId req)
      in goBind (verifySnapshotRequest E req) (\<lambda>err. case err of
           Some e \<Rightarrow> goRet (Inl e)
         | None \<Rightarrow> withVolumeAndSnapshot volumeID snapName
             (goBind (goAsk (now C)) (\<lambda>snapTimeStamp.
              goBind (GetZFSSnapshot E snapName) (\<lambda>r. case r of
                Inr snapObj \<Rightarrow> goRet (snapshotResponse E volumeID snapName snapTimeStamp snapObj)
              | Inl _ \<Rightarrow> newSnapshot E C req volumeID snapName snapTimeStamp)))))"

text \<open>\<open>DeleteSnapshot\<close> once the snapshot is known to exist and the locks are held.\<close>

definition removeSnapshot :: "env \<Rightarrow> string \<Rightarrow> string \<Rightarrow> string \<Rightarrow> gerror option go" where
  "removeSnapshot E reqID volumeID snapName =
     goBind (GetSnapshotForVolume E volumeID) (\<lambda>r. case r of
       Inl e \<Rightarrow> goRet (Some (EStatus FailedPrecondition (''failed to handle delete snapshot request for {'' @ volumeID
                  @ ''}, validation failed checking for snapshot list for volume. Error: '' @ errText (lib E) e)))
     | Inr snapList \<Rightarrow>
         goBind (zfs_DeleteSnapshot E snapName) (\<lambda>err. case err of
           Some e \<Rightarrow> goRet (Some (EStatus Internal (''failed to handle DeleteSnapshot for '' @ reqID @ '', {''
                       @ errText (lib E) e @ ''}'')))
         | None \<Rightarrow>
             goBind (IsVolumeEligibleForDeletion E volumeID) (\<lambda>r. case r of
               Inl e \<Rightarrow> goRet (Some (EStatus FailedPrecondition (''failed to handle delete snapshot request for {'' @ volumeID
                          @ ''}, validation failed checking for eligible for deletion. Error: '' @ errText (lib E) e)))
             | Inr eligibleForDeletion \<Rightarrow>
                 if length snapList = 1 \<and> eligibleForDeletion then
                   goBind (zfs_DeleteVolume E volumeID) (\<lambda>err. case err of
                     Some e \<Rightarrow> goRet (Some (EWrap (''failed to handle delete volume request for {'' @ volumeID @ ''}'') e))
                   | None \<Rightarrow> goRet None)
                 else goRet None)))"

definition DeleteSnapshot :: "env \<Rightarrow> string \<Rightarrow> gerror option go" where
  "DeleteSnapshot E reqID =
     (if reqID = [] then goRet (Some (EStatus InvalidArgument ''DeleteSnapshot: empty snapshotID''))
      else
        let snapshotID = splitOn (CHR ''@'') reqID
        in if length snapshotID \<noteq> 2 then goRet None
           else withVolumeAndSnapshot (snapshotID ! 0) (snapshotID ! 1)
             (goBind (GetZFSSnapshot E (snapshotID ! 1)) (\<lambda>r. case r of
                Inl e \<Rightarrow>
                  if IsNotFound (lib E) e then goRet None
                  else goRet (Some (EWrap (''failed to get snapshot for {'' @ snapshotID ! 1 @ ''}'') e))
              | Inr _ \<Rightarrow> removeSnapshot E reqID (snapshotID ! 0) (snapshotID ! 1))))"

section \<open>Capacity\<close>

definition LabelIndexName :: "string \<Rightarrow> string" where
  "LabelIndexName label = ''l:'' @ label"

definition LabelIndexFunc :: "string \<Rightarrow> smap \<Rightarrow> string list" where
  "LabelIndexFunc label labels = (case map_of labels label of Some v \<Rightarrow> [v] | None \<Rightarrow> [])"

definition filterNodes :: "ctl \<Rightarrow> smap \<Rightarrow> (string \<times> smap) list \<Rightarrow> string list" where
  "filterNodes C segments vs = map fst (filter (\<lambda>(name, labels). selectorMatches C segments labels) vs)"

definition filterNodesByTopology :: "ctl \<Rightarrow> smap \<Rightarrow> (gerror + string list) go" where
  "filterNodesByTopology C segments =
     (if length segments = 0 then goAsk (\<lambda>h. Inr (map fst (k8sNodes C h)))
      else
        let indexName = LabelIndexName (indexedLabel C)
        in if indexName \<notin> set (nodeIndexers C) then goAsk (\<lambda>h. Inr (filterNodes C segments (k8sNodes C h)))
           else (case map_of segments (indexedLabel C) of
                   Some segValue \<Rightarrow>
                     goAsk (\<lambda>h. case nodesByIndex C h indexName segValue of
                       Inl e \<Rightarrow> Inl (EWrap (''query indexed store indexName='' @ indexName @ '' indexKey='' @ segValue) (EText e))
                     | Inr vs \<Rightarrow> Inr (filterNodes C segments vs))
                 | None \<Rightarrow> goAsk (\<lambda>h. Inr (filterNodes C segments (k8sNodes C h)))))"

fun roomiestNode :: "env \<Rightarrow> ctl \<Rightarrow> matcher \<Rightarrow> string list \<Rightarrow> int64 \<Rightarrow> int64 go" where
  "roomiestNode E C pattern [] availableCapacity = goRet availableCapacity"
| "roomiestNode E C pattern (nodeName # nodeNames) availableCapacity =
     goBind (GetNodeID E nodeName) (\<lambda>r.
       let mappedNodeID = (case r of Inl _ \<Rightarrow> nodeName | Inr nodeid \<Rightarrow> nodeid) in
       goBind (goAsk (\<lambda>h. zfsNodeByKey C h (OpenEBSNamespace E @ ''/'' @ mappedNodeID))) (\<lambda>r. case r of
         Inr (Some zfsNode) \<Rightarrow>
           let freeCapacity = snd (maxFreePool (Pools zfsNode) pattern)
           in roomiestNode E C pattern nodeNames
                (if availableCapacity < freeCapacity then freeCapacity else availableCapacity)
       | _ \<Rightarrow> roomiestNode E C pattern nodeNames availableCapacity))"

definition GetCapacity :: "env \<Rightarrow> ctl \<Rightarrow> smap option \<Rightarrow> smap \<Rightarrow> (gerror + int64) go" where
  "GetCapacity E C topology params =
     (let segments = (case topology of None \<Rightarrow> [] | Some s \<Rightarrow> s) in
      goBind (filterNodesByTopology C segments) (\<lambda>r. case r of
        Inl e \<Rightarrow> goRet (Inl (EStatus Internal (errText (lib E) e)))
      | Inr nodeNames \<Rightarrow>
          (case parsePoolParams (lib E) (insensitiveParameter C params ''poolname'')
                  (insensitiveParameter C params ''poolpattern'') of
             None \<Rightarrow> goPanic ''regexp: Compile''
           | Some (Inl e) \<Rightarrow> goRet (Inr 0)
           | Some (Inr pattern) \<Rightarrow> goBind (roomiestNode E C pattern nodeNames 0) (\<lambda>c. goRet (Inr c)))))"

section \<open>Requests without a service\<close>

definition ControllerGetCapabilities :: "ctl \<Rightarrow> rpc list" where
  "ControllerGetCapabilities C = capabilities C"

definition ListSnapshots :: "gerror option" where
  "ListSnapshots = Some (EStatus Unimplemented [])"

definition ControllerUnpublishVolume :: "gerror option" where
  "ControllerUnpublishVolume = Some (EStatus Unimplemented [])"

definition ControllerPublishVolume :: "gerror option" where
  "ControllerPublishVolume = Some (EStatus Unimplemented [])"

definition ListVolumes :: "gerror option" where
  "ListVolumes = Some (EStatus Unimplemented [])"

definition ControllerGetVolume :: "gerror option" where
  "ControllerGetVolume = Some (EStatus Unimplemented ''ControllerGetVolume is not implemented'')"

definition ControllerModifyVolume :: "gerror option" where
  "ControllerModifyVolume = Some (EStatus Unimplemented ''ControllerModifyVolume is not implemented'')"

end
