(* ===== verification/Traces.thy ===== *)
theory Traces
  imports Volume
begin

text \<open>
  A logic for the order of events. A guard \<open>G\<close> says which events may follow which trace; a run is safe
  if each event it adds is allowed after the events before it. \<open>keeps G h0 F m Q R\<close> says that \<open>m\<close>, run
  after a safe extension of \<open>h0\<close> that contains the events \<open>F\<close>, is safe, and that if it returns \<open>x\<close> then
  the events \<open>Q x\<close> have happened as well and \<open>R x\<close> holds. The rules follow the shape of the programs,
  and the rules for the operations of theory Volume say what is known after them.
\<close>

section \<open>Definitions\<close>

named_theorems keeps_rules

definition guardedBy :: "('e \<Rightarrow> 'e list \<Rightarrow> bool) \<Rightarrow> 'e list \<Rightarrow> bool" where
  "guardedBy G es \<longleftrightarrow> (\<forall>a e b. es = a @ e # b \<longrightarrow> G e a)"

definition sofar :: "('e \<Rightarrow> 'e list \<Rightarrow> bool) \<Rightarrow> 'e list \<Rightarrow> 'e set \<Rightarrow> 'e list \<Rightarrow> bool" where
  "sofar G h0 F h \<longleftrightarrow> (\<exists>es. h = h0 @ es \<and> guardedBy G es \<and> F \<subseteq> set es)"

definition keeps :: "('e \<Rightarrow> 'e list \<Rightarrow> bool) \<Rightarrow> 'e list \<Rightarrow> 'e set \<Rightarrow> ('e, 'a) prog \<Rightarrow> ('a \<Rightarrow> 'e set) \<Rightarrow> ('a \<Rightarrow> bool) \<Rightarrow> bool" where
  "keeps G h0 F m Q R \<longleftrightarrow>
     (\<forall>h. sofar G h0 F h \<longrightarrow>
        (case m h of
           (None, h') \<Rightarrow> sofar G h0 F h'
         | (Some x, h') \<Rightarrow> sofar G h0 (F \<union> Q x) h' \<and> R x))"

text \<open>An event that is allowed at any time.\<close>

definition free :: "('e \<Rightarrow> 'e list \<Rightarrow> bool) \<Rightarrow> 'e \<Rightarrow> bool" where
  "free G e \<longleftrightarrow> (\<forall>a. G e a)"

text \<open>The event with a successful answer, if there was one.\<close>

definition answered :: "('x \<Rightarrow> 'e) \<Rightarrow> gerror + 'x \<Rightarrow> 'e set" where
  "answered ev r = (case r of Inl _ \<Rightarrow> {} | Inr x \<Rightarrow> {ev x})"

definition accepted :: "'e \<Rightarrow> gerror option \<Rightarrow> 'e set" where
  "accepted e r = (case r of None \<Rightarrow> {e} | Some _ \<Rightarrow> {})"

definition stable :: "('a \<Rightarrow> 'e set \<Rightarrow> bool) \<Rightarrow> bool" where
  "stable W \<longleftrightarrow> (\<forall>x A B. A \<subseteq> B \<longrightarrow> W x A \<longrightarrow> W x B)"

definition sees :: "('a \<Rightarrow> 'e set \<Rightarrow> bool) \<Rightarrow> ('e, 'a) prog \<Rightarrow> bool" where
  "sees W m \<longleftrightarrow> (\<forall>h x h'. m h = (Some x, h') \<longrightarrow> (\<exists>es. h' = h @ es \<and> W x (set es)))"

section \<open>Rules\<close>

lemma accepted_simps [simp]: "accepted e None = {e}" "accepted e (Some x) = {}"
  by (simp_all add: accepted_def)

lemma answered_simps [simp]: "answered ev (Inl e) = {}" "answered ev (Inr x) = {ev x}"
  by (simp_all add: answered_def)

lemma guardedBy_Nil [simp]: "guardedBy G []"
  by (simp add: guardedBy_def)

lemma guardedBy_snoc [simp]: "guardedBy G (es @ [e]) \<longleftrightarrow> guardedBy G es \<and> G e es"
proof
  assume "guardedBy G (es @ [e])"
  then show "guardedBy G es \<and> G e es"
    unfolding guardedBy_def by (metis append.assoc append_Cons append_Nil)
next
  assume g: "guardedBy G es \<and> G e es"
  show "guardedBy G (es @ [e])"
    unfolding guardedBy_def
  proof (intro allI impI)
    fix a x b
    assume eq: "es @ [e] = a @ x # b"
    show "G x a"
    proof (cases b rule: rev_cases)
      case Nil
      with eq g show ?thesis by simp
    next
      case (snoc b' y)
      with eq have "es = a @ x # b'" by simp
      with g show ?thesis by (simp add: guardedBy_def)
    qed
  qed
qed

lemma guardedBy_free: "guardedBy G es \<Longrightarrow> list_all (free G) fs \<Longrightarrow> guardedBy G (es @ fs)"
proof (induction fs rule: rev_induct)
  case (snoc f fs)
  then show ?case using guardedBy_snoc [of G "es @ fs" f] by (simp add: free_def)
qed simp

lemma sofar_mono: "sofar G h0 F h \<Longrightarrow> F' \<subseteq> F \<Longrightarrow> sofar G h0 F' h"
  by (auto simp: sofar_def)

lemma sofar_start: "sofar G h {} h"
  by (simp add: sofar_def)

lemma sofar_snoc:
  assumes "sofar G h0 F h" "\<And>a. F \<subseteq> set a \<Longrightarrow> G e a"
  shows "sofar G h0 (insert e F) (h @ [e])"
proof -
  from assms(1) obtain es where "h = h0 @ es" "guardedBy G es" "F \<subseteq> set es" by (auto simp: sofar_def)
  with assms(2) have "h @ [e] = h0 @ (es @ [e])" "guardedBy G (es @ [e])" "insert e F \<subseteq> set (es @ [e])" by auto
  then show ?thesis unfolding sofar_def by blast
qed

lemma keeps_run:
  assumes "keeps G h0 F m Q R" "sofar G h0 F h"
  shows "m h = (None, h') \<Longrightarrow> sofar G h0 F h'" "m h = (Some x, h') \<Longrightarrow> sofar G h0 (F \<union> Q x) h' \<and> R x"
  using assms by (auto simp: keeps_def dest!: spec [of _ h])

lemma keepsD:
  assumes "keeps G h {} m Q R" "m h = (Some x, h')"
  obtains es where "h' = h @ es" "guardedBy G es" "Q x \<subseteq> set es" "R x"
  using keeps_run(2) [OF assms(1) sofar_start assms(2)] that by (auto simp: sofar_def)

lemma keeps_extends:
  assumes "keeps G h {} m Q R" "m h = (r, h')"
  obtains es where "h' = h @ es" "guardedBy G es"
proof (cases r)
  case None
  with keeps_run(1) [OF assms(1) sofar_start] assms(2) that show thesis by (auto simp: sofar_def)
next
  case (Some x)
  with keepsD [OF assms(1)] assms(2) that show thesis by blast
qed

lemma keeps_goRet: "keeps G h0 F (goRet x) (\<lambda>_. {}) (\<lambda>y. y = x)"
  by (simp add: keeps_def go_simps)

lemma keeps_goBind:
  assumes m: "keeps G h0 F m Q R" and f: "\<And>x. R x \<Longrightarrow> keeps G h0 (F \<union> Q x) (f x) Q' R'"
  shows "keeps G h0 F (goBind m f) Q' R'"
  unfolding keeps_def
proof (intro allI impI)
  fix h
  assume h: "sofar G h0 F h"
  obtain r h1 where r: "m h = (r, h1)" by fastforce
  show "case goBind m f h of (None, h') \<Rightarrow> sofar G h0 F h' | (Some x, h') \<Rightarrow> sofar G h0 (F \<union> Q' x) h' \<and> R' x"
  proof (cases r)
    case None
    with m h r show ?thesis by (force simp: keeps_def go_simps)
  next
    case (Some x)
    with m h r have "sofar G h0 (F \<union> Q x) h1" "R x" unfolding keeps_def by (auto dest: spec [of _ h])
    with f have "case f x h1 of (None, h') \<Rightarrow> sofar G h0 (F \<union> Q x) h'
        | (Some y, h') \<Rightarrow> sofar G h0 (F \<union> Q x \<union> Q' y) h' \<and> R' y"
      by (auto simp: keeps_def)
    with Some r show ?thesis
      by (auto simp: go_simps split: prod.splits option.splits elim: sofar_mono)
  qed
qed

lemma keeps_weaken:
  "keeps G h0 F m Q R \<Longrightarrow> (\<And>x. R x \<Longrightarrow> Q' x \<subseteq> F \<union> Q x) \<Longrightarrow> (\<And>x. R x \<Longrightarrow> R' x) \<Longrightarrow> keeps G h0 F m Q' R'"
  unfolding keeps_def by (fastforce split: prod.splits option.splits elim: sofar_mono)

lemma keeps_any: "keeps G h0 F m Q R \<Longrightarrow> keeps G h0 F m (\<lambda>_. {}) (\<lambda>_. True)"
  by (erule keeps_weaken) simp_all

lemma keeps_goRetI [keeps_rules]: "Q x \<subseteq> F \<Longrightarrow> R x \<Longrightarrow> keeps G h0 F (goRet x) Q R"
  by (rule keeps_weaken [OF keeps_goRet]) auto

text \<open>A program whose events are all allowed at any time.\<close>

lemma keeps_only:
  assumes "only (free G) m"
  shows "keeps G h0 F m (\<lambda>_. {}) (\<lambda>_. True)"
  unfolding keeps_def
proof (intro allI impI)
  fix h
  assume "sofar G h0 F h"
  then obtain es where es: "h = h0 @ es" "guardedBy G es" "F \<subseteq> set es" by (auto simp: sofar_def)
  obtain r h' where r: "m h = (r, h')" by fastforce
  obtain fs where "h' = h @ fs" "list_all (free G) fs" by (rule only_snd [OF assms r])
  with es guardedBy_free [of G es fs] have "sofar G h0 F h'" by (auto simp: sofar_def)
  with r show "case m h of (None, h') \<Rightarrow> sofar G h0 F h' | (Some x, h') \<Rightarrow> sofar G h0 (F \<union> {}) h' \<and> True"
    by (simp split: option.split)
qed

lemma keeps_goStop [keeps_rules]: "free G e \<Longrightarrow> keeps G h0 F (goStop e) Q R"
  unfolding keeps_def free_def using sofar_snoc [of G h0 F _ e]
  by (simp add: go_simps) (blast intro: sofar_mono)

lemma keeps_goAsk: "keeps G h0 F (goAsk f) (\<lambda>_. {}) (\<lambda>_. True)"
  by (simp add: keeps_def go_simps)

lemma keeps_goEmit:
  "(\<And>a. F \<subseteq> set a \<Longrightarrow> G e a) \<Longrightarrow> keeps G h0 F (goEmit e) (\<lambda>_. {e}) (\<lambda>_. True)"
  unfolding keeps_def using sofar_snoc [of G h0 F _ e] by (auto simp: go_simps)

text \<open>A call whose event is allowed once the events \<open>F\<close> have happened.\<close>

lemma keeps_goCall:
  "(\<And>r a. F \<subseteq> set a \<Longrightarrow> G (ev r) a) \<Longrightarrow> keeps G h0 F (goCall f ev) (\<lambda>r. {ev r}) (\<lambda>_. True)"
  unfolding keeps_def using sofar_snoc [of G h0 F] by (auto simp: go_simps)

lemma keeps_bind_call [keeps_rules]:
  "(\<And>r a. F \<subseteq> set a \<Longrightarrow> G (ev r) a) \<Longrightarrow> (\<And>r. keeps G h0 (insert (ev r) F) (f r) Q R) \<Longrightarrow>
   keeps G h0 F (goBind (goCall g ev) f) Q R"
  by (rule keeps_goBind, rule keeps_goCall) simp_all

lemma keeps_bind_emit [keeps_rules]:
  "(\<And>a. F \<subseteq> set a \<Longrightarrow> G e a) \<Longrightarrow> keeps G h0 (insert e F) (f ()) Q R \<Longrightarrow> keeps G h0 F (goBind (goEmit e) f) Q R"
  by (rule keeps_goBind, rule keeps_goEmit) simp_all

lemma keeps_bind_ask [keeps_rules]: "(\<And>r. keeps G h0 F (f r) Q R) \<Longrightarrow> keeps G h0 F (goBind (goAsk g) f) Q R"
  by (rule keeps_goBind, rule keeps_goAsk) simp_all

lemma keeps_bind_ret [keeps_rules]: "keeps G h0 F (f x) Q R \<Longrightarrow> keeps G h0 F (goBind (goRet x) f) Q R"
  by (rule keeps_goBind, rule keeps_goRet) simp_all

lemma keeps_bind_only: "only (free G) m \<Longrightarrow> (\<And>x. keeps G h0 F (f x) Q R) \<Longrightarrow> keeps G h0 F (goBind m f) Q R"
  by (rule keeps_goBind, erule keeps_only) simp_all

lemma keeps_bind_answer:
  assumes "keeps G h0 F m (answered ev) (\<lambda>_. True)" "\<And>e. keeps G h0 F (f (Inl e)) Q R"
    and "\<And>x. keeps G h0 (insert (ev x) F) (f (Inr x)) Q R"
  shows "keeps G h0 F (goBind m f) Q R"
proof (rule keeps_goBind [OF assms(1)])
  fix r
  show "keeps G h0 (F \<union> answered ev r) (f r) Q R" using assms(2,3) by (cases r) simp_all
qed

lemma keeps_bind_done:
  assumes "keeps G h0 F m (accepted e) (\<lambda>_. True)" "\<And>x. keeps G h0 F (f (Some x)) Q R"
    and "keeps G h0 (insert e F) (f None) Q R"
  shows "keeps G h0 F (goBind m f) Q R"
proof (rule keeps_goBind [OF assms(1)])
  fix r
  show "keeps G h0 (F \<union> accepted e r) (f r) Q R" using assms(2,3) by (cases r) simp_all
qed

lemma keeps_if [keeps_rules]:
  "(b \<Longrightarrow> keeps G h0 F m Q R) \<Longrightarrow> (\<not> b \<Longrightarrow> keeps G h0 F n Q R) \<Longrightarrow> keeps G h0 F (if b then m else n) Q R"
  by simp

lemma keeps_sum [keeps_rules]:
  "(\<And>x. r = Inl x \<Longrightarrow> keeps G h0 F (f x) Q R) \<Longrightarrow> (\<And>y. r = Inr y \<Longrightarrow> keeps G h0 F (g y) Q R) \<Longrightarrow>
   keeps G h0 F (case r of Inl x \<Rightarrow> f x | Inr y \<Rightarrow> g y) Q R"
  by (simp split: sum.split)

lemma keeps_option [keeps_rules]:
  "(r = None \<Longrightarrow> keeps G h0 F m Q R) \<Longrightarrow> (\<And>y. r = Some y \<Longrightarrow> keeps G h0 F (g y) Q R) \<Longrightarrow>
   keeps G h0 F (case r of None \<Rightarrow> m | Some y \<Rightarrow> g y) Q R"
  by (simp split: option.split)

lemma keeps_prod [keeps_rules]:
  "(\<And>a b. r = (a, b) \<Longrightarrow> keeps G h0 F (f a b) Q R) \<Longrightarrow> keeps G h0 F (case r of (a, b) \<Rightarrow> f a b) Q R"
  by (simp split: prod.split)

lemma keeps_let [keeps_rules]: "keeps G h0 F (f x) Q R \<Longrightarrow> keeps G h0 F (let y = x in f y) Q R"
  by simp

text \<open>Nested binds and case distinctions in the first part of a bind.\<close>

lemma keeps_bind_assoc [keeps_rules]:
  "keeps G h0 F (goBind m (\<lambda>x. goBind (f x) g)) Q R \<Longrightarrow> keeps G h0 F (goBind (goBind m f) g) Q R"
  by (simp add: goBind_assoc)

lemma keeps_bind_if [keeps_rules]:
  "(b \<Longrightarrow> keeps G h0 F (goBind m f) Q R) \<Longrightarrow> (\<not> b \<Longrightarrow> keeps G h0 F (goBind n f) Q R) \<Longrightarrow>
   keeps G h0 F (goBind (if b then m else n) f) Q R"
  by simp

lemma keeps_bind_sum [keeps_rules]:
  "(\<And>x. r = Inl x \<Longrightarrow> keeps G h0 F (goBind (f x) k) Q R) \<Longrightarrow> (\<And>y. r = Inr y \<Longrightarrow> keeps G h0 F (goBind (g y) k) Q R) \<Longrightarrow>
   keeps G h0 F (goBind (case r of Inl x \<Rightarrow> f x | Inr y \<Rightarrow> g y) k) Q R"
  by (simp split: sum.split)

lemma keeps_bind_option [keeps_rules]:
  "(r = None \<Longrightarrow> keeps G h0 F (goBind m k) Q R) \<Longrightarrow> (\<And>y. r = Some y \<Longrightarrow> keeps G h0 F (goBind (g y) k) Q R) \<Longrightarrow>
   keeps G h0 F (goBind (case r of None \<Rightarrow> m | Some y \<Rightarrow> g y) k) Q R"
  by (simp split: option.split)

text \<open>A program whose events are all allowed once the events \<open>F\<close> have happened.\<close>

lemma guardedBy_while:
  assumes "\<And>e a. P e \<Longrightarrow> F \<subseteq> set a \<Longrightarrow> G e a"
  shows "guardedBy G es \<Longrightarrow> F \<subseteq> set es \<Longrightarrow> list_all P fs \<Longrightarrow> guardedBy G (es @ fs)"
proof (induction fs rule: rev_induct)
  case (snoc f fs)
  then have "guardedBy G (es @ fs)" "G f (es @ fs)" using assms [of f "es @ fs"] by auto
  then show ?case using guardedBy_snoc [of G "es @ fs" f] by simp
qed simp

lemma keeps_while:
  assumes P: "\<And>e a. P e \<Longrightarrow> F \<subseteq> set a \<Longrightarrow> G e a" and m: "only P m"
  shows "keeps G h0 F m (\<lambda>_. {}) (\<lambda>_. True)"
  unfolding keeps_def
proof (intro allI impI)
  fix h
  assume "sofar G h0 F h"
  then obtain es where es: "h = h0 @ es" "guardedBy G es" "F \<subseteq> set es" by (auto simp: sofar_def)
  obtain r h' where r: "m h = (r, h')" by fastforce
  obtain fs where fs: "h' = h @ fs" "list_all P fs" by (rule only_snd [OF m r])
  have "guardedBy G (es @ fs)" by (rule guardedBy_while [OF P]) (use es fs in auto)
  with es fs have "sofar G h0 F h'" by (auto simp: sofar_def)
  with r show "case m h of (None, h') \<Rightarrow> sofar G h0 F h' | (Some x, h') \<Rightarrow> sofar G h0 (F \<union> {}) h' \<and> True"
    by (simp split: option.split)
qed

text \<open>A program that is safe by itself, as a part of one with a wider guard.\<close>

lemma keeps_embed:
  assumes m: "\<And>h. keeps G h {} m Q R" and G: "\<And>e a b. F \<subseteq> set b \<Longrightarrow> G e a \<Longrightarrow> G' e (b @ a)"
  shows "keeps G' h0 F m Q R"
  unfolding keeps_def
proof (intro allI impI)
  fix h
  assume "sofar G' h0 F h"
  then obtain b where b: "h = h0 @ b" "guardedBy G' b" "F \<subseteq> set b" by (auto simp: sofar_def)
  have ext: "sofar G' h0 (F \<union> A) h'" if "sofar G h A h'" for A h'
  proof -
    from that obtain es where es: "h' = h @ es" "guardedBy G es" "A \<subseteq> set es" by (auto simp: sofar_def)
    from es(2) have "guardedBy G' (b @ es)"
    proof (induction es rule: rev_induct)
      case (snoc e es)
      then have "guardedBy G' (b @ es)" "G' e (b @ es)" using G [OF b(3), of e es] by auto
      then show ?case using guardedBy_snoc [of G' "b @ es" e] by simp
    qed (simp add: b(2))
    with es b show ?thesis by (auto simp: sofar_def)
  qed
  show "case m h of (None, h') \<Rightarrow> sofar G' h0 F h' | (Some x, h') \<Rightarrow> sofar G' h0 (F \<union> Q x) h' \<and> R x"
    using keeps_run [OF m [of h] sofar_start] ext by (auto split: prod.split option.split) (metis Un_empty_right)
qed

section \<open>What a run has seen\<close>

text \<open>
  \<open>sees W m\<close>: whenever \<open>m\<close> returns \<open>x\<close>, the events of its run satisfy \<open>W x\<close>. \<open>W\<close> is to be stable under further
  events, so that it carries over from a part of a program to the whole.
\<close>

abbreviation extends :: "('e, 'a) prog \<Rightarrow> bool" where
  "extends m \<equiv> only (\<lambda>_. True) m"

lemma seesD:
  assumes "sees W m" "m h = (Some x, h')"
  obtains es where "h' = h @ es" "W x (set es)"
  using assms unfolding sees_def by blast

lemma keeps_sees: "(\<And>h. keeps G h {} m Q R) \<Longrightarrow> sees (\<lambda>x A. Q x \<subseteq> A \<and> R x) m"
  unfolding sees_def by (metis keepsD)

lemma sees_goRet: "W x {} \<Longrightarrow> sees W (goRet x)"
  by (simp add: sees_def go_simps)

lemma sees_goStop: "sees W (goStop e)"
  by (simp add: sees_def go_simps)

lemma sees_only: "extends m \<Longrightarrow> (\<And>x A. W x A) \<Longrightarrow> sees W m"
  unfolding sees_def by (metis only_snd)

lemma sees_weaken: "sees W m \<Longrightarrow> (\<And>x A. W x A \<Longrightarrow> W' x A) \<Longrightarrow> sees W' m"
  unfolding sees_def by blast

lemma sees_bind:
  assumes m: "sees V m" and f: "\<And>x A. V x A \<Longrightarrow> sees (\<lambda>y B. W y (A \<union> B)) (f x)"
  shows "sees W (goBind m f)"
  unfolding sees_def
proof (intro allI impI)
  fix h y h'
  assume "goBind m f h = (Some y, h')"
  then obtain x h1 where r: "m h = (Some x, h1)" "f x h1 = (Some y, h')"
    by (auto simp: go_simps split: prod.splits option.splits)
  obtain es where es: "h1 = h @ es" "V x (set es)" by (rule seesD [OF m r(1)])
  obtain fs where "h' = h1 @ fs" "W y (set es \<union> set fs)" by (rule seesD [OF f [OF es(2)] r(2)])
  with es show "\<exists>es. h' = h @ es \<and> W y (set es)" by auto
qed

lemma sees_bind_later:
  assumes "extends m" "stable W" "\<And>x. sees W (f x)"
  shows "sees W (goBind m f)"
proof (rule sees_bind)
  show "sees (\<lambda>_ _. True) m" using assms(1) by (rule sees_only) simp
  show "sees (\<lambda>y B. W y (A \<union> B)) (f x)" for x A
    using assms(3) by (rule sees_weaken) (use assms(2) in \<open>unfold stable_def, blast\<close>)
qed

text \<open>The first part has seen it already, or else the rest does.\<close>

lemma sees_bind_first:
  assumes m: "sees V m" and st: "stable W"
    and f: "\<And>x. extends (f x)" "\<And>x A y. V x A \<Longrightarrow> ok x \<Longrightarrow> W y A" "\<And>x. \<not> ok x \<Longrightarrow> sees W (f x)"
  shows "sees W (goBind m f)"
proof (rule sees_bind [OF m])
  fix x A
  assume v: "V x A"
  show "sees (\<lambda>y B. W y (A \<union> B)) (f x)"
  proof (cases "ok x")
    case True
    with v f(2) have "W y (A \<union> B)" for y B using st unfolding stable_def by blast
    with f(1) show ?thesis by (rule sees_only)
  next
    case False
    with f(3) have "sees W (f x)" .
    then show ?thesis by (rule sees_weaken) (use st in \<open>unfold stable_def, blast\<close>)
  qed
qed

section \<open>Requests\<close>

lemma keeps_getClient:
  assumes "\<And>p r. free G (EvClientset p r)"
  shows "keeps G h0 F (getClientOrCached E k) (\<lambda>_. {}) (\<lambda>(err, k'). namespace k' = namespace k)"
proof -
  have "post (getClientOrCached E k) (\<lambda>(err, k'). namespace k' = namespace k)"
    unfolding getClientOrCached_def by (intro post_rules) auto
  moreover have "keeps G h0 F (getClientOrCached E k) (\<lambda>_. {}) (\<lambda>_. True)"
    by (intro keeps_only only_rules assms)
  ultimately show ?thesis
    unfolding keeps_def post_def by (fastforce split: prod.splits option.splits)
qed

text \<open>
  The requests of a kind. Reads are to be free; a write has to be allowed once \<open>F\<close> has happened. What is
  known afterwards is the accepted request.
\<close>

lemma keeps_bind_client [keeps_rules]:
  assumes "\<And>p r. free G (EvClientset p r)" "\<And>err k'. namespace k' = namespace k \<Longrightarrow> keeps G h0 F (f (err, k')) Q R"
  shows "keeps G h0 F (goBind (getClientOrCached E k) f) Q R"
  by (rule keeps_goBind, rule keeps_getClient [OF assms(1)]) (use assms(2) in auto)

lemma keeps_asOwn:
  assumes "\<And>k. namespace k = OpenEBSNamespace E \<Longrightarrow> keeps G h0 F (m k) (\<lambda>(r, k'). Q r) (\<lambda>_. True)"
  shows "keeps G h0 F (asOwn E m) Q (\<lambda>_. True)"
  unfolding asOwn_def by (rule keeps_goBind, rule assms) (auto intro!: keeps_goRetI split: prod.split)

context crd_kind
begin

lemma keeps_Get:
  assumes "\<And>p r. free G (EvClientset p r)" "\<And>ns r. free G (kEv K (KGet ns name r))"
  shows "keeps G h0 F (kube_Get E K name k)
    (\<lambda>(r, k'). answered (\<lambda>x. kEv K (KGet (namespace k) name (Inr x))) r) (\<lambda>_. True)"
  unfolding kube_Get_def
  by (intro keeps_rules assms) (use assms in \<open>auto simp: free_def apiAnswer_def split: sum.splits\<close>)

lemma keeps_List:
  assumes "\<And>p r. free G (EvClientset p r)" "\<And>ns r. free G (kEv K (KList ns sel r))"
  shows "keeps G h0 F (kube_List E K sel k)
    (\<lambda>(r, k'). answered (\<lambda>x. kEv K (KList (namespace k) sel (Inr x))) r) (\<lambda>_. True)"
  unfolding kube_List_def
  by (intro keeps_rules assms) (use assms in \<open>auto simp: free_def apiAnswer_def split: sum.splits\<close>)

lemma keeps_Create:
  assumes "\<And>p r. free G (EvClientset p r)" "\<And>r a. F \<subseteq> set a \<Longrightarrow> G (kEv K (KCreate (namespace k) x r)) a"
  shows "keeps G h0 F (kube_Create E K (Some x) k)
    (\<lambda>(r, k'). answered (\<lambda>y. kEv K (KCreate (namespace k) x (Inr y))) r) (\<lambda>_. True)"
  unfolding kube_Create_def option.case
  by (intro keeps_rules assms(1)) (use assms(2) in \<open>auto simp: apiAnswer_def split: sum.splits\<close>)

lemma keeps_Update:
  assumes "\<And>p r. free G (EvClientset p r)" "\<And>r a. F \<subseteq> set a \<Longrightarrow> G (kEv K (KUpdate (namespace k) x r)) a"
  shows "keeps G h0 F (kube_Update E K (Some x) k)
    (\<lambda>(r, k'). answered (\<lambda>y. kEv K (KUpdate (namespace k) x (Inr y))) r) (\<lambda>_. True)"
  unfolding kube_Update_def option.case
  by (intro keeps_rules assms(1)) (use assms(2) in \<open>auto simp: apiAnswer_def split: sum.splits\<close>)

lemma keeps_Delete:
  assumes "\<And>p r. free G (EvClientset p r)" "\<And>r a. F \<subseteq> set a \<Longrightarrow> G (kEv K (KDelete (namespace k) name r)) a"
  shows "keeps G h0 F (kube_Delete E K name k)
    (\<lambda>(r, k'). accepted (kEv K (KDelete (namespace k) name None)) r) (\<lambda>_. True)"
  unfolding kube_Delete_def
  by (intro keeps_rules assms(1)) (use assms(2) in \<open>auto simp: accepted_def split: option.splits\<close>)

end

section \<open>Operations\<close>

lemma keeps_GetZFSVolume:
  assumes "\<And>p r. free G (EvClientset p r)" "\<And>ns r. free G (EvVol (KGet ns name r))"
  shows "keeps G h0 F (GetZFSVolume E name) (answered (\<lambda>v. EvVol (KGet (OpenEBSNamespace E) name (Inr v)))) (\<lambda>_. True)"
  unfolding GetZFSVolume_def vol_Get_def
proof (rule keeps_asOwn)
  fix k :: Kubeclient
  assume "namespace k = OpenEBSNamespace E"
  with vk.keeps_Get [of G name h0 F E k] assms
  show "keeps G h0 F (kube_Get E volKind name k)
          (\<lambda>(r, k'). answered (\<lambda>v. EvVol (KGet (OpenEBSNamespace E) name (Inr v))) r) (\<lambda>_. True)" by simp
qed

lemma keeps_GetZFSSnapshot:
  assumes "\<And>p r. free G (EvClientset p r)" "\<And>ns r. free G (EvSnap (KGet ns name r))"
  shows "keeps G h0 F (GetZFSSnapshot E name) (answered (\<lambda>v. EvSnap (KGet (OpenEBSNamespace E) name (Inr v)))) (\<lambda>_. True)"
  unfolding GetZFSSnapshot_def snap_Get_def
proof (rule keeps_asOwn)
  fix k :: Kubeclient
  assume "namespace k = OpenEBSNamespace E"
  with sk.keeps_Get [of G name h0 F E k] assms
  show "keeps G h0 F (kube_Get E snapKind name k)
          (\<lambda>(r, k'). answered (\<lambda>v. EvSnap (KGet (OpenEBSNamespace E) name (Inr v))) r) (\<lambda>_. True)" by simp
qed

lemma keeps_GetSnapshotForVolume:
  assumes "\<And>p r. free G (EvClientset p r)" "\<And>ns sel r. free G (EvSnap (KList ns sel r))"
  shows "keeps G h0 F (GetSnapshotForVolume E name)
    (answered (\<lambda>l. EvSnap (KList (OpenEBSNamespace E) (ZFSVolKey @ ''='' @ name) (Inr l)))) (\<lambda>_. True)"
  unfolding GetSnapshotForVolume_def snap_List_def
proof (rule keeps_asOwn)
  fix k :: Kubeclient
  assume "namespace k = OpenEBSNamespace E"
  with sk.keeps_List [of G "ZFSVolKey @ ''='' @ name" h0 F E k] assms
  show "keeps G h0 F (kube_List E snapKind (ZFSVolKey @ ''='' @ name) k)
          (\<lambda>(r, k'). answered (\<lambda>l. EvSnap (KList (OpenEBSNamespace E) (ZFSVolKey @ ''='' @ name) (Inr l))) r) (\<lambda>_. True)"
    by simp
qed

lemma keeps_zfs_DeleteVolume:
  assumes "\<And>p r. free G (EvClientset p r)"
    and "\<And>r a. F \<subseteq> set a \<Longrightarrow> G (EvVol (KDelete (OpenEBSNamespace E) name r)) a"
  shows "keeps G h0 F (zfs_DeleteVolume E name)
    (accepted (EvVol (KDelete (OpenEBSNamespace E) name None))) (\<lambda>_. True)"
  unfolding zfs_DeleteVolume_def vol_Delete_def
proof (rule keeps_asOwn)
  fix k :: Kubeclient
  assume "namespace k = OpenEBSNamespace E"
  with vk.keeps_Delete [of G F k name h0 E] assms
  show "keeps G h0 F (kube_Delete E volKind name k)
          (\<lambda>(r, k'). accepted (EvVol (KDelete (OpenEBSNamespace E) name None)) r) (\<lambda>_. True)" by simp
qed

lemma keeps_zfs_DeleteSnapshot:
  assumes "\<And>p r. free G (EvClientset p r)"
    and "\<And>r a. F \<subseteq> set a \<Longrightarrow> G (EvSnap (KDelete (OpenEBSNamespace E) name r)) a"
  shows "keeps G h0 F (zfs_DeleteSnapshot E name)
    (accepted (EvSnap (KDelete (OpenEBSNamespace E) name None))) (\<lambda>_. True)"
  unfolding zfs_DeleteSnapshot_def snap_Delete_def
proof (rule keeps_asOwn)
  fix k :: Kubeclient
  assume "namespace k = OpenEBSNamespace E"
  with sk.keeps_Delete [of G F k name h0 E] assms
  show "keeps G h0 F (kube_Delete E snapKind name k)
          (\<lambda>(r, k'). accepted (EvSnap (KDelete (OpenEBSNamespace E) name None)) r) (\<lambda>_. True)" by simp
qed

lemma keeps_putVol:
  assumes "\<And>p r. free G (EvClientset p r)"
    and "\<And>r a. F \<subseteq> set a \<Longrightarrow> G (EvVol (KUpdate (OpenEBSNamespace E) v r)) a"
  shows "keeps G h0 F (putVol E v) (\<lambda>_. {}) (\<lambda>_. True)"
  unfolding putVol_def vol_Update_def
proof (rule keeps_goBind)
  show "keeps G h0 F (asOwn E (kube_Update E volKind (Some v)))
      (answered (\<lambda>y. EvVol (KUpdate (OpenEBSNamespace E) v (Inr y)))) (\<lambda>_. True)"
  proof (rule keeps_asOwn)
    fix k :: Kubeclient
    assume "namespace k = OpenEBSNamespace E"
    with vk.keeps_Update [of G F k v h0 E] assms
    show "keeps G h0 F (kube_Update E volKind (Some v) k)
        (\<lambda>(r, k'). answered (\<lambda>y. EvVol (KUpdate (OpenEBSNamespace E) v (Inr y))) r) (\<lambda>_. True)" by simp
  qed
qed (intro keeps_goRetI; simp)

lemma keeps_bind_putVol [keeps_rules]:
  assumes "\<And>p r. free G (EvClientset p r)" "\<And>r a. F \<subseteq> set a \<Longrightarrow> G (EvVol (KUpdate (OpenEBSNamespace E) v r)) a"
    and "\<And>x. keeps G h0 F (f x) Q R"
  shows "keeps G h0 F (goBind (putVol E v) f) Q R"
  by (rule keeps_goBind, rule keeps_putVol [OF assms(1,2)]) (simp_all add: assms(3))

lemmas keeps_bind_GetZFSVolume [keeps_rules] = keeps_GetZFSVolume [THEN keeps_bind_answer]
lemmas keeps_bind_GetZFSSnapshot [keeps_rules] = keeps_GetZFSSnapshot [THEN keeps_bind_answer]
lemmas keeps_bind_GetSnapshotForVolume [keeps_rules] = keeps_GetSnapshotForVolume [THEN keeps_bind_answer]
lemmas keeps_bind_zfs_DeleteVolume [keeps_rules] = keeps_zfs_DeleteVolume [THEN keeps_bind_done]
lemmas keeps_bind_zfs_DeleteSnapshot [keeps_rules] = keeps_zfs_DeleteSnapshot [THEN keeps_bind_done]

section \<open>What the fetching operations have seen\<close>

lemma goBind_goRet: "goBind (goRet x) f = f x"
  by (rule ext) (simp add: go_simps)

lemma sees_bind_call:
  assumes "\<And>r. sees (\<lambda>y B. W y (insert (ev r) B)) (f r)"
  shows "sees W (goBind (goCall g ev) f)"
proof (rule sees_bind)
  show "sees (\<lambda>r A. A = {ev r}) (goCall g ev)" by (simp add: sees_def go_simps)
  show "A = {ev r} \<Longrightarrow> sees (\<lambda>y B. W y (A \<union> B)) (f r)" for r A using assms [of r] by simp
qed

lemma stable_union: "stable W \<Longrightarrow> stable (\<lambda>y B. W y (A \<union> B))"
  unfolding stable_def by (meson Un_mono order_refl)

lemma sees_more: "stable W \<Longrightarrow> sees W m \<Longrightarrow> sees (\<lambda>y B. W y (A \<union> B)) m"
  by (erule sees_weaken) (unfold stable_def, blast)

lemma sees_Inl: "sees (\<lambda>r A. \<forall>x. r = Inr x \<longrightarrow> P x A) (goRet (Inl e))"
  by (simp add: sees_goRet)

lemma sees_sum: "(\<And>e. sees W (f e)) \<Longrightarrow> (\<And>x. sees W (g x)) \<Longrightarrow> sees W (case r of Inl e \<Rightarrow> f e | Inr x \<Rightarrow> g x)"
  by (simp split: sum.split)

lemma sees_option: "sees W m \<Longrightarrow> (\<And>x. sees W (g x)) \<Longrightarrow> sees W (case r of None \<Rightarrow> m | Some x \<Rightarrow> g x)"
  by (simp split: option.split)

lemma sees_GetZFSVolume:
  "sees (\<lambda>r A. \<forall>v. r = Inr v \<longrightarrow> EvVol (KGet (OpenEBSNamespace E) n (Inr v)) \<in> A) (GetZFSVolume E n)"
  by (rule sees_weaken, rule keeps_sees [of "\<lambda>_ _. True"], rule keeps_GetZFSVolume) (auto simp: free_def)

lemma sees_GetZFSSnapshot:
  "sees (\<lambda>r A. \<forall>v. r = Inr v \<longrightarrow> EvSnap (KGet (OpenEBSNamespace E) n (Inr v)) \<in> A) (GetZFSSnapshot E n)"
  by (rule sees_weaken, rule keeps_sees [of "\<lambda>_ _. True"], rule keeps_GetZFSSnapshot) (auto simp: free_def)

end
