(* ===== verification/ControllerSafety.thy ===== *)
theory ControllerSafety
  imports Controller Traces
begin

text \<open>
  What the controller service writes to the cluster and when: guards for its events (theory Traces), the
  locks it takes and gives back, and the answers of its handlers.
\<close>

section \<open>Guards\<close>

text \<open>
  While a volume is deleted: the object is deleted only after its snapshots were listed and there were
  none, and the volume was seen ready and not deleted already; it is annotated only with snapshots left.
\<close>

definition deleteGuard :: "string \<Rightarrow> event \<Rightarrow> event list \<Rightarrow> bool" where
  "deleteGuard vid e a \<longleftrightarrow>
     (case e of
        EvVol (KDelete ns n r) \<Rightarrow>
          n = vid \<and> EvSnap (KList ns (ZFSVolKey @ ''='' @ vid) (Inr [])) \<in> set a
          \<and> (\<exists>v. EvVol (KGet ns vid (Inr v)) \<in> set a \<and> State v = ZFSStatusReady \<and> DeletionTimestamp v = None)
      | EvVol (KUpdate ns v' r) \<Rightarrow>
          (\<exists>l v. EvSnap (KList ns (ZFSVolKey @ ''='' @ vid) (Inr l)) \<in> set a \<and> l \<noteq> []
             \<and> EvVol (KGet ns vid (Inr v)) \<in> set a
             \<and> v' = v\<lparr> Annotations := AList.update MarkForDeletionAnnotation ''true'' (Annotations v) \<rparr>)
      | EvVol (KCreate ns v' r) \<Rightarrow> False
      | EvSnap (KDelete ns n r) \<Rightarrow> False
      | EvSnap (KUpdate ns s r) \<Rightarrow> False
      | EvSnap (KCreate ns s r) \<Rightarrow> False
      | _ \<Rightarrow> True)"

text \<open>
  While a snapshot is deleted: the snapshot object is deleted after it was seen; the object of its volume
  only after that, if the snapshot was the only one listed and the volume was marked for deletion.
\<close>

definition snapDeleteGuard :: "string \<Rightarrow> string \<Rightarrow> event \<Rightarrow> event list \<Rightarrow> bool" where
  "snapDeleteGuard vid sid e a \<longleftrightarrow>
     (case e of
        EvSnap (KDelete ns n r) \<Rightarrow> n = sid \<and> (\<exists>s. EvSnap (KGet ns sid (Inr s)) \<in> set a)
      | EvVol (KDelete ns n r) \<Rightarrow>
          n = vid \<and> EvSnap (KDelete ns sid None) \<in> set a
          \<and> (\<exists>s. EvSnap (KList ns (ZFSVolKey @ ''='' @ vid) (Inr [s])) \<in> set a)
          \<and> (\<exists>v. EvVol (KGet ns vid (Inr v)) \<in> set a \<and> mget (Annotations v) MarkForDeletionAnnotation = ''true'')
      | EvVol (KUpdate ns v r) \<Rightarrow> False
      | EvVol (KCreate ns v r) \<Rightarrow> False
      | EvSnap (KUpdate ns s r) \<Rightarrow> False
      | EvSnap (KCreate ns s r) \<Rightarrow> False
      | _ \<Rightarrow> True)"

text \<open>While a volume is expanded: the one write puts a larger capacity, rounded as requested, into what was read.\<close>

definition expandGuard :: "string \<Rightarrow> int64 \<Rightarrow> event \<Rightarrow> event list \<Rightarrow> bool" where
  "expandGuard vid size' e a \<longleftrightarrow>
     (case e of
        EvVol (KUpdate ns v' r) \<Rightarrow>
          (\<exists>v old. EvVol (KGet ns vid (Inr v)) \<in> set a \<and> ParseInt (Capacity (Spec v)) = Some old \<and> old < size'
             \<and> v' = v\<lparr> Spec := (Spec v)\<lparr> Capacity := FormatInt size' \<rparr> \<rparr>)
      | EvVol (KDelete ns n r) \<Rightarrow> False
      | EvVol (KCreate ns v r) \<Rightarrow> False
      | EvSnap k \<Rightarrow> False
      | _ \<Rightarrow> True)"

text \<open>A controller whose helpers look parameters up as they are and whose scheduler knows one node.\<close>

definition plainCtl :: ctl where
  "plainCtl = \<lparr> scheduler = (\<lambda>h req w. [''node-1'']), caseInsensitiveMap = (\<lambda>m. m), insensitiveParameter = mget,
     capabilities = newControllerCapabilities, indexedLabel = [], nodeIndexers = [],
     k8sNodes = (\<lambda>h. [(''node-1'', [])]), nodesByIndex = (\<lambda>h i v. Inr []),
     selectorMatches = (\<lambda>segs ls. list_all (\<lambda>(k, v). map_of ls k = Some v) segs),
     zfsNodeByKey = (\<lambda>h k. Inr None), now = (\<lambda>h. 0), GoogleAnalyticsEnabled = [],
     VolumeProvision = ''volume-provision'', VolumeDeprovision = ''volume-deprovision'' \<rparr>"

text \<open>A cluster that holds one volume, and the snapshots of a list.\<close>

definition holding :: "ZFSVolume \<Rightarrow> ZFSSnapshot list \<Rightarrow> env" where
  "holding v snaps = quietEnv\<lparr> cluster := quietCluster\<lparr>
     volApi := quietApi\<lparr> apiGet := (\<lambda>h ns n. if n = Name v then Inr v else Inl (True, ''not found'')) \<rparr>,
     snapApi := quietApi\<lparr> apiGet := (\<lambda>h ns n. case find (\<lambda>s. Name s = n) snaps of
                                        Some s \<Rightarrow> Inr s | None \<Rightarrow> Inl (True, ''not found'')),
                          apiList := (\<lambda>h ns sel. Inr snaps) \<rparr> \<rparr> \<rparr>"

definition readyVol :: ZFSVolume where
  "readyVol = emptyVolume\<lparr> Name := ''v1'', Spec := emptyInfo\<lparr> PoolName := ''pool'', Capacity := ''1048576'' \<rparr>,
     State := ZFSStatusReady \<rparr>"

definition demoSnap :: "string \<Rightarrow> ZFSSnapshot" where
  "demoSnap n = emptySnapshot\<lparr> Name := n, Labels := [(ZFSVolKey, ''v1'')] \<rparr>"

definition markedReady :: ZFSVolume where
  "markedReady = readyVol\<lparr> Annotations := [(MarkForDeletionAnnotation, ''true'')] \<rparr>"

lemma deleteGuard_free [simp]:
  "free (deleteGuard vid) (EvClientset p c)" "free (deleteGuard vid) (EvVol (KGet ns n v))"
  "free (deleteGuard vid) (EvSnap (KList ns sel l))" "free (deleteGuard vid) (EvLock n)"
  "free (deleteGuard vid) (EvUnlock n)" "free (deleteGuard vid) (EvAnalytics x)" "free (deleteGuard vid) (EvWait w)"
  by (simp_all add: free_def deleteGuard_def)

lemma snapDeleteGuard_free [simp]:
  "free (snapDeleteGuard vid sid) (EvClientset p c)" "free (snapDeleteGuard vid sid) (EvVol (KGet ns n v))"
  "free (snapDeleteGuard vid sid) (EvSnap (KGet ns n s))"
  "free (snapDeleteGuard vid sid) (EvSnap (KList ns sel l))" "free (snapDeleteGuard vid sid) (EvLock n)"
  "free (snapDeleteGuard vid sid) (EvUnlock n)" "free (snapDeleteGuard vid sid) (EvWait w)"
  by (simp_all add: free_def snapDeleteGuard_def)

lemma expandGuard_free [simp]:
  "free (expandGuard vid n) (EvClientset p c)" "free (expandGuard vid n) (EvVol (KGet ns m v))"
  "free (expandGuard vid n) (EvLock m)" "free (expandGuard vid n) (EvUnlock m)" "free (expandGuard vid n) (EvWait w)"
  by (simp_all add: free_def expandGuard_def)

lemma free_guard: "free G e \<Longrightarrow> G e a"
  by (simp add: free_def)

lemma keeps_sendEvent [keeps_rules]:
  "(\<And>x. free G (EvAnalytics x)) \<Longrightarrow> (\<And>x. keeps G h0 F (f x) Q R) \<Longrightarrow>
   keeps G h0 F (goBind (sendEventOrIgnore C a b c d) f) Q R"
  by (rule keeps_bind_only) (auto simp: sendEventOrIgnore_def intro!: only_rules)

lemma only_goLock [only_rules]: "P (EvLock v) \<Longrightarrow> P (EvWait ''volume lock'') \<Longrightarrow> only P (goLock v)"
  unfolding goLock_def by (intro only_rules)

lemma keeps_withVolume [keeps_rules]:
  assumes "free G (EvLock v)" "free G (EvWait ''volume lock'')" "free G (EvUnlock v)"
    and "keeps G h0 F m (\<lambda>_. {}) (\<lambda>_. True)"
  shows "keeps G h0 F (withVolume v m) (\<lambda>_. {}) (\<lambda>_. True)"
  unfolding withVolume_def
  by (rule keeps_bind_only [OF only_goLock], (rule assms)+, rule keeps_goBind [OF assms(4)])
    (auto intro!: keeps_rules simp: free_guard assms(3))

lemma keeps_withVolumeAndSnapshot [keeps_rules]:
  assumes "\<And>n. free G (EvLock n)" "free G (EvWait ''volume lock'')" "\<And>n. free G (EvUnlock n)"
    and "keeps G h0 F m (\<lambda>_. {}) (\<lambda>_. True)"
  shows "keeps G h0 F (withVolumeAndSnapshot v s m) (\<lambda>_. {}) (\<lambda>_. True)"
  unfolding withVolumeAndSnapshot_def
  by ((rule keeps_bind_only [OF only_goLock], (rule assms)+)+, rule keeps_goBind [OF assms(4)])
    (auto intro!: keeps_rules simp: free_guard assms(3))

section \<open>Deleting volumes\<close>

lemma keeps_deleteReady:
  assumes "DeletionTimestamp vol = None" "EvVol (KGet (OpenEBSNamespace E) vid (Inr vol)) \<in> F"
  shows "keeps (deleteGuard vid) h0 F (deleteReady E C reqID vid vol) (\<lambda>_. {}) (\<lambda>_. True)"
  unfolding deleteReady_def MarkForDeletion_def UpdateZFSVolumeAnnotation_eq
  by (intro keeps_rules) (use assms in \<open>auto simp: deleteGuard_def\<close>)

lemma keeps_DeleteVolume:
  "keeps (deleteGuard (ToLower (lib E) reqID)) h0 {} (DeleteVolume E C reqID) (\<lambda>_. {}) (\<lambda>_. True)"
  unfolding DeleteVolume_def by (intro keeps_rules keeps_deleteReady) auto

text \<open>C22: The controller never deletes a volume that has snapshots or is still being created: whatever the outcome of a
  delete request, it deletes only the object of the requested volume, after its snapshots were listed and there were
  none and the volume was seen ready, and it writes to the object only to mark it for deletion, with snapshots left.\<close>
theorem delete_volume_guarded:
  assumes "DeleteVolume E C reqID h = (r, h')"
  shows "\<exists>es. h' = h @ es \<and> guardedBy (deleteGuard (ToLower (lib E) reqID)) es"
  using keeps_extends [OF keeps_DeleteVolume assms] by blast

section \<open>Deleting snapshots\<close>

lemma keeps_removeSnapshot:
  assumes "EvSnap (KGet (OpenEBSNamespace E) sid (Inr s)) \<in> F"
  shows "keeps (snapDeleteGuard vid sid) h0 F (removeSnapshot E reqID vid sid) (\<lambda>_. {}) (\<lambda>_. True)"
  unfolding removeSnapshot_def IsVolumeEligibleForDeletion_def
  by (intro keeps_rules) (use assms in \<open>auto simp: snapDeleteGuard_def length_Suc_conv\<close>)

lemma keeps_DeleteSnapshot:
  assumes "splitOn (CHR ''@'') reqID = [vid, sid]"
  shows "keeps (snapDeleteGuard vid sid) h0 {} (DeleteSnapshot E reqID) (\<lambda>_. {}) (\<lambda>_. True)"
  unfolding DeleteSnapshot_def assms Let_def
  by (intro keeps_rules) (auto intro!: keeps_rules keeps_removeSnapshot)


section \<open>Expanding volumes\<close>

lemma keeps_ControllerExpandVolume:
  "keeps (expandGuard (ToLower (lib E) reqID) (getRoundedCapacity (case b of None \<Rightarrow> 0 | Some b \<Rightarrow> b))) h0 {}
     (ControllerExpandVolume E reqID b) (\<lambda>_. {}) (\<lambda>_. True)"
  unfolding ControllerExpandVolume_def ResizeVolume_def Let_def
  by (intro keeps_rules) (auto simp: expandGuard_def)

section \<open>Rounding\<close>

lemma round_up_bounds:
  assumes "0 < (m :: int)"
  shows "s \<le> (s + m - 1) div m * m" "(s + m - 1) div m * m < s + m"
proof -
  have "(s + m - 1) div m * m = s + m - 1 - (s + m - 1) mod m" by (simp add: minus_mod_eq_div_mult)
  with pos_mod_bound [OF assms, of "s + m - 1"] pos_mod_sign [OF assms, of "s + m - 1"]
  show "s \<le> (s + m - 1) div m * m" "(s + m - 1) div m * m < s + m" by simp_all
qed

lemma rounded_eq:
  assumes "0 \<le> size'" "size' \<le> MaxInt64 - Gi"
  shows "getRoundedCapacity size' = (if size' > Gi then (size' + Gi - 1) div Gi * Gi else (size' + Mi - 1) div Mi * Mi)"
proof -
  have i: "is_i64 (size' + m - 1)" "is_i64 ((size' + m - 1) div m * m)" if "0 < m" "m \<le> Gi" for m
    using assms round_up_bounds [of m size'] that by (auto simp: is_i64_def MaxInt64_def)
  have q: "quot64 (size' + m - 1) m = (size' + m - 1) div m" if "0 < m" "m \<le> Gi" for m
    using assms i [OF that] that by (intro quot64_pos) auto
  show ?thesis unfolding getRoundedCapacity_def using i [of Gi] i [of Mi] q [of Gi] q [of Mi] by simp
qed

lemma rounded_props:
  assumes "0 \<le> size'" "size' \<le> MaxInt64 - Gi"
  shows "size' \<le> getRoundedCapacity size'" "getRoundedCapacity size' < size' + Gi" "Mi dvd getRoundedCapacity size'"
proof -
  have "Mi dvd n * Gi" for n by (intro dvd_mult) (simp add: dvd_def)
  then show "Mi dvd getRoundedCapacity size'" by (simp add: rounded_eq [OF assms])
qed (use round_up_bounds [of Gi size'] round_up_bounds [of Mi size'] rounded_eq [OF assms] in auto)

lemma rounded_idem:
  assumes "0 \<le> size'" "size' \<le> MaxInt64 - 2 * Gi"
  shows "getRoundedCapacity (getRoundedCapacity size') = getRoundedCapacity size'"
proof -
  let ?r = "getRoundedCapacity size'"
  from assms have a: "0 \<le> size'" "size' \<le> MaxInt64 - Gi" by simp_all
  note r = rounded_props [OF a]
  have up: "(k * m + m - 1) div m * m = k * m" if "0 < m" for k m :: int
  proof -
    have "k * m + m - 1 = (m - 1) + k * m" by simp
    then have "(k * m + m - 1) div m = k + (m - 1) div m" using that by (simp only: div_mult_self1)
    with that show ?thesis by simp
  qed
  have "0 \<le> ?r" "?r \<le> MaxInt64 - Gi" using r assms by auto
  note eq = rounded_eq [OF this]
  show ?thesis
  proof (cases "size' > Gi")
    case True
    then have q: "?r = (size' + Gi - 1) div Gi * Gi" and "?r > Gi" using rounded_eq [OF a] r by auto
    with eq have "getRoundedCapacity ?r = (?r + Gi - 1) div Gi * Gi" by (simp only: if_True)
    also have "\<dots> = ?r" unfolding q by (rule up) simp
    finally show ?thesis .
  next
    case False
    then have q: "?r = (size' + Mi - 1) div Mi * Mi" using rounded_eq [OF a] by simp
    have "(size' + Mi - 1) div Mi \<le> (Gi + Mi - 1) div Mi" using False by (intro zdiv_mono1) auto
    then have "\<not> ?r > Gi" unfolding q by simp
    with eq have "getRoundedCapacity ?r = (?r + Mi - 1) div Mi * Mi" by (simp only: if_False)
    also have "\<dots> = ?r" unfolding q by (rule up) simp
    finally show ?thesis .
  qed
qed



text \<open>At the edges: nothing is rounded to nothing, and a size near the largest wraps to a negative one.\<close>

lemma rounded_zero: "getRoundedCapacity 0 = 0"
  by (simp add: rounded_eq MaxInt64_def)

lemma rounded_wraps: "getRoundedCapacity MaxInt64 < 0"
  by (simp add: getRoundedCapacity_def MaxInt64_def i64_def quot64_def)

text \<open>C29: Expanding never shrinks a volume: the only write of an expand request puts the rounded size into the volume that
  was read, and only if that is more than the capacity recorded there; in every other case nothing is written.\<close>
theorem expand_never_shrinks:
  assumes "ControllerExpandVolume E reqID b h = (r, h')"
  shows "\<exists>es. h' = h @ es \<and>
    guardedBy (expandGuard (ToLower (lib E) reqID) (getRoundedCapacity (case b of None \<Rightarrow> 0 | Some n \<Rightarrow> n))) es"
  using keeps_extends [OF keeps_ControllerExpandVolume assms] by blast

section \<open>Examples\<close>

lemmas control_simps = go_simps holding_def plainCtl_def readyVol_def quiet_defs emptyVolume_def emptyInfo_def
  GetZFSVolume_def GetZFSSnapshot_def GetSnapshotForVolume_def zfs_DeleteVolume_def zfs_DeleteSnapshot_def
  vol_Get_def snap_Get_def snap_List_def vol_Delete_def snap_Delete_def kube_Get_def kube_List_def kube_Delete_def
  volKind_def snapKind_def apiAnswer_def ToLower_def lowerChar_def goLock_def withVolume_def sendEventOrIgnore_def
  newControllerCapabilities_def validateRequest_def ascii_def Let_def mget_def

lemmas snap_simps = control_simps demoSnap_def markedReady_def emptySnapshot_def DeleteSnapshot_def removeSnapshot_def
  IsVolumeEligibleForDeletion_def withVolumeAndSnapshot_def

theorem delete_volume_guarded_witness:
  "guardedBy (deleteGuard ''v1'') (snd (DeleteVolume (holding readyVol []) plainCtl ''v1'' []))
   \<and> EvVol (KDelete ''openebs'' ''v1'' None) \<in> set (snd (DeleteVolume (holding readyVol []) plainCtl ''v1'' []))"
proof
  have "ToLower (lib (holding readyVol [])) ''v1'' = ''v1''" by (simp add: control_simps)
  with delete_volume_guarded [OF surjective_pairing, of "holding readyVol []" plainCtl "''v1''" "[]"]
  show "guardedBy (deleteGuard ''v1'') (snd (DeleteVolume (holding readyVol []) plainCtl ''v1'' []))" by simp
  show "EvVol (KDelete ''openebs'' ''v1'' None) \<in> set (snd (DeleteVolume (holding readyVol []) plainCtl ''v1'' []))"
    by (simp add: DeleteVolume_def validateDeleteVolumeReq_def deleteReady_def control_simps)
qed


text \<open>
  The list of snapshots is read before the deletion, and a snapshot stays listed until the node agent
  has destroyed it. Deleting the last two snapshots one after the other while both are still listed
  leaves the marked volume in place, and nothing looks at it again.
\<close>

lemma two_deletions_leave_volume:
  defines "E \<equiv> holding markedReady [demoSnap ''s1'', demoSnap ''s2'']"
  shows "fst (goBind (DeleteSnapshot E ''v1@s1'') (\<lambda>_. DeleteSnapshot E ''v1@s2'') []) = Some None
    \<and> list_all (\<lambda>e. \<forall>ns r. e \<noteq> EvVol (KDelete ns ''v1'' r))
        (snd (goBind (DeleteSnapshot E ''v1@s1'') (\<lambda>_. DeleteSnapshot E ''v1@s2'') []))"
  by (simp add: E_def snap_simps)

theorem expand_never_shrinks_witness:
  "guardedBy (expandGuard ''v1'' 2097152) (snd (ControllerExpandVolume (holding readyVol []) ''v1'' (Some 1048577) []))"
proof -
  have "getRoundedCapacity 1048577 = 2097152" by (simp add: rounded_eq MaxInt64_def)
  moreover have "ToLower (lib (holding readyVol [])) ''v1'' = ''v1''" by (simp add: control_simps)
  ultimately show ?thesis
    using expand_never_shrinks [OF surjective_pairing, of "holding readyVol []" "''v1''" "Some 1048577" "[]"] by simp
qed

end
