(* ===== verification/ControllerCreate.thy ===== *)
theory ControllerCreate
  imports ControllerSafety
begin

text \<open>
  The creating requests of the controller service: what their success and failure say about the cluster,
  how a repeated request is answered, and which pool a volume ends up in.
\<close>

section \<open>Definitions\<close>

definition sawReady :: "env \<Rightarrow> string \<Rightarrow> event set \<Rightarrow> bool" where
  "sawReady E n A \<longleftrightarrow> (\<exists>v. EvVol (KGet (OpenEBSNamespace E) n (Inr v)) \<in> A \<and> State v = ZFSStatusReady)"

text \<open>The ZFSNode object of the node was read, and it has the pool, matching and with the room asked for.\<close>

definition sawPool :: "env \<Rightarrow> matcher \<Rightarrow> int64 \<Rightarrow> VolumeInfo \<Rightarrow> event set \<Rightarrow> bool" where
  "sawPool E pattern minFree spec A \<longleftrightarrow>
     (\<exists>zn p. EvNode (KGet (OpenEBSNamespace E) (OwnerNodeID spec) (Inr zn)) \<in> A \<and> p \<in> set (Pools zn)
        \<and> PoolNodeName p = PoolName spec \<and> qualifies pattern minFree p)"

text \<open>What is known of a volume that was provisioned by trying nodes.\<close>

definition placed :: "env \<Rightarrow> smap \<Rightarrow> matcher \<Rightarrow> int64 \<Rightarrow> ZFSVolume \<Rightarrow> ZFSVolume \<Rightarrow> event set \<Rightarrow> bool" where
  "placed E parameters pattern minFree volObj vol A \<longleftrightarrow>
     vol = volObj\<lparr> Spec := (Spec volObj)\<lparr> OwnerNodeID := OwnerNodeID (Spec vol), PoolName := PoolName (Spec vol) \<rparr>,
                   State := ZFSStatusPending \<rparr>
     \<and> sawReady E (Name volObj) A
     \<and> (if mget parameters ''poolpattern'' \<noteq> [] then sawPool E pattern minFree (Spec vol) A
        else PoolName (Spec vol) = mget parameters ''poolname'')"

text \<open>
  What a successful \<open>CreateZFSVolume\<close> delivers: the volume that was there already, ready and of the
  requested capacity, or a new one, placed on a node and seen ready there.
\<close>

definition delivered :: "env \<Rightarrow> ctl \<Rightarrow> CreateVolumeRequest \<Rightarrow> int64 \<Rightarrow> ZFSVolume \<Rightarrow> event set \<Rightarrow> bool" where
  "delivered E C req bytes vol A \<longleftrightarrow>
     (let volName = ToLower (lib E) (VolName req); size' = getRoundedCapacity bytes; capacity = FormatInt size';
          parameters = caseInsensitiveMap C (VolParameters req);
          reserves = reservesSpace (GetVolumeType (mget parameters ''fstype'')) (mget parameters ''thinprovision'')
      in EvVol (KGet (OpenEBSNamespace E) volName (Inr vol)) \<in> A \<and> DeletionTimestamp vol = None
           \<and> Capacity (Spec vol) = capacity \<and> State vol = ZFSStatusReady
         \<or> (\<exists>pattern volObj.
              parsePoolParams (lib E) (mget parameters ''poolname'') (mget parameters ''poolpattern'') = Some (Inr pattern)
              \<and> Name volObj = volName \<and> Capacity (Spec volObj) = capacity
              \<and> placed E parameters pattern (if reserves then size' else 0) volObj vol A))"

text \<open>
  What a successful clone delivers: a volume of the requested name with the specification of its source, on the
  snapshot it is cloned from, seen ready; the source has the requested capacity and a pool the request allows.
\<close>

definition cloneOf :: "env \<Rightarrow> ctl \<Rightarrow> CreateVolumeRequest \<Rightarrow> int64 \<Rightarrow> VolumeInfo \<Rightarrow> string \<Rightarrow> ZFSVolume \<Rightarrow> event set \<Rightarrow> bool" where
  "cloneOf E C req bytes src snapName vol A \<longleftrightarrow>
     (let volName = ToLower (lib E) (VolName req); param = insensitiveParameter C (VolParameters req) in
      Name vol = volName
      \<and> Spec vol = src\<lparr> UserProperties := UserProperties (Spec vol), SnapName := snapName \<rparr>
      \<and> Capacity src = FormatInt (getRoundedCapacity bytes)
      \<and> (\<exists>pattern. parsePoolParams (lib E) (param ''poolname'') (param ''poolpattern'') = Some (Inr pattern)
           \<and> sourcePoolAllowed (PoolName src) (param ''poolname'') pattern)
      \<and> sawReady E volName A)"

text \<open>What a successful \<open>CreateVolume\<close> delivers, by the content source of the request.\<close>

definition created :: "env \<Rightarrow> ctl \<Rightarrow> CreateVolumeRequest \<Rightarrow> int64 \<Rightarrow> ZFSVolume \<Rightarrow> event set \<Rightarrow> bool" where
  "created E C req bytes vol A \<longleftrightarrow>
     (case VolContentSource req of
        Some (FromVolume srcVol) \<Rightarrow>
          (\<exists>v. EvVol (KGet (OpenEBSNamespace E) srcVol (Inr v)) \<in> A
             \<and> cloneOf E C req bytes (Spec v) (Name v @ ''@'' @ ToLower (lib E) (VolName req)) vol A)
      | Some (FromSnapshot snapshot) \<Rightarrow>
          (\<exists>vid sid s. splitOn (CHR ''@'') snapshot = [vid, sid] \<and> EvSnap (KGet (OpenEBSNamespace E) sid (Inr s)) \<in> A
             \<and> cloneOf E C req bytes (SnapSpec s) (ToLower (lib E) snapshot) vol A)
      | _ \<Rightarrow> delivered E C req bytes vol A)"

text \<open>
  An example: a thinly provisioned file system is requested in a cluster with one node, whose agent makes a volume
  ready as soon as it is created, and in one where the volume is there already but reading it fails once.
\<close>

definition thinReq :: CreateVolumeRequest where
  "thinReq = \<lparr> VolName = ''v1'', RequiredBytes = Some 1000000,
     VolParameters = [(''poolname'', ''pool''), (''fstype'', ''zfs''), (''thinprovision'', ''yes'')],
     VolContentSource = None, VolCapabilities = Some [SINGLE_NODE_WRITER], Accessibility = None \<rparr>"

fun isVolCreate :: "event \<Rightarrow> bool" where
  "isVolCreate (EvVol (KCreate _ _ _)) = True"
| "isVolCreate _ = False"

fun isVolGet :: "event \<Rightarrow> bool" where
  "isVolGet (EvVol (KGet _ _ _)) = True"
| "isVolGet _ = False"

definition eagerNode :: env where
  "eagerNode = quietEnv\<lparr> cluster := quietCluster\<lparr> volApi := quietApi\<lparr>
       apiGet := (\<lambda>h ns n. if list_ex isVolCreate h then Inr readyVol else Inl (True, ''not found'')) \<rparr> \<rparr>,
     select := (\<lambda>h what. Default) \<rparr>"

definition flakyApi :: env where
  "flakyApi = quietEnv\<lparr> cluster := quietCluster\<lparr> getNode := (\<lambda>h n. Inl (False, ''timeout'')), volApi := quietApi\<lparr>
       apiGet := (\<lambda>h ns n. if list_ex isVolGet h then Inr readyVol else Inl (False, ''timeout'')) \<rparr> \<rparr> \<rparr>"

definition requestCalls :: "ctl \<Rightarrow> CreateVolumeRequest \<Rightarrow> smap \<Rightarrow> string \<Rightarrow> string \<Rightarrow> vol_call list" where
  "requestCalls C req parameters volName capacity =
     (let p = mget parameters; orig = insensitiveParameter C (VolParameters req) in
      [VName volName, VPVCName (orig ''csi.storage.k8s.io/pvc/name''),
       VPVCNamespace (orig ''csi.storage.k8s.io/pvc/namespace''), VPVName (orig ''csi.storage.k8s.io/pv/name''),
       VCapacity capacity, VRecordSize (p ''recordsize''), VVolBlockSize (p ''volblocksize''), VDedup (p ''dedup''),
       VEncryption (p ''encryption''), VKeyFormat (p ''keyformat''), VKeyLocation (p ''keylocation''),
       VThinProv (p ''thinprovision''), VVolumeType (GetVolumeType (p ''fstype'')), VVolumeStatus ZFSStatusPending,
       VFsType (p ''fstype''), VQuotaType (p ''quotatype''), VShared (p ''shared''), VATime (p ''atime''),
       VLogBias (p ''logbias''), VCompression (p ''compression'')])"

lemma sawReadyI: "EvVol (KGet (OpenEBSNamespace E) n (Inr v)) \<in> A \<Longrightarrow> State v = ZFSStatusReady \<Longrightarrow> sawReady E n A"
  by (auto simp: sawReady_def)

section \<open>Events of the helpers\<close>

lemma only_zfs_DeleteVolume [only_rules]:
  "(\<And>p r. P (EvClientset p r)) \<Longrightarrow> (\<And>ns r. P (EvVol (KDelete ns n r))) \<Longrightarrow> only P (zfs_DeleteVolume E n)"
  unfolding zfs_DeleteVolume_def by (intro only_rules)

lemma only_GetNodeID [only_rules]: "(\<And>r. P (EvGetNode n r)) \<Longrightarrow> only P (GetNodeID E n)"
  unfolding GetNodeID_def by (intro only_rules)

lemma only_GetZFSSnapshot [only_rules]:
  "(\<And>p r. P (EvClientset p r)) \<Longrightarrow> (\<And>ns r. name \<noteq> [] \<Longrightarrow> P (EvSnap (KGet ns name r))) \<Longrightarrow> only P (GetZFSSnapshot E name)"
  unfolding GetZFSSnapshot_def by (intro only_rules)

lemma only_checkVolLoop:
  "(\<And>p r. P (EvClientset p r)) \<Longrightarrow> (\<And>ns r. P (EvVol (KGet ns name r))) \<Longrightarrow> (\<And>r. P (EvSelect ''volume creation'' r)) \<Longrightarrow>
   P (EvWait ''volume creation'') \<Longrightarrow> only P (checkVolLoop k E name)"
  by (induction k) (simp_all, (intro only_rules; simp)+)

lemma only_ProvisionVolume [only_rules]:
  assumes "\<And>p r. P (EvClientset p r)" "\<And>ns r. P (EvVol (KGet ns (Name vol) r))" "\<And>r. P (EvSelect ''volume creation'' r)"
    "P (EvWait ''volume creation'')" "\<And>ns r. P (EvVol (KCreate ns vol r))"
    "\<And>ns v r. Spec v = Spec vol \<Longrightarrow> P (EvVol (KUpdate ns v r))"
  shows "only P (ProvisionVolume E vol)"
  unfolding ProvisionVolume_def checkVolCreation_def
  by (intro only_rules only_checkVolLoop assms) (auto intro: assms)

lemma only_listZFSNodes [only_rules]:
  "(\<And>p r. P (EvClientset p r)) \<Longrightarrow> (\<And>ns s r. P (EvNode (KList ns s r))) \<Longrightarrow> only P (listZFSNodes E)"
  unfolding listZFSNodes_def by (intro only_rules)

lemma only_listZFSVolumes [only_rules]:
  "(\<And>p r. P (EvClientset p r)) \<Longrightarrow> (\<And>ns s r. P (EvVol (KList ns s r))) \<Longrightarrow> only P (listZFSVolumes E)"
  unfolding listZFSVolumes_def by (intro only_rules)

lemma only_getNodeMap [only_rules]:
  assumes "\<And>p r. P (EvClientset p r)" "\<And>ns s r. P (EvNode (KList ns s r))" "\<And>ns s r. P (EvVol (KList ns s r))"
  shows "only P (getNodeMap E schd pattern)"
  unfolding getNodeMap_def getVolumeWeightedMap_def getCapacityWeightedMap_def getSpaceWeightedMap_def
  by (intro only_rules assms)

lemma only_getSuitableNodes [only_rules]:
  assumes "\<And>p r. P (EvClientset p r)" "\<And>ns s r. P (EvNode (KList ns s r))"
  shows "only P (getSuitableNodes E pattern n)"
  unfolding getSuitableNodes_def by (intro only_rules assms)

lemma only_getPoolMap [only_rules]:
  assumes "\<And>p r. P (EvClientset p r)" "\<And>ns s r. P (EvVol (KList ns s r))"
  shows "only P (getPoolMap E schd nodeid pools)"
  unfolding getPoolMap_def getPoolVolumeMap_def by (intro only_rules assms)

lemma only_resolvePool [only_rules]:
  assumes "\<And>p r. P (EvClientset p r)" "\<And>ns s r. P (EvVol (KList ns s r))" "\<And>ns r. P (EvNode (KGet ns nodeid r))"
  shows "only P (resolvePool E schd nodeid pattern minFree)"
  unfolding resolvePool_def by (intro only_rules assms)

lemma only_candidateNodes [only_rules]:
  assumes "\<And>p r. P (EvClientset p r)" "\<And>ns s r. P (EvNode (KList ns s r))" "\<And>ns s r. P (EvVol (KList ns s r))"
  shows "only P (candidateNodes E C req parameters pattern volName n)"
  unfolding candidateNodes_def Let_def by (intro only_rules assms)

lemma only_volDestroyLoop:
  assumes "\<And>p r. P (EvClientset p r)" "\<And>ns r. P (EvVol (KGet ns n r))" "P (EvWait ''volume destruction'')"
  shows "only P (volDestroyLoop k E n)"
  by (induction k) (simp_all, (intro only_rules assms)+)

lemma only_waitForVolDestroy [only_rules]:
  assumes "\<And>p r. P (EvClientset p r)" "\<And>ns r. P (EvVol (KGet ns n r))" "P (EvWait ''volume destruction'')"
  shows "only P (waitForVolDestroy E n)"
  unfolding waitForVolDestroy_def by (rule only_volDestroyLoop [OF assms])

lemma only_existingVolume [only_rules]:
  assumes "\<And>p r. P (EvClientset p r)" "\<And>ns r. P (EvVol (KGet ns volName r))" "P (EvWait ''volume destruction'')"
  shows "only P (existingVolume E parameters volName capacity)"
  unfolding existingVolume_def by (intro only_rules assms)

section \<open>What provisioning has seen\<close>

lemma sees_node_Get:
  "sees (\<lambda>r A. \<forall>v. r = Inr v \<longrightarrow> EvNode (KGet (OpenEBSNamespace E) n (Inr v)) \<in> A) (asOwn E (node_Get E n))"
proof -
  have "keeps (\<lambda>_ _. True) h {} (asOwn E (node_Get E n))
      (answered (\<lambda>v. EvNode (KGet (OpenEBSNamespace E) n (Inr v)))) (\<lambda>_. True)" for h
    unfolding node_Get_def
  proof (rule keeps_asOwn)
    fix k :: Kubeclient
    assume "namespace k = OpenEBSNamespace E"
    with nk.keeps_Get [of "\<lambda>_ _. True" n h "{}" E k]
    show "keeps (\<lambda>_ _. True) h {} (kube_Get E nodeKind n k)
            (\<lambda>(r, k'). answered (\<lambda>v. EvNode (KGet (OpenEBSNamespace E) n (Inr v))) r) (\<lambda>_. True)"
      by (simp add: free_def)
  qed
  from keeps_sees [OF this] show ?thesis by (rule sees_weaken) auto
qed

lemma stable_ready: "stable (\<lambda>(t, err) A. err = None \<longrightarrow> sawReady E n A)"
  unfolding stable_def sawReady_def by auto

lemma sees_checkVolLoop: "sees (\<lambda>(t, err) A. err = None \<longrightarrow> sawReady E n A) (checkVolLoop k E n)"
proof (induction k)
  case 0
  show ?case by (simp add: sees_goStop)
next
  case (Suc k)
  have get: "sees (\<lambda>(t, err) A. err = None \<longrightarrow> sawReady E n A)
    (goBind (GetZFSVolume E n) (\<lambda>r. case r of
           Inl e \<Rightarrow> goRet (False, Some (EStatus Internal
             (''volume creation wait failed, not able to get the volume '' @ n @ '': '' @ errText (lib E) e)))
         | Inr vol \<Rightarrow>
             if State vol = ZFSStatusReady then goRet (False, None)
             else if State vol = ZFSStatusFailed
               then goRet (False, Some (EStatus Internal
                 (''volume '' @ n @ '' creation failed on node '' @ OwnerNodeID (Spec vol))))
             else checkVolLoop k E n))"
    by (rule sees_bind_first [OF sees_GetZFSVolume stable_ready,
          where ok = "\<lambda>r. \<exists>v. r = Inr v \<and> State v = ZFSStatusReady"])
      (auto intro!: only_rules only_checkVolLoop sees_goRet Suc intro: sawReadyI split: sum.split)
  have sel: "sees (\<lambda>(t, err) A. err = None \<longrightarrow> sawReady E n A) (case c of
       CtxDone \<Rightarrow> goRet (True, Some e1) | TimedOut \<Rightarrow> goRet (True, Some e2) | Default \<Rightarrow> m)"
    if "sees (\<lambda>(t, err) A. err = None \<longrightarrow> sawReady E n A) m" for c e1 e2 m
    using that by (cases c) (auto intro: sees_goRet)
  show ?case unfolding checkVolLoop.simps
    by (rule sees_bind_later [OF _ stable_ready]) (auto intro!: only_rules sel get)
qed

lemma sees_ProvisionVolume: "sees (\<lambda>(t, err) A. err = None \<longrightarrow> sawReady E (Name vol) A) (ProvisionVolume E vol)"
  unfolding ProvisionVolume_def checkVolCreation_def
  by (intro sees_bind_later [OF _ stable_ready])
    (auto intro!: only_rules sees_goRet sees_checkVolLoop split: option.split)

lemma sees_resolvePool:
  "sees (\<lambda>r A. \<forall>pool. r = Inr pool \<longrightarrow> pool \<noteq> [] \<longrightarrow>
      (\<exists>zn p. EvNode (KGet (OpenEBSNamespace E) nodeid (Inr zn)) \<in> A \<and> p \<in> set (Pools zn)
         \<and> PoolNodeName p = pool \<and> qualifies pattern minFree p))
     (resolvePool E schd nodeid pattern minFree)"
  unfolding resolvePool_def
proof (rule sees_bind [OF sees_node_Get], goal_cases)
  case (1 r A)
  show ?case
  proof (cases r)
    case (Inl e)
    then show ?thesis by (auto intro: sees_goRet)
  next
    case (Inr zn)
    with 1 have zn: "EvNode (KGet (OpenEBSNamespace E) nodeid (Inr zn)) \<in> A" by simp
    have "sees (\<lambda>r B. \<forall>pool. r = Inr pool \<longrightarrow> pool \<noteq> [] \<longrightarrow>
        (\<exists>zn p. EvNode (KGet (OpenEBSNamespace E) nodeid (Inr zn)) \<in> A \<union> (C \<union> B) \<and> p \<in> set (Pools zn)
           \<and> PoolNodeName p = pool \<and> qualifies pattern minFree p))
      (case pm of Inl e \<Rightarrow> goRet (Inl e) | Inr pmap \<Rightarrow> goRet (Inr (poolForNode (Pools zn) pattern minFree pmap)))" for pm C
      by (cases pm) (use zn poolForNode_from in \<open>fastforce intro: sees_goRet\<close>)+
    with Inr show ?thesis
      by (auto intro!: sees_bind [OF sees_only [where W = "\<lambda>_ _. True"]] only_rules)
  qed
qed

lemma placedVolume:
  assumes "Build (vol_WithVolumeStatus ZFSStatusPending (vol_WithPoolName p
             (vol_WithOwnerNodeID n (vol_BuildFrom (Some volObj))))) = Inr vol"
  shows "vol = volObj\<lparr> Spec := (Spec volObj)\<lparr> OwnerNodeID := n, PoolName := p \<rparr>, State := ZFSStatusPending \<rparr>" "p \<noteq> []"
  using assms by (auto simp: builder_defs buildFrom_def Build_def newBuilder_def setObj_def addErr_def nonEmpty_def specUpd_def
    split: if_splits)

lemma stable_placed: "stable (\<lambda>r A. \<forall>vol. r = Inr vol \<longrightarrow> placed E parameters pattern minFree volObj vol A)"
  unfolding stable_def placed_def sawReady_def sawPool_def by (auto split: if_splits) blast+

text \<open>One node: provision there, and go on with the rest if that fails.\<close>

lemma sees_provisionOn:
  assumes "Build (vol_WithVolumeStatus ZFSStatusPending (vol_WithPoolName p
             (vol_WithOwnerNodeID n (vol_BuildFrom (Some volObj))))) = Inr vol"
    and pool: "if mget parameters ''poolpattern'' \<noteq> [] then sawPool E pattern minFree (Spec vol) A
               else PoolName (Spec vol) = mget parameters ''poolname''"
    and rest: "\<And>err. sees (\<lambda>r A. \<forall>vol. r = Inr vol \<longrightarrow> placed E parameters pattern minFree volObj vol A) (m err)"
  shows "sees (\<lambda>r B. \<forall>vol. r = Inr vol \<longrightarrow> placed E parameters pattern minFree volObj vol (A \<union> B))
    (goBind (ProvisionVolume E vol) (\<lambda>(timeout, perr). case perr of
        None \<Rightarrow> goRet (Inr vol) | Some e \<Rightarrow> if timeout then goRet (Inl (Some e)) else m (Some e)))"
proof (rule sees_bind [OF sees_ProvisionVolume], goal_cases)
  case (1 x B)
  note vol = placedVolume(1) [OF assms(1)]
  obtain t perr where x: "x = (t, perr)" by (cases x)
  show ?case
  proof (cases perr)
    case None
    with 1 x have r: "sawReady E (Name volObj) B" by (simp add: vol)
    have "placed E parameters pattern minFree volObj vol (A \<union> B)"
      unfolding placed_def
    proof (intro conjI)
      show "vol = volObj\<lparr> Spec := (Spec volObj)\<lparr> OwnerNodeID := OwnerNodeID (Spec vol), PoolName := PoolName (Spec vol) \<rparr>,
          State := ZFSStatusPending \<rparr>" by (simp add: vol)
      show "sawReady E (Name volObj) (A \<union> B)" using r by (auto simp: sawReady_def)
      show "if mget parameters ''poolpattern'' \<noteq> [] then sawPool E pattern minFree (Spec vol) (A \<union> B)
          else PoolName (Spec vol) = mget parameters ''poolname''"
        using pool by (auto simp: sawPool_def split: if_splits)
    qed
    with x None show ?thesis by (auto intro!: sees_goRet)
  next
    case (Some e)
    then show ?thesis
      using sees_more [OF stable_placed rest, of "A \<union> B"] x by (auto intro!: sees_goRet simp: Un_assoc)
  qed
qed

lemma sees_tryNode:
  fixes m :: "gerror option \<Rightarrow> (gerror option + ZFSVolume) go" and E parameters pattern minFree volObj
  defines "W \<equiv> \<lambda>r A. \<forall>vol. r = Inr vol \<longrightarrow> placed E parameters pattern minFree volObj vol A"
    and "pp \<equiv> mget parameters ''poolpattern''"
  assumes later: "\<And>err. sees W (m err)"
  shows "sees W (goBind (if pp \<noteq> [] then resolvePool E (mget parameters ''scheduler'') nodeid pattern minFree
                 else goRet (Inr (mget parameters ''poolname''))) (\<lambda>r. case r of
           Inl e \<Rightarrow> m (Some e)
         | Inr volPool \<Rightarrow>
             if pp \<noteq> [] \<and> volPool = [] then m (Some e1)
             else
               (case Build (vol_WithVolumeStatus ZFSStatusPending (vol_WithPoolName volPool
                              (vol_WithOwnerNodeID nodeid (vol_BuildFrom (Some volObj))))) of
                  Inl e \<Rightarrow> m (Some e)
                | Inr vol \<Rightarrow> goBind (ProvisionVolume E vol) (\<lambda>(timeout, perr). case perr of
                    None \<Rightarrow> goRet (Inr vol)
                  | Some e \<Rightarrow> if timeout then goRet (Inl (Some e)) else m (Some e)))))"
proof (rule sees_bind [where V = "\<lambda>r A. \<forall>pool. r = Inr pool \<longrightarrow> (if pp \<noteq> [] then pool \<noteq> [] \<longrightarrow>
      sawPool E pattern minFree (emptyInfo\<lparr> OwnerNodeID := nodeid, PoolName := pool \<rparr>) A
      else pool = mget parameters ''poolname'')"], goal_cases)
  case 1
  show ?case using sees_resolvePool [of E nodeid pattern minFree "mget parameters ''scheduler''"]
    by (auto simp: sawPool_def emptyInfo_def intro: sees_goRet)
next
  case (2 r A)
  have rest: "sees (\<lambda>y B. W y (A \<union> B)) (m err)" for err
    using sees_more [OF stable_placed later [unfolded W_def], of A err] by (simp add: W_def)
  show ?case
  proof (cases r)
    case (Inr pool)
    show ?thesis
    proof (cases "Build (vol_WithVolumeStatus ZFSStatusPending (vol_WithPoolName pool
                            (vol_WithOwnerNodeID nodeid (vol_BuildFrom (Some volObj)))))")
      case (Inr vol)
      note v = placedVolume [OF this]
      with 2 \<open>r = Inr pool\<close> have "if pp \<noteq> [] then sawPool E pattern minFree (Spec vol) A
             else PoolName (Spec vol) = mget parameters ''poolname''"
        by (auto simp: sawPool_def emptyInfo_def)
      from sees_provisionOn [OF Inr this [unfolded pp_def], where m = m, OF later [unfolded W_def]]
      show ?thesis using Inr \<open>r = Inr pool\<close> v(2) by (simp add: W_def)
    qed (use \<open>r = Inr pool\<close> rest in simp)
  qed (use rest in simp)
qed

lemma sees_tryNodes:
  "sees (\<lambda>r A. \<forall>vol. r = Inr vol \<longrightarrow> placed E parameters pattern minFree volObj vol A)
     (tryNodes E parameters pattern minFree volObj nodes err)"
proof (induction nodes arbitrary: err)
  case Nil
  show ?case by (simp add: sees_goRet)
next
  case (Cons node nodes)
  then show ?case
    unfolding tryNodes.simps using sees_tryNode [OF Cons]
    by (intro sees_bind_later [OF _ stable_placed]) (auto intro!: only_rules split: sum.split)
qed

section \<open>New volumes\<close>

lemma requestedVolume_calls:
  "requestedVolume C req parameters volName capacity =
     Build (fold vol_with (requestCalls C req parameters volName capacity) vol_NewBuilder)"
  by (simp add: requestedVolume_def requestCalls_def Let_def)

lemma reserved_object: "object (withReservedUserProp kind upd name val b) = upd (AList.update name val) (object b)"
  by (simp add: withReservedUserProp_def setObj_def addErr_def split: option.split)

lemma setObj_object: "object (setObj f b) = f (object b)"
  by (simp add: setObj_def)

lemma requestedVolume_fields:
  assumes "requestedVolume C req parameters volName capacity = Inr volObj"
  shows "Name volObj = volName" "Capacity (Spec volObj) = capacity" "volName \<noteq> []" "capacity \<noteq> []"
proof -
  let ?cs = "requestCalls C req parameters volName capacity"
  from assms have b: "Build (fold vol_with ?cs vol_NewBuilder) = Inr volObj" by (simp only: requestedVolume_calls)
  then have "list_all (\<lambda>c. \<not> vol_bad c) ?cs" using vb.build_iff [of ?cs vol_NewBuilder] by blast
  then show n: "volName \<noteq> []" "capacity \<noteq> []" by (simp_all add: requestCalls_def Let_def)
  note calls = vb.build_object [OF b] requestCalls_def Let_def builder_defs newBuilder_def nonEmpty_def setObj_object
    specUpd_def volProps_def reserved_object
  show "Name volObj = volName" "Capacity (Spec volObj) = capacity" using n by (simp_all add: calls)
qed

lemma stable_delivered: "stable (\<lambda>r A. \<forall>vol. r = Inr vol \<longrightarrow> delivered E C req bytes vol A)"
proof -
  have "delivered E C req bytes vol B" if "delivered E C req bytes vol A" "A \<subseteq> B" for vol A B
  proof -
    have "placed E ps pattern n volObj vol A \<Longrightarrow> placed E ps pattern n volObj vol B" for ps pattern n volObj
      using stable_placed [of E ps pattern n volObj] \<open>A \<subseteq> B\<close>
      unfolding stable_def by (auto dest!: spec [of _ "Inr vol"])
    with that show ?thesis unfolding delivered_def Let_def by blast
  qed
  then show ?thesis unfolding stable_def by blast
qed

lemma sees_existingVolume:
  "sees (\<lambda>r A. \<forall>vol. r = Inl (Inr vol) \<longrightarrow> EvVol (KGet (OpenEBSNamespace E) volName (Inr vol)) \<in> A
       \<and> DeletionTimestamp vol = None \<and> Capacity (Spec vol) = capacity \<and> State vol = ZFSStatusReady)
     (existingVolume E parameters volName capacity)" (is "sees ?W _")
proof -
  have st: "stable ?W" by (auto simp: stable_def)
  have wait: "sees ?W (goBind (waitForVolDestroy E volName) (\<lambda>err. case err of
                Some e \<Rightarrow> goRet (Inl (Inl e)) | None \<Rightarrow> goRet (Inr ())))"
    by (rule sees_bind_later [OF _ st]) (auto intro!: only_rules sees_goRet split: option.split)
  show ?thesis
    unfolding existingVolume_def
  proof (rule sees_bind [OF sees_GetZFSVolume], goal_cases)
    case (1 r A)
    then show ?case
      using sees_more [OF st wait, of A]
      by (cases r) (simp_all add: sees_goRet del: not_None_eq)
  qed
qed

lemma sees_more_delivered:
  "sees (\<lambda>r A. \<forall>vol. r = Inr vol \<longrightarrow> delivered E C req bytes vol A) m \<Longrightarrow>
   sees (\<lambda>r B. \<forall>vol. r = Inr vol \<longrightarrow> delivered E C req bytes vol (A \<union> B)) m"
  by (rule sees_more [OF stable_delivered])

lemma sees_provisionNew:
  fixes E C req defines "n \<equiv> ToLower (lib E) (VolName req)" and "ps \<equiv> caseInsensitiveMap C (VolParameters req)"
  assumes "parsePoolParams (lib E) (mget ps ''poolname'') (mget ps ''poolpattern'') = Some (Inr pattern)"
    and "requestedVolume C req ps n (FormatInt (getRoundedCapacity bytes)) = Inr volObj"
  shows "sees (\<lambda>r A. \<forall>vol. r = Inr vol \<longrightarrow> delivered E C req bytes vol A)
    (provisionOn E ps pattern n (getRoundedCapacity bytes) prfList volObj)"
  unfolding provisionOn_def Let_def
proof (rule sees_bind [OF sees_tryNodes], goal_cases)
  case (1 r A)
  show ?case
  proof (cases r)
    case (Inl err)
    then show ?thesis
      by (cases err) (auto simp: goPanic_def intro!: sees_goStop sees_goRet only_rules stable_union [OF stable_delivered]
        sees_bind_later [where W = "\<lambda>r B. \<forall>vol. r = Inr vol \<longrightarrow> delivered E C req bytes vol (A \<union> B)"])
  next
    case (Inr vol)
    with 1 have "delivered E C req bytes vol A"
      using assms(3,4) requestedVolume_fields [OF assms(4)] unfolding delivered_def Let_def n_def ps_def by blast
    with Inr show ?thesis by (simp add: sees_goRet)
  qed
qed

lemma sees_candidates:
  fixes E C req defines "n \<equiv> ToLower (lib E) (VolName req)" and "ps \<equiv> caseInsensitiveMap C (VolParameters req)"
  assumes parsed: "parsePoolParams (lib E) (mget ps ''poolname'') (mget ps ''poolpattern'') = Some (Inr pattern)"
  shows "sees (\<lambda>r A. \<forall>vol. r = Inr vol \<longrightarrow> delivered E C req bytes vol A)
    (goBind (candidateNodes E C req ps pattern n (getRoundedCapacity bytes)) (\<lambda>r. case r of
       Inl e \<Rightarrow> goRet (Inl e)
     | Inr prfList \<Rightarrow> (case requestedVolume C req ps n (FormatInt (getRoundedCapacity bytes)) of
           Inl e \<Rightarrow> goRet (Inl (EStatus Internal (errText (lib E) e)))
         | Inr volObj \<Rightarrow> provisionOn E ps pattern n (getRoundedCapacity bytes) prfList volObj)))"
proof (rule sees_bind_later [OF _ stable_delivered], goal_cases)
  case 1
  show ?case by (intro only_rules) simp_all
next
  case (2 r)
  show ?case
    using sees_provisionNew [OF parsed [unfolded ps_def]] by (auto simp: n_def ps_def split: sum.split intro: sees_goRet)
qed

lemma sees_CreateZFSVolume:
  assumes bytes: "RequiredBytes req = Some bytes"
  shows "sees (\<lambda>r A. \<forall>vol. r = Inr vol \<longrightarrow> delivered E C req bytes vol A) (CreateZFSVolume E C req)" (is "sees ?W _")
  unfolding CreateZFSVolume_def bytes Let_def option.case
proof (rule sees_bind [OF sees_existingVolume], goal_cases)
  case (1 r A)
  show ?case
  proof (cases r)
    case (Inl found)
    with 1 show ?thesis by (auto intro!: sees_goRet simp: delivered_def Let_def)
  next
    case (Inr u)
    then show ?thesis
      using sees_more_delivered [OF sees_candidates]
      by (auto split: option.split sum.split simp: goPanic_def intro!: sees_goStop sees_goRet)
  qed
qed

section \<open>Clones\<close>

lemma cloneTemplate_Name:
  assumes "cloneTemplate C req volName labels = Inr obj"
  shows "Name obj = volName"
proof -
  let ?param = "insensitiveParameter C (VolParameters req)"
  let ?cs = "[VName volName, VPVCName (?param ''csi.storage.k8s.io/pvc/name''),
    VPVCNamespace (?param ''csi.storage.k8s.io/pvc/namespace''), VPVName (?param ''csi.storage.k8s.io/pv/name''),
    VVolumeStatus ZFSStatusPending] @ (if labels = [] then [] else [VLabels labels])"
  from assms have b: "Build (fold vol_with ?cs vol_NewBuilder) = Inr obj" by (simp add: cloneTemplate_def Let_def split: if_splits)
  then have "list_all (\<lambda>c. \<not> vol_bad c) ?cs" using vb.build_iff [of ?cs vol_NewBuilder] by blast
  then have "volName \<noteq> []" by simp
  then show ?thesis
    by (simp add: vb.build_object [OF b] builder_defs newBuilder_def nonEmpty_def setObj_object specUpd_def volProps_def
      reserved_object withLabels_def)
qed

text \<open>Both kinds of clone end by provisioning a template that inherited the specification.\<close>

lemma sees_provisionClone:
  assumes tmpl: "cloneTemplate C req (ToLower (lib E) (VolName req)) labels = Inr obj"
    and src: "Capacity src = FormatInt (getRoundedCapacity bytes)"
      "parsePoolParams (lib E) (insensitiveParameter C (VolParameters req) ''poolname'')
         (insensitiveParameter C (VolParameters req) ''poolpattern'') = Some (Inr pattern)"
      "sourcePoolAllowed (PoolName src) (insensitiveParameter C (VolParameters req) ''poolname'') pattern"
  shows "sees (\<lambda>r A. \<forall>vol. r = Inr vol \<longrightarrow> cloneOf E C req bytes src snapName vol A)
    (goBind (ProvisionVolume E (inheritSpec src snapName obj)) (\<lambda>(timeout, err). case err of
       Some e \<Rightarrow> goRet (Inl (msg e))
     | None \<Rightarrow> goRet (Inr (inheritSpec src snapName obj))))"
proof (rule sees_bind [OF sees_ProvisionVolume], goal_cases)
  case (1 x A)
  obtain t err where x: "x = (t, err)" by (cases x)
  show ?case
  proof (cases err)
    case None
    with 1 x have "sawReady E (ToLower (lib E) (VolName req)) A"
      by (simp add: inheritSpec_def cloneTemplate_Name [OF tmpl])
    then have "cloneOf E C req bytes src snapName (inheritSpec src snapName obj) A"
      using src by (simp add: cloneOf_def Let_def inheritSpec_def cloneTemplate_Name [OF tmpl])
    with None x show ?thesis by (simp add: sees_goRet)
  qed (simp add: x sees_goRet)
qed

lemma stable_cloneOf: "A \<subseteq> B \<Longrightarrow> cloneOf E C req bytes src snapName vol A \<Longrightarrow> cloneOf E C req bytes src snapName vol B"
  by (auto simp: cloneOf_def sawReady_def Let_def)

lemma stable_created: "stable (\<lambda>r A. \<forall>vol. r = Inr vol \<longrightarrow> created E C req bytes vol A)"
proof -
  have d: "delivered E C req bytes vol A \<Longrightarrow> A \<subseteq> B \<Longrightarrow> delivered E C req bytes vol B" for vol A B
    using stable_delivered [of E C req bytes] unfolding stable_def by (auto dest!: spec [of _ "Inr vol"])
  have "created E C req bytes vol A \<Longrightarrow> A \<subseteq> B \<Longrightarrow> created E C req bytes vol B" for vol A B
    unfolding created_def using d by (auto split: option.splits contentSource.splits intro: stable_cloneOf)
  then show ?thesis unfolding stable_def by blast
qed

lemma sees_CreateVolClone:
  assumes "RequiredBytes req = Some bytes" and "VolContentSource req = Some (FromVolume srcVol)"
  shows "sees (\<lambda>r A. \<forall>vol. r = Inr vol \<longrightarrow> created E C req bytes vol A) (CreateVolClone E C req srcVol)"
proof (cases "parsePoolParams (lib E) (insensitiveParameter C (VolParameters req) ''poolname'')
         (insensitiveParameter C (VolParameters req) ''poolpattern'')")
  case None
  then show ?thesis by (simp add: CreateVolClone_def assms Let_def goPanic_def sees_goStop)
next
  case (Some r)
  show ?thesis
  proof (cases r)
    case (Inl e)
    with Some show ?thesis by (simp add: CreateVolClone_def assms Let_def sees_goRet)
  next
    case (Inr pattern)
    show ?thesis
      unfolding CreateVolClone_def Let_def assms Some Inr option.case sum.case
    proof (rule sees_bind [OF sees_GetZFSVolume], goal_cases)
      case (1 r A)
      note clone = sees_weaken [OF sees_provisionClone [OF _ _ Some [unfolded Inr]]]
      show ?case
      proof (cases r)
        case (Inr v)
        with 1 have "cloneOf E C req bytes (Spec v) (Name v @ ''@'' @ ToLower (lib E) (VolName req)) vol B \<Longrightarrow>
            created E C req bytes vol (A \<union> B)" for vol B
          by (auto simp: created_def assms intro: stable_cloneOf [rotated])
        with Inr show ?thesis by (auto split: sum.split intro!: sees_goRet clone)
      qed (simp add: sees_goRet)
    qed
  qed
qed

lemma sees_CreateSnapClone:
  assumes "RequiredBytes req = Some bytes" and "VolContentSource req = Some (FromSnapshot snapshot)"
  shows "sees (\<lambda>r A. \<forall>vol. r = Inr vol \<longrightarrow> created E C req bytes vol A) (CreateSnapClone E C req snapshot)"
proof (cases "parsePoolParams (lib E) (insensitiveParameter C (VolParameters req) ''poolname'')
         (insensitiveParameter C (VolParameters req) ''poolpattern'')")
  case None
  then show ?thesis by (simp add: CreateSnapClone_def assms Let_def goPanic_def sees_goStop)
next
  case (Some r)
  show ?thesis
  proof (cases r)
    case (Inl e)
    with Some show ?thesis by (simp add: CreateSnapClone_def assms Let_def sees_goRet)
  next
    case (Inr pattern)
    show ?thesis
    proof (cases "length (splitOn (CHR ''@'') snapshot) = 2")
      case True
      then obtain vid sid where ids: "splitOn (CHR ''@'') snapshot = [vid, sid]"
        by (auto simp: length_Suc_conv numeral_2_eq_2)
      note clone = sees_weaken [OF sees_provisionClone [OF _ _ Some [unfolded Inr]]]
      have two: "length [vid, sid] \<noteq> 2 \<longleftrightarrow> False" "[vid, sid] ! 1 = sid" by simp_all
      show ?thesis
        unfolding CreateSnapClone_def Let_def assms Some Inr ids option.case sum.case two if_False
      proof (rule sees_bind [OF sees_GetZFSSnapshot], goal_cases)
        case (1 r A)
        show ?case
        proof (cases r)
          case (Inr s)
          with 1 ids have "cloneOf E C req bytes (SnapSpec s) (ToLower (lib E) snapshot) vol B \<Longrightarrow>
              created E C req bytes vol (A \<union> B)" for vol B
            by (auto simp: created_def assms intro: stable_cloneOf [rotated])
          with Inr show ?thesis by (auto split: sum.split intro!: sees_goRet clone)
        qed (simp add: sees_goRet)
      qed
    qed (simp add: CreateSnapClone_def assms Let_def Some Inr sees_goRet)
  qed
qed

section \<open>The create request\<close>

lemma sees_withVolume:
  assumes st: "stable W" and m: "sees W m"
  shows "sees W (withVolume v m)"
proof -
  have "sees W (goBind m (\<lambda>r. goBind (goEmit (EvUnlock v)) (\<lambda>_. goRet r)))"
  proof (rule sees_bind [OF m])
    show "W x A \<Longrightarrow> sees (\<lambda>y B. W y (A \<union> B)) (goBind (goEmit (EvUnlock v)) (\<lambda>_. goRet x))" for x A
      by (rule sees_bind_later [OF _ stable_union [OF st]]) (auto intro!: only_rules sees_goRet)
  qed
  note release = this
  have "extends (goLock v)" unfolding goLock_def by (intro only_rules TrueI)
  from sees_bind_later [OF this st release] show ?thesis unfolding withVolume_def .
qed

lemma sees_createFrom:
  assumes "RequiredBytes req = Some bytes"
  shows "sees (\<lambda>r A. \<forall>vol. r = Inr vol \<longrightarrow> created E C req bytes vol A) (createFrom E C req)"
proof -
  have "sees (\<lambda>r A. \<forall>vol. r = Inr vol \<longrightarrow> created E C req bytes vol A) (CreateZFSVolume E C req)"
    if "VolContentSource req = None \<or> VolContentSource req = Some NoSource"
    using sees_CreateZFSVolume [OF assms] that by (auto simp: created_def)
  with sees_CreateVolClone [OF assms] sees_CreateSnapClone [OF assms] show ?thesis
    unfolding createFrom_def by (auto split: option.split contentSource.split)
qed

text \<open>What is known of the response and of the volume behind it when a create request succeeds.\<close>

lemma sees_CreateVolume:
  "sees (\<lambda>r A. \<forall>resp. r = Inr resp \<longrightarrow> (\<exists>bytes vol. RequiredBytes req = Some bytes \<and> created E C req bytes vol A
      \<and> resp = volumeResponse C req (ToLower (lib E) (VolName req)) (getRoundedCapacity bytes) vol))
     (CreateVolume E C req)" (is "sees ?W _")
proof (cases "validateVolumeCreateReq C req")
  case None
  have st: "stable ?W"
    using stable_created [of E C req] unfolding stable_def by (metis sum.inject(2))
  show ?thesis
  proof (cases "RequiredBytes req")
    case None
    then have "sees ?W (goBind (createFrom E C req) f)" for f :: "_ \<Rightarrow> (gerror + CreateVolumeResponse) go"
      by (auto simp: createFrom_def CreateZFSVolume_def CreateVolClone_def CreateSnapClone_def goPanic_def goBind_def
          goStop_def sees_def split: option.splits contentSource.splits)
    then show ?thesis
      unfolding CreateVolume_def Let_def \<open>validateVolumeCreateReq C req = None\<close> option.case
      by (intro sees_withVolume [OF st])
  next
    case (Some bytes)
    show ?thesis
      unfolding CreateVolume_def Let_def \<open>validateVolumeCreateReq C req = None\<close> option.case
    proof (rule sees_withVolume [OF st], rule sees_bind [OF sees_createFrom [OF Some]], goal_cases)
      case (1 r A)
      have ev: "extends (sendEventOrIgnore C a b c d)" for a b c d
        unfolding sendEventOrIgnore_def by (intro only_rules TrueI)
      show ?case
      proof (cases r)
        case (Inr vol)
        from 1 Inr Some show ?thesis
          unfolding Inr sum.case
          by (intro sees_bind_later [OF ev stable_union [OF st]] sees_goRet) (auto simp del: split_paired_Ex)
      qed (simp add: sees_goRet)
    qed
  qed
qed (simp add: CreateVolume_def sees_goRet)

text \<open>C23: A create request that succeeds had a capacity and delivers a volume: the one that was there, ready and of the
  rounded capacity, or a new one or a clone, on the pool the request allows, which was seen ready; the response is for
  that volume, with the rounded size and the node that has it.\<close>
theorem create_volume_sound:
  assumes "CreateVolume E C req h = (Some (Inr resp), h')"
  shows "\<exists>bytes vol es. RequiredBytes req = Some bytes \<and> h' = h @ es \<and> created E C req bytes vol (set es)
    \<and> resp = volumeResponse C req (ToLower (lib E) (VolName req)) (getRoundedCapacity bytes) vol"
  by (rule seesD [OF sees_CreateVolume assms]) (blast dest: spec [of _ resp])


text \<open>
  After a transient error of the API server the request goes on as if the volume did not exist; if no node will do,
  the object of the volume is deleted, although it was ready all along.
\<close>

lemma poolname_compiles:
  assumes "ascii pool" "pool \<noteq> []"
  shows "\<exists>f. parsePoolParams L pool [] = Some (Inr f)"
proof -
  from assms(1) have "ascii (poolRoot pool)"
    by (auto simp: ascii_def poolRoot_def list_all_iff dest: set_takeWhileD)
  from rxe.exact [OF this, of L] assms(2) show ?thesis by (auto simp: parsePoolParams_def)
qed

lemma thin_fields:
  "VolName thinReq = ''v1''" "RequiredBytes thinReq = Some 1000000" "VolContentSource thinReq = None"
  "VolCapabilities thinReq = Some [SINGLE_NODE_WRITER]"
  "VolParameters thinReq = [(''poolname'', ''pool''), (''fstype'', ''zfs''), (''thinprovision'', ''yes'')]"
  by (simp_all add: thinReq_def)

lemma plain_fields:
  "scheduler plainCtl h req w = [''node-1'']" "caseInsensitiveMap plainCtl m = m" "insensitiveParameter plainCtl = mget"
  "capabilities plainCtl = newControllerCapabilities" "GoogleAnalyticsEnabled plainCtl = []"
  by (simp_all add: plainCtl_def)

lemma quiet_fields:
  "ToLower quietLib ''v1'' = ''v1''" "IsNotFound quietLib (EApi nf t) = nf" "clientsetFor quietCluster h p = None"
  "nodeApi quietCluster = quietApi" "apiList quietApi h ns s = Inr []" "getNode quietCluster h n = Inr []"
  "apiDelete quietApi h ns n = None" "apiCreate quietApi h ns x = Inr x"
  "OpenEBSNamespace quietEnv = ''openebs''" "polls quietEnv = 1" "cluster quietEnv = quietCluster" "lib quietEnv = quietLib"
  by (simp_all add: quiet_defs ToLower_def lowerChar_def ascii_def)

lemmas create_simps = CreateZFSVolume_def existingVolume_def candidateNodes_def getNodeMap_def
  getVolumeWeightedMap_def getCapacityWeightedMap_def listZFSNodes_def listZFSVolumes_def volumeWeightedMap_def
  node_List_def vol_List_def nodeKind_def reservesSpace_def GetVolumeType_def provisionOn_def GetNodeID_def
  thin_fields plain_fields quiet_fields go_simps Let_def GetZFSVolume_def vol_Get_def kube_Get_def kube_List_def
  kube_Delete_def volKind_def apiAnswer_def zfs_DeleteVolume_def vol_Delete_def mget_def

lemma thin_requested:
  obtains v where "requestedVolume plainCtl thinReq (VolParameters thinReq) ''v1'' (FormatInt (getRoundedCapacity 1000000)) = Inr v"
    and "Name v = ''v1''"
proof -
  have "FormatInt n \<noteq> []" for n by (simp add: FormatInt_def)
  then have "\<exists>v. requestedVolume plainCtl thinReq (VolParameters thinReq) ''v1'' (FormatInt (getRoundedCapacity 1000000)) = Inr v"
    unfolding requestedVolume_calls vb.build_iff by (simp add: requestCalls_def thin_fields plain_fields mget_def builder_defs newBuilder_def)
  with that requestedVolume_fields(1) show thesis by blast
qed

lemma create_retry_deletes_volume:
  "EvVol (KDelete ''openebs'' ''v1'' None) \<in> set (snd (CreateZFSVolume flakyApi plainCtl thinReq []))"
proof -
  obtain f where f: "parsePoolParams quietLib ''pool'' [] = Some (Inr f)"
    using poolname_compiles [of "''pool''" quietLib] by auto
  obtain v where "requestedVolume plainCtl thinReq (VolParameters thinReq) ''v1'' (FormatInt (getRoundedCapacity 1000000)) = Inr v"
    by (rule thin_requested)
  then show ?thesis by (simp add: create_simps flakyApi_def f)
qed

lemma thin_created: "\<exists>resp h'. CreateVolume eagerNode plainCtl thinReq [] = (Some (Inr resp), h')"
proof -
  obtain f where f: "parsePoolParams quietLib ''pool'' [] = Some (Inr f)"
    using poolname_compiles [of "''pool''" quietLib] by auto
  obtain v where "requestedVolume plainCtl thinReq (VolParameters thinReq) ''v1'' (FormatInt (getRoundedCapacity 1000000)) = Inr v"
    and "Name v = ''v1''" by (rule thin_requested)
  then show ?thesis
    by (simp add: CreateVolume_def createFrom_def withVolume_def goLock_def validateVolumeCreateReq_def validateRequest_def
        newControllerCapabilities_def sendEventOrIgnore_def create_simps errOf_def eagerNode_def f ProvisionVolume_def
        checkVolCreation_def vol_Create_def kube_Create_def readyVol_def builder_defs buildFrom_def newBuilder_def setObj_def
        nonEmpty_def specUpd_def Build_def)
qed

theorem create_volume_sound_witness:
  "\<exists>bytes vol es. RequiredBytes thinReq = Some bytes \<and> created eagerNode plainCtl thinReq bytes vol (set es)"
proof -
  obtain resp h' where "CreateVolume eagerNode plainCtl thinReq [] = (Some (Inr resp), h')" using thin_created by blast
  from create_volume_sound [OF this] show ?thesis by blast
qed


end
