(* ===== verification/ControllerLocks.thy ===== *)
theory ControllerLocks
  imports ControllerCreate
begin

text \<open>
  The locks of theory VolumeLock in the handlers: a request takes the locks of its names, does all its work, and
  gives them back, whatever the outcome.
\<close>

section \<open>Definitions\<close>

fun isLock :: "event \<Rightarrow> bool" where
  "isLock (EvLock _) = True"
| "isLock (EvUnlock _) = True"
| "isLock _ = False"

fun isWrite :: "event \<Rightarrow> bool" where
  "isWrite (EvVol (KCreate _ _ _)) = True"
| "isWrite (EvVol (KUpdate _ _ _)) = True"
| "isWrite (EvVol (KDelete _ _ _)) = True"
| "isWrite (EvSnap (KCreate _ _ _)) = True"
| "isWrite (EvSnap (KUpdate _ _ _)) = True"
| "isWrite (EvSnap (KDelete _ _ _)) = True"
| "isWrite _ = False"

text \<open>
  Every run that returns first does some work without a write, then takes the locks in order, works, and gives them back
  in order; or it never takes a lock and never writes.
\<close>

definition bracketed :: "string list \<Rightarrow> 'a go \<Rightarrow> bool" where
  "bracketed names m \<longleftrightarrow>
     (\<forall>h x h'. m h = (Some x, h') \<longrightarrow>
        (\<exists>es. h' = h @ es \<and> list_all (\<lambda>e. \<not> isLock e \<and> \<not> isWrite e) es)
      \<or> (\<exists>es es'. h' = h @ es @ map EvLock names @ es' @ map EvUnlock names
           \<and> list_all (\<lambda>e. \<not> isLock e \<and> \<not> isWrite e) es \<and> list_all (\<lambda>e. \<not> isLock e) es'))"

text \<open>A response for a snapshot object that was read.\<close>

definition describes :: "env \<Rightarrow> CreateSnapshotRequest \<Rightarrow> CreateSnapshotResponse \<Rightarrow> ZFSSnapshot \<Rightarrow> bool" where
  "describes E req resp s \<longleftrightarrow>
     RespSourceVolumeId resp = ToLower (lib E) (SourceVolumeId req)
     \<and> SnapshotId resp = ToLower (lib E) (SourceVolumeId req) @ ''@'' @ ToLower (lib E) (SnapReqName req)
     \<and> ReadyToUse resp = (SnapState s = ZFSStatusReady)
     \<and> (if Capacity (SnapSpec s) = [] then SizeBytes resp = 0 else ParseInt (Capacity (SnapSpec s)) = Some (SizeBytes resp))"

text \<open>
  An example: a request for a snapshot of \<open>v2\<close> in a cluster where a snapshot of \<open>v1\<close> with that name is created
  between the first and the second time it is looked up.
\<close>

definition snapReq :: CreateSnapshotRequest where
  "snapReq = \<lparr> SnapReqName = ''s1'', SourceVolumeId = ''v2'', SnapParameters = [] \<rparr>"

fun isSnapGet :: "event \<Rightarrow> bool" where
  "isSnapGet (EvSnap (KGet _ _ _)) = True"
| "isSnapGet _ = False"

definition racing :: env where
  "racing = quietEnv\<lparr> cluster := quietCluster\<lparr> snapApi := quietApi\<lparr>
       apiGet := (\<lambda>h ns n. if list_ex isSnapGet h then Inr (demoSnap ''s1'') else Inl (True, ''not found'')) \<rparr> \<rparr> \<rparr>"

section \<open>Rules\<close>

lemma bracketed_reads: "only (\<lambda>e. \<not> isLock e \<and> \<not> isWrite e) m \<Longrightarrow> bracketed names m"
  unfolding bracketed_def by (blast elim: only_snd)

lemma bracketed_goRet: "bracketed names (goRet x)"
  by (intro bracketed_reads only_rules)

lemma bracketed_if: "(b \<Longrightarrow> bracketed names m) \<Longrightarrow> (\<not> b \<Longrightarrow> bracketed names m') \<Longrightarrow> bracketed names (if b then m else m')"
  by simp

lemma bracketed_option:
  "bracketed names m \<Longrightarrow> (\<And>x. bracketed names (f x)) \<Longrightarrow> bracketed names (case r of None \<Rightarrow> m | Some x \<Rightarrow> f x)"
  by (simp split: option.split)

lemma bracketed_after:
  assumes m: "only (\<lambda>e. \<not> isLock e \<and> \<not> isWrite e) m" and f: "\<And>x. bracketed names (f x)"
  shows "bracketed names (goBind m f)"
  unfolding bracketed_def
proof (intro allI impI)
  fix h y h'
  assume "goBind m f h = (Some y, h')"
  then obtain x h1 where x: "m h = (Some x, h1)" "f x h1 = (Some y, h')"
    by (auto simp: goBind_def split: prod.splits option.splits)
  obtain es where es: "h1 = h @ es" "list_all (\<lambda>e. \<not> isLock e \<and> \<not> isWrite e) es" using only_snd [OF m x(1)] .
  from f [of x] x(2) consider
      es1 where "h' = h1 @ es1" "list_all (\<lambda>e. \<not> isLock e \<and> \<not> isWrite e) es1"
    | es1 es2 where "h' = h1 @ es1 @ map EvLock names @ es2 @ map EvUnlock names"
        "list_all (\<lambda>e. \<not> isLock e \<and> \<not> isWrite e) es1" "list_all (\<lambda>e. \<not> isLock e) es2"
    unfolding bracketed_def by blast
  then show "(\<exists>es. h' = h @ es \<and> list_all (\<lambda>e. \<not> isLock e \<and> \<not> isWrite e) es)
      \<or> (\<exists>es es'. h' = h @ es @ map EvLock names @ es' @ map EvUnlock names
           \<and> list_all (\<lambda>e. \<not> isLock e \<and> \<not> isWrite e) es \<and> list_all (\<lambda>e. \<not> isLock e) es')"
  proof cases
    case 1
    with es show ?thesis by (intro disjI1 exI [of _ "es @ es1"]) simp
  next
    case 2
    with es show ?thesis by (intro disjI2 exI [of _ "es @ es1"] exI [of _ es2]) simp
  qed
qed

lemma goLock_run: "goLock v h = (Some x, h') \<longleftrightarrow> \<not> lockedIn v h \<and> h' = h @ [EvLock v]"
  by (auto simp: goLock_def go_simps)

lemma bracketed_withVolume:
  assumes "only (\<lambda>e. \<not> isLock e) m"
  shows "bracketed [v] (withVolume v m)"
  unfolding bracketed_def
proof (intro allI impI disjI2)
  fix h x h'
  assume "withVolume v m h = (Some x, h')"
  then obtain h1 where m: "m (h @ [EvLock v]) = (Some x, h1)" and h': "h' = h1 @ [EvUnlock v]"
    by (auto simp: withVolume_def goBind_def goLock_run go_simps split: prod.splits option.splits)
  from only_snd [OF assms m] obtain es where "h1 = (h @ [EvLock v]) @ es" "list_all (\<lambda>e. \<not> isLock e) es" .
  with h' show "\<exists>es es'. h' = h @ es @ map EvLock [v] @ es' @ map EvUnlock [v]
     \<and> list_all (\<lambda>e. \<not> isLock e \<and> \<not> isWrite e) es \<and> list_all (\<lambda>e. \<not> isLock e) es'"
    by (intro exI [of _ "[]"] exI [of _ es]) simp
qed

lemma bracketed_withVolumeAndSnapshot:
  assumes "only (\<lambda>e. \<not> isLock e) m"
  shows "bracketed [v, s] (withVolumeAndSnapshot v s m)"
  unfolding bracketed_def
proof (intro allI impI disjI2)
  fix h x h'
  assume "withVolumeAndSnapshot v s m h = (Some x, h')"
  then obtain h1 where m: "m (h @ [EvLock v, EvLock s]) = (Some x, h1)" and h': "h' = h1 @ [EvUnlock v, EvUnlock s]"
    by (auto simp: withVolumeAndSnapshot_def goBind_def goLock_run go_simps split: prod.splits option.splits)
  from only_snd [OF assms m] obtain es where "h1 = (h @ [EvLock v, EvLock s]) @ es" "list_all (\<lambda>e. \<not> isLock e) es" .
  with h' show "\<exists>es es'. h' = h @ es @ map EvLock [v, s] @ es' @ map EvUnlock [v, s]
     \<and> list_all (\<lambda>e. \<not> isLock e \<and> \<not> isWrite e) es \<and> list_all (\<lambda>e. \<not> isLock e) es'"
    by (intro exI [of _ "[]"] exI [of _ es]) simp
qed

lemmas bracketed_rules = bracketed_goRet bracketed_if bracketed_option bracketed_withVolume bracketed_withVolumeAndSnapshot

section \<open>The handlers between their locks\<close>

lemma nolock_tryNodes [only_rules]: "only (\<lambda>e. \<not> isLock e) (tryNodes E ps pattern n volObj nodes err)"
  by (induction nodes arbitrary: err) (simp_all, (intro only_rules; simp)+)

lemma nolock_createFrom [only_rules]: "only (\<lambda>e. \<not> isLock e) (createFrom E C req)"
proof -
  have "only (\<lambda>e. \<not> isLock e) (CreateZFSVolume E C req)"
    unfolding CreateZFSVolume_def provisionOn_def Let_def by (intro only_rules; simp)
  moreover have "only (\<lambda>e. \<not> isLock e) (CreateVolClone E C req srcVol)" for srcVol
    unfolding CreateVolClone_def Let_def by (intro only_rules; simp)
  moreover have "only (\<lambda>e. \<not> isLock e) (CreateSnapClone E C req snapshot)" for snapshot
    unfolding CreateSnapClone_def Let_def by (intro only_rules; simp)
  ultimately show ?thesis by (simp add: createFrom_def split: option.split contentSource.split)
qed

lemma nolock_deleteReady [only_rules]: "only (\<lambda>e. \<not> isLock e) (deleteReady E C reqID volumeID vol)"
  unfolding deleteReady_def GetSnapshotForVolume_def MarkForDeletion_def UpdateZFSVolumeAnnotation_def sendEventOrIgnore_def
  by (intro only_rules; simp)

lemma nolock_newSnapshot [only_rules]: "only (\<lambda>e. \<not> isLock e) (newSnapshot E C req volumeID snapName t)"
proof -
  have "only (\<lambda>e. \<not> isLock e) (readySnapshotLoop k E n)" for k n
    by (induction k) (simp_all, (intro only_rules; simp)+)
  then show ?thesis
    unfolding newSnapshot_def ProvisionSnapshot_def waitForReadySnapshot_def Let_def by (intro only_rules; simp)
qed

lemma nolock_removeSnapshot [only_rules]: "only (\<lambda>e. \<not> isLock e) (removeSnapshot E reqID volumeID snapName)"
  unfolding removeSnapshot_def GetSnapshotForVolume_def zfs_DeleteSnapshot_def IsVolumeEligibleForDeletion_def
  by (intro only_rules; simp)

section \<open>The properties\<close>

text \<open>C27: Every request of the controller that changes the cluster does so between taking the locks of its names and
  giving them back, and gives them back whatever its answer: a volume request takes the lock of its volume, a snapshot
  request those of the volume and then of the snapshot, and no other lock is touched.\<close>
theorem requests_bracketed:
  "bracketed [ToLower (lib E) (VolName req)] (CreateVolume E C req)
   \<and> bracketed [ToLower (lib E) vid] (DeleteVolume E C vid)
   \<and> bracketed [ToLower (lib E) vid] (ControllerExpandVolume E vid bytes)
   \<and> bracketed [ToLower (lib E) (SourceVolumeId sreq), ToLower (lib E) (SnapReqName sreq)] (CreateSnapshot E C sreq)
   \<and> bracketed [splitOn (CHR ''@'') sid ! 0, splitOn (CHR ''@'') sid ! 1] (DeleteSnapshot E sid)"
proof (intro conjI)
  show "bracketed [ToLower (lib E) (VolName req)] (CreateVolume E C req)"
    unfolding CreateVolume_def Let_def sendEventOrIgnore_def by (intro bracketed_rules only_rules; simp)
  show "bracketed [ToLower (lib E) vid] (DeleteVolume E C vid)"
    unfolding DeleteVolume_def Let_def by (intro bracketed_rules only_rules; simp)
  show "bracketed [ToLower (lib E) vid] (ControllerExpandVolume E vid bytes)"
    unfolding ControllerExpandVolume_def Let_def ResizeVolume_def by (intro bracketed_rules only_rules; simp)
  have verify: "only (\<lambda>e. \<not> isLock e \<and> \<not> isWrite e) (verifySnapshotRequest E sreq)"
    unfolding verifySnapshotRequest_def Let_def by (intro only_rules; simp)
  show "bracketed [ToLower (lib E) (SourceVolumeId sreq), ToLower (lib E) (SnapReqName sreq)] (CreateSnapshot E C sreq)"
    unfolding CreateSnapshot_def Let_def by (rule bracketed_after [OF verify]) (intro bracketed_rules only_rules; simp)
  show "bracketed [splitOn (CHR ''@'') sid ! 0, splitOn (CHR ''@'') sid ! 1] (DeleteSnapshot E sid)"
    unfolding DeleteSnapshot_def Let_def by (intro bracketed_rules only_rules; simp)
qed

section \<open>Snapshots\<close>

lemma sees_withVolumeAndSnapshot:
  assumes st: "stable W" and m: "sees W m"
  shows "sees W (withVolumeAndSnapshot v s m)"
proof -
  have rel: "sees W (goBind m (\<lambda>r. goBind (goEmit (EvUnlock v)) (\<lambda>_. goBind (goEmit (EvUnlock s)) (\<lambda>_. goRet r))))"
  proof (rule sees_bind [OF m])
    show "W x A \<Longrightarrow> sees (\<lambda>y B. W y (A \<union> B))
        (goBind (goEmit (EvUnlock v)) (\<lambda>_. goBind (goEmit (EvUnlock s)) (\<lambda>_. goRet x)))" for x A
      by (intro sees_bind_later [OF _ stable_union [OF st]]) (auto intro!: only_rules sees_goRet)
  qed
  have lock: "extends (goLock n)" for n by (intro only_rules TrueI)
  show ?thesis unfolding withVolumeAndSnapshot_def by (rule sees_bind_later [OF lock st sees_bind_later [OF lock st rel]])
qed

lemma extends_waitForReadySnapshot: "extends (waitForReadySnapshot E n)"
proof -
  have "extends (readySnapshotLoop k E n)" for k
    by (induction k) (simp_all, (intro only_rules; simp)+)
  then show ?thesis by (simp add: waitForReadySnapshot_def)
qed

lemma sees_CreateSnapshot:
  "sees (\<lambda>r A. \<forall>resp. r = Inr resp \<longrightarrow> (\<exists>s. describes E req resp s
      \<and> EvSnap (KGet (OpenEBSNamespace E) (ToLower (lib E) (SnapReqName req)) (Inr s)) \<in> A)) (CreateSnapshot E C req)"
  (is "sees ?W _")
proof -
  let ?n = "ToLower (lib E) (SnapReqName req)" and ?v = "ToLower (lib E) (SourceVolumeId req)"
  have st: "stable ?W" unfolding stable_def by blast
  have resp: "describes E req resp s" if "snapshotResponse E ?v ?n t s = Inr resp" for t s resp
    using that by (auto simp: snapshotResponse_def describes_def response_defs GetZFSSnapshotCapacity_def
        split: sum.splits if_splits option.splits)
  have get: "sees ?W (goBind (GetZFSSnapshot E ?n) (\<lambda>r. case r of
      Inl e \<Rightarrow> m e | Inr s \<Rightarrow> goRet (snapshotResponse E ?v ?n t s)))"
    if "\<And>e. sees ?W (m e)" for t m
  proof (rule sees_bind [OF sees_GetZFSSnapshot], goal_cases)
    case (1 r A)
    then show ?case using resp sees_more [OF st that, of A] by (cases r) (auto intro!: sees_goRet)
  qed
  have last: "sees ?W (goBind (GetZFSSnapshot E ?n) (\<lambda>r. case r of
      Inl e \<Rightarrow> goRet (Inl (m e)) | Inr s \<Rightarrow> goRet (snapshotResponse E ?v ?n t s)))" for t m
    by (rule get) (rule sees_Inl)
  have wait: "extends (if b then waitForReadySnapshot E ?n else goRet None)" for b
    by (intro only_rules extends_waitForReadySnapshot)
  have put: "extends (ProvisionSnapshot E s)" and vol: "extends (GetZFSVolume E ?v)" for s
    unfolding ProvisionSnapshot_def by (intro only_rules TrueI)+
  have new: "sees ?W (newSnapshot E C req ?v ?n t)" for t
    unfolding newSnapshot_def Let_def
    by (intro sees_bind_later [OF vol st] sees_bind_later [OF put st] sees_bind_later [OF wait st] last
        sees_sum sees_option sees_Inl)
  have verify: "extends (verifySnapshotRequest E req)" and clock: "extends (goAsk (now C))"
    unfolding verifySnapshotRequest_def Let_def by (intro only_rules TrueI)+
  show ?thesis
    unfolding CreateSnapshot_def Let_def
    by (intro sees_bind_later [OF verify st] sees_bind_later [OF clock st] sees_option sees_Inl
        sees_withVolumeAndSnapshot [OF st] get new)
qed

text \<open>A create-snapshot request that succeeds answers for a snapshot object of the requested name that it has read: with
  its readiness, its recorded size, and the identifier made of the volume and the snapshot.\<close>
lemma create_snapshot_sound:
  assumes "CreateSnapshot E C req h = (Some (Inr resp), h')"
  shows "\<exists>s es. h' = h @ es \<and> describes E req resp s
    \<and> EvSnap (KGet (OpenEBSNamespace E) (ToLower (lib E) (SnapReqName req)) (Inr s)) \<in> set es"
  by (rule seesD [OF sees_CreateSnapshot assms]) (blast dest: spec [of _ resp])

lemma racing_run:
  "CreateSnapshot racing plainCtl snapReq [] =
     (Some (Inr \<lparr> SnapshotId = ''v2@s1'', RespSourceVolumeId = ''v2'', SizeBytes = 0, CreationTime = (0, 0), ReadyToUse = False \<rparr>),
      [EvClientset [] None, EvSnap (KGet ''openebs'' ''s1'' (Inl (True, ''not found''))), EvLock ''v2'', EvLock ''s1'',
       EvClientset [] None, EvSnap (KGet ''openebs'' ''s1'' (Inr (demoSnap ''s1''))), EvUnlock ''v2'', EvUnlock ''s1''])"
  by (simp add: CreateSnapshot_def verifySnapshotRequest_def snapReq_def racing_def withVolumeAndSnapshot_def goLock_def
      GetZFSSnapshot_def snap_Get_def kube_Get_def snapKind_def apiAnswer_def go_simps Let_def quiet_defs ToLower_def
      lowerChar_def ascii_def plainCtl_def snapshotResponse_def GetZFSSnapshotCapacity_def response_defs demoSnap_def
      emptySnapshot_def emptyInfo_def extErr_def)

text \<open>
  The source of an existing snapshot is compared before the locks are taken, and not again: the request for a snapshot
  of \<open>v2\<close> is answered with a snapshot that was taken of \<open>v1\<close>.
\<close>

lemma snapshot_of_other_volume:
  "\<exists>resp. fst (CreateSnapshot racing plainCtl snapReq []) = Some (Inr resp) \<and> RespSourceVolumeId resp = ''v2''
     \<and> EvSnap (KGet ''openebs'' ''s1'' (Inr (demoSnap ''s1''))) \<in> set (snd (CreateSnapshot racing plainCtl snapReq []))
     \<and> mget (Labels (demoSnap ''s1'')) ZFSVolKey = ''v1''"
  by (simp add: racing_run demoSnap_def mget_def)

end
