(* ===== verification/Waits.thy ===== *)
theory Waits
  imports ControllerLocks
begin

text \<open>
  The create request always answers: its one loop, the wait for a new volume, ends at the latest when its timer fires,
  and none of its other branches can go wrong. What is assumed of the timer is that it fires within a
  bounded number of turns of the loop; the model observes more turns than that.
\<close>

section \<open>Definitions\<close>

fun isSelect :: "string \<Rightarrow> event \<Rightarrow> bool" where
  "isSelect what (EvSelect w _) \<longleftrightarrow> w = what"
| "isSelect what _ \<longleftrightarrow> False"

text \<open>The turns of a wait so far: since the last write, which starts the timer.\<close>

definition turns :: "string \<Rightarrow> event list \<Rightarrow> nat" where
  "turns what h = length (filter (isSelect what) (takeWhile (\<lambda>e. \<not> isWrite e) (rev h)))"

definition firesWithin :: "env \<Rightarrow> string \<Rightarrow> nat \<Rightarrow> bool" where
  "firesWithin E what n \<longleftrightarrow> (\<forall>h. n \<le> turns what h \<longrightarrow> select E h what \<noteq> Default)"

text \<open>An example: the timer fires in the second turn.\<close>

definition patient :: env where
  "patient = quietEnv\<lparr> cluster := quietCluster\<lparr> volApi := quietApi\<lparr>
       apiGet := (\<lambda>h ns n. if list_ex isVolCreate h then Inr (readyVol\<lparr> State := ZFSStatusPending \<rparr>)
                           else Inl (True, ''not found'')) \<rparr> \<rparr>,
     select := (\<lambda>h what. if turns what h = 0 then Default else TimedOut), polls := 2 \<rparr>"

section \<open>The wait\<close>

lemma turns_snoc: "turns what (h @ [e]) = (if isWrite e then 0 else (if isSelect what e then Suc (turns what h) else turns what h))"
  by (simp add: turns_def)

lemma turns_reads: "list_all (\<lambda>e. \<not> isWrite e \<and> \<not> isSelect what e) es \<Longrightarrow> turns what (h @ es) = turns what h"
proof (induction es rule: rev_induct)
  case (snoc e es)
  then show ?case using turns_snoc [of what "h @ es" e] by simp
qed simp

lemma get_run:
  obtains r es where "GetZFSVolume E n h = (Some r, h @ es)" "list_all (\<lambda>e. \<not> isWrite e \<and> \<not> isSelect what e) es"
proof -
  have "always_returns (GetZFSVolume E n)" unfolding GetZFSVolume_def by (intro returns_rules)
  then obtain r h' where r: "GetZFSVolume E n h = (Some r, h')"
    unfolding always_returns_def by (metis option.exhaust prod.collapse)
  have "only (\<lambda>e. \<not> isWrite e \<and> \<not> isSelect what e) (GetZFSVolume E n)" by (intro only_rules; simp)
  from only_snd [OF this r] obtain es where "h' = h @ es" "list_all (\<lambda>e. \<not> isWrite e \<and> \<not> isSelect what e) es" .
  with r show thesis by (intro that [of r es]) simp_all
qed

lemma checkVolLoop_returns:
  assumes f: "firesWithin E ''volume creation'' n"
  shows "0 < k \<Longrightarrow> (turns ''volume creation'' h \<le> n \<Longrightarrow> n < turns ''volume creation'' h + k) \<Longrightarrow>
    fst (checkVolLoop k E v h) \<noteq> None"
proof (induction k arbitrary: h)
  case (Suc k)
  let ?w = "''volume creation''"
  show ?case
  proof (cases "select E h ?w")
    case Default
    with f have lt: "turns ?w h < n" unfolding firesWithin_def by (meson not_less)
    let ?h = "h @ [EvSelect ?w Default]"
    obtain r es where get: "GetZFSVolume E v ?h = (Some r, ?h @ es)"
      "list_all (\<lambda>e. \<not> isWrite e \<and> \<not> isSelect ?w e) es" by (rule get_run)
    have "turns ?w (?h @ es) = Suc (turns ?w h)" 
      unfolding turns_reads [OF get(2)] by (simp add: turns_snoc)
    with lt Suc.prems have "fst (checkVolLoop k E v (?h @ es)) \<noteq> None" by (intro Suc.IH) auto
    then show ?thesis using Default get by (auto simp: go_simps split: sum.split)
  qed (simp_all add: go_simps)
qed simp

lemma returns_checkVolCreation:
  assumes "firesWithin E ''volume creation'' n" "n < polls E"
  shows "always_returns (checkVolCreation E v)"
  unfolding always_returns_def checkVolCreation_def using checkVolLoop_returns [OF assms(1)] assms(2) by auto

section \<open>The request\<close>

lemma returns_bind_post:
  assumes "always_returns m" "post m Q" "\<And>x. Q x \<Longrightarrow> always_returns (f x)"
  shows "always_returns (goBind m f)"
  unfolding always_returns_def
proof
  fix h
  obtain x h' where x: "m h = (Some x, h')" using assms(1) unfolding always_returns_def by (metis option.exhaust prod.collapse)
  with assms(2) have "Q x" by (rule postD)
  with assms(3) x show "fst (goBind m f h) \<noteq> None" by (auto simp: go_simps always_returns_def)
qed

lemma returns_GetZFSSnapshot [returns_rules]: "always_returns (GetZFSSnapshot E n)"
  and returns_zfs_DeleteVolume [returns_rules]: "always_returns (zfs_DeleteVolume E n)"
  and returns_GetNodeID [returns_rules]: "always_returns (GetNodeID E n)"
  and returns_sendEvent [returns_rules]: "always_returns (sendEventOrIgnore C a b c d)"
  unfolding GetZFSSnapshot_def zfs_DeleteVolume_def GetNodeID_def sendEventOrIgnore_def
  by (intro returns_rules)+

lemma returns_resolvePool [returns_rules]: "always_returns (resolvePool E schd nodeid pattern n)"
  and returns_getNodeMap [returns_rules]: "always_returns (getNodeMap E schd pattern)"
  and returns_getSuitableNodes [returns_rules]: "always_returns (getSuitableNodes E pattern n)"
  unfolding resolvePool_def getNodeMap_def getSuitableNodes_def getPoolMap_def getPoolVolumeMap_def
    getVolumeWeightedMap_def getCapacityWeightedMap_def getSpaceWeightedMap_def listZFSNodes_def listZFSVolumes_def
  by (intro returns_rules)+

lemma returns_candidateNodes [returns_rules]: "always_returns (candidateNodes E C req ps pattern v n)"
  unfolding candidateNodes_def Let_def by (intro returns_rules)

lemma post_candidateNodes: "post (candidateNodes E C req ps pattern v n) (\<lambda>r. \<forall>l. r = Inr l \<longrightarrow> l \<noteq> [])"
  unfolding candidateNodes_def Let_def by (intro post_rules; simp)

lemma post_tryNodes: "nodes \<noteq> [] \<or> err \<noteq> None \<Longrightarrow> post (tryNodes E ps pattern n volObj nodes err) (\<lambda>r. r \<noteq> Inl None)"
  by (induction nodes arbitrary: err) (simp_all, (intro post_rules; simp)+)

lemma returns_ProvisionVolume:
  "firesWithin E ''volume creation'' n \<Longrightarrow> n < polls E \<Longrightarrow> always_returns (ProvisionVolume E vol)"
  unfolding ProvisionVolume_def by (intro returns_rules returns_checkVolCreation)

lemma returns_tryNodes:
  assumes "firesWithin E ''volume creation'' n" "n < polls E"
  shows "always_returns (tryNodes E ps pattern m volObj nodes err)"
  by (induction nodes arbitrary: err) (simp_all, (intro returns_rules returns_ProvisionVolume [OF assms]; simp)+)

lemma returns_provisionOn:
  assumes "firesWithin E ''volume creation'' n" "n < polls E" "nodes \<noteq> []"
  shows "always_returns (provisionOn E ps pattern v size' nodes volObj)"
  unfolding provisionOn_def Let_def
proof (rule returns_bind_post [OF returns_tryNodes [OF assms(1,2)] post_tryNodes])
  show "nodes \<noteq> [] \<or> None \<noteq> None" using assms(3) by simp
qed (auto split: sum.split option.split intro!: returns_rules)

lemma poolParams_ok: "ascii pool \<Longrightarrow> parsePoolParams L pool pattern \<noteq> None"
  using poolname_compiles [of pool L] by (cases "pool = []") (auto simp: parsePoolParams_def split: sum.split)

lemma returns_CreateZFSVolume:
  assumes t: "firesWithin E ''volume creation'' n" "n < polls E" and b: "RequiredBytes req = Some bytes"
    and ps: "ps = caseInsensitiveMap C (VolParameters req)" "map_of ps ''wait'' = None" "ascii (mget ps ''poolname'')"
  shows "always_returns (CreateZFSVolume E C req)"
proof -
  obtain r where r: "parsePoolParams (lib E) (mget ps ''poolname'') (mget ps ''poolpattern'') = Some r"
    using poolParams_ok [OF ps(3)] by fastforce
  have ex: "always_returns (existingVolume E ps v c)" for v c
    unfolding existingVolume_def using ps(2) by (intro returns_rules; simp)
  have new: "always_returns (goBind (candidateNodes E C req ps pattern v m) (\<lambda>r. case r of
       Inl e \<Rightarrow> goRet (Inl e)
     | Inr prfList \<Rightarrow> (case requestedVolume C req ps v c of
          Inl e \<Rightarrow> goRet (Inl (EStatus Internal (errText (lib E) e)))
        | Inr volObj \<Rightarrow> provisionOn E ps pattern v m prfList volObj)))" for pattern v m c
    by (rule returns_bind_post [OF returns_candidateNodes post_candidateNodes])
      (auto split: sum.split intro!: returns_rules returns_provisionOn [OF t])
  show ?thesis
    unfolding CreateZFSVolume_def b Let_def ps(1) [symmetric] r option.case by (intro returns_rules ex new)
qed

lemma returns_clones:
  assumes t: "firesWithin E ''volume creation'' n" "n < polls E" and b: "RequiredBytes req = Some bytes"
    and p: "ascii (insensitiveParameter C (VolParameters req) ''poolname'')"
  shows "always_returns (CreateVolClone E C req srcVol)" "always_returns (CreateSnapClone E C req snapshot)"
proof -
  obtain r where r: "parsePoolParams (lib E) (insensitiveParameter C (VolParameters req) ''poolname'')
      (insensitiveParameter C (VolParameters req) ''poolpattern'') = Some r"
    using poolParams_ok [OF p] by fastforce
  show "always_returns (CreateVolClone E C req srcVol)"
    unfolding CreateVolClone_def b Let_def r option.case by (intro returns_rules returns_ProvisionVolume [OF t])
  show "always_returns (CreateSnapClone E C req snapshot)"
    unfolding CreateSnapClone_def b Let_def r option.case by (intro returns_rules returns_ProvisionVolume [OF t])
qed

lemma withVolume_returns:
  assumes "always_returns m" "\<not> lockedIn v h"
  shows "\<exists>x h'. withVolume v m h = (Some x, h')"
proof -
  obtain x h' where "m (h @ [EvLock v]) = (Some x, h')"
    using assms(1) unfolding always_returns_def by (metis option.exhaust prod.collapse)
  with assms(2) show ?thesis by (simp add: withVolume_def goLock_def go_simps)
qed



end
