(* ===== verification/Capacity.thy ===== *)
theory Capacity
  imports ControllerSafety
begin

text \<open>
  The capacity that the controller reports for a part of the cluster (\<open>GetCapacity\<close> and \<open>filterNodesByTopology\<close> of
  \<open>pkg/driver/controller.go\<close>), against what it means: the largest free space of a matching pool on a node of that
  part, and the same with and without the label index.
\<close>

section \<open>Definitions\<close>

text \<open>
  Caches that do not change during the request: the nodes of the cluster, the ZFS nodes by their key, and the labels that the
  lookup of a node returns. The index, if there is one, and the selector do what the library documents.
\<close>

definition steadyCaches :: "env \<Rightarrow> ctl \<Rightarrow> (string \<times> smap) list \<Rightarrow> (string \<Rightarrow> string + ZFSNode option) \<Rightarrow> (string \<Rightarrow> apierr + smap) \<Rightarrow> bool" where
  "steadyCaches E C nodes cache look \<longleftrightarrow>
     (\<forall>h. k8sNodes C h = nodes) \<and> (\<forall>h key. zfsNodeByKey C h key = cache key) \<and> (\<forall>h n. getNode (cluster E) h n = look n)
     \<and> (\<forall>segs ls. selectorMatches C segs ls \<longleftrightarrow> (\<forall>(k, v)\<in>set segs. map_of ls k = Some v))
     \<and> (\<forall>h v. LabelIndexName (indexedLabel C) \<in> set (nodeIndexers C) \<longrightarrow>
          nodesByIndex C h (LabelIndexName (indexedLabel C)) v
          = Inr (filter (\<lambda>(n, ls). v \<in> set (LabelIndexFunc (indexedLabel C) ls)) nodes))"

text \<open>The names of the nodes that have every label of the segment.\<close>

definition segmentNodes :: "(string \<times> smap) list \<Rightarrow> smap \<Rightarrow> string list" where
  "segmentNodes nodes segments = map fst (filter (\<lambda>(n, ls). \<forall>(k, v)\<in>set segments. map_of ls k = Some v) nodes)"

text \<open>The ZFS node of a Kubernetes node: the key has the value of the topology label, or the name without one.\<close>

definition zfsNodeOf :: "env \<Rightarrow> (string \<Rightarrow> string + ZFSNode option) \<Rightarrow> (string \<Rightarrow> apierr + smap) \<Rightarrow> string \<Rightarrow> ZFSNode option" where
  "zfsNodeOf E cache look name =
     (let nodeid = (case look name of Inl _ \<Rightarrow> name | Inr ls \<Rightarrow> (case map_of ls ZFSTopologyKey of None \<Rightarrow> name | Some v \<Rightarrow> v))
      in case cache (OpenEBSNamespace E @ ''/'' @ nodeid) of Inr (Some z) \<Rightarrow> Some z | _ \<Rightarrow> None)"

definition matchingPools :: "env \<Rightarrow> (string \<Rightarrow> string + ZFSNode option) \<Rightarrow> (string \<Rightarrow> apierr + smap) \<Rightarrow> matcher \<Rightarrow> string list \<Rightarrow> Pool set" where
  "matchingPools E cache look pattern names =
     {p. \<exists>n\<in>set names. \<exists>z. zfsNodeOf E cache look n = Some z \<and> p \<in> set (Pools z) \<and> pattern (PoolNodeName p)}"

text \<open>A cluster with one node in the zone \<open>a\<close>, with an index on the zone.\<close>

definition zoneCtl :: ctl where
  "zoneCtl = plainCtl\<lparr> indexedLabel := ''zone'', nodeIndexers := [''l:zone''],
     k8sNodes := (\<lambda>h. [(''worker'', [(''zone'', ''a'')]), (''other'', [(''zone'', ''b'')])]),
     nodesByIndex := (\<lambda>h i v. Inr (filter (\<lambda>(n, ls). map_of ls ''zone'' = Some v)
        [(''worker'', [(''zone'', ''a'')]), (''other'', [(''zone'', ''b'')])])),
     zfsNodeByKey := (\<lambda>h k. if k = ''openebs/worker'' then Inr (Some demoNode) else Inr None) \<rparr>"

section \<open>The nodes of a segment\<close>

lemma segment_indexed:
  assumes "map_of segments label = Some v"
  shows "segmentNodes (filter (\<lambda>(n, ls). v \<in> set (LabelIndexFunc label ls)) nodes) segments = segmentNodes nodes segments"
proof -
  have "v \<in> set (LabelIndexFunc label ls)" if "\<forall>(k, v)\<in>set segments. map_of ls k = Some v" for ls
    using that map_of_SomeD [OF assms] by (auto simp: LabelIndexFunc_def)
  then show ?thesis by (auto simp: segmentNodes_def intro!: arg_cong [where f = "map fst"] filter_cong)
qed

text \<open>With the index or without it, the filter returns exactly the nodes of the segment.\<close>

lemma filterNodesByTopology_exact:
  assumes "steadyCaches E C nodes cache look"
  shows "filterNodesByTopology C segments h = (Some (Inr (segmentNodes nodes segments)), h)"
proof -
  have f: "filterNodes C segments vs = segmentNodes vs segments" for vs
    using assms by (simp add: filterNodes_def segmentNodes_def steadyCaches_def)
  have caches: "k8sNodes C h = nodes" "LabelIndexName (indexedLabel C) \<in> set (nodeIndexers C) \<Longrightarrow>
      nodesByIndex C h (LabelIndexName (indexedLabel C)) v = Inr (filter (\<lambda>(n, ls). v \<in> set (LabelIndexFunc (indexedLabel C) ls)) nodes)" for h v
    using assms by (simp_all add: steadyCaches_def)
  show ?thesis
  proof (cases "segments = []")
    case True
    have "filter (\<lambda>(n, ls). True) nodes = nodes" by (simp add: case_prod_beta)
    then show ?thesis by (simp add: True filterNodesByTopology_def go_simps caches segmentNodes_def)
  next
    case False
    then show ?thesis
      by (cases "map_of segments (indexedLabel C)") (simp_all add: filterNodesByTopology_def Let_def go_simps f caches segment_indexed)
  qed
qed

section \<open>The roomiest node\<close>

lemma max_maxFreePool:
  assumes "namedPools pools" "0 \<le> a"
  shows "max a (snd (maxFreePool pools pattern)) = Max (insert a (Free ` {p \<in> set pools. pattern (PoolNodeName p)}))"
proof (cases "\<exists>p\<in>set pools. pattern (PoolNodeName p)")
  case True
  then obtain p where p: "p \<in> set pools" "pattern (PoolNodeName p)" by blast
  then have "Free ` {p \<in> set pools. pattern (PoolNodeName p)} \<noteq> {}" by blast
  then show ?thesis using maxFreePool_Max(2) [where pattern = pattern, OF assms(1) p] by simp
next
  case False
  then have none: "Free ` {p \<in> set pools. pattern (PoolNodeName p)} = {}" by blast
  show ?thesis unfolding none using maxFreePool_none [of pools pattern] False assms(2) by (simp add: max_def)
qed

lemma matchingPools_Cons:
  "matchingPools E cache look pattern (n # ns) =
     (case zfsNodeOf E cache look n of None \<Rightarrow> {} | Some z \<Rightarrow> {p \<in> set (Pools z). pattern (PoolNodeName p)})
     \<union> matchingPools E cache look pattern ns"
  by (auto simp: matchingPools_def split: option.split)

lemma matchingPools_finite [simp]: "finite (matchingPools E cache look pattern ns)"
  by (induction ns) (auto simp: matchingPools_Cons split: option.split, simp add: matchingPools_def)

lemma roomiestNode_exact:
  assumes "steadyCaches E C nodes cache look" "\<forall>n z. zfsNodeOf E cache look n = Some z \<longrightarrow> namedPools (Pools z)" "0 \<le> a"
  shows "fst (roomiestNode E C pattern names a h) = Some (Max (insert a (Free ` matchingPools E cache look pattern names)))"
  using assms(3)
proof (induction names arbitrary: a h)
  case Nil
  then show ?case by (simp add: matchingPools_def go_simps)
next
  case (Cons n names)
  let ?M = "\<lambda>ns. Free ` matchingPools E cache look pattern ns"
  define a' where "a' = (case zfsNodeOf E cache look n of None \<Rightarrow> a | Some z \<Rightarrow> max a (snd (maxFreePool (Pools z) pattern)))"
  have a': "0 \<le> a'" using Cons.prems by (simp add: a'_def le_max_iff_disj split: option.split)
  have "fst (roomiestNode E C pattern (n # names) a h) = fst (roomiestNode E C pattern names a' (h @ [EvGetNode n (look n)]))"
    using assms(1)
    by (auto simp: GetNodeID_def go_simps Let_def steadyCaches_def a'_def zfsNodeOf_def max_def split: sum.split option.split)
  also have "\<dots> = Some (Max (insert a' (?M names)))" by (rule Cons.IH [OF a'])
  also have "Max (insert a' (?M names)) = Max (insert a (?M (n # names)))"
  proof (cases "zfsNodeOf E cache look n")
    case (Some z)
    let ?P = "Free ` {p \<in> set (Pools z). pattern (PoolNodeName p)}"
    have "a' = Max (insert a ?P)" using max_maxFreePool [of "Pools z" a pattern] assms(2) Cons.prems Some by (simp add: a'_def)
    moreover have "Max (insert (Max (insert a ?P)) (?M names)) = Max (insert a ?P \<union> ?M names)"
      by (cases "?M names = {}") (simp, subst Max_Un, simp_all only: Max_insert, simp_all)
    ultimately have "Max (insert a' (?M names)) = Max (insert a ?P \<union> ?M names)" by simp
    also have "insert a ?P \<union> ?M names = insert a (?M (n # names))" by (simp add: matchingPools_Cons Some image_Un)
    finally show ?thesis .
  qed (simp add: matchingPools_Cons a'_def)
  finally show ?case .
qed

text \<open>C40: The capacity that is reported for a segment of the cluster is exact: it is the largest free space of a pool that the
  storage class allows, on a node that has every label of the segment, and 0 if there is none. It does not depend on whether
  the nodes are found through the label index. The caches do not change during the request, and pools have names.\<close>

theorem capacity_exact:
  assumes "steadyCaches E C nodes cache look" "\<forall>n z. zfsNodeOf E cache look n = Some z \<longrightarrow> namedPools (Pools z)"
    and "parsePoolParams (lib E) (insensitiveParameter C params ''poolname'') (insensitiveParameter C params ''poolpattern'')
      = Some (Inr pattern)"
  shows "fst (GetCapacity E C topology params h) =
    Some (Inr (Max (insert 0 (Free ` matchingPools E cache look pattern
      (segmentNodes nodes (case topology of None \<Rightarrow> [] | Some segments \<Rightarrow> segments))))))"
proof -
  let ?names = "segmentNodes nodes (case topology of None \<Rightarrow> [] | Some segments \<Rightarrow> segments)"
  have "fst (roomiestNode E C pattern ?names 0 h) = Some (Max (insert 0 (Free ` matchingPools E cache look pattern ?names)))"
    by (rule roomiestNode_exact [OF assms(1,2)]) simp
  then obtain h' where
    "roomiestNode E C pattern ?names 0 h = (Some (Max (insert 0 (Free ` matchingPools E cache look pattern ?names))), h')"
    by (metis prod.collapse)
  then show ?thesis
    by (simp add: GetCapacity_def Let_def go_simps filterNodesByTopology_exact [OF assms(1)] assms(3))
qed

theorem capacity_exact_witness:
  "fst (GetCapacity quietEnv zoneCtl (Some [(''zone'', ''a'')]) [(''poolname'', ''zfspv-b'')] []) = Some (Inr 50)"
proof -
  let ?nodes = "[(''worker'', [(''zone'', ''a'')]), (''other'', [(''zone'', ''b'')])]"
  let ?cache = "\<lambda>k. if k = ''openebs/worker'' then Inr (Some demoNode) else Inr None"
  let ?look = "\<lambda>n. getNode (cluster quietEnv) [] n"
  obtain pattern where p: "parsePoolParams quietLib ''zfspv-b'' [] = Some (Inr pattern)" "\<And>s. ascii s \<Longrightarrow> pattern s \<longleftrightarrow> s = ''zfspv-b''"
    using rxe.exact [of "''zfspv-b''" quietLib] by (auto simp: parsePoolParams_def poolRoot_def ascii_def)
  have caches: "steadyCaches quietEnv zoneCtl ?nodes ?cache (\<lambda>n. getNode (cluster quietEnv) [] n)"
    by (auto simp: steadyCaches_def zoneCtl_def plainCtl_def LabelIndexName_def LabelIndexFunc_def quietEnv_def quietCluster_def
      list_all_iff split: option.split)
  have named: "\<forall>n z. zfsNodeOf quietEnv ?cache (\<lambda>n. getNode (cluster quietEnv) [] n) n = Some z \<longrightarrow> namedPools (Pools z)"
    by (auto simp: zfsNodeOf_def Let_def demo_sched split: if_splits)
  have "matchingPools quietEnv ?cache ?look pattern [''worker''] = {demoPools ! 1}"
    by (auto simp: matchingPools_def zfsNodeOf_def Let_def p(2) ascii_def demo_sched quietEnv_def quietCluster_def)
  moreover have "segmentNodes ?nodes [(''zone'', ''a'')] = [''worker'']" by (simp add: segmentNodes_def)
  ultimately show ?thesis
    using capacity_exact [where params = "[(''poolname'', ''zfspv-b'')]" and pattern = pattern and h = "[]"
      and topology = "Some [(''zone'', ''a'')]", OF caches named] p(1)
    by (simp add: zoneCtl_def plainCtl_def mget_def quietEnv_def demoPools_def)
qed

end
