(* ===== verification/Mount.thy ===== *)
theory Mount
  imports ZfsUtil Traces
begin

text \<open>
  \<open>pkg/zfs/mount.go\<close> and \<open>pkg/zfs/formatoptions.go\<close>: how the node agent mounts a volume at a path and
  unmounts it again, and which options a file system is made with. The mount library and the operating system are
  the functions of \<open>host\<close>.
\<close>

section \<open>Format options\<close>

abbreviation "fsTypeDefault \<equiv> ''ext4''"

definition formattableFsTypes :: "string list" where
  "formattableFsTypes = [''ext2'', ''ext3'', ''ext4'', ''xfs'', ''btrfs'']"

fun formatEntries :: "lib \<Rightarrow> string list \<Rightarrow> (string \<times> string list) list \<Rightarrow> gerror + (string \<times> string list) list" where
  "formatEntries L [] options = Inr options"
| "formatEntries L (entry # entries) options =
     (let (before, val, found) = cut (CHR ''='') entry in
      if \<not> found then
        Inl (EText (''format options '' @ Quote L entry @ '' are not in the <fstype>=<options> form''))
      else
        let fstype = ToLower L (TrimSpace before) in
        if fstype \<notin> set formattableFsTypes then
          Inl (EText (''format options '' @ Quote L entry @ '' are for '' @ Quote L fstype
            @ '', which is not one of the formatted filesystems''))
        else formatEntries L entries
               (if length (Fields val) > 0 then AList.update fstype (Fields val) options else options))"

text \<open>The result is the error and the node's format options afterwards.\<close>

definition SetDefaultFormatOptions :: "env \<Rightarrow> string list \<Rightarrow> gerror option \<times> env" where
  "SetDefaultFormatOptions E entries =
     (case formatEntries (lib E) entries [] of
        Inl e \<Rightarrow> (Some e, E)
      | Inr options \<Rightarrow> (None, E\<lparr> defaultFormatOptions := options \<rparr>))"

definition FormatOptions :: "env \<Rightarrow> string \<Rightarrow> string \<Rightarrow> string list" where
  "FormatOptions E fstype scOptions =
     (let options = Fields scOptions in
      if length options > 0 then options
      else
        let fs = ToLower (lib E) (TrimSpace fstype);
            fs' = (if fs = [] then fsTypeDefault else fs)
        in case map_of (defaultFormatOptions E) fs' of None \<Rightarrow> [] | Some os \<Rightarrow> os)"

section \<open>Mounting\<close>

record MountInfo =
  FSType :: string
  AccessModes :: "string list"
  MountPath :: string
  MountOptions :: "string list"
  MountFormatOptions :: "string list"

text \<open>\<open>filepath.Clean\<close> on a Unix system.\<close>

fun cleanParts :: "bool \<Rightarrow> string list \<Rightarrow> string list \<Rightarrow> string list" where
  "cleanParts rooted out [] = rev out"
| "cleanParts rooted out (p # ps) =
     (if p = [] \<or> p = ''.'' then cleanParts rooted out ps
      else if p = ''..'' then
        (if out \<noteq> [] \<and> hd out \<noteq> ''..'' then cleanParts rooted (tl out) ps
         else if rooted then cleanParts rooted out ps
         else cleanParts rooted (p # out) ps)
      else cleanParts rooted (p # out) ps)"

definition Clean :: "string \<Rightarrow> string" where
  "Clean path =
     (let rooted = HasPrefix path ''/''; s = joinWith ''/'' (cleanParts rooted [] (splitOn (CHR ''/'') path))
      in if rooted then ''/'' @ s else if s = [] then ''.'' else s)"

definition isBrokenMount :: "env \<Rightarrow> string \<Rightarrow> bool go" where
  "isBrokenMount E mountPath =
     goBind (goCall (\<lambda>h. stat (host E) h mountPath) (EvStat mountPath)) (\<lambda>st.
     goRet (case st of StatOk \<Rightarrow> False | StatErr eio _ \<Rightarrow> eio))"

definition makeFile :: "env \<Rightarrow> string \<Rightarrow> gerror option go" where
  "makeFile E pathname =
     goBind (goCall (\<lambda>h. openFile (host E) h (Clean pathname)) (EvOpenFile (Clean pathname))) (\<lambda>err.
     goRet (case err of
              None \<Rightarrow> None
            | Some (isExist, t) \<Rightarrow> if isExist then None else Some (EApi False t)))"

definition FormatAndMountZvol :: "env \<Rightarrow> string \<Rightarrow> MountInfo \<Rightarrow> gerror option go" where
  "FormatAndMountZvol E devicePath mountInfo =
     goBind (goCall (\<lambda>h. formatAndMount (host E) h devicePath (MountPath mountInfo) (FSType mountInfo)
                           (MountOptions mountInfo) (MountFormatOptions mountInfo))
               (EvFormatAndMount devicePath (MountPath mountInfo) (FSType mountInfo)
                           (MountOptions mountInfo) (MountFormatOptions mountInfo)))
       (\<lambda>err. goRet (sysErr err))"

text \<open>\<open>UmountVolume\<close> once the path is known to be mounted.\<close>

definition unmountPath :: "env \<Rightarrow> ZFSVolume \<Rightarrow> string \<Rightarrow> gerror option go" where
  "unmountPath E vol targetPath =
     goBind (goCall (\<lambda>h. unmount (host E) h targetPath) (EvUnmount targetPath)) (\<lambda>err. case err of
       Some t \<Rightarrow> goRet (Some (EApi False t))
     | None \<Rightarrow>
         goBind (SetDatasetLegacyMount E vol) (\<lambda>_.
         goBind (goCall (\<lambda>h. remove (host E) h targetPath) (EvRemove targetPath)) (\<lambda>_.
         goRet None)))"

definition UmountVolume :: "env \<Rightarrow> ZFSVolume \<Rightarrow> string \<Rightarrow> gerror option go" where
  "UmountVolume E vol targetPath =
     goBind (goCall (\<lambda>h. deviceNameFromMount (host E) h targetPath) (EvDeviceName targetPath)) (\<lambda>r. case r of
       Inl t \<Rightarrow> goRet (Some (EApi False t))
     | Inr (dev, ref) \<Rightarrow>
         if length dev = 0 \<or> ref = 0 then goRet None
         else goBind (goCall (\<lambda>h. pathExists (host E) h targetPath) (EvPathExists targetPath)) (\<lambda>r. case r of
             Inl pathErr \<Rightarrow>
               goBind (isBrokenMount E targetPath) (\<lambda>broken.
               if \<not> broken then goRet (Some (EText (''Error checking if path exists: '' @ pathErr)))
               else unmountPath E vol targetPath)
           | Inr pathExists' \<Rightarrow>
               if \<not> pathExists' then goRet None else unmountPath E vol targetPath))"

definition verifyMountRequest :: "env \<Rightarrow> ZFSVolume \<Rightarrow> string \<Rightarrow> (gerror + bool) go" where
  "verifyMountRequest E vol mountpath =
     (if length mountpath = 0 then
        goRet (Inl (EStatus InvalidArgument ''verifyMount: mount path missing in request''))
      else if length (OwnerNodeID (Spec vol)) > 0 \<and> OwnerNodeID (Spec vol) \<noteq> NodeID E then
        goRet (Inl (EStatus Internal ''verifyMount: volume is owned by different node''))
      else if \<not> IsVolumeReady vol then
        goRet (Inl (EStatus Internal ''verifyMount: volume is not ready to be mounted''))
      else goBind (GetVolumeDevPath E vol) (\<lambda>r. case r of
        Inl e \<Rightarrow> goRet (Inl (EStatus Internal (''verifyMount: GetVolumePath failed '' @ errText (lib E) e)))
      | Inr devicePath \<Rightarrow>
          goBind (goCall (\<lambda>h. getMounts (host E) h devicePath) (EvMounts devicePath)) (\<lambda>r. case r of
            Inl t \<Rightarrow> goRet (Inl (EStatus Internal (''verifyMount: Getmounts failed '' @ t)))
          | Inr currentMounts \<Rightarrow>
              if length currentMounts \<ge> 1 then
                (if list_ex (\<lambda>mp. mp = mountpath) currentMounts then goRet (Inr True)
                 else if Shared (Spec vol) \<noteq> ''yes'' then
                   goRet (Inl (EStatus Internal (''verifyMount: device already mounted at [''
                     @ joinWith '' '' currentMounts @ '']'')))
                 else goRet (Inr False))
              else goRet (Inr False))))"

definition MountZvol :: "env \<Rightarrow> ZFSVolume \<Rightarrow> MountInfo \<Rightarrow> gerror option go" where
  "MountZvol E vol mnt =
     goBind (verifyMountRequest E vol (MountPath mnt)) (\<lambda>r. case r of
       Inl e \<Rightarrow> goRet (Some e)
     | Inr mounted \<Rightarrow>
         if mounted then goRet None
         else goBind (FormatAndMountZvol E (ZFSDevPath @ volumePath vol) mnt) (\<lambda>err. case err of
             Some _ \<Rightarrow> goRet (Some (EStatus Internal ''not able to format and mount the zvol''))
           | None \<Rightarrow> goRet None))"

definition mountArgs :: "ZFSVolume \<Rightarrow> MountInfo \<Rightarrow> string list" where
  "mountArgs vol mnt =
     [''-o'', concat (map (\<lambda>option. option @ '','') (MountOptions mnt)), ''-t'', ''zfs'', volumePath vol, MountPath mnt]"

definition MountDataset :: "env \<Rightarrow> ZFSVolume \<Rightarrow> MountInfo \<Rightarrow> gerror option go" where
  "MountDataset E vol mnt =
     goBind (verifyMountRequest E vol (MountPath mnt)) (\<lambda>r. case r of
       Inl e \<Rightarrow> goRet (Some e)
     | Inr mounted \<Rightarrow>
         if mounted then goRet None
         else goBind (GetVolumeProperty E vol ''mountpoint'') (\<lambda>r. case r of
             Inl e \<Rightarrow> goRet (Some e)
           | Inr val \<Rightarrow>
               if val = ''legacy'' then
                 goBind (runExec E ''mount'' (mountArgs vol mnt)) (\<lambda>(out, err). case err of
                   Some _ \<Rightarrow> goRet (Some (EStatus Internal (''dataset: mount failed err : '' @ out)))
                 | None \<Rightarrow> goRet None)
               else
                 goBind (MountZFSDataset E vol (MountPath mnt)) (\<lambda>err. case err of
                   Some e \<Rightarrow> goRet (Some (EStatus Internal (''zfs: mount failed err : '' @ errText (lib E) e)))
                 | None \<Rightarrow> goRet None)))"

definition MountFilesystem :: "env \<Rightarrow> ZFSVolume \<Rightarrow> MountInfo \<Rightarrow> gerror option go" where
  "MountFilesystem E vol mnt =
     goBind (goCall (\<lambda>h. mkdirAll (host E) h (MountPath mnt)) (EvMkdirAll (MountPath mnt))) (\<lambda>err.
     goBind (case err of None \<Rightarrow> goRet True | Some _ \<Rightarrow> isBrokenMount E (MountPath mnt)) (\<lambda>proceed.
       if \<not> proceed then
         goRet (Some (EStatus Internal (''Could not create dir {'' @ Quote (lib E) (MountPath mnt) @ ''}, err: ''
           @ (case err of None \<Rightarrow> [] | Some t \<Rightarrow> t))))
       else if VolumeType (Spec vol) = VolTypeDataset then MountDataset E vol mnt
       else MountZvol E vol mnt))"

definition MountBlock :: "env \<Rightarrow> ZFSVolume \<Rightarrow> MountInfo \<Rightarrow> gerror option go" where
  "MountBlock E vol mountinfo =
     (let target = MountPath mountinfo; devicePath = ZFSDevPath @ volumePath vol in
      goBind (makeFile E target) (\<lambda>err. case err of
        Some e \<Rightarrow> goRet (Some (EStatus Internal (''Could not create target file '' @ Quote (lib E) target @ '': ''
                    @ errText (lib E) e)))
      | None \<Rightarrow>
          goBind (goCall (\<lambda>h. mount (host E) h devicePath target [] [''bind'']) (EvMount devicePath target [] [''bind'']))
            (\<lambda>err. case err of
               None \<Rightarrow> goRet None
             | Some t \<Rightarrow>
                 goBind (goCall (\<lambda>h. remove (host E) h target) (EvRemove target)) (\<lambda>rerr. case rerr of
                   Some removeErr \<Rightarrow> goRet (Some (EStatus Internal (''Could not remove mount target '' @ Quote (lib E) target
                     @ '': '' @ removeErr)))
                 | None \<Rightarrow> goRet (Some (EStatus Internal (''mount failed at '' @ target @ '' err : '' @ t)))))))"

section \<open>Guards\<close>

text \<open>
  What has to be known before a file system is mounted: the volume is ready and not another node's, and the
  mounts of its device were listed, with the path not among them and none at all unless the volume is shared.
\<close>

definition mountable :: "env \<Rightarrow> ZFSVolume \<Rightarrow> string \<Rightarrow> event set \<Rightarrow> bool" where
  "mountable E vol path A \<longleftrightarrow>
     path \<noteq> [] \<and> (OwnerNodeID (Spec vol) = [] \<or> OwnerNodeID (Spec vol) = NodeID E) \<and> IsVolumeReady vol
     \<and> (\<exists>dev ms. EvMounts dev (Inr ms) \<in> A \<and> path \<notin> set ms \<and> (ms = [] \<or> Shared (Spec vol) = ''yes'')
          \<and> (if VolumeType (Spec vol) = VolTypeDataset then dev = volumePath vol
             else EvSymlinks (ZFSDevPath @ volumePath vol) (Inr dev) \<in> A))"

text \<open>
  While a volume is published: commands are run and a file system is mounted only when that is known; a
  device is bound to the path as it is, and the path is removed only if that failed.
\<close>

definition mountGuard :: "env \<Rightarrow> ZFSVolume \<Rightarrow> string \<Rightarrow> event \<Rightarrow> event list \<Rightarrow> bool" where
  "mountGuard E vol path e a \<longleftrightarrow>
     (case e of
        EvFormatAndMount d p f os fos r \<Rightarrow> d = ZFSDevPath @ volumePath vol \<and> p = path \<and> mountable E vol path (set a)
      | EvExec c as r \<Rightarrow> mountable E vol path (set a)
      | EvMount d p f os r \<Rightarrow> d = ZFSDevPath @ volumePath vol \<and> p = path \<and> os = [''bind'']
      | EvRemove p r \<Rightarrow> p = path \<and> (\<exists>t. EvMount (ZFSDevPath @ volumePath vol) path [] [''bind''] (Some t) \<in> set a)
      | EvUnmount p r \<Rightarrow> False
      | EvStart c as r \<Rightarrow> False
      | EvVol k \<Rightarrow> False
      | EvSnap k \<Rightarrow> False
      | _ \<Rightarrow> True)"

text \<open>
  While a volume is unpublished: the path is unmounted only if something is mounted there; it is removed, and the
  dataset is touched, only after it was unmounted.
\<close>

definition umountGuard :: "string \<Rightarrow> event \<Rightarrow> event list \<Rightarrow> bool" where
  "umountGuard path e a \<longleftrightarrow>
     (case e of
        EvUnmount p r \<Rightarrow> p = path \<and> (\<exists>dev ref. EvDeviceName path (Inr (dev, ref)) \<in> set a \<and> dev \<noteq> [] \<and> ref \<noteq> 0)
      | EvRemove p r \<Rightarrow> p = path \<and> EvUnmount path None \<in> set a
      | EvExec c as r \<Rightarrow> EvUnmount path None \<in> set a
      | EvMount d p f os r \<Rightarrow> False
      | EvFormatAndMount d p f os fos r \<Rightarrow> False
      | EvStart c as r \<Rightarrow> False
      | EvVol k \<Rightarrow> False
      | EvSnap k \<Rightarrow> False
      | _ \<Rightarrow> True)"

section \<open>Rules\<close>

lemma mountableI:
  assumes "path \<noteq> []" "\<not> (length (OwnerNodeID (Spec vol)) > 0 \<and> OwnerNodeID (Spec vol) \<noteq> NodeID E)" "IsVolumeReady vol"
    and "path \<notin> set ms" "ms = [] \<or> Shared (Spec vol) = ''yes''"
    and "if VolumeType (Spec vol) = VolTypeDataset then dev = volumePath vol
         else EvSymlinks (ZFSDevPath @ volumePath vol) (Inr dev) \<in> A"
  shows "mountable E vol path (insert (EvMounts dev (Inr ms)) A)"
  using assms unfolding mountable_def by (simp split: if_splits) blast+

lemma mountable_mono: "mountable E vol path A \<Longrightarrow> A \<subseteq> B \<Longrightarrow> mountable E vol path B"
  unfolding mountable_def by (simp split: if_splits) blast+

lemma keeps_bind_verify [keeps_rules]:
  assumes G: "\<And>d r. free G (EvSymlinks d r)" "\<And>d r. free G (EvMounts d r)"
    and err: "\<And>F' e. F \<subseteq> F' \<Longrightarrow> keeps G h0 F' (f (Inl e)) Q R"
    and mounted: "\<And>F'. F \<subseteq> F' \<Longrightarrow> keeps G h0 F' (f (Inr True)) Q R"
    and ok: "\<And>F'. F \<subseteq> F' \<Longrightarrow> mountable E vol path F' \<Longrightarrow> keeps G h0 F' (f (Inr False)) Q R"
  shows "keeps G h0 F (goBind (verifyMountRequest E vol path) f) Q R"
  unfolding verifyMountRequest_def GetVolumeDevPath_def
  using G unfolding free_def
  by (intro keeps_rules; (auto simp: list_ex_eq Suc_le_eq intro!: err mounted ok mountableI; fail)?)

lemma keeps_MountZvol:
  "keeps (mountGuard E vol (MountPath mnt)) h F (MountZvol E vol mnt) (\<lambda>_. {}) (\<lambda>_. True)"
  unfolding MountZvol_def FormatAndMountZvol_def
  by (intro keeps_rules; (auto simp: mountGuard_def free_def elim: mountable_mono; fail)?)

lemma keeps_MountDataset:
  "keeps (mountGuard E vol (MountPath mnt)) h F (MountDataset E vol mnt) (\<lambda>_. {}) (\<lambda>_. True)"
proof -
  let ?P = "\<lambda>e. case e of EvExec c as r \<Rightarrow> True | EvPanic w \<Rightarrow> True | _ \<Rightarrow> False"
  have dataset: "keeps (mountGuard E vol (MountPath mnt)) h F' m (\<lambda>_. {}) (\<lambda>_. True)"
    if "mountable E vol (MountPath mnt) F'" "only ?P m" for F' and m :: "gerror option go"
    by (rule keeps_while [OF _ that(2)])
      (auto simp: mountGuard_def intro: mountable_mono [OF that(1)] split: event.splits)
  show ?thesis
    unfolding MountDataset_def MountZFSDataset_def SetDatasetMountProp_def GetVolumeProperty_def
    by (intro keeps_rules; (rule dataset, assumption, (intro only_rules; simp); fail)?)
      (auto simp: mountGuard_def free_def)
qed

lemma keeps_MountFilesystem:
  "keeps (mountGuard E vol (MountPath mnt)) h F (MountFilesystem E vol mnt) (\<lambda>_. {}) (\<lambda>_. True)"
  unfolding MountFilesystem_def isBrokenMount_def
  by (intro keeps_rules keeps_MountDataset keeps_MountZvol) (simp_all add: mountGuard_def)

lemma keeps_MountBlock:
  "keeps (mountGuard E vol (MountPath mnt)) h F (MountBlock E vol mnt) (\<lambda>_. {}) (\<lambda>_. True)"
  unfolding MountBlock_def makeFile_def Let_def
  by (intro keeps_rules; (auto simp: mountGuard_def; fail)?)

lemma keeps_UmountVolume: "keeps (umountGuard path) h {} (UmountVolume E vol path) (\<lambda>_. {}) (\<lambda>_. True)"
proof -
  let ?P = "\<lambda>e. case e of EvExec c as r \<Rightarrow> True | EvPanic w \<Rightarrow> True | _ \<Rightarrow> False"
  have legacy: "only ?P (SetDatasetLegacyMount E vol)"
    unfolding SetDatasetLegacyMount_def GetVolumeProperty_def SetDatasetMountProp_def by (intro only_rules; simp)
  have rest: "keeps (umountGuard path) h F (goBind (SetDatasetLegacyMount E vol) (\<lambda>_.
         goBind (goCall (\<lambda>h. remove (host E) h path) (EvRemove path)) (\<lambda>_. goRet None))) (\<lambda>_. {}) (\<lambda>_. True)"
    if "EvUnmount path None \<in> F" for F
  proof (rule keeps_goBind)
    show "keeps (umountGuard path) h F (SetDatasetLegacyMount E vol) (\<lambda>_. {}) (\<lambda>_. True)"
      by (rule keeps_while [OF _ legacy]) (use that in \<open>auto simp: umountGuard_def split: event.splits\<close>)
  qed (use that in \<open>intro keeps_rules; auto simp: umountGuard_def\<close>)
  show ?thesis
    unfolding UmountVolume_def unmountPath_def isBrokenMount_def
    by (intro keeps_rules rest; (auto simp: umountGuard_def; fail)?)
qed

end
