(* ===== verification/Agent.thy ===== *)
theory Agent
  imports Mount Csi
begin

text \<open>
  \<open>pkg/driver/agent.go\<close>: the node service. It publishes a volume at a path, takes it back, resizes it, and reports the
  topology of the node and the usage of a volume. \<open>Nodename\<close> is the node name of the driver's configuration.
\<close>

section \<open>Requests\<close>

text \<open>The access type of a volume capability; a capability may come without one.\<close>

datatype accessType = BlockAccess | MountAccess string "string list" | NoAccess

record NodePublishVolumeRequest =
  PubVolumeId :: string
  PubTargetPath :: string
  PubReadonly :: bool
  PubContext :: smap
  PubCapability :: "accessType option"

datatype usageUnit = BYTES | INODES

record VolumeUsage =
  Unit :: usageUnit
  Total :: int64
  Used :: int64
  Available :: int64

section \<open>Publishing\<close>

definition GetVolAndMountInfo :: "env \<Rightarrow> NodePublishVolumeRequest \<Rightarrow> (gerror + ZFSVolume \<times> MountInfo) go" where
  "GetVolAndMountInfo E req =
     (let fstype = (case PubCapability req of Some (MountAccess f _) \<Rightarrow> f | _ \<Rightarrow> []);
          flags = (case PubCapability req of Some (MountAccess _ fs) \<Rightarrow> fs | _ \<Rightarrow> []);
          mountinfo = \<lparr> FSType = fstype, AccessModes = [], MountPath = PubTargetPath req,
            MountOptions = flags @ (if PubReadonly req then [''ro''] else []),
            MountFormatOptions = FormatOptions E fstype (mget (PubContext req) FormatOptionsKey) \<rparr>;
          volName = ToLower (lib E) (PubVolumeId req)
      in goBind (asOwn E (vol_Get E volName)) (\<lambda>r. case r of
           Inl e \<Rightarrow> goRet (Inl e)
         | Inr vol \<Rightarrow> goRet (Inr (vol, mountinfo))))"

definition validateNodePublishReq :: "NodePublishVolumeRequest \<Rightarrow> gerror option" where
  "validateNodePublishReq req =
     (if PubCapability req = None then Some (EStatus InvalidArgument ''Volume capability missing in request'')
      else if length (PubVolumeId req) = 0 then Some (EStatus InvalidArgument ''Volume ID missing in request'')
      else None)"

definition validateNodeUnpublishReq :: "string \<Rightarrow> string \<Rightarrow> gerror option" where
  "validateNodeUnpublishReq volumeID targetPath =
     (if volumeID = [] then Some (EStatus InvalidArgument ''Volume ID missing in request'')
      else if targetPath = [] then Some (EStatus InvalidArgument ''Target path missing in request'')
      else None)"

definition NodePublishVolume :: "env \<Rightarrow> NodePublishVolumeRequest \<Rightarrow> gerror option go" where
  "NodePublishVolume E req =
     (case validateNodePublishReq req of
        Some e \<Rightarrow> goRet (Some e)
      | None \<Rightarrow> goBind (GetVolAndMountInfo E req) (\<lambda>r. case r of
          Inl e \<Rightarrow> goRet (Some (EStatus Internal (errText (lib E) e)))
        | Inr (vol, mountInfo) \<Rightarrow>
            goBind (case PubCapability req of
                      Some BlockAccess \<Rightarrow> MountBlock E vol mountInfo
                    | Some (MountAccess _ _) \<Rightarrow> MountFilesystem E vol mountInfo
                    | _ \<Rightarrow> goRet None) (\<lambda>err. case err of
              Some e \<Rightarrow> goRet (Some (EStatus Internal (errText (lib E) e)))
            | None \<Rightarrow> goRet None)))"

definition NodeUnpublishVolume :: "env \<Rightarrow> string \<Rightarrow> string \<Rightarrow> gerror option go" where
  "NodeUnpublishVolume E volumeID targetPath =
     (case validateNodeUnpublishReq volumeID targetPath of
        Some e \<Rightarrow> goRet (Some e)
      | None \<Rightarrow> goBind (GetZFSVolume E volumeID) (\<lambda>r. case r of
          Inl e \<Rightarrow> goRet (Some (EStatus Internal (''not able to get the ZFSVolume '' @ volumeID @ '' err : ''
                     @ errText (lib E) e)))
        | Inr vol \<Rightarrow> goBind (UmountVolume E vol targetPath) (\<lambda>err. case err of
            Some e \<Rightarrow> goRet (Some (EStatus Internal (''unable to umount the volume '' @ volumeID @ '' err : ''
                        @ errText (lib E) e)))
          | None \<Rightarrow> goRet None)))"

section \<open>Topology\<close>

fun allowedLabels :: "smap \<Rightarrow> string list \<Rightarrow> smap \<Rightarrow> smap" where
  "allowedLabels labels [] topology = topology"
| "allowedLabels labels (key # keys) topology =
     allowedLabels labels keys
       (if key \<noteq> [] then (case map_of labels key of Some val \<Rightarrow> AList.update key val topology | None \<Rightarrow> topology)
        else topology)"

text \<open>
  With \<open>all\<close>, the topology is the label map of the node itself. A node without labels comes without a map, and
  assigning to it panics.
\<close>

definition NodeGetInfo :: "env \<Rightarrow> string \<Rightarrow> (gerror + string \<times> smap) go" where
  "NodeGetInfo E Nodename =
     goBind (goCall (\<lambda>h. getNode (cluster E) h Nodename) (EvGetNode Nodename)) (\<lambda>r. case r of
       Inl e \<Rightarrow> goRet (Inl (extErr e))
     | Inr labels \<Rightarrow>
         goBind (goAsk (\<lambda>h. getenv (host E) h ''ALLOWED_TOPOLOGIES'')) (\<lambda>v.
           let allowedTopologies = trimBlanks v; all = (ToLower (lib E) allowedTopologies = ''all'');
               topology = (if all then labels else allowedLabels labels (splitOn (CHR '','') allowedTopologies) []);
               topology' = (if map_of topology ZFSTopologyKey = None then AList.update ZFSTopologyKey Nodename topology
                            else topology)
           in if all \<and> labels = [] then goPanic ''assignment to entry in nil map''
              else goRet (Inr (Nodename, AList.update ZFSTopoNodenameKey Nodename topology'))))"

section \<open>Capabilities\<close>

datatype nodeRpc = GET_VOLUME_STATS | NODE_EXPAND_VOLUME

definition NodeGetCapabilities :: "nodeRpc list" where
  "NodeGetCapabilities = [GET_VOLUME_STATS, NODE_EXPAND_VOLUME]"

definition NodeStageVolume :: "gerror option" where
  "NodeStageVolume = Some (EStatus Unimplemented [])"

definition NodeUnstageVolume :: "gerror option" where
  "NodeUnstageVolume = Some (EStatus Unimplemented [])"

section \<open>Expansion and usage\<close>

definition NodeExpandVolume :: "env \<Rightarrow> string \<Rightarrow> string \<Rightarrow> int64 option \<Rightarrow> (gerror + int64) go" where
  "NodeExpandVolume E volumeID volumePath' requiredBytes =
     (if volumePath' = [] \<or> volumeID = [] then
        goRet (Inl (EStatus InvalidArgument (''path not provided for NodeExpandVolume Request '' @ volumeID)))
      else goBind (GetZFSVolume E volumeID) (\<lambda>r. case r of
        Inl e \<Rightarrow> goRet (Inl (EStatus NotFound (''failed to handle NodeExpandVolume Request for '' @ volumeID @ '', {''
                   @ errText (lib E) e @ ''}'')))
      | Inr vol \<Rightarrow>
          goBind (goCall (\<lambda>h. stat (host E) h volumePath') (EvStat volumePath')) (\<lambda>st. case st of
            StatErr _ t \<Rightarrow> goRet (Inl (EStatus Internal (''failed to stat mountpath '' @ t)))
          | StatOk \<Rightarrow>
              goBind (goAsk (\<lambda>h. isDir (host E) h volumePath')) (\<lambda>resizefs.
              goBind (ResizeZFSVolume E vol volumePath' resizefs) (\<lambda>err. case err of
                Some e \<Rightarrow> goRet (Inl (EStatus
                    (if contains (errText (lib E) e) ''size is greater than available space'' then ResourceExhausted else Internal)
                    (''failed to handle NodeExpandVolume Request for '' @ volumeID @ '', {'' @ errText (lib E) e @ ''}'')))
              | None \<Rightarrow> goRet (Inr (case requiredBytes of None \<Rightarrow> 0 | Some b \<Rightarrow> b)))))))"

text \<open>The counters are unsigned; each is converted to \<open>int64\<close> before it is multiplied with the block size.\<close>

definition volumeUsage :: "Statfs \<Rightarrow> VolumeUsage list" where
  "volumeUsage sfs =
     [\<lparr> Unit = BYTES, Total = i64 (sint (Blocks sfs) * Bsize sfs),
        Used = i64 (sint (Blocks sfs - Bfree sfs) * Bsize sfs),
        Available = i64 (sint (Bavail sfs) * Bsize sfs) \<rparr>,
      \<lparr> Unit = INODES, Total = sint (Files sfs), Used = sint (Files sfs - Ffree sfs), Available = sint (Ffree sfs) \<rparr>]"

definition NodeGetVolumeStats :: "env \<Rightarrow> string \<Rightarrow> string \<Rightarrow> (gerror + VolumeUsage list) go" where
  "NodeGetVolumeStats E volID path =
     (if length volID = 0 then goRet (Inl (EStatus InvalidArgument ''volume id is not provided''))
      else if length path = 0 then goRet (Inl (EStatus InvalidArgument ''path is not provided''))
      else goBind (goAsk (\<lambda>h. isMountPath (host E) h path)) (\<lambda>mounted.
        if \<not> mounted then goRet (Inl (EStatus NotFound ''path is not a mount path''))
        else goBind (goAsk (\<lambda>h. statfs (host E) h path)) (\<lambda>r. case r of
          Inl t \<Rightarrow> goRet (Inl (EStatus Internal (''statfs on '' @ path @ '' failed: '' @ t)))
        | Inr sfs \<Rightarrow> goRet (Inr (volumeUsage sfs)))))"

section \<open>Guards\<close>

text \<open>While a volume is published: what touches the host does so for a volume that was read, as \<open>mountGuard\<close> allows.\<close>

definition publishGuard :: "env \<Rightarrow> string \<Rightarrow> string \<Rightarrow> event \<Rightarrow> event list \<Rightarrow> bool" where
  "publishGuard E n path e a \<longleftrightarrow>
     (case e of
        EvClientset p r \<Rightarrow> True
      | EvVol (KGet ns m r) \<Rightarrow> True
      | _ \<Rightarrow> (\<exists>vol. EvVol (KGet (OpenEBSNamespace E) n (Inr vol)) \<in> set a \<and> mountGuard E vol path e a))"

text \<open>What is known when a path has been unpublished: it was unmounted, or nothing was mounted there, or it does not exist.\<close>

definition unmounted :: "string \<Rightarrow> event set \<Rightarrow> bool" where
  "unmounted path A \<longleftrightarrow>
     EvUnmount path None \<in> A
     \<or> (\<exists>dev ref. EvDeviceName path (Inr (dev, ref)) \<in> A \<and> (dev = [] \<or> ref = 0))
     \<or> EvPathExists path (Inr False) \<in> A"

text \<open>While a volume is unpublished: as \<open>umountGuard\<close>, with nothing written to the cluster.\<close>

definition unpublishGuard :: "string \<Rightarrow> event \<Rightarrow> event list \<Rightarrow> bool" where
  "unpublishGuard path e a \<longleftrightarrow>
     (case e of
        EvVol (KGet ns m r) \<Rightarrow> True
      | _ \<Rightarrow> umountGuard path e a)"

text \<open>The topology keys of the node that are taken over from its labels.\<close>

definition allowedKey :: "env \<Rightarrow> string \<Rightarrow> string \<Rightarrow> bool" where
  "allowedKey E v key \<longleftrightarrow>
     ToLower (lib E) (trimBlanks v) = ''all'' \<or> (key \<noteq> [] \<and> key \<in> set (splitOn (CHR '','') (trimBlanks v)))"

text \<open>The entry of the format options a node was started with that counts for a file system: the last one with options.\<close>

definition goodEntry :: "lib \<Rightarrow> string \<Rightarrow> bool" where
  "goodEntry L entry \<longleftrightarrow>
     CHR ''='' \<in> set entry \<and> ToLower L (TrimSpace (fst (cut (CHR ''='') entry))) \<in> set formattableFsTypes"

definition entryOptions :: "string \<Rightarrow> string list" where
  "entryOptions entry = Fields (fst (snd (cut (CHR ''='') entry)))"

definition optionsFor :: "lib \<Rightarrow> string \<Rightarrow> string list \<Rightarrow> string list" where
  "optionsFor L fs entries =
     (case filter (\<lambda>entry. ToLower L (TrimSpace (fst (cut (CHR ''='') entry))) = fs \<and> entryOptions entry \<noteq> []) (rev entries) of
        [] \<Rightarrow> [] | entry # _ \<Rightarrow> entryOptions entry)"

text \<open>What is known when a volume has been expanded: it was read, and its size set to the capacity recorded there.\<close>

definition resized :: "env \<Rightarrow> string \<Rightarrow> event set \<Rightarrow> bool" where
  "resized E vid A \<longleftrightarrow>
     (\<exists>vol out. EvVol (KGet (OpenEBSNamespace E) vid (Inr vol)) \<in> A
        \<and> EvExec ZFSVolCmd (buildVolumeResizeArgs vol) (out, None) \<in> A)"

text \<open>An example: a node that finds one volume, ready and made of blocks, in the cluster.\<close>

definition zvol :: ZFSVolume where
  "zvol = emptyVolume\<lparr> Name := ''v1'', Spec := emptyInfo\<lparr> PoolName := ''pool'', Capacity := ''1048576'', VolumeType := VolTypeZVol,
     OwnerNodeID := ''node-1'' \<rparr>, State := ZFSStatusReady \<rparr>"

definition zvolNode :: env where
  "zvolNode = quietEnv\<lparr> cluster := quietCluster\<lparr> volApi := quietApi\<lparr> apiGet := (\<lambda>h ns n. Inr zvol) \<rparr> \<rparr> \<rparr>"

definition mountReq :: NodePublishVolumeRequest where
  "mountReq = \<lparr> PubVolumeId = ''v1'', PubTargetPath = ''/mnt'', PubReadonly = False, PubContext = [],
     PubCapability = Some (MountAccess ''xfs'' []) \<rparr>"

definition sizedNode :: env where
  "sizedNode = zvolNode\<lparr> host := quietHost\<lparr> exec := (\<lambda>h c as. (''1048576'' @ [CHR 0x0A], None)), isDir := (\<lambda>h p. False) \<rparr> \<rparr>"

section \<open>Rules\<close>

lemma mountGuard_later: "mountGuard E vol path e a \<Longrightarrow> mountGuard E vol path e (b @ a)"
  unfolding mountGuard_def by (auto split: event.splits elim: mountable_mono)

lemma publishGuard_mount:
  "EvVol (KGet (OpenEBSNamespace E) n (Inr vol)) \<in> set a \<Longrightarrow> mountGuard E vol path e a \<Longrightarrow> publishGuard E n path e a"
  unfolding publishGuard_def by (auto split: event.split kev.split)

lemma keeps_NodePublishVolume:
  "keeps (publishGuard E (ToLower (lib E) (PubVolumeId req)) (PubTargetPath req)) h {} (NodePublishVolume E req)
     (\<lambda>_. {}) (\<lambda>_. True)"
proof -
  let ?n = "ToLower (lib E) (PubVolumeId req)" and ?p = "PubTargetPath req"
  let ?G = "publishGuard E ?n ?p"
  have emb: "keeps ?G h F m (\<lambda>_. {}) (\<lambda>_. True)"
    if "EvVol (KGet (OpenEBSNamespace E) ?n (Inr vol)) \<in> F" "\<And>h. keeps (mountGuard E vol ?p) h {} m (\<lambda>_. {}) (\<lambda>_. True)"
    for F vol and m :: "gerror option go"
    by (rule keeps_embed [OF that(2)]) (use that(1) mountGuard_later in \<open>auto intro!: publishGuard_mount\<close>)
  have "keeps (mountGuard E vol ?p) h {} (case PubCapability req of
                      None \<Rightarrow> goRet None
                    | Some c \<Rightarrow> (case c of BlockAccess \<Rightarrow> MountBlock E vol mi
                                | MountAccess _ _ \<Rightarrow> MountFilesystem E vol mi
                                | NoAccess \<Rightarrow> goRet None)) (\<lambda>_. {}) (\<lambda>_. True)" if "MountPath mi = ?p" for vol mi h
    using keeps_MountBlock [of E vol mi] keeps_MountFilesystem [of E vol mi] that
    by (auto split: option.split accessType.split intro: keeps_rules)
  note mnt = keeps_goBind [OF emb [OF _ this]]
  have free: "free ?G (EvClientset p r)" "free ?G (EvVol (KGet ns m r'))" for p r ns m r'
    by (simp_all add: free_def publishGuard_def)
  show ?thesis
    unfolding NodePublishVolume_def GetVolAndMountInfo_def Let_def GetZFSVolume_def [symmetric]
    by (intro keeps_rules free mnt) (auto intro!: keeps_rules)
qed

lemmas agent_simps = NodePublishVolume_def validateNodePublishReq_def GetVolAndMountInfo_def mountReq_def zvolNode_def zvol_def
  emptyVolume_def emptyInfo_def quiet_defs go_simps Let_def vol_Get_def kube_Get_def volKind_def apiAnswer_def
  ToLower_def lowerChar_def ascii_def mget_def volumePath_def IsVolumeReady_def

section \<open>Publishing and unpublishing\<close>

text \<open>C25: While a volume is published, commands are run and a file system is mounted only after the volume was read, is
  ready and not owned by another node, and the mounts of its device were listed without the target, and without any
  other unless it is shared; a block device is bound only to the target, which is removed only if that failed.\<close>
theorem publish_guarded:
  assumes "NodePublishVolume E req h = (r, h')"
  shows "\<exists>es. h' = h @ es
    \<and> guardedBy (publishGuard E (ToLower (lib E) (PubVolumeId req)) (PubTargetPath req)) es"
  using keeps_extends [OF keeps_NodePublishVolume assms] by blast

theorem publish_guarded_witness:
  "guardedBy (publishGuard zvolNode ''v1'' ''/mnt'') (snd (NodePublishVolume zvolNode mountReq []))
   \<and> EvFormatAndMount ''/dev/zvol/pool/v1'' ''/mnt'' ''xfs'' [] [] None \<in> set (snd (NodePublishVolume zvolNode mountReq []))"
proof
  have "ToLower (lib zvolNode) (PubVolumeId mountReq) = ''v1''" "PubTargetPath mountReq = ''/mnt''"
    by (simp_all add: zvolNode_def quiet_defs mountReq_def ToLower_def lowerChar_def ascii_def)
  with publish_guarded [OF surjective_pairing, of zvolNode mountReq "[]"]
  show "guardedBy (publishGuard zvolNode ''v1'' ''/mnt'') (snd (NodePublishVolume zvolNode mountReq []))" by simp
  show "EvFormatAndMount ''/dev/zvol/pool/v1'' ''/mnt'' ''xfs'' [] [] None \<in> set (snd (NodePublishVolume zvolNode mountReq []))"
    by (simp add: agent_simps MountFilesystem_def MountZvol_def verifyMountRequest_def GetVolumeDevPath_def
        FormatAndMountZvol_def FormatOptions_def Fields_def TrimSpace_def)
qed

lemma sees_UmountVolume: "sees (\<lambda>err A. err = None \<longrightarrow> unmounted path A) (UmountVolume E vol path)"
proof -
  have legacy: "extends (SetDatasetLegacyMount E vol)"
    unfolding SetDatasetLegacyMount_def GetVolumeProperty_def SetDatasetMountProp_def by (intro only_rules TrueI)
  have unmount: "sees (\<lambda>err B. err = None \<longrightarrow> unmounted path (A \<union> B)) (unmountPath E vol path)" for A
    unfolding unmountPath_def
  proof (rule sees_bind_call)
    show "sees (\<lambda>y B. y = None \<longrightarrow> unmounted path (A \<union> insert (EvUnmount path r) B)) (case r of
        Some t \<Rightarrow> goRet (Some (EApi False t))
      | None \<Rightarrow> goBind (SetDatasetLegacyMount E vol) (\<lambda>_.
          goBind (goCall (\<lambda>h. remove (host E) h path) (EvRemove path)) (\<lambda>_. goRet None)))" for r
    proof (cases r)
      case None
      have "extends (goBind (SetDatasetLegacyMount E vol) (\<lambda>_.
          goBind (goCall (\<lambda>h. remove (host E) h path) (EvRemove path)) (\<lambda>_. goRet (None :: gerror option))))"
        by (intro only_rules legacy TrueI)
      then show ?thesis unfolding None option.case by (rule sees_only) (simp add: unmounted_def)
    qed (simp add: sees_goRet)
  qed
  have um: "sees (\<lambda>err B. err = None \<longrightarrow> unmounted path (insert a (insert b B))) (unmountPath E vol path)"
    "sees (\<lambda>err B. err = None \<longrightarrow> unmounted path (insert a (insert b (insert c B)))) (unmountPath E vol path)" for a b c
    using unmount [of "{a, b}"] unmount [of "{a, b, c}"] by simp_all
  have gone: "unmounted path (insert (EvDeviceName path (Inr (dev, ref))) B)" if "dev = [] \<or> ref = 0" for dev ref B
    using that by (auto simp: unmounted_def)
  have absent: "unmounted path (insert e (insert (EvPathExists path (Inr False)) B))" for e B
    by (simp add: unmounted_def)
  show ?thesis
    unfolding UmountVolume_def isBrokenMount_def goBind_assoc
    by (auto intro!: sees_bind_call sees_goRet um gone absent split: sum.split simp: goBind_goRet)
qed

lemma keeps_NodeUnpublishVolume:
  "keeps (unpublishGuard path) h {} (NodeUnpublishVolume E vid path) (\<lambda>_. {}) (\<lambda>_. True)"
proof -
  let ?G = "unpublishGuard path"
  have later: "umountGuard path e a \<Longrightarrow> ?G e (b @ a)" for e a b
    by (auto simp: umountGuard_def unpublishGuard_def split: event.splits kev.splits)
  have free: "free ?G (EvClientset p r)" "free ?G (EvVol (KGet ns m r'))" for p r ns m r'
    by (simp_all add: free_def unpublishGuard_def umountGuard_def)
  have um: "keeps ?G h F (UmountVolume E vol path) (\<lambda>_. {}) (\<lambda>_. True)" for h F vol
    by (rule keeps_embed [OF keeps_UmountVolume]) (rule later)
  show ?thesis
    unfolding NodeUnpublishVolume_def by (intro keeps_rules free keeps_goBind [OF um]) simp_all
qed

lemma stable_unmounted: "stable (\<lambda>err A. err = None \<longrightarrow> unmounted path A)"
  by (auto simp: stable_def unmounted_def)

lemma sees_NodeUnpublishVolume: "sees (\<lambda>err A. err = None \<longrightarrow> unmounted path A) (NodeUnpublishVolume E vid path)"
proof -
  have get: "extends (GetZFSVolume E vid)" by (intro only_rules TrueI)
  have um: "sees (\<lambda>err A. err = None \<longrightarrow> unmounted path A) (goBind (UmountVolume E vol path) (\<lambda>err. case err of
            Some e \<Rightarrow> goRet (Some (f e)) | None \<Rightarrow> goRet None))" for vol and f :: "gerror \<Rightarrow> gerror"
    by (rule sees_bind [OF sees_UmountVolume])
      (auto simp: unmounted_def split: option.split intro!: sees_goRet)
  show ?thesis
    unfolding NodeUnpublishVolume_def
    by (auto intro!: sees_bind_later [OF get stable_unmounted] um sees_goRet split: option.split sum.split)
qed

text \<open>C28: When a volume has been unpublished, its path was unmounted, or nothing was mounted there, or it did not exist;
  the path was unmounted only if something was mounted there, and removed, and the dataset touched, only after that.\<close>
theorem unpublish_sound:
  assumes "NodeUnpublishVolume E vid path h = (Some None, h')"
  shows "\<exists>es. h' = h @ es \<and> unmounted path (set es) \<and> guardedBy (unpublishGuard path) es"
proof -
  obtain es where es: "h' = h @ es" "unmounted path (set es)"
    using seesD [OF sees_NodeUnpublishVolume assms] by blast
  moreover obtain es' where "h' = h @ es'" "guardedBy (unpublishGuard path) es'"
    using keeps_extends [OF keeps_NodeUnpublishVolume assms] by blast
  ultimately show ?thesis by auto
qed

theorem unpublish_sound_witness:
  "\<exists>es. unmounted ''/mnt'' (set es) \<and> guardedBy (unpublishGuard ''/mnt'') es
     \<and> snd (NodeUnpublishVolume zvolNode ''v1'' ''/mnt'' []) = es"
proof -
  have "fst (NodeUnpublishVolume zvolNode ''v1'' ''/mnt'' []) = Some None"
    by (simp add: NodeUnpublishVolume_def validateNodeUnpublishReq_def GetZFSVolume_def UmountVolume_def agent_simps)
  then have "NodeUnpublishVolume zvolNode ''v1'' ''/mnt'' [] = (Some None, snd (NodeUnpublishVolume zvolNode ''v1'' ''/mnt'' []))"
    by (metis prod.collapse)
  from unpublish_sound [OF this] show ?thesis by auto
qed

section \<open>Usage\<close>

lemma sint_small: "uint (w :: 64 word) \<le> MaxInt64 \<Longrightarrow> sint w = uint w"
proof -
  assume "uint w \<le> MaxInt64"
  then have "uint w < 2 ^ 63" unfolding MaxInt64_def by simp
  moreover have "- (2 ^ 63) \<le> uint w" by (rule order_trans [OF _ uint_ge_0]) simp
  ultimately show ?thesis by (simp add: sint_uint signed_take_bit_int_eq_self)
qed

lemma uint_minus_le: "(b :: 64 word) \<le> a \<Longrightarrow> uint (a - b) = uint a - uint b"
  by (simp add: uint_minus_simple_alt)

text \<open>The usage of a file system is reported without overflow as long as its size in bytes and its number of inodes fit
  in 63 bits: the used part is the total less the free one, nothing is negative, and what is available to users is no
  more than what is not used.\<close>
lemma usage_exact:
  assumes "0 < Bsize s" "Bfree s \<le> Blocks s" "Bavail s \<le> Bfree s" "Ffree s \<le> Files s"
    and "uint (Blocks s) * Bsize s \<le> MaxInt64" "uint (Files s) \<le> MaxInt64"
  shows "\<exists>b i. volumeUsage s = [b, i] \<and> Total b = uint (Blocks s) * Bsize s \<and> Used b = Total b - uint (Bfree s) * Bsize s
    \<and> 0 \<le> Used b \<and> 0 \<le> Available b \<and> Available b \<le> Total b - Used b
    \<and> Total i = uint (Files s) \<and> Used i = Total i - Available i \<and> 0 \<le> Used i \<and> 0 \<le> Available i"
proof -
  have le: "uint (Bfree s) \<le> uint (Blocks s)" "uint (Bavail s) \<le> uint (Bfree s)" "uint (Ffree s) \<le> uint (Files s)"
    using assms(2-4) by (simp_all add: word_le_def)
  have "uint (Blocks s) \<le> uint (Blocks s) * Bsize s" using assms(1) by (simp add: mult_le_cancel_left1)
  with assms(5) le have small: "uint (Blocks s) \<le> MaxInt64" "uint (Bavail s) \<le> MaxInt64" by linarith+
  have sub: "uint (Blocks s - Bfree s) = uint (Blocks s) - uint (Bfree s)" "uint (Files s - Ffree s) = uint (Files s) - uint (Ffree s)"
    using assms(2,4) by (simp_all add: uint_minus_le)
  have d: "uint (Blocks s) - uint (Bfree s) \<le> MaxInt64" "uint (Files s) - uint (Ffree s) \<le> MaxInt64"
    using small assms(6) uint_ge_0 [of "Bfree s"] uint_ge_0 [of "Ffree s"] by linarith+
  have s: "sint (Blocks s) = uint (Blocks s)" "sint (Bavail s) = uint (Bavail s)"
    "sint (Blocks s - Bfree s) = uint (Blocks s) - uint (Bfree s)" "sint (Files s) = uint (Files s)"
    "sint (Ffree s) = uint (Ffree s)" "sint (Files s - Ffree s) = uint (Files s) - uint (Ffree s)"
    using small le assms(6) d sub sint_small [of "Blocks s - Bfree s"] sint_small [of "Files s - Ffree s"]
    by (simp_all add: sint_small)
  have m: "uint (Bavail s) * Bsize s \<le> uint (Bfree s) * Bsize s" "uint (Bfree s) * Bsize s \<le> uint (Blocks s) * Bsize s"
    "(uint (Blocks s) - uint (Bfree s)) * Bsize s = uint (Blocks s) * Bsize s - uint (Bfree s) * Bsize s"
    "0 \<le> uint (Bavail s) * Bsize s" "0 \<le> uint (Bfree s) * Bsize s"
    using le assms(1) by (simp_all add: mult_right_mono left_diff_distrib)
  then have i: "is_i64 (uint (Blocks s) * Bsize s)" "is_i64 (uint (Blocks s) * Bsize s - uint (Bfree s) * Bsize s)"
    "is_i64 (uint (Bavail s) * Bsize s)"
    using assms(5) by (simp_all add: is_i64_def MaxInt64_def)
  show ?thesis using m le by (simp add: volumeUsage_def s i)
qed

section \<open>Topology\<close>

lemma allowedLabels_map:
  "map_of (allowedLabels labels keys topology) key =
     (if key \<noteq> [] \<and> key \<in> set keys \<and> map_of labels key \<noteq> None then map_of labels key else map_of topology key)"
  by (induction keys arbitrary: topology) (auto simp: update_conv' split: option.splits)

text \<open>A node reports its name and a topology made of the labels it is allowed to take over, its name under the driver's
  key unless that is among them, and its name under the old key; nothing else is in it.\<close>
lemma node_topology:
  assumes "NodeGetInfo E n h = (Some (Inr (nid, segs)), h')"
  shows "\<exists>labels v. nid = n \<and> h' = h @ [EvGetNode n (Inr labels)]
    \<and> (\<forall>key. map_of segs key =
         (if key = ZFSTopoNodenameKey then Some n
          else if allowedKey E v key \<and> map_of labels key \<noteq> None then map_of labels key
          else if key = ZFSTopologyKey then Some n else None))"
proof -
  let ?v = "getenv (host E) (h @ [EvGetNode n (getNode (cluster E) h n)]) ''ALLOWED_TOPOLOGIES''"
  from assms obtain labels where l: "getNode (cluster E) h n = Inr labels"
    by (auto simp: NodeGetInfo_def go_simps split: sum.splits)
  define top where "top = (if ToLower (lib E) (trimBlanks ?v) = ''all'' then labels
    else allowedLabels labels (splitOn (CHR '','') (trimBlanks ?v)) [])"
  have top: "map_of top key = (if allowedKey E ?v key \<and> map_of labels key \<noteq> None then map_of labels key else None)" for key
    by (auto simp: top_def allowedKey_def allowedLabels_map)
  from assms l have "nid = n" "h' = h @ [EvGetNode n (Inr labels)]"
    and "segs = AList.update ZFSTopoNodenameKey n
      (if map_of top ZFSTopologyKey = None then AList.update ZFSTopologyKey n top else top)"
    by (auto simp: NodeGetInfo_def go_simps Let_def top_def split: if_splits)
  with top show ?thesis by (intro exI [of _ labels] exI [of _ ?v]) (simp add: update_conv')
qed

section \<open>Format options\<close>

lemma formatEntries_good:
  "list_all (goodEntry L) entries \<Longrightarrow> \<exists>os. formatEntries L entries options = Inr os \<and>
     (\<forall>fs. (case map_of os fs of None \<Rightarrow> [] | Some os \<Rightarrow> os) =
       (case filter (\<lambda>e. ToLower L (TrimSpace (fst (cut (CHR ''='') e))) = fs \<and> entryOptions e \<noteq> []) (rev entries) of
          [] \<Rightarrow> (case map_of options fs of None \<Rightarrow> [] | Some os \<Rightarrow> os) | e # _ \<Rightarrow> entryOptions e))"
proof (induction entries arbitrary: options)
  case (Cons e entries)
  obtain b v where c: "cut (CHR ''='') e = (b, v, True)" using Cons.prems by (auto simp: goodEntry_def cut_def)
  let ?fs = "ToLower L (TrimSpace b)"
  let ?o = "if length (Fields v) > 0 then AList.update ?fs (Fields v) options else options"
  from Cons.prems c have "formatEntries L (e # entries) options = formatEntries L entries ?o"
    by (simp add: goodEntry_def)
  moreover obtain os where "formatEntries L entries ?o = Inr os" and
    os: "\<And>fs. (case map_of os fs of None \<Rightarrow> [] | Some os \<Rightarrow> os) =
       (case filter (\<lambda>e. ToLower L (TrimSpace (fst (cut (CHR ''='') e))) = fs \<and> entryOptions e \<noteq> []) (rev entries) of
          [] \<Rightarrow> (case map_of ?o fs of None \<Rightarrow> [] | Some os \<Rightarrow> os) | e # _ \<Rightarrow> entryOptions e)"
    using Cons.IH [of ?o] Cons.prems by auto
  ultimately show ?case
    by (auto simp: c entryOptions_def update_conv' split: list.split)
qed simp

lemma formatEntries_bad: "\<not> list_all (goodEntry L) entries \<Longrightarrow> \<exists>e. formatEntries L entries options = Inl e"
  by (induction entries arbitrary: options) (auto simp: goodEntry_def cut_def Let_def)

text \<open>The format options a node is started with are either all of the form filesystem=options with a filesystem the driver
  formats, and then a volume without options of its own gets those of the last entry for its filesystem that has any,
  with ext4 for a volume that names no filesystem; or they are refused and nothing changes.\<close>
lemma format_defaults:
  "if list_all (goodEntry (lib E)) entries
   then fst (SetDefaultFormatOptions E entries) = None
     \<and> (\<forall>fs. FormatOptions (snd (SetDefaultFormatOptions E entries)) fs [] =
          optionsFor (lib E) (let f = ToLower (lib E) (TrimSpace fs) in if f = [] then ''ext4'' else f) entries)
   else fst (SetDefaultFormatOptions E entries) \<noteq> None \<and> snd (SetDefaultFormatOptions E entries) = E"
proof (cases "list_all (goodEntry (lib E)) entries")
  case True
  from formatEntries_good [OF this, of "[]"] obtain os where os: "formatEntries (lib E) entries [] = Inr os"
    "\<And>fs. (case map_of os fs of None \<Rightarrow> [] | Some os \<Rightarrow> os) = optionsFor (lib E) fs entries"
    by (auto simp: optionsFor_def split: list.split)
  moreover have "Fields [] = []" by (simp add: Fields_def)
  ultimately show ?thesis using True by (simp add: SetDefaultFormatOptions_def FormatOptions_def Let_def)
next
  case False
  with formatEntries_bad [OF this, of "[]"] show ?thesis by (auto simp: SetDefaultFormatOptions_def)
qed

section \<open>Expansion\<close>

lemma sees_ResizeZFSVolume:
  "sees (\<lambda>err A. err = None \<longrightarrow> (\<exists>out. EvExec ZFSVolCmd (buildVolumeResizeArgs vol) (out, None) \<in> A))
     (ResizeZFSVolume E vol path fs)" (is "sees ?W _")
proof -
  have st: "stable ?W" by (auto simp: stable_def)
  have get: "extends (GetVolumeProperty E vol p)" for p unfolding GetVolumeProperty_def by (intro only_rules TrueI)
  have grow: "extends (handleVolResize E vol path)"
    unfolding handleVolResize_def GetVolumeDevPath_def ResizeXFS_def ResizeExtn_def by (intro only_rules TrueI)
  have set': "sees ?W (goBind (runZfs E ''zfs set quota'' (volumePath vol) (buildVolumeResizeArgs vol)) (\<lambda>err. case err of
       Some e \<Rightarrow> goBind (m e) (\<lambda>_. goRet (Some e)) | None \<Rightarrow> if fs then handleVolResize E vol path else goRet None))"
    if "\<And>e. extends (m e)" for m :: "gerror \<Rightarrow> (string \<times> gerror option) go"
    unfolding runZfs_def runCmd_def runExec_def goBind_assoc
  proof (rule sees_bind_call, goal_cases)
    case (1 r)
    show ?case
    proof (cases "snd r")
      case None
      then obtain out where "r = (out, None)" by (cases r) simp
      then have hit: "\<exists>out. EvExec ZFSVolCmd (buildVolumeResizeArgs vol) (out, None)
          \<in> insert (EvExec ZFSVolCmd (buildVolumeResizeArgs vol) r) B" for B by auto
      have "extends (if fs then handleVolResize E vol path else goRet None)" by (intro only_rules grow)
      from sees_only [OF this] hit None show ?thesis by (simp add: goBind_goRet)
    next
      case (Some t)
      have "sees (\<lambda>y B. y \<noteq> None) (goBind (m e) (\<lambda>_. goRet (Some e)))" for e
        by (rule sees_bind_later [OF that]) (simp_all add: stable_def sees_goRet)
      then have "sees (\<lambda>y B. y = None \<longrightarrow> X B) (goBind (m e) (\<lambda>_. goRet (Some e)))" for e X
        by (rule sees_weaken) blast
      with Some show ?thesis by (simp add: goBind_goRet NewZFSError_def sysErr_def)
    qed
  qed
  have revert: "extends (runCmd E ZFSVolCmd args)" for args by (intro only_rules TrueI)
  show ?thesis
    unfolding ResizeZFSVolume_def
    by (intro sees_bind_later [OF get st] sees_sum sees_goRet set' revert) simp
qed

lemma stable_resized: "stable (\<lambda>r A. \<forall>n. r = Inr n \<longrightarrow> n = b \<and> resized E vid A)"
  unfolding stable_def resized_def by blast

lemma sees_NodeExpandVolume:
  "sees (\<lambda>r A. \<forall>n. r = Inr n \<longrightarrow> n = (case b of None \<Rightarrow> 0 | Some m \<Rightarrow> m) \<and> resized E vid A) (NodeExpandVolume E vid path b)"
  (is "sees ?W _")
proof -
  have st: "stable ?W" by (rule stable_resized)
  have resize: "sees (\<lambda>y B. ?W y (A \<union> B)) (goBind (ResizeZFSVolume E vol path fs) (\<lambda>err. case err of
      Some e \<Rightarrow> goRet (Inl (f e)) | None \<Rightarrow> goRet (Inr (case b of None \<Rightarrow> 0 | Some m \<Rightarrow> m))))"
    if "EvVol (KGet (OpenEBSNamespace E) vid (Inr vol)) \<in> A" for vol fs A f
  proof (rule sees_bind [OF sees_ResizeZFSVolume], goal_cases)
    case (1 err B)
    then show ?case using that by (cases err) (auto intro!: sees_goRet simp: resized_def)
  qed
  have ask: "extends (goAsk f)" "extends (goCall g (EvStat path))" for f g by (intro only_rules TrueI)+
  have body: "sees (\<lambda>y B. ?W y (A \<union> B)) (goBind (goCall (\<lambda>h. stat (host E) h path) (EvStat path)) (\<lambda>st. case st of
            StatErr _ t \<Rightarrow> goRet (Inl (g t))
          | StatOk \<Rightarrow>
              goBind (goAsk (\<lambda>h. isDir (host E) h path)) (\<lambda>resizefs.
              goBind (ResizeZFSVolume E vol path resizefs) (\<lambda>err. case err of
                Some e \<Rightarrow> goRet (Inl (f e)) | None \<Rightarrow> goRet (Inr (case b of None \<Rightarrow> 0 | Some m \<Rightarrow> m))))))"
    if "EvVol (KGet (OpenEBSNamespace E) vid (Inr vol)) \<in> A" for vol A f g
    by (rule sees_bind_later [OF ask(2) stable_union [OF st]])
      (auto split: statres.split intro!: sees_goRet sees_bind_later [OF ask(1) stable_union [OF st]] resize that)
  have "sees ?W (goBind (GetZFSVolume E vid) (\<lambda>r. case r of
      Inl e \<Rightarrow> goRet (Inl (g e)) | Inr vol \<Rightarrow> m vol))"
    if "\<And>vol A. EvVol (KGet (OpenEBSNamespace E) vid (Inr vol)) \<in> A \<Longrightarrow> sees (\<lambda>y B. ?W y (A \<union> B)) (m vol)" for g m
    by (rule sees_bind [OF sees_GetZFSVolume]) (auto split: sum.split intro!: sees_goRet that)
  note get = this [OF body]
  show ?thesis unfolding NodeExpandVolume_def using get by (auto intro!: sees_goRet)
qed

text \<open>When the expansion of a volume on its node succeeds, the volume was read and \<open>zfs\<close> set the size recorded there,
  without an error; the answer is the number of bytes the request asked for.\<close>
lemma node_expand_sound:
  assumes "NodeExpandVolume E vid path b h = (Some (Inr n), h')"
  shows "n = (case b of None \<Rightarrow> 0 | Some m \<Rightarrow> m) \<and> (\<exists>es. h' = h @ es \<and> resized E vid (set es))"
  by (rule seesD [OF sees_NodeExpandVolume assms]) blast

text \<open>
  A block volume is bound to its target without the checks of a file system: here the volume belongs to another node and
  is not ready.
\<close>

lemma block_publish_unchecked:
  "fst (NodePublishVolume (zvolNode\<lparr> NodeID := ''node-2'', cluster := quietCluster\<lparr> volApi := quietApi\<lparr>
         apiGet := (\<lambda>h ns n. Inr (zvol\<lparr> State := ZFSStatusPending \<rparr>)) \<rparr> \<rparr> \<rparr>)
       (mountReq\<lparr> PubCapability := Some BlockAccess \<rparr>) []) = Some None"
  by (simp add: agent_simps MountBlock_def makeFile_def)

end
