(* ===== verification/BackupGC.thy ===== *)
theory BackupGC
  imports Kubeclient
begin

text \<open>
  \<open>pkg/driver/backup_gc.go\<close>: the backup garbage collector of the controller. It keeps the chains of incremental backups
  whole: a backup that refers to a previous snapshot without a backup is deleted.

  The informer's store is a parameter: \<open>byIndex\<close> answers lookups in an index by the trace so far, and \<open>indexes\<close> states
  what is relied on of it. A handler starts goroutines; it returns them as \<open>task\<close>s, which \<open>runTask\<close> runs. Below,
  \<open>gcStep\<close> puts the handlers and the tasks together with a changing store.
\<close>

section \<open>Definitions\<close>

text \<open>What an informer hands to its handlers and holds in its store.\<close>

datatype object' = OBackup ZFSBackup | ODeletedFinalStateUnknown object' | OOther

abbreviation "BackupSnapshotIndex \<equiv> ''BackupSnapshotIndex''"
abbreviation "BackupPreviousSnapshotIndex \<equiv> ''BackupPreviousSnapshotIndex''"

type_synonym indexer = "event list \<Rightarrow> string \<Rightarrow> string \<Rightarrow> string + object' list"

definition BackupSnapshotIndexFunc :: "object' \<Rightarrow> string list" where
  "BackupSnapshotIndexFunc obj =
     (case obj of
        OBackup backup \<Rightarrow>
          let s = BkpSpec backup in [BkpVolumeName s @ ''.'' @ BkpOwnerNodeID s @ ''.'' @ BkpSnapName s]
      | _ \<Rightarrow> [])"

definition BackupPreviousSnapshotIndexFunc :: "object' \<Rightarrow> string list" where
  "BackupPreviousSnapshotIndexFunc obj =
     (case obj of
        OBackup backup \<Rightarrow>
          let s = BkpSpec backup in
          if PrevSnapName s = [] then []
          else [BkpVolumeName s @ ''.'' @ BkpOwnerNodeID s @ ''.'' @ PrevSnapName s]
      | _ \<Rightarrow> [])"

definition setupIndexers :: "(string \<times> (object' \<Rightarrow> string list)) list" where
  "setupIndexers = [(BackupSnapshotIndex, BackupSnapshotIndexFunc),
                    (BackupPreviousSnapshotIndex, BackupPreviousSnapshotIndexFunc)]"

definition getBackupKeyBySpec :: "string \<Rightarrow> string \<Rightarrow> string \<Rightarrow> string" where
  "getBackupKeyBySpec volumeName ownerNodeID snapName = volumeName @ ''.'' @ ownerNodeID @ ''.'' @ snapName"

subsection \<open>Handlers\<close>

datatype task = Orphaned ZFSBackup | Referencing ZFSBackup

definition handleBackupCreation :: "object' \<Rightarrow> task list" where
  "handleBackupCreation obj =
     (case obj of
        OBackup backup \<Rightarrow> if PrevSnapName (BkpSpec backup) \<noteq> [] then [Orphaned backup] else []
      | _ \<Rightarrow> [])"

definition handleBackupUpdate :: "object' \<Rightarrow> object' \<Rightarrow> task list" where
  "handleBackupUpdate oldObj newObj =
     (case oldObj of
        OBackup oldBackup \<Rightarrow>
          (case newObj of
             OBackup newBackup \<Rightarrow>
               if PrevSnapName (BkpSpec oldBackup) \<noteq> PrevSnapName (BkpSpec newBackup)
                  \<and> PrevSnapName (BkpSpec newBackup) \<noteq> []
               then [Orphaned newBackup] else []
           | _ \<Rightarrow> [])
      | _ \<Rightarrow> [])"

definition handleBackupDeletion :: "object' \<Rightarrow> task list" where
  "handleBackupDeletion obj =
     (case obj of
        OBackup backup \<Rightarrow> [Referencing backup]
      | ODeletedFinalStateUnknown (OBackup backup) \<Rightarrow> [Referencing backup]
      | _ \<Rightarrow> [])"

subsection \<open>Tasks\<close>

definition deleteBackup :: "env \<Rightarrow> string \<Rightarrow> gerror option go" where
  "deleteBackup E name = asOwn E (bkp_Delete E name)"

definition deleteOrphanedIncBackup :: "env \<Rightarrow> indexer \<Rightarrow> ZFSBackup \<Rightarrow> unit go" where
  "deleteOrphanedIncBackup E byIndex backup =
     (let s = BkpSpec backup in
      if PrevSnapName s = [] then goRet ()
      else
        let parentBackupKey = getBackupKeyBySpec (BkpVolumeName s) (BkpOwnerNodeID s) (PrevSnapName s) in
        goBind (goAsk (\<lambda>h. byIndex h BackupSnapshotIndex parentBackupKey)) (\<lambda>r. case r of
          Inl _ \<Rightarrow> goRet ()
        | Inr parentItem \<Rightarrow>
            if length parentItem = 0 then goBind (deleteBackup E (Name backup)) (\<lambda>_. goRet ())
            else goRet ()))"

fun parseBackupsFromIndexResults :: "object' list \<Rightarrow> ZFSBackup list option" where
  "parseBackupsFromIndexResults [] = Some []"
| "parseBackupsFromIndexResults (obj # objects) =
     (case obj of
        OBackup backup \<Rightarrow> map_option (\<lambda>bs. backup # bs) (parseBackupsFromIndexResults objects)
      | _ \<Rightarrow> None)"

definition deleteBackupsReferencingDeletedBackup :: "env \<Rightarrow> indexer \<Rightarrow> ZFSBackup \<Rightarrow> unit go" where
  "deleteBackupsReferencingDeletedBackup E byIndex backup =
     (let s = BkpSpec backup;
          childBackupKey = getBackupKeyBySpec (BkpVolumeName s) (BkpOwnerNodeID s) (BkpSnapName s) in
      goBind (goAsk (\<lambda>h. byIndex h BackupPreviousSnapshotIndex childBackupKey)) (\<lambda>r. case r of
        Inl _ \<Rightarrow> goRet ()
      | Inr possibleChildBackups \<Rightarrow>
          if length possibleChildBackups = 0 then goRet ()
          else (case parseBackupsFromIndexResults possibleChildBackups of
                  None \<Rightarrow> goRet ()
                | Some childBackups \<Rightarrow>
                    goEach (\<lambda>childBackup. goBind (deleteBackup E (Name childBackup)) (\<lambda>_. goRet ())) childBackups)))"

definition runTask :: "env \<Rightarrow> indexer \<Rightarrow> task \<Rightarrow> unit go" where
  "runTask E byIndex t =
     (case t of
        Orphaned backup \<Rightarrow> deleteOrphanedIncBackup E byIndex backup
      | Referencing backup \<Rightarrow> deleteBackupsReferencingDeletedBackup E byIndex backup)"

section \<open>The collector and its store\<close>

text \<open>The key of a backup, and the key of the backup it builds on.\<close>

definition key :: "ZFSBackup \<Rightarrow> string" where
  "key b = getBackupKeyBySpec (BkpVolumeName (BkpSpec b)) (BkpOwnerNodeID (BkpSpec b)) (BkpSnapName (BkpSpec b))"

definition prevKey :: "ZFSBackup \<Rightarrow> string" where
  "prevKey b = getBackupKeyBySpec (BkpVolumeName (BkpSpec b)) (BkpOwnerNodeID (BkpSpec b)) (PrevSnapName (BkpSpec b))"

definition incremental :: "ZFSBackup \<Rightarrow> bool" where
  "incremental b \<longleftrightarrow> PrevSnapName (BkpSpec b) \<noteq> []"

text \<open>
  What the collector relies on of the informer: a lookup in one of its indexes gives, without an error, the stored
  backups that the index function gives that key.
\<close>

definition indexes :: "indexer \<Rightarrow> ZFSBackup list \<Rightarrow> bool" where
  "indexes byIndex store \<longleftrightarrow>
     (\<forall>h name f k. map_of setupIndexers name = Some f \<longrightarrow>
        (\<exists>objs. byIndex h name k = Inr objs \<and> set objs = {obj \<in> OBackup ` set store. k \<in> set (f obj)}))"

text \<open>The names of the backups a task is to delete.\<close>

definition doomed :: "ZFSBackup list \<Rightarrow> task \<Rightarrow> string set" where
  "doomed store t =
     (case t of
        Orphaned b \<Rightarrow> if incremental b \<and> prevKey b \<notin> key ` set store then {Name b} else {}
      | Referencing p \<Rightarrow> Name ` {b \<in> set store. incremental b \<and> prevKey b = key p})"

fun deletionOf :: "event \<Rightarrow> string list" where
  "deletionOf (EvBkp (KDelete ns n None)) = [n]"
| "deletionOf _ = []"

definition deletions :: "event list \<Rightarrow> string set" where
  "deletions h = set (concat (map deletionOf h))"

text \<open>The API server can be reached and accepts deletions.\<close>

definition works :: "env \<Rightarrow> bool" where
  "works E \<longleftrightarrow> (\<forall>h p. clientsetFor (cluster E) h p = None) \<and> (\<forall>h ns n. apiDelete (bkpApi (cluster E)) h ns n = None)"

fun taskBackup :: "task \<Rightarrow> ZFSBackup" where
  "taskBackup (Orphaned b) = b"
| "taskBackup (Referencing b) = b"

text \<open>
  The store of the informer, the tasks that were started and have not run, and the names whose deletion was requested
  and has not happened.
\<close>

record gc =
  store :: "ZFSBackup list"
  tasks :: "task list"
  deleting :: "string set"

text \<open>
  A backup appears, changes, or disappears, and the handler starts its tasks; or a task runs, all at once: what the
  store is told between the lookup and the deletions starts tasks of its own. A change keeps the name, the volume, the node
  and the snapshot of the backup.
\<close>

inductive gcStep :: "env \<Rightarrow> gc \<Rightarrow> gc \<Rightarrow> bool" for E where
  Created: "Name b \<noteq> [] \<Longrightarrow> Name b \<notin> Name ` set (store s) \<Longrightarrow>
    gcStep E s (s\<lparr> store := b # store s, tasks := tasks s @ handleBackupCreation (OBackup b) \<rparr>)"
| Updated: "store s = xs @ b # ys \<Longrightarrow> Name b' = Name b \<Longrightarrow> key b' = key b \<Longrightarrow>
    BkpVolumeName (BkpSpec b') = BkpVolumeName (BkpSpec b) \<Longrightarrow> BkpOwnerNodeID (BkpSpec b') = BkpOwnerNodeID (BkpSpec b) \<Longrightarrow>
    gcStep E s (s\<lparr> store := xs @ b' # ys, tasks := tasks s @ handleBackupUpdate (OBackup b) (OBackup b') \<rparr>)"
| Deleted: "store s = xs @ b # ys \<Longrightarrow> obj = OBackup b \<or> obj = ODeletedFinalStateUnknown (OBackup b) \<Longrightarrow>
    gcStep E s (s\<lparr> store := xs @ ys, tasks := tasks s @ handleBackupDeletion obj, deleting := deleting s - {Name b} \<rparr>)"
| Ran: "tasks s = xs @ t # ys \<Longrightarrow> indexes byIndex (store s) \<Longrightarrow> runTask E byIndex t h = (Some (), h @ es) \<Longrightarrow>
    gcStep E s (s\<lparr> tasks := xs @ ys, deleting := deleting s \<union> (deletions es \<inter> Name ` set (store s)) \<rparr>)"

text \<open>A backup is settled if it needs none, or there is a backup it builds on.\<close>

definition settled :: "gc \<Rightarrow> ZFSBackup \<Rightarrow> bool" where
  "settled s b \<longleftrightarrow> \<not> incremental b \<or> prevKey b \<in> key ` set (store s)"

text \<open>A backup is covered if it is settled, is being deleted, or a task will see to it.\<close>

definition covered :: "gc \<Rightarrow> ZFSBackup \<Rightarrow> bool" where
  "covered s b \<longleftrightarrow> settled s b \<or> Name b \<in> deleting s
     \<or> (\<exists>b'. Orphaned b' \<in> set (tasks s) \<and> incremental b' \<and> Name b' = Name b \<and> prevKey b' = prevKey b)
     \<or> (\<exists>p. Referencing p \<in> set (tasks s) \<and> key p = prevKey b)"

definition gcInv :: "gc \<Rightarrow> bool" where
  "gcInv s \<longleftrightarrow>
     distinct (map Name (store s)) \<and> (\<forall>b \<in> set (store s). Name b \<noteq> [])
     \<and> (\<forall>t \<in> set (tasks s). Name (taskBackup t) \<noteq> []) \<and> (\<forall>b \<in> set (store s). covered s b)"

definition emptyGc :: gc where
  "emptyGc = \<lparr> store = [], tasks = [], deleting = {} \<rparr>"

text \<open>An informer that keeps its store as a list, and an incremental backup with and without the backup it builds on.\<close>

definition listIndexer :: "ZFSBackup list \<Rightarrow> indexer" where
  "listIndexer bks h name k =
     (case map_of setupIndexers name of
        Some f \<Rightarrow> Inr (filter (\<lambda>obj. k \<in> set (f obj)) (map OBackup bks))
      | None \<Rightarrow> Inl ''no such index'')"

definition demoBackup :: "string \<Rightarrow> string \<Rightarrow> string \<Rightarrow> string \<Rightarrow> string \<Rightarrow> ZFSBackup" where
  "demoBackup n v nid snap prev = emptyBackup\<lparr> Name := n, BkpSpec :=
     \<lparr> BkpVolumeName = v, BkpOwnerNodeID = nid, BkpSnapName = snap, PrevSnapName = prev, BackupDest = [] \<rparr> \<rparr>"

section \<open>What a task does\<close>

lemma deletions_simps [simp]: "deletions [] = {}" "deletions (e # es) = set (deletionOf e) \<union> deletions es"
    "deletions (es @ fs) = deletions es \<union> deletions fs"
  by (auto simp: deletions_def)

lemma deleteBackup_run:
  "works E \<Longrightarrow> n \<noteq> [] \<Longrightarrow>
   deleteBackup E n h = (Some None, h @ [EvClientset [] None, EvBkp (KDelete (OpenEBSNamespace E) n None)])"
  by (simp add: works_def deleteBackup_def bkp_Delete_def kube_Delete_def bkpKind_def getClientOrCached_def go_simps)

lemma deleteAll_run:
  assumes E: "works E" and bs: "list_all (\<lambda>b. Name b \<noteq> []) (bs :: ZFSBackup list)"
  shows "\<exists>es. goEach (\<lambda>b. goBind (deleteBackup E (Name b)) (\<lambda>_. goRet ())) bs h = (Some (), h @ es) \<and> deletions es = Name ` set bs"
proof -
  define f where "f = (\<lambda>b :: ZFSBackup. goBind (deleteBackup E (Name b)) (\<lambda>_. goRet ()))"
  have f: "f b h = (Some (), h @ [EvClientset [] None, EvBkp (KDelete (OpenEBSNamespace E) (Name b) None)])"
    if "Name b \<noteq> []" for b h using that E by (simp add: f_def go_simps deleteBackup_run)
  from bs have "\<exists>es. goEach f bs h = (Some (), h @ es) \<and> deletions es = Name ` set bs"
  proof (induction bs arbitrary: h)
    case (Cons b bs)
    then obtain es where "goEach f bs (h @ [EvClientset [] None, EvBkp (KDelete (OpenEBSNamespace E) (Name b) None)]) =
        (Some (), (h @ [EvClientset [] None, EvBkp (KDelete (OpenEBSNamespace E) (Name b) None)]) @ es)"
      "deletions es = Name ` set bs" by fastforce
    with Cons.prems show ?case
      by (intro exI [of _ "[EvClientset [] None, EvBkp (KDelete (OpenEBSNamespace E) (Name b) None)] @ es"])
        (simp add: go_simps f)
  qed (simp add: go_simps)
  then show ?thesis by (simp add: f_def)
qed

lemma indexesD:
  "indexes byIndex bks \<Longrightarrow> map_of setupIndexers name = Some f \<Longrightarrow>
   \<exists>objs. byIndex h name k = Inr objs \<and> set objs = {obj \<in> OBackup ` set bks. k \<in> set (f obj)}"
  by (simp add: indexes_def)

lemma parse_backups: "set objs \<subseteq> range OBackup \<Longrightarrow> \<exists>bs. parseBackupsFromIndexResults objs = Some bs \<and> objs = map OBackup bs"
  by (induction objs) auto

lemma indexes_snapshot:
  assumes "indexes byIndex bks"
  obtains objs where "byIndex h BackupSnapshotIndex k = Inr objs" "objs = [] \<longleftrightarrow> k \<notin> key ` set bks"
proof -
  from assms obtain objs where o: "byIndex h BackupSnapshotIndex k = Inr objs"
    "set objs = {obj \<in> OBackup ` set bks. k \<in> set (BackupSnapshotIndexFunc obj)}"
    using indexesD [of byIndex bks BackupSnapshotIndex BackupSnapshotIndexFunc h k] by (auto simp: setupIndexers_def)
  then have "objs = [] \<longleftrightarrow> k \<notin> key ` set bks"
    by (auto simp: BackupSnapshotIndexFunc_def key_def getBackupKeyBySpec_def Let_def simp flip: set_empty)
  with o(1) that show thesis by blast
qed

lemma indexes_previous:
  assumes "indexes byIndex bks"
  obtains objs where "byIndex h BackupPreviousSnapshotIndex k = Inr objs"
    "set objs = OBackup ` {b \<in> set bks. incremental b \<and> prevKey b = k}"
proof -
  from assms obtain objs where o: "byIndex h BackupPreviousSnapshotIndex k = Inr objs"
    "set objs = {obj \<in> OBackup ` set bks. k \<in> set (BackupPreviousSnapshotIndexFunc obj)}"
    using indexesD [of byIndex bks BackupPreviousSnapshotIndex BackupPreviousSnapshotIndexFunc h k]
    by (auto simp: setupIndexers_def)
  then have "set objs = OBackup ` {b \<in> set bks. incremental b \<and> prevKey b = k}"
    by (auto simp: BackupPreviousSnapshotIndexFunc_def prevKey_def incremental_def getBackupKeyBySpec_def Let_def)
  with o(1) that show thesis by blast
qed

lemma runTask_exact:
  assumes E: "works E" and I: "indexes byIndex bks" and n: "Name (taskBackup t) \<noteq> []" "\<forall>b \<in> set bks. Name b \<noteq> []"
  shows "\<exists>es. runTask E byIndex t h = (Some (), h @ es) \<and> deletions es = doomed bks t"
proof (cases t)
  case (Orphaned b)
  show ?thesis
  proof (cases "incremental b")
    case True
    obtain objs where "byIndex h BackupSnapshotIndex (prevKey b) = Inr objs" "objs = [] \<longleftrightarrow> prevKey b \<notin> key ` set bks"
      by (rule indexes_snapshot [OF I])
    with True E n Orphaned show ?thesis
      by (simp add: runTask_def deleteOrphanedIncBackup_def Let_def incremental_def prevKey_def [symmetric] go_simps
          deleteBackup_run doomed_def)
  qed (simp add: Orphaned runTask_def deleteOrphanedIncBackup_def Let_def incremental_def go_simps doomed_def)
next
  case (Referencing p)
  obtain objs where o: "byIndex h BackupPreviousSnapshotIndex (key p) = Inr objs"
    "set objs = OBackup ` {b \<in> set bks. incremental b \<and> prevKey b = key p}"
    by (rule indexes_previous [OF I])
  then obtain bs where bs: "parseBackupsFromIndexResults objs = Some bs" "objs = map OBackup bs"
    using parse_backups [of objs] by auto
  with o(2) have set_bs: "set bs = {b \<in> set bks. incremental b \<and> prevKey b = key p}" by auto
  then have "list_all (\<lambda>b. Name b \<noteq> []) bs" using n(2) by (auto simp: list_all_iff)
  from deleteAll_run [OF E this, of h] set_bs o(1) bs Referencing show ?thesis
    by (cases "bs = []") (auto simp: runTask_def deleteBackupsReferencingDeletedBackup_def Let_def key_def [symmetric] go_simps doomed_def)
qed

section \<open>Chains stay whole\<close>

lemma handlers_names:
  "Name b \<noteq> [] \<Longrightarrow> t \<in> set (handleBackupCreation (OBackup b)) \<Longrightarrow> Name (taskBackup t) \<noteq> []"
  "Name b' \<noteq> [] \<Longrightarrow> t \<in> set (handleBackupUpdate (OBackup b) (OBackup b')) \<Longrightarrow> Name (taskBackup t) \<noteq> []"
  by (auto simp: handleBackupCreation_def handleBackupUpdate_def split: if_splits)

lemma covered_mono:
  "covered s b \<Longrightarrow> key ` set (store s) \<subseteq> key ` set (store s') \<Longrightarrow> set (tasks s) \<subseteq> set (tasks s') \<Longrightarrow>
   deleting s \<subseteq> deleting s' \<Longrightarrow> covered s' b"
  unfolding covered_def settled_def by blast

lemma gcInv_Created:
  assumes inv: "gcInv s" and b: "Name b \<noteq> []" "Name b \<notin> Name ` set (store s)"
  shows "gcInv (s\<lparr> store := b # store s, tasks := tasks s @ handleBackupCreation (OBackup b) \<rparr>)" (is "gcInv ?s")
proof -
  have "covered ?s b" by (auto simp: covered_def settled_def handleBackupCreation_def incremental_def)
  moreover have "covered ?s c" if "c \<in> set (store s)" for c
    by (rule covered_mono [of s]) (use inv that in \<open>auto simp: gcInv_def\<close>)
  ultimately show ?thesis using inv b handlers_names(1) unfolding gcInv_def by auto
qed

lemma gcInv_Updated:
  assumes inv: "gcInv s" and s: "store s = xs @ b # ys" and b: "Name b' = Name b" "key b' = key b"
    and same: "BkpVolumeName (BkpSpec b') = BkpVolumeName (BkpSpec b)" "BkpOwnerNodeID (BkpSpec b') = BkpOwnerNodeID (BkpSpec b)"
  shows "gcInv (s\<lparr> store := xs @ b' # ys, tasks := tasks s @ handleBackupUpdate (OBackup b) (OBackup b') \<rparr>)" (is "gcInv ?s")
proof -
  have c: "covered ?s c" if "c \<in> set (store s)" for c
    by (rule covered_mono [of s]) (use inv s b that in \<open>auto simp: gcInv_def\<close>)
  have "covered ?s b'"
  proof (cases "PrevSnapName (BkpSpec b) = PrevSnapName (BkpSpec b')")
    case True
    with same have "prevKey b' = prevKey b" "incremental b' = incremental b" by (simp_all add: prevKey_def incremental_def)
    moreover have "covered ?s b" using c s by simp
    ultimately show ?thesis using b unfolding covered_def settled_def by simp
  next
    case False
    then show ?thesis by (auto simp: covered_def settled_def handleBackupUpdate_def incremental_def)
  qed
  moreover have "Name b' \<noteq> []" using inv s b unfolding gcInv_def by simp
  ultimately show ?thesis using inv s b c handlers_names(2) [of b' _ b] unfolding gcInv_def by auto
qed

lemma gcInv_Deleted:
  assumes inv: "gcInv s" and s: "store s = xs @ b # ys"
    and obj: "obj = OBackup b \<or> obj = ODeletedFinalStateUnknown (OBackup b)"
  shows "gcInv (s\<lparr> store := xs @ ys, tasks := tasks s @ handleBackupDeletion obj, deleting := deleting s - {Name b} \<rparr>)"
    (is "gcInv ?s")
proof -
  have t: "handleBackupDeletion obj = [Referencing b]" using obj by (auto simp: handleBackupDeletion_def)
  have "covered ?s c" if "c \<in> set (xs @ ys)" for c
  proof -
    have "Name c \<noteq> Name b" using inv s that unfolding gcInv_def by (auto simp: image_iff)
    moreover have "covered s c" using inv s that unfolding gcInv_def by auto
    ultimately show ?thesis unfolding covered_def settled_def s t by auto
  qed
  moreover have "Name b \<noteq> []" using inv s unfolding gcInv_def by simp
  ultimately show ?thesis using inv s unfolding gcInv_def t by auto
qed

lemma gcInv_Ran:
  assumes inv: "gcInv s" and s: "tasks s = xs @ t # ys" and d: "deletions es = doomed (store s) t"
  shows "gcInv (s\<lparr> tasks := xs @ ys, deleting := deleting s \<union> (deletions es \<inter> Name ` set (store s)) \<rparr>)" (is "gcInv ?s")
proof -
  have "covered ?s c" if c: "c \<in> set (store s)" for c
  proof -
    have "covered s c" using inv c unfolding gcInv_def by blast
    then consider "settled s c" | "Name c \<in> deleting s"
      | b' where "Orphaned b' \<in> set (tasks s)" "incremental b'" "Name b' = Name c" "prevKey b' = prevKey c"
      | p where "Referencing p \<in> set (tasks s)" "key p = prevKey c"
      unfolding covered_def by blast
    then show ?thesis
    proof cases
      case 3
      then show ?thesis using s c d by (cases "t = Orphaned b'") (auto simp: covered_def settled_def doomed_def)
    next
      case 4
      then show ?thesis using s c d by (cases "t = Referencing p") (auto simp: covered_def settled_def doomed_def)
    qed (auto simp: covered_def settled_def)
  qed
  with inv s show ?thesis unfolding gcInv_def by auto
qed

lemma gcInv_step:
  assumes "works E" and "gcStep E s s'" and "gcInv s"
  shows "gcInv s'"
  using assms(2,3)
proof cases
  case (Ran xs t ys byIndex h es)
  with \<open>gcInv s\<close> have "Name (taskBackup t) \<noteq> []" "\<forall>b \<in> set (store s). Name b \<noteq> []" by (auto simp: gcInv_def)
  from runTask_exact [OF \<open>works E\<close> \<open>indexes byIndex (store s)\<close> this, of h] Ran
  have "deletions es = doomed (store s) t" by auto
  from gcInv_Ran [OF \<open>gcInv s\<close> Ran(2) this] Ran(1) show ?thesis by simp
qed (auto intro: gcInv_Created gcInv_Updated gcInv_Deleted)

lemma gcInv_reachable:
  assumes "works E" and "(gcStep E)\<^sup>*\<^sup>* emptyGc s"
  shows "gcInv s"
  using assms(2)
proof (induction rule: rtranclp_induct)
  case base
  show ?case by (simp add: gcInv_def emptyGc_def)
next
  case (step s s')
  then show ?case using gcInv_step [OF assms(1)] by blast
qed

lemma listIndexer_indexes: "indexes (listIndexer bks) bks"
  by (auto simp: indexes_def listIndexer_def)

lemma gc_drains:
  assumes E: "works E"
  shows "gcInv s \<Longrightarrow> \<exists>s'. (gcStep E)\<^sup>*\<^sup>* s s' \<and> tasks s' = [] \<and> store s' = store s"
proof (induction "tasks s" arbitrary: s)
  case (Cons t ts)
  then have "Name (taskBackup t) \<noteq> []" "\<forall>b \<in> set (store s). Name b \<noteq> []" unfolding gcInv_def by (auto simp flip: Cons.hyps(2))
  from runTask_exact [OF E listIndexer_indexes this, of "[]"] obtain es where
    "runTask E (listIndexer (store s)) t [] = (Some (), [] @ es)" by blast
  from gcStep.Ran [OF _ listIndexer_indexes this, of "[]" ts] Cons.hyps(2)
  have step: "gcStep E s (s\<lparr> tasks := ts, deleting := deleting s \<union> (deletions es \<inter> Name ` set (store s)) \<rparr>)" (is "gcStep E s ?s1")
    by simp
  from Cons.hyps(1) [of ?s1] gcInv_step [OF E step Cons.prems] obtain s' where
    "(gcStep E)\<^sup>*\<^sup>* ?s1 s'" "tasks s' = []" "store s' = store s" by auto
  with step show ?case by (meson converse_rtranclp_into_rtranclp)
qed auto

text \<open>A task of the collector deletes exactly what it is for: one for a new or changed backup deletes that backup if it is
  incremental and no stored backup has the snapshot it builds on; one for a deleted backup deletes the stored incremental
  backups that build on its snapshot. It always ends.\<close>
lemma gc_task_exact:
  assumes "works E" "indexes byIndex bks" "Name (taskBackup t) \<noteq> []" "\<forall>b \<in> set bks. Name b \<noteq> []"
  shows "\<exists>es. runTask E byIndex t h = (Some (), h @ es) \<and> deletions es = doomed bks t"
  by (rule runTask_exact [OF assms])



text \<open>
  The keys of the indexes are unique only for volume and node names without a dot: here deleting a backup of the volume
  \<open>a.b\<close> on the node \<open>c\<close> deletes a backup of the volume \<open>a\<close> on the node \<open>b.c\<close>.
\<close>

lemma gc_deletes_unrelated:
  "doomed [demoBackup ''b2'' ''a'' ''b.c'' ''s2'' ''s1''] (Referencing (demoBackup ''b1'' ''a.b'' ''c'' ''s1'' [])) = {''b2''}"
  by (auto simp: doomed_def demoBackup_def incremental_def prevKey_def key_def getBackupKeyBySpec_def)

lemma dot_free_eq:
  assumes "CHR ''.'' \<notin> set a" "CHR ''.'' \<notin> set b"
  shows "a @ ''.'' @ x = b @ ''.'' @ y \<longleftrightarrow> a = b \<and> x = y"
proof
  assume eq: "a @ ''.'' @ x = b @ ''.'' @ y"
  from assms have "takeWhile (\<lambda>c. c \<noteq> CHR ''.'') (a @ ''.'' @ x) = a" "takeWhile (\<lambda>c. c \<noteq> CHR ''.'') (b @ ''.'' @ y) = b"
    by (auto simp: takeWhile_append)
  with eq have "a = b" by simp
  with eq show "a = b \<and> x = y" by simp
qed simp

text \<open>The keys by which the collector finds backups tell them apart as long as volume and node names have no dot.\<close>
lemma backup_key_injective:
  assumes "CHR ''.'' \<notin> set v" "CHR ''.'' \<notin> set v'" "CHR ''.'' \<notin> set n" "CHR ''.'' \<notin> set n'"
  shows "getBackupKeyBySpec v n s = getBackupKeyBySpec v' n' s' \<longleftrightarrow> v = v' \<and> n = n' \<and> s = s'"
  unfolding getBackupKeyBySpec_def dot_free_eq [OF assms(1,2)] dot_free_eq [OF assms(3,4)] ..

end
