(* ===== verification/ControllerWrites.thy ===== *)
theory ControllerWrites
  imports ControllerLocks
begin

text \<open>
  What the controller service ever writes to a volume object: new objects are pending and without finalizers, and an
  update is based on an object that was read before and sets it back to pending, or changes its capacity or its
  annotations only.
\<close>

section \<open>Definitions\<close>

definition plainNew :: "ZFSVolume \<Rightarrow> bool" where
  "plainNew v \<longleftrightarrow> State v = ZFSStatusPending \<and> Finalizers v = [] \<and> DeletionTimestamp v = None"

definition changeOf :: "ZFSVolume \<Rightarrow> ZFSVolume \<Rightarrow> bool" where
  "changeOf v0 v \<longleftrightarrow>
     (\<exists>sp. v = v0\<lparr> Spec := sp, State := ZFSStatusPending \<rparr>)
   \<or> (\<exists>c. v = v0\<lparr> Spec := (Spec v0)\<lparr> Capacity := c \<rparr> \<rparr>)
   \<or> (\<exists>a. v = v0\<lparr> Annotations := a \<rparr>)"

definition writeGuard :: "event \<Rightarrow> event list \<Rightarrow> bool" where
  "writeGuard e a \<longleftrightarrow>
     (case e of
        EvVol (KCreate ns v r) \<Rightarrow> plainNew v
      | EvVol (KUpdate ns v r) \<Rightarrow> (\<exists>n v0. EvVol (KGet ns n (Inr v0)) \<in> set a \<and> changeOf v0 v)
      | _ \<Rightarrow> True)"

text \<open>The requests of the controller service that write.\<close>

datatype ctlRequest = CtlCreateVolume CreateVolumeRequest | CtlDeleteVolume string
  | CtlExpandVolume string "int64 option" | CtlCreateSnapshot CreateSnapshotRequest | CtlDeleteSnapshot string

fun ctlTrace :: "env \<Rightarrow> ctl \<Rightarrow> ctlRequest \<Rightarrow> event list" where
  "ctlTrace E C (CtlCreateVolume req) = snd (CreateVolume E C req [])"
| "ctlTrace E C (CtlDeleteVolume vid) = snd (DeleteVolume E C vid [])"
| "ctlTrace E C (CtlExpandVolume vid b) = snd (ControllerExpandVolume E vid b [])"
| "ctlTrace E C (CtlCreateSnapshot req) = snd (CreateSnapshot E C req [])"
| "ctlTrace E C (CtlDeleteSnapshot sid) = snd (DeleteSnapshot E sid [])"

fun volWrite :: "event \<Rightarrow> bool" where
  "volWrite (EvVol (KCreate _ _ _)) = True"
| "volWrite (EvVol (KUpdate _ _ _)) = True"
| "volWrite _ = False"

section \<open>Rules\<close>

lemma writeGuard_free [simp]: "\<not> volWrite e \<Longrightarrow> free writeGuard e"
  by (cases e) (auto simp: free_def writeGuard_def split: kev.split)

lemma keeps_reads: "only (\<lambda>e. \<not> volWrite e) m \<Longrightarrow> keeps writeGuard h0 F m (\<lambda>_. {}) (\<lambda>_. True)"
  by (rule keeps_only) (erule only_mono, simp)

lemma keeps_bind_reads:
  "only (\<lambda>e. \<not> volWrite e) m \<Longrightarrow> (\<And>x. keeps writeGuard h0 F (f x) Q R) \<Longrightarrow> keeps writeGuard h0 F (goBind m f) Q R"
  by (rule keeps_goBind, erule keeps_reads) simp_all

lemma guardedBy_mono: "guardedBy G es \<Longrightarrow> (\<And>e a. G e a \<Longrightarrow> G' e a) \<Longrightarrow> guardedBy G' es"
  by (auto simp: guardedBy_def)

section \<open>Creating\<close>

lemma keeps_putVol_change:
  assumes "EvVol (KGet (OpenEBSNamespace E) n (Inr v0)) \<in> F" "changeOf v0 v"
  shows "keeps writeGuard h0 F (putVol E v) (\<lambda>_. {}) (\<lambda>_. True)"
  by (rule keeps_putVol) (use assms in \<open>auto simp: writeGuard_def\<close>)

lemma nowrite_checkVolCreation: "only (\<lambda>e. \<not> volWrite e) (checkVolCreation E n)"
proof -
  have "only (\<lambda>e. \<not> volWrite e) (checkVolLoop k E n)" for k by (induction k) (simp_all, (intro only_rules; simp)+)
  then show ?thesis by (simp add: checkVolCreation_def)
qed

lemma keeps_vol_Create:
  assumes "plainNew v"
  shows "keeps writeGuard h0 F (asOwn E (vol_Create E (Some v)))
    (answered (\<lambda>y. EvVol (KCreate (OpenEBSNamespace E) v (Inr y)))) (\<lambda>_. True)"
  unfolding vol_Create_def
proof (rule keeps_asOwn)
  fix k :: Kubeclient
  assume "namespace k = OpenEBSNamespace E"
  with vk.keeps_Create [of writeGuard F k v h0 E] assms
  show "keeps writeGuard h0 F (kube_Create E volKind (Some v) k)
      (\<lambda>(r, k'). answered (\<lambda>y. EvVol (KCreate (OpenEBSNamespace E) v (Inr y))) r) (\<lambda>_. True)"
    by (simp add: writeGuard_def)
qed

lemma keeps_ProvisionVolume:
  assumes "plainNew vol"
  shows "keeps writeGuard h0 F (ProvisionVolume E vol) (\<lambda>_. {}) (\<lambda>_. True)"
proof -
  have wait: "keeps writeGuard h0 F' (case err of None \<Rightarrow> checkVolCreation E (Name vol) | Some e \<Rightarrow> goRet (False, Some e))
      (\<lambda>_. {}) (\<lambda>_. True)" for F' and err
    by (cases err) (simp_all add: keeps_reads nowrite_checkVolCreation keeps_goRetI)
  have upd: "changeOf zv (zv\<lparr> Spec := Spec vol, State := State vol \<rparr>)" for zv
    using assms by (auto simp: changeOf_def plainNew_def)
  show ?thesis
    unfolding ProvisionVolume_def
  proof (rule keeps_bind_GetZFSVolume)
    fix e
    show "keeps writeGuard h0 F (goBind (case Inl e of Inr zv \<Rightarrow> putVol E (zv\<lparr>Spec := Spec vol, State := State vol\<rparr>)
        | Inl _ \<Rightarrow> goBind (asOwn E (vol_Create E (Some vol))) (\<lambda>r. goRet (errOf r)))
      (\<lambda>err. case err of None \<Rightarrow> checkVolCreation E (Name vol) | Some e \<Rightarrow> goRet (False, Some e))) (\<lambda>_. {}) (\<lambda>_. True)"
      by (simp, rule keeps_bind_assoc, rule keeps_goBind [OF keeps_vol_Create [OF assms]]) (intro keeps_bind_ret wait)
  next
    fix zv
    show "keeps writeGuard h0 (insert (EvVol (KGet (OpenEBSNamespace E) (Name vol) (Inr zv))) F)
      (goBind (case Inr zv of Inr zv \<Rightarrow> putVol E (zv\<lparr>Spec := Spec vol, State := State vol\<rparr>)
        | Inl _ \<Rightarrow> goBind (asOwn E (vol_Create E (Some vol))) (\<lambda>r. goRet (errOf r)))
      (\<lambda>err. case err of None \<Rightarrow> checkVolCreation E (Name vol) | Some e \<Rightarrow> goRet (False, Some e))) (\<lambda>_. {}) (\<lambda>_. True)"
      by (simp, rule keeps_goBind [OF keeps_putVol_change [OF _ upd, where n = "Name vol"]], simp) (rule wait)
  qed simp_all
qed

lemma plainNew_spec [simp]: "plainNew (v\<lparr> Spec := s \<rparr>) = plainNew v" "plainNew (v\<lparr> Spec := s, State := ZFSStatusPending \<rparr>) =
    (Finalizers v = [] \<and> DeletionTimestamp v = None)"
  by (auto simp: plainNew_def)

lemma plainNew_requested:
  assumes "requestedVolume C req parameters volName capacity = Inr volObj"
  shows "plainNew volObj"
proof -
  let ?cs = "requestCalls C req parameters volName capacity"
  from assms have b: "Build (fold vol_with ?cs vol_NewBuilder) = Inr volObj" by (simp only: requestedVolume_calls)
  note calls = vb.build_object [OF b] requestCalls_def Let_def builder_defs newBuilder_def nonEmpty_def setObj_object
    specUpd_def volProps_def reserved_object
  show ?thesis by (simp add: calls plainNew_def emptyVolume_def)
qed

lemma plainNew_cloneTemplate:
  assumes "cloneTemplate C req volName labels = Inr obj"
  shows "plainNew obj"
proof -
  let ?param = "insensitiveParameter C (VolParameters req)"
  let ?cs = "[VName volName, VPVCName (?param ''csi.storage.k8s.io/pvc/name''),
    VPVCNamespace (?param ''csi.storage.k8s.io/pvc/namespace''), VPVName (?param ''csi.storage.k8s.io/pv/name''),
    VVolumeStatus ZFSStatusPending] @ (if labels = [] then [] else [VLabels labels])"
  from assms have b: "Build (fold vol_with ?cs vol_NewBuilder) = Inr obj" by (simp add: cloneTemplate_def Let_def split: if_splits)
  then show ?thesis
    by (simp add: vb.build_object [OF b] builder_defs newBuilder_def nonEmpty_def setObj_object specUpd_def volProps_def
      reserved_object withLabels_def plainNew_def emptyVolume_def)
qed

lemma keeps_tryNodes:
  assumes "plainNew volObj"
  shows "keeps writeGuard h0 F (tryNodes E ps pattern n volObj nodes err) (\<lambda>_. {}) (\<lambda>_. True)"
proof (induction nodes arbitrary: F err)
  case Nil
  show ?case by (simp add: keeps_goRetI)
next
  case (Cons node nodes)
  have prov: "keeps writeGuard h0 F (goBind (ProvisionVolume E vol) (\<lambda>(timeout, perr). case perr of
        None \<Rightarrow> goRet (Inr vol)
      | Some e \<Rightarrow> if timeout then goRet (Inl (Some e)) else tryNodes E ps pattern n volObj nodes (Some e))) (\<lambda>_. {}) (\<lambda>_. True)"
    if "Build (vol_WithVolumeStatus ZFSStatusPending (vol_WithPoolName p
             (vol_WithOwnerNodeID i (vol_BuildFrom (Some volObj))))) = Inr vol" for p i vol F
  proof (rule keeps_goBind)
    have "plainNew vol" using assms placedVolume(1) [OF that] by (simp add: plainNew_def)
    then show "keeps writeGuard h0 F (ProvisionVolume E vol) (\<lambda>_. {}) (\<lambda>_. True)" by (rule keeps_ProvisionVolume)
  qed (auto split: prod.split option.split intro!: keeps_goRetI Cons)
  show ?case
    unfolding tryNodes.simps
    by (rule keeps_bind_reads, (intro only_rules; simp), intro keeps_sum Cons, rule keeps_bind_reads, (intro only_rules; simp))
      (intro keeps_sum keeps_if Cons prov)
qed

lemma keeps_createFrom: "keeps writeGuard h0 F (createFrom E C req) (\<lambda>_. {}) (\<lambda>_. True)"
proof -
  have prov: "keeps writeGuard h0 F (provisionOn E ps pattern volName s nodes volObj) (\<lambda>_. {}) (\<lambda>_. True)"
    if "plainNew volObj" for ps pattern volName s nodes volObj F
    unfolding provisionOn_def Let_def
    by (rule keeps_goBind [OF keeps_tryNodes [OF that]], rule keeps_reads) (intro only_rules; simp)
  have new: "keeps writeGuard h0 F (CreateZFSVolume E C req) (\<lambda>_. {}) (\<lambda>_. True)"
  proof (cases "RequiredBytes req")
    case (Some bytes)
    show ?thesis
      unfolding CreateZFSVolume_def Some option.case Let_def
      by (rule keeps_bind_reads, (intro only_rules; simp))
        (auto intro!: keeps_goRetI keeps_bind_reads [OF only_candidateNodes] keeps_reads [OF only_goStop] prov
          simp: goPanic_def plainNew_requested split: sum.split option.split)
  qed (auto simp: CreateZFSVolume_def goPanic_def intro!: keeps_reads only_rules)
  have clone: "keeps writeGuard h0 F (goBind (ProvisionVolume E (inheritSpec src snapName obj)) (\<lambda>(timeout, err). case err of
       Some e \<Rightarrow> goRet (Inl (msg e)) | None \<Rightarrow> goRet (Inr (inheritSpec src snapName obj)))) (\<lambda>_. {}) (\<lambda>_. True)"
    if "cloneTemplate C req volName labels = Inr obj" for F src snapName obj volName labels msg
  proof (rule keeps_goBind [OF keeps_ProvisionVolume])
    show "plainNew (inheritSpec src snapName obj)" using plainNew_cloneTemplate [OF that] by (simp add: inheritSpec_def)
  qed (auto intro!: keeps_goRetI split: prod.split option.split)
  have "keeps writeGuard h0 F (CreateVolClone E C req srcVol) (\<lambda>_. {}) (\<lambda>_. True)" for srcVol
    unfolding CreateVolClone_def Let_def
    by (auto intro!: keeps_goRetI keeps_bind_GetZFSVolume keeps_reads [OF only_goStop] clone
      simp: goPanic_def split: sum.split option.split)
  moreover have "keeps writeGuard h0 F (CreateSnapClone E C req snapshot) (\<lambda>_. {}) (\<lambda>_. True)" for snapshot
    unfolding CreateSnapClone_def Let_def
    by (auto intro!: keeps_goRetI keeps_bind_GetZFSSnapshot keeps_reads [OF only_goStop] clone
      simp: goPanic_def split: sum.split option.split)
  ultimately show ?thesis using new by (simp add: createFrom_def split: option.split contentSource.split)
qed

lemma keeps_CreateVolume: "keeps writeGuard h0 {} (CreateVolume E C req) (\<lambda>_. {}) (\<lambda>_. True)"
proof -
  have "keeps writeGuard h0 {} (goBind (createFrom E C req) (\<lambda>r. case r of Inl e \<Rightarrow> goRet (Inl e)
      | Inr vol \<Rightarrow> goBind (sendEventOrIgnore C a b c d) (\<lambda>_. goRet (Inr (f vol))))) (\<lambda>_. {}) (\<lambda>_. True)"
    for a b c d and f :: "ZFSVolume \<Rightarrow> CreateVolumeResponse"
    by (rule keeps_goBind [OF keeps_createFrom]) (intro keeps_rules; simp)
  then show ?thesis unfolding CreateVolume_def Let_def
    by (auto intro!: keeps_goRetI keeps_withVolume split: option.split)
qed

section \<open>All requests\<close>

lemma nowrite_snapshots:
  "only (\<lambda>e. \<not> volWrite e) (CreateSnapshot E C req)" "only (\<lambda>e. \<not> volWrite e) (DeleteSnapshot E sid)"
proof -
  have loop: "only (\<lambda>e. \<not> volWrite e) (readySnapshotLoop k E n)" for k n
    by (induction k) (simp_all, (intro only_rules; simp)+)
  show "only (\<lambda>e. \<not> volWrite e) (CreateSnapshot E C req)"
    unfolding CreateSnapshot_def newSnapshot_def verifySnapshotRequest_def withVolumeAndSnapshot_def ProvisionSnapshot_def
      waitForReadySnapshot_def Let_def
    by (intro only_rules loop; simp)
  show "only (\<lambda>e. \<not> volWrite e) (DeleteSnapshot E sid)"
    unfolding DeleteSnapshot_def removeSnapshot_def withVolumeAndSnapshot_def GetSnapshotForVolume_def
      zfs_DeleteSnapshot_def IsVolumeEligibleForDeletion_def Let_def
    by (intro only_rules; simp)
qed

lemma keeps_guarded: "keeps G [] {} m Q R \<Longrightarrow> guardedBy G (snd (m []))"
  using keeps_extends [of G "[]" m Q R "fst (m [])" "snd (m [])"] by (metis append_Nil prod.collapse)

lemma deleteGuard_write: "deleteGuard vid e a \<Longrightarrow> writeGuard e a"
  by (cases e) (auto simp: deleteGuard_def writeGuard_def changeOf_def split: kev.splits)

lemma expandGuard_write: "expandGuard vid n e a \<Longrightarrow> writeGuard e a"
  by (cases e) (auto simp: expandGuard_def writeGuard_def changeOf_def split: kev.splits)

text \<open>Whatever a request of the controller service does, its writes to volumes are of these kinds.\<close>

lemma ctlTrace_guarded: "guardedBy writeGuard (ctlTrace E C q)"
proof (cases q)
  case (CtlCreateVolume req)
  then show ?thesis using keeps_guarded [OF keeps_CreateVolume] by simp
next
  case (CtlDeleteVolume vid)
  then show ?thesis using guardedBy_mono [OF keeps_guarded [OF keeps_DeleteVolume] deleteGuard_write] by simp
next
  case (CtlExpandVolume vid b)
  then show ?thesis using guardedBy_mono [OF keeps_guarded [OF keeps_ControllerExpandVolume] expandGuard_write] by simp
qed (simp_all add: keeps_guarded [OF keeps_reads [OF nowrite_snapshots(1)]] keeps_guarded [OF keeps_reads [OF nowrite_snapshots(2)]])

end
