(* ===== verification/NodeData.thy ===== *)
theory NodeData
  imports Reconcilers
begin

text \<open>
  What the node agent's controllers leave alone: which of their events can remove a given dataset
  from the node. Only the destruction of a volume removes a dataset that is not a snapshot.
\<close>

section \<open>Definitions\<close>

definition spares :: "string \<Rightarrow> event \<Rightarrow> bool" where
  "spares d e \<longleftrightarrow> (\<forall>ds. d \<in> set ds \<longrightarrow> d \<in> set (effect e ds))"

section \<open>Single events\<close>

lemma inert_spares: "inert e \<Longrightarrow> spares d e"
  by (simp add: inert_def spares_def)

lemma spares_events [simp]:
  "spares d (EvClientset p r)" "spares d (EvVol v)" "spares d (EvSnap s)" "spares d (EvBkp b)" "spares d (EvRstr x)"
  "spares d (EvRecord k n t rs m)" "spares d (EvHandleError m)"
  by (simp_all add: inert_spares)

lemma spares_node_events [simp]:
  "spares d (EvPipe r)" "spares d (EvStart c as t)" "spares d (EvKill c as)" "spares d (EvBuffers a b)"
  "spares d (EvStat p st)" "spares d (EvSymlinks p q)" "spares d (EvGenerateUUID fs dev u)" "spares d (EvSelect w ch)"
  "spares d (EvPanic m)" "spares d (EvWait m)" "spares d (EvExit Source as t)"
  by (simp_all add: spares_def)

lemma spares_exec:
  assumes "\<And>ds. d \<in> set ds \<Longrightarrow> d \<in> set (zfsEffect args ds)"
  shows "spares d (EvExec ZFSVolCmd args r)"
proof -
  obtain out t where "r = (out, t)" by (cases r)
  then show ?thesis using assms by (cases t) (auto simp: spares_def)
qed

lemma spares_exit:
  assumes "c \<noteq> ZFSVolCmd \<or> (\<forall>ds. d \<in> set ds \<longrightarrow> d \<in> set (zfsEffect args ds))"
  shows "spares d (EvExit s (c # args) t)"
  using assms by (cases s; cases t) (auto simp: spares_def)

lemma spares_list [simp]: "spares d (EvExec ZFSVolCmd [ZFSListArg, x] r)"
  by (simp add: spares_def)

lemma spares_adding [simp]:
  "spares d (EvExec ZFSVolCmd (buildZvolCreateArgs vol) r)" "spares d (EvExec ZFSVolCmd (buildDatasetCreateArgs vol) r)"
  "spares d (EvExec ZFSVolCmd (buildCloneCreateArgs vol) r)" "spares d (EvExec ZFSVolCmd (buildZFSSnapCreateArgs snap) r)"
  by (rule spares_exec; simp)+

lemma spares_destroy:
  "\<not> under (volumePath vol) d \<Longrightarrow> spares d (EvExec ZFSVolCmd (buildVolumeDestroyArgs vol) r)"
  "d \<noteq> snapDataset snap \<Longrightarrow> spares d (EvExec ZFSVolCmd (buildZFSSnapDestroyArgs snap) r)"
  by (rule spares_exec; simp)+

lemma snapDataset_at: "CHR ''@'' \<in> set (snapDataset snap)"
  by (simp add: snapDataset_def)

lemma spares_set [simp]: "spares d (EvExec ZFSVolCmd (buildVolumeSetArgs vol) r)"
  by (rule spares_exec) (simp add: buildVolumeSetArgs_def Let_def)

lemma buildVolumeRestoreArgs_recv:
  "buildVolumeRestoreArgs rstr = Inr (nc, recv) \<Longrightarrow> \<exists>mid. recv = ZFSRecvArg # mid @ [restorePath rstr]"
  by (auto simp: buildVolumeRestoreArgs_def Let_def split: if_splits list.splits sum.splits)

section \<open>Operations\<close>

lemma spares_datasets: "only (spares d) m \<Longrightarrow> m h = (r, h @ es) \<Longrightarrow> d \<in> set (datasets base h) \<Longrightarrow> d \<in> set (datasets base (h @ es))"
proof -
  assume m: "only (spares d) m" "m h = (r, h @ es)" and d: "d \<in> set (datasets base h)"
  have "list_all (spares d) es" using only_snd [OF m] by auto
  then have "d \<in> set ds \<Longrightarrow> d \<in> set (fold effect es ds)" for ds
    by (induction es arbitrary: ds) (auto simp: spares_def)
  with d show ?thesis by simp
qed

lemma only_spares [only_rules]:
  "only (spares d) (zfs_CreateVolume E vol)" "only (spares d) (zfs_CreateSnapshot E snap)"
  "only (spares d) (zfs_CreateClone E vol)" "only (spares d) (SetVolumeProp E vol)"
  unfolding onNode_defs Let_def by (intro only_rules; simp)+

lemma only_spares_DestroySnapshot: "d \<noteq> snapDataset snap \<Longrightarrow> only (spares d) (zfs_DestroySnapshot E snap)"
  unfolding zfs_DestroySnapshot_def by (intro only_rules; simp add: spares_destroy)

lemma only_spares_DestroyVolume:
  assumes "\<not> under (volumePath vol) d" "CHR ''@'' \<notin> set d"
  shows "only (spares d) (zfs_DestroyVolume E vol)"
proof -
  have "d \<noteq> snapDataset s" for s using assms(2) snapDataset_at [of s] by auto
  then have "only (spares d) (zfs_DestroySnapshot E s)" for s by (rule only_spares_DestroySnapshot)
  with assms(1) show ?thesis unfolding zfs_DestroyVolume_def by (intro only_rules; simp add: spares_destroy)
qed

lemma only_spares_runPipe:
  assumes "fst dst \<noteq> ZFSVolCmd \<or> (\<forall>ds. d \<in> set ds \<longrightarrow> d \<in> set (zfsEffect (snd dst) ds))"
  shows "only (spares d) (runPipe E src dst)"
proof -
  have "only (spares d) (observeExit E (\<lambda>s. if s = Source then src else dst) t)" for t
    unfolding observeExit_def waitCmd_def killCmd_def
    by (cases t) (intro only_rules; simp add: spares_exit [OF assms])+
  then show ?thesis
    unfolding runPipe_def startCmd_def killCmd_def waitCmd_def readBuffers_def Let_def by (intro only_rules; simp)
qed

lemma only_spares_restoreFrom: "only (spares d) (restoreFrom E rstr)"
proof -
  have loop: "only (spares d) (deviceLoop n E dev)" for n dev
    by (induction n) (simp only: deviceLoop.simps, intro only_rules; simp)+
  have "only (spares d) (runPipe E (NetCatCmd, nc) (ZFSVolCmd, recv))"
    if "buildVolumeRestoreArgs rstr = Inr (nc, recv)" for nc recv
    using buildVolumeRestoreArgs_recv [OF that] by (intro only_spares_runPipe) (auto simp: zfsEffect_adds)
  then show ?thesis
    unfolding restoreFrom_def restoreUUID_def getDevice_def genUUID_def by (intro only_rules loop; simp)
qed

section \<open>Controllers\<close>

text \<open>None of the controllers for snapshots, backups and restores removes a dataset that is not a snapshot.\<close>

lemma only_spares_syncs:
  assumes "CHR ''@'' \<notin> set d"
  shows "only (spares d) (syncSnap E snap)" "only (spares d) (syncBkp E bkp)" "only (spares d) (syncRestore E rstr)"
proof -
  have "d \<noteq> snapDataset s" for s using assms snapDataset_at [of s] by auto
  then have ds: "only (spares d) (zfs_DestroySnapshot E s)" for s by (rule only_spares_DestroySnapshot)
  show "only (spares d) (syncSnap E snap)"
    unfolding syncSnap_def destroySnap_def takeSnap_def write_defs Let_def by (intro only_rules ds; simp)
  have nc: "only (spares d) (runPipe E src (NetCatCmd, args))" for src args
    by (rule only_spares_runPipe) simp
  show "only (spares d) (syncBkp E bkp)"
    unfolding syncBkp_def DestoryBackup_def zfs_CreateBackup_def write_defs Let_def
    by (intro only_rules ds nc; simp)
  show "only (spares d) (syncRestore E rstr)"
    unfolding syncRestore_def zfs_CreateRestore_def write_defs by (intro only_rules only_spares_restoreFrom; simp)
qed

lemma only_spares_syncZV:
  assumes "CHR ''@'' \<notin> set d" "isDeletionCandidate zv \<and> GetUserFinalizers (Finalizers zv) = [] \<Longrightarrow> \<not> under (volumePath zv) d"
  shows "only (spares d) (syncZV E zv)"
proof -
  have "only (spares d) (destroyZV E zv)" if "isDeletionCandidate zv" "length (GetUserFinalizers (Finalizers zv)) = 0"
    unfolding destroyZV_def write_defs
    by (intro only_rules only_spares_DestroyVolume assms(1); use that assms(2) in simp)
  moreover have "only (spares d) (provisionZV E zv)" unfolding provisionZV_def write_defs Let_def by (intro only_rules; simp)
  ultimately show ?thesis unfolding syncZV_def Let_def by (intro only_rules; simp)
qed

lemma returns_syncZV: "always_returns (syncZV E zv)"
  unfolding syncZV_def destroyZV_def provisionZV_def write_defs EmitSuccessEvent_def EmitFailureEvent_def Let_def
  by (intro returns_rules)

end
