(* ===== verification/System.thy ===== *)
theory System
  imports ControllerWrites NodeData
begin

text \<open>
  The driver as a whole: the controller and the node agents, which share nothing but the volume objects in the cluster,
  with the datasets on the nodes. A step is one write of a running controller request, one run of a node agent's
  controller on its node, or a deletion or a change to the metadata of an object by somebody else, in any order.

  Of the API server the steps use what it documents: a create is accepted only if there is no object of that name; an
  update only if it is based on the current version of the object, whose deletion time it cannot change; a delete removes
  an object without finalizers and gives others a deletion time; and an object with a deletion time is removed with its last
  finalizer. Of a node agent they use that a sync starts from the current object and that the object is owned by the
  node. The code ensures neither: caches lag, and only the event handlers look at the owner. Theory Fleet does without both.
\<close>

section \<open>Definitions\<close>

record system =
  objects :: "string \<Rightarrow> ZFSVolume option"
  versions :: "ZFSVolume set"
  data :: "string \<Rightarrow> string list"

definition fresh :: "system \<Rightarrow> ZFSVolume \<Rightarrow> bool" where
  "fresh s w \<longleftrightarrow> (\<forall>v \<in> versions s. Name v = Name w \<longrightarrow> ResourceVersion v \<noteq> ResourceVersion w)"

text \<open>A new version of an object is stored, or it is removed with its last finalizer.\<close>

definition settle :: "ZFSVolume \<Rightarrow> system \<Rightarrow> system" where
  "settle w s =
     (if DeletionTimestamp w \<noteq> None \<and> Finalizers w = [] then s\<lparr> objects := (objects s)(Name w := None) \<rparr>
      else s\<lparr> objects := (objects s)(Name w := Some w), versions := insert w (versions s) \<rparr>)"

inductive serve :: "event \<Rightarrow> system \<Rightarrow> system \<Rightarrow> bool" where
  Created: "objects s (Name v) = None \<Longrightarrow> w = v\<lparr> ResourceVersion := rv \<rparr> \<Longrightarrow> fresh s w \<Longrightarrow>
    serve (EvVol (KCreate ns v (Inr w))) s (settle w s)"
| Updated: "objects s (Name v) = Some w0 \<Longrightarrow> ResourceVersion v = ResourceVersion w0 \<Longrightarrow>
    w = v\<lparr> ResourceVersion := rv, DeletionTimestamp := DeletionTimestamp w0 \<rparr> \<Longrightarrow> fresh s w \<Longrightarrow>
    serve (EvVol (KUpdate ns v (Inr w))) s (settle w s)"
| Marked: "objects s n = Some w0 \<Longrightarrow> DeletionTimestamp w0 = None \<Longrightarrow>
    w = w0\<lparr> ResourceVersion := rv, DeletionTimestamp := Some t \<rparr> \<Longrightarrow> fresh s w \<Longrightarrow>
    serve (EvVol (KDelete ns n None)) s (settle w s)"
| MarkedAlready: "objects s n = Some w0 \<Longrightarrow> DeletionTimestamp w0 \<noteq> None \<Longrightarrow> serve (EvVol (KDelete ns n None)) s s"

text \<open>The accepted writes of a run, in order; everything else in it leaves the objects alone.\<close>

fun acceptedWrite :: "event \<Rightarrow> bool" where
  "acceptedWrite (EvVol (KCreate _ _ (Inr _))) = True"
| "acceptedWrite (EvVol (KUpdate _ _ (Inr _))) = True"
| "acceptedWrite (EvVol (KDelete _ _ None)) = True"
| "acceptedWrite _ = False"

inductive serves :: "event list \<Rightarrow> system \<Rightarrow> system \<Rightarrow> bool" where
  Done: "serves [] s s"
| Other: "\<not> acceptedWrite e \<Longrightarrow> serves es s s' \<Longrightarrow> serves (e # es) s s'"
| Write: "serve e s s1 \<Longrightarrow> serves es s1 s' \<Longrightarrow> serves (e # es) s s'"

definition onNodeData :: "string \<Rightarrow> event list \<Rightarrow> system \<Rightarrow> system" where
  "onNodeData n es s = s\<lparr> data := (data s)(n := datasets (data s n) es) \<rparr>"

text \<open>
  A controller request reads versions that were current at some time and writes. A node agent works on its node and
  writes; the node tells the truth about its datasets.
\<close>

inductive sysStep :: "system \<Rightarrow> system \<Rightarrow> bool" where
  Request: "ctlTrace E C q = a @ e # b \<Longrightarrow>
    (\<And>ns n v. EvVol (KGet ns n (Inr v)) \<in> set a \<Longrightarrow> v \<in> versions s) \<Longrightarrow> serve e s s' \<Longrightarrow> sysStep s s'"
| SyncVolume: "objects s n = Some zv \<Longrightarrow> OwnerNodeID (Spec zv) = NodeID E \<Longrightarrow> lists_truthfully E (data s (NodeID E)) \<Longrightarrow>
    syncZV E zv [] = (r, es) \<Longrightarrow> serves es s s1 \<Longrightarrow> sysStep s (onNodeData (NodeID E) es s1)"
| SyncSnapshot: "syncSnap E snap [] = (r, es) \<Longrightarrow> serves es s s1 \<Longrightarrow> sysStep s (onNodeData (NodeID E) es s1)"
| SyncBackup: "syncBkp E bkp [] = (r, es) \<Longrightarrow> serves es s s1 \<Longrightarrow> sysStep s (onNodeData (NodeID E) es s1)"
| SyncRestore: "syncRestore E rstr [] = (r, es) \<Longrightarrow> serves es s s1 \<Longrightarrow> sysStep s (onNodeData (NodeID E) es s1)"
| Deleted: "serve (EvVol (KDelete ns n None)) s s' \<Longrightarrow> sysStep s s'"
| Metadata: "objects s n = Some w0 \<Longrightarrow>
    w = w0\<lparr> Labels := ls, Annotations := as, Finalizers := fs, ResourceVersion := rv \<rparr> \<Longrightarrow> fresh s w \<Longrightarrow>
    (ZFSFinalizer \<in> set (Finalizers w0) \<Longrightarrow> ZFSFinalizer \<in> set fs) \<Longrightarrow> sysStep s (settle w s)"

text \<open>
  The pools that volumes are placed on: none lies below another, and names of objects have no separators. A state is tidy if
  its volumes are on such pools.
\<close>

definition flat :: "string set \<Rightarrow> bool" where
  "flat pools \<longleftrightarrow> (\<forall>p \<in> pools. CHR ''@'' \<notin> set p \<and> (\<forall>q \<in> pools. \<not> prefix (q @ ''/'') p))"

definition tidy :: "string set \<Rightarrow> system \<Rightarrow> bool" where
  "tidy pools s \<longleftrightarrow> (\<forall>n v. objects s n = Some v \<longrightarrow>
     PoolName (Spec v) \<in> pools \<and> CHR ''/'' \<notin> set (Name v) \<and> CHR ''@'' \<notin> set (Name v))"

inductive reachable :: "string set \<Rightarrow> system \<Rightarrow> bool" for pools where
  Start: "objects s = (\<lambda>_. None) \<Longrightarrow> versions s = {} \<Longrightarrow> reachable pools s"
| Step: "reachable pools s \<Longrightarrow> sysStep s s' \<Longrightarrow> tidy pools s' \<Longrightarrow> reachable pools s'"

text \<open>A volume object as the driver keeps it, and the invariant of the whole system.\<close>

definition goodVolume :: "ZFSVolume \<Rightarrow> bool" where
  "goodVolume v \<longleftrightarrow> State v \<in> {ZFSStatusPending, ZFSStatusReady, ZFSStatusFailed}
     \<and> (State v = ZFSStatusReady \<longrightarrow> ZFSFinalizer \<in> set (Finalizers v))
     \<and> (DeletionTimestamp v \<noteq> None \<longrightarrow> Finalizers v \<noteq> [])"

definition present :: "system \<Rightarrow> ZFSVolume \<Rightarrow> bool" where
  "present s v \<longleftrightarrow> volumePath v \<in> set (data s (OwnerNodeID (Spec v)))"

definition sysInv :: "system \<Rightarrow> bool" where
  "sysInv s \<longleftrightarrow>
     (\<forall>v \<in> versions s. \<forall>w \<in> versions s. Name v = Name w \<and> ResourceVersion v = ResourceVersion w \<longrightarrow> v = w)
   \<and> (\<forall>n v. objects s n = Some v \<longrightarrow> Name v = n \<and> v \<in> versions s \<and> goodVolume v
        \<and> (State v = ZFSStatusReady \<and> DeletionTimestamp v = None \<longrightarrow> present s v))"

text \<open>What a node agent writes to the volume it works on, given the datasets it leaves behind.\<close>

definition agentWrite :: "system \<Rightarrow> ZFSVolume \<Rightarrow> ZFSVolume \<Rightarrow> bool" where
  "agentWrite u zv v \<longleftrightarrow>
     DeletionTimestamp zv \<noteq> None \<and> v = zv\<lparr> Finalizers := [] \<rparr>
   \<or> DeletionTimestamp zv = None \<and> (\<exists>E. v = markedVol E zv ZFSStatusFailed \<or> v = markedVol E zv ZFSStatusReady \<and> present u zv)"

section \<open>Paths\<close>

lemma append_slash_eq:
  assumes "a @ c # x = b @ c # y" "c \<notin> set x" "c \<notin> set y"
  shows "a = b \<and> x = y"
proof -
  have "takeWhile (\<lambda>z. z \<noteq> c) (rev x @ c # rev a) = rev x" "takeWhile (\<lambda>z. z \<noteq> c) (rev y @ c # rev b) = rev y"
    using assms(2,3) by (auto simp: takeWhile_append)
  moreover have "rev x @ c # rev a = rev y @ c # rev b" using arg_cong [OF assms(1), of rev] by simp
  ultimately have "rev x = rev y" by metis
  with assms(1) show ?thesis by simp
qed

lemma prefix_slash_last:
  assumes "prefix (a @ [c]) (b @ c # y)" "c \<notin> set y"
  shows "prefix a b"
proof -
  from assms(1) obtain z where "(a @ [c]) @ z = b @ c # y" by (auto simp: prefix_def)
  then consider us where "a @ [c] = b @ us" "us @ z = c # y" | us where "(a @ [c]) @ us = b" "z = us @ c # y"
    using append_eq_append_conv2 [of "a @ [c]" z b "c # y"] by blast
  then show ?thesis
  proof cases
    case 1
    show ?thesis
    proof (cases us rule: rev_cases)
      case (snoc us' x)
      with 1 have us: "us = us' @ [c]" "a = b @ us'" by auto
      have "us' = []"
      proof (cases us')
        case (Cons x us'')
        with us 1(2) assms(2) show ?thesis by auto
      qed
      with us show ?thesis by simp
    qed (use 1 in \<open>auto simp: prefix_def\<close>)
  next
    case 2
    then show ?thesis by (auto simp: prefix_def)
  qed
qed

text \<open>Volumes on flat pools do not lie below each other.\<close>

lemma volumes_apart:
  assumes "flat pools" "PoolName (Spec v) \<in> pools" "PoolName (Spec w) \<in> pools"
    and "CHR ''/'' \<notin> set (Name v)" "CHR ''@'' \<notin> set (Name v)" "CHR ''/'' \<notin> set (Name w)"
    and "under (volumePath w) (volumePath v)"
  shows "Name v = Name w"
proof -
  let ?p = "PoolName (Spec v)" and ?q = "PoolName (Spec w)"
  from assms(7) consider "volumePath v = volumePath w" | "prefix (volumePath w @ ''/'') (volumePath v)"
    | "prefix (volumePath w @ ''@'') (volumePath v)" by (auto simp: under_def)
  then show ?thesis
  proof cases
    case 1
    then show ?thesis using append_slash_eq [of ?p "CHR ''/''" "Name v" ?q "Name w"] assms by (simp add: volumePath_def)
  next
    case 2
    then have "prefix (?q @ ''/'' @ Name w) ?p"
      using prefix_slash_last [of "?q @ ''/'' @ Name w" "CHR ''/''" ?p "Name v"] assms(4) by (simp add: volumePath_def)
    then have "prefix (?q @ ''/'') ?p" by (metis append_assoc append_prefixD)
    with assms(1-3) show ?thesis by (auto simp: flat_def)
  next
    case 3
    then have "CHR ''@'' \<in> set (volumePath v)" by (auto simp: prefix_def)
    with assms(1,2,5) show ?thesis by (auto simp: volumePath_def flat_def)
  qed
qed

section \<open>The invariant\<close>

lemma inv_object: "sysInv s \<Longrightarrow> objects s n = Some v \<Longrightarrow> Name v = n \<and> v \<in> versions s \<and> goodVolume v"
  by (simp add: sysInv_def)

lemma inv_version:
  "sysInv s \<Longrightarrow> v \<in> versions s \<Longrightarrow> w \<in> versions s \<Longrightarrow> Name v = Name w \<Longrightarrow> ResourceVersion v = ResourceVersion w \<Longrightarrow> v = w"
  unfolding sysInv_def by blast

lemma settle_data [simp]: "data (settle w s) = data s"
  by (simp add: settle_def)

lemma present_settle [simp]: "present (settle w s) v = present s v"
  by (simp add: present_def)

lemma versions_settle: "versions s \<subseteq> versions (settle w s)"
  by (auto simp: settle_def)

lemma inv_settle:
  assumes "sysInv s" "fresh s w" "State w \<in> {ZFSStatusPending, ZFSStatusReady, ZFSStatusFailed}"
    and "DeletionTimestamp w = None \<or> Finalizers w \<noteq> [] \<Longrightarrow> State w = ZFSStatusReady \<Longrightarrow> ZFSFinalizer \<in> set (Finalizers w)"
    and "State w = ZFSStatusReady \<Longrightarrow> DeletionTimestamp w = None \<Longrightarrow> present s w"
  shows "sysInv (settle w s)"
proof (cases "DeletionTimestamp w \<noteq> None \<and> Finalizers w = []")
  case True
  with assms(1) show ?thesis by (auto simp: sysInv_def settle_def present_def)
next
  case False
  have uniq: "\<forall>v \<in> insert w (versions s). \<forall>u \<in> insert w (versions s).
      Name v = Name u \<and> ResourceVersion v = ResourceVersion u \<longrightarrow> v = u"
    using assms(1,2) unfolding sysInv_def fresh_def by (metis insert_iff)
  have "goodVolume w" using False assms(3,4) by (auto simp: goodVolume_def)
  with uniq False assms(1,5) show ?thesis
    unfolding sysInv_def settle_def by (auto simp: present_def)
qed

lemma inv_marked:
  assumes "sysInv s" "objects s n = Some w0" "w = w0\<lparr> ResourceVersion := rv, DeletionTimestamp := Some t \<rparr>" "fresh s w"
  shows "sysInv (settle w s)"
  using inv_object [OF assms(1,2)] assms(3)
  by (intro inv_settle [OF assms(1,4)]) (auto simp: goodVolume_def)

text \<open>A write of the controller, based on a version that was read.\<close>

lemma inv_change:
  assumes inv: "sysInv s" and w0: "objects s (Name v) = Some w0" "ResourceVersion v = ResourceVersion w0"
    and v0: "v0 \<in> versions s" "changeOf v0 v"
    and w: "w = v\<lparr> ResourceVersion := rv, DeletionTimestamp := DeletionTimestamp w0 \<rparr>" "fresh s w"
  shows "sysInv (settle w s)" "Finalizers w = Finalizers w0"
proof -
  note obj = inv_object [OF inv w0(1)]
  have "Name v0 = Name v" "ResourceVersion v0 = ResourceVersion v" using v0(2) by (auto simp: changeOf_def)
  with inv_version [OF inv v0(1)] obj w0(2) have v0_eq: "v0 = w0" by simp
  with v0(2) show "Finalizers w = Finalizers w0" by (auto simp: changeOf_def w(1))
  have pres: "State w0 = ZFSStatusReady \<Longrightarrow> DeletionTimestamp w0 = None \<Longrightarrow> present s w0"
    using inv w0(1) by (auto simp: sysInv_def)
  from v0(2) v0_eq consider sp where "v = w0\<lparr> Spec := sp, State := ZFSStatusPending \<rparr>"
    | c where "v = w0\<lparr> Spec := (Spec w0)\<lparr> Capacity := c \<rparr> \<rparr>" | as where "v = w0\<lparr> Annotations := as \<rparr>"
    by (auto simp: changeOf_def)
  then show "sysInv (settle w s)"
  proof cases
    case 1
    then show ?thesis by (intro inv_settle [OF inv w(2)]) (simp_all add: w(1))
  next
    case 2
    then have "State w = State w0" "Finalizers w = Finalizers w0" "DeletionTimestamp w = DeletionTimestamp w0"
      "present s w = present s w0" by (simp_all add: w(1) present_def volumePath_def)
    with obj pres show ?thesis by (intro inv_settle [OF inv w(2)]) (simp_all add: goodVolume_def)
  next
    case 3
    then have "State w = State w0" "Finalizers w = Finalizers w0" "DeletionTimestamp w = DeletionTimestamp w0"
      "present s w = present s w0" by (simp_all add: w(1) present_def volumePath_def)
    with obj pres show ?thesis by (intro inv_settle [OF inv w(2)]) (simp_all add: goodVolume_def)
  qed
qed

lemma inv_request:
  assumes inv: "sysInv s" and run: "ctlTrace E C q = a @ e # b"
    and reads: "\<And>ns n v. EvVol (KGet ns n (Inr v)) \<in> set a \<Longrightarrow> v \<in> versions s" and e: "serve e s s'"
  shows "sysInv s'"
proof -
  have g: "writeGuard e a" using ctlTrace_guarded [of E C q] run by (simp add: guardedBy_def)
  from e show ?thesis
  proof cases
    case (Created v w rv ns)
    with g have "plainNew v" by (simp add: writeGuard_def)
    with Created show ?thesis using inv by (auto intro!: inv_settle simp: plainNew_def)
  next
    case (Updated v w0 w rv ns)
    with g obtain n v0 where "EvVol (KGet ns n (Inr v0)) \<in> set a" "changeOf v0 v" by (auto simp: writeGuard_def)
    with Updated reads inv_change(1) [OF inv] show ?thesis by metis
  next
    case (Marked n w0 w rv t ns)
    with inv_marked [OF inv] show ?thesis by metis
  qed (simp add: inv)
qed

section \<open>Steps of the node agents\<close>

lemma serve_data: "serve e s s' \<Longrightarrow> data s' = data s"
  by (cases rule: serve.cases) auto

lemma serves_data: "serves es s s' \<Longrightarrow> data s' = data s"
  by (induction rule: serves.induct) (auto dest: serve_data)

lemma settle_shift: "settle w (s\<lparr> data := D \<rparr>) = (settle w s)\<lparr> data := D \<rparr>"
  by (simp add: settle_def)

lemma serve_shift: "serve e s s' \<Longrightarrow> serve e (s\<lparr> data := D \<rparr>) (s'\<lparr> data := D \<rparr>)"
  by (induction rule: serve.induct) (auto simp: settle_shift [symmetric] fresh_def intro: serve.intros)

lemma serves_shift: "serves es s s' \<Longrightarrow> serves es (s\<lparr> data := D \<rparr>) (s'\<lparr> data := D \<rparr>)"
  by (induction rule: serves.induct) (auto intro: serves.intros serve_shift)

lemma acceptedWrite_update [simp]: "acceptedWrite (EvVol (KUpdate ns v r)) \<longleftrightarrow> (\<exists>w. r = Inr w)"
  by (cases r) auto

lemma onNodeRec_write: "onNodeRec e \<Longrightarrow> \<not> acceptedWrite e"
  by (cases e) auto

lemma onNode_update: "onNode e \<Longrightarrow> acceptedWrite e \<longrightarrow> (\<exists>ns v w. e = EvVol (KUpdate ns v (Inr w)))"
  by (cases e) auto

lemmas updates_only = only_onNode [THEN only_mono, OF onNode_update]

lemma syncZV_writes:
  assumes law: "lists_truthfully E base" and run: "syncZV E zv [] = (r, es)" and e: "e \<in> set es" "acceptedWrite e"
  obtains ns v w where "e = EvVol (KUpdate ns v (Inr w))"
    "isDeletionCandidate zv \<and> v = zv\<lparr> Finalizers := [] \<rparr> \<and> volumePath zv \<notin> set (datasets base es)
     \<or> \<not> isDeletionCandidate zv \<and> (v = markedVol E zv ZFSStatusFailed
          \<or> v = markedVol E zv ZFSStatusReady \<and> volumePath zv \<in> set (datasets base es))"
proof -
  obtain x where x: "r = Some x" using returns_run [OF returns_syncZV, of E zv "[]"] run by auto
  have "only (\<lambda>e. acceptedWrite e \<longrightarrow> (\<exists>ns v w. e = EvVol (KUpdate ns v (Inr w)))) (syncZV E zv)"
    unfolding syncZV_def destroyZV_def provisionZV_def write_defs Let_def
    by (intro only_rules updates_only) auto
  from only_mem [OF this, of "[]" r es e] run e obtain ns v w where upd: "e = EvVol (KUpdate ns v (Inr w))" by auto
  have "isDeletionCandidate zv \<and> v = zv\<lparr> Finalizers := [] \<rparr> \<and> volumePath zv \<notin> set (datasets base es)
     \<or> \<not> isDeletionCandidate zv \<and> (v = markedVol E zv ZFSStatusFailed
          \<or> v = markedVol E zv ZFSStatusReady \<and> volumePath zv \<in> set (datasets base es))"
  proof (cases "isDeletionCandidate zv")
    case True
    with run x e upd have "destroyZV E zv [] = (Some x, [] @ es)" by (auto simp: syncZV_def Let_def go_simps split: if_splits)
    with destroyZV_update [OF law this] e upd True show ?thesis by simp
  next
    case False
    have "\<not> only onNodeRec (syncZV E zv)"
      using only_mem [of onNodeRec "syncZV E zv" "[]" r es e] run e onNodeRec_write by auto
    moreover have "only onNodeRec (syncZV E zv)" if "Validate (Spec zv) \<noteq> None \<or> IsVolumeReady zv"
      using that False unfolding syncZV_def by (cases "Validate (Spec zv)") (auto intro!: only_rules only_onNodeRec)
    ultimately have "Validate (Spec zv) = None" "\<not> IsVolumeReady zv" by blast+
    then have "syncZV E zv = provisionZV E zv" using False by (simp add: syncZV_def)
    with run x have "provisionZV E zv [] = (Some x, [] @ es)" by simp
    from provisionZV_update [OF law this] e upd False show ?thesis by simp
  qed
  with upd that show ?thesis by blast
qed

lemma agentWrite_basis:
  assumes "sysInv u" "zv \<in> versions u" "agentWrite u zv v" "objects u (Name v) = Some w0" "ResourceVersion v = ResourceVersion w0"
  shows "w0 = zv"
proof -
  have "Name v = Name zv" "ResourceVersion v = ResourceVersion zv" using assms(3) by (auto simp: agentWrite_def markedVol_def)
  with inv_object [OF assms(1,4)] inv_version [OF assms(1) _ assms(2)] assms(5) show ?thesis by metis
qed

lemma inv_agentWrite:
  assumes "sysInv u" "zv \<in> versions u" "agentWrite u zv v" "objects u (Name v) = Some w0" "ResourceVersion v = ResourceVersion w0"
    and w: "w = v\<lparr> ResourceVersion := rv, DeletionTimestamp := DeletionTimestamp w0 \<rparr>" "fresh u w"
  shows "sysInv (settle w u)"
proof -
  have w0: "w0 = zv" by (rule agentWrite_basis [OF assms(1-5)])
  have good: "goodVolume zv" using inv_object [OF assms(1,4)] w0 by simp
  from assms(3) consider (gone) "DeletionTimestamp zv \<noteq> None" "v = zv\<lparr> Finalizers := [] \<rparr>"
    | (failed) E where "v = markedVol E zv ZFSStatusFailed"
    | (ready) E where "v = markedVol E zv ZFSStatusReady" "present u zv" by (auto simp: agentWrite_def)
  then show ?thesis
  proof cases
    case gone
    then show ?thesis using good by (intro inv_settle [OF assms(1) w(2)]) (simp_all add: w(1) w0 goodVolume_def)
  next
    case failed
    then show ?thesis by (intro inv_settle [OF assms(1) w(2)]) (simp_all add: w(1) markedVol_def)
  next
    case ready
    then show ?thesis
      by (intro inv_settle [OF assms(1) w(2)]) (simp_all add: w(1) markedVol_def present_def volumePath_def)
  qed
qed

lemma serve_acceptedWrite: "serve e s s' \<Longrightarrow> acceptedWrite e"
  by (cases rule: serve.cases) auto

lemma serve_agentWrite:
  assumes "serve e s s1" "acceptedWrite e \<Longrightarrow> \<exists>ns v w. e = EvVol (KUpdate ns v (Inr w)) \<and> agentWrite s zv v"
  obtains v w0 w rv where "agentWrite s zv v" "objects s (Name v) = Some w0" "ResourceVersion v = ResourceVersion w0"
    "w = v\<lparr> ResourceVersion := rv, DeletionTimestamp := DeletionTimestamp w0 \<rparr>" "fresh s w" "s1 = settle w s"
  using assms(1) assms(2) [OF serve_acceptedWrite [OF assms(1)]] by (cases rule: serve.cases) auto

lemma inv_serves:
  assumes "serves es u u'" "sysInv u" "zv \<in> versions u"
    and "\<And>e. e \<in> set es \<Longrightarrow> acceptedWrite e \<Longrightarrow> \<exists>ns v w. e = EvVol (KUpdate ns v (Inr w)) \<and> agentWrite u zv v"
  shows "sysInv u'"
  using assms
proof (induction rule: serves.induct)
  case (Write e s s1 es s')
  from Write.hyps(1) Write.prems(3) [of e] obtain v w0 w rv where w: "agentWrite s zv v" "objects s (Name v) = Some w0"
    "ResourceVersion v = ResourceVersion w0" "w = v\<lparr> ResourceVersion := rv, DeletionTimestamp := DeletionTimestamp w0 \<rparr>"
    "fresh s w" "s1 = settle w s" by (rule serve_agentWrite) simp
  have "sysInv s1" unfolding w(6) by (rule inv_agentWrite [OF Write.prems(1,2) w(1-5)])
  moreover have "zv \<in> versions s1" using Write.prems(2) versions_settle w(6) by blast
  moreover have "agentWrite s1 zv = agentWrite s zv" by (rule ext) (simp add: agentWrite_def w(6))
  ultimately show ?case using Write.IH Write.prems(3) by simp
qed auto

lemma tidy_volume:
  assumes "tidy pools s" "objects s n = Some v" "sysInv s" "flat pools"
  shows "PoolName (Spec v) \<in> pools" "CHR ''/'' \<notin> set (Name v)" "CHR ''@'' \<notin> set (Name v)" "CHR ''@'' \<notin> set (volumePath v)"
  using assms by (auto simp: tidy_def flat_def volumePath_def)

lemma syncZV_spares_others:
  assumes inv: "sysInv s" and t: "tidy pools s" "flat pools"
    and v: "objects s n = Some v" and zv: "objects s m = Some zv"
    and "n = m \<Longrightarrow> DeletionTimestamp zv = None \<or> GetUserFinalizers (Finalizers zv) \<noteq> []"
  shows "only (spares (volumePath v)) (syncZV E zv)"
proof (rule only_spares_syncZV)
  note tv = tidy_volume [OF t(1) v inv t(2)] and tz = tidy_volume [OF t(1) zv inv t(2)]
  show "CHR ''@'' \<notin> set (volumePath v)" by (rule tv)
  assume "isDeletionCandidate zv \<and> GetUserFinalizers (Finalizers zv) = []"
  with assms(6) inv_object [OF inv v] inv_object [OF inv zv] have "Name v \<noteq> Name zv" by (auto simp: isDeletionCandidate_def)
  with volumes_apart [OF t(2) tv(1) tz(1) tv(2,3) tz(2)] show "\<not> under (volumePath zv) (volumePath v)" by blast
qed

lemma inv_data:
  assumes "sysInv s" and "\<And>n v. objects s n = Some v \<Longrightarrow> State v = ZFSStatusReady \<Longrightarrow> DeletionTimestamp v = None \<Longrightarrow>
      OwnerNodeID (Spec v) = m \<Longrightarrow> volumePath v \<in> set (data s m) \<Longrightarrow> volumePath v \<in> set (datasets (data s m) es)"
  shows "sysInv (onNodeData m es s)"
  using assms unfolding sysInv_def onNodeData_def present_def by auto

lemma inv_serve_delete:
  assumes "sysInv s" "serve (EvVol (KDelete ns n None)) s s'"
  shows "sysInv s'"
  using assms(2)
proof cases
  case (Marked w0 w rv t)
  with inv_marked [OF assms(1)] show ?thesis by metis
qed (simp add: assms(1))

text \<open>The other controllers of the agent do not write volumes.\<close>

lemma onNode_nowrite: "onNode e \<Longrightarrow> \<not> acceptedWrite e"
  by (cases e) auto

lemmas nowrite_node = only_onNode [THEN only_mono, OF onNode_nowrite] only_runPipe [THEN only_mono, OF onNode_nowrite]
  only_restoreFrom [THEN only_mono, OF onNode_nowrite]

lemma nowrite_syncs:
  "only (\<lambda>e. \<not> acceptedWrite e) (syncSnap E snap)" "only (\<lambda>e. \<not> acceptedWrite e) (syncBkp E bkp)"
  "only (\<lambda>e. \<not> acceptedWrite e) (syncRestore E rstr)"
  unfolding syncSnap_def destroySnap_def takeSnap_def syncBkp_def DestoryBackup_def zfs_CreateBackup_def
    syncRestore_def zfs_CreateRestore_def write_defs Let_def
  by (intro only_rules nowrite_node; simp)+

lemma serves_nowrite: "serves es s s' \<Longrightarrow> \<forall>e \<in> set es. \<not> acceptedWrite e \<Longrightarrow> s' = s"
proof (induction rule: serves.induct)
  case (Write e s s1 es s')
  with serve_acceptedWrite show ?case by simp
qed auto

lemma serves_only: "only (\<lambda>e. \<not> acceptedWrite e) m \<Longrightarrow> m [] = (r, es) \<Longrightarrow> serves es s s' \<Longrightarrow> s' = s"
  using only_mem [of "\<lambda>e. \<not> acceptedWrite e" m "[]" r es] by (auto intro: serves_nowrite)

text \<open>Whatever a node agent does, it spares the datasets of all volumes but one that it destroys.\<close>

lemma kept_data: "only (spares d) m \<Longrightarrow> m [] = (r, es) \<Longrightarrow> d \<in> set base \<Longrightarrow> d \<in> set (datasets base es)"
  using spares_datasets [of d m "[]" r es base] by (simp add: datasets_def)

lemma inv_other:
  assumes inv: "sysInv s" "tidy pools s" "flat pools"
    and run: "m [] = (r, es)" "serves es s s1" "only (\<lambda>e. \<not> acceptedWrite e) m"
    and d: "\<And>d. CHR ''@'' \<notin> set d \<Longrightarrow> only (spares d) m"
  shows "s1 = s \<and> sysInv (onNodeData k es s)"
proof
  show "s1 = s" by (rule serves_only [OF run(3,1,2)])
  show "sysInv (onNodeData k es s)"
  proof (rule inv_data [OF inv(1)])
    fix n v assume v: "objects s n = Some v" and p: "volumePath v \<in> set (data s k)"
    from kept_data [OF d run(1) p] tidy_volume(4) [OF inv(2) v inv(1,3)]
    show "volumePath v \<in> set (datasets (data s k) es)" by blast
  qed
qed

text \<open>A run of the volume controller, with its effect on the datasets first and its writes after.\<close>

lemma syncVolume_run:
  assumes inv: "sysInv s" "tidy pools s" "flat pools" and zv: "objects s n = Some zv" "OwnerNodeID (Spec zv) = NodeID E"
    and law: "lists_truthfully E (data s (NodeID E))" and run: "syncZV E zv [] = (r, es)" "serves es s s1"
  defines "u \<equiv> onNodeData (NodeID E) es s"
  shows "sysInv u" "serves es u (onNodeData (NodeID E) es s1)" "zv \<in> versions u"
    "\<And>e. e \<in> set es \<Longrightarrow> acceptedWrite e \<Longrightarrow> \<exists>ns v w. e = EvVol (KUpdate ns v (Inr w)) \<and> agentWrite u zv v"
proof -
  let ?k = "NodeID E"
  show "sysInv u" unfolding u_def
  proof (rule inv_data [OF inv(1)])
    fix m v assume v: "objects s m = Some v" "DeletionTimestamp v = None" and p: "volumePath v \<in> set (data s ?k)"
    have "only (spares (volumePath v)) (syncZV E zv)"
      by (rule syncZV_spares_others [OF inv v(1) zv(1)]) (use v zv in auto)
    from kept_data [OF this run(1) p] show "volumePath v \<in> set (datasets (data s ?k) es)" .
  qed
  show "serves es u (onNodeData ?k es s1)"
    using serves_shift [OF run(2)] serves_data [OF run(2)] by (simp add: u_def onNodeData_def)
  show "zv \<in> versions u" using inv_object [OF inv(1) zv(1)] by (simp add: u_def onNodeData_def)
  show "\<exists>ns v w. e = EvVol (KUpdate ns v (Inr w)) \<and> agentWrite u zv v" if "e \<in> set es" "acceptedWrite e" for e
    by (rule syncZV_writes [OF law run(1) that])
      (auto simp: agentWrite_def u_def onNodeData_def present_def zv(2) isDeletionCandidate_def)
qed

lemma inv_step:
  assumes "sysInv s" "tidy pools s" "flat pools" "sysStep s s'"
  shows "sysInv s'"
  using assms(4)
proof cases
  case Request
  with inv_request [OF assms(1)] show ?thesis by metis
next
  case (SyncVolume n zv E r es s1)
  note run = syncVolume_run [OF assms(1-3) SyncVolume(2-6)]
  from inv_serves [OF run(2,1,3,4)] SyncVolume(1) show ?thesis by simp
next
  case SyncSnapshot
  with inv_other [OF assms(1-3) _ _ nowrite_syncs(1) only_spares_syncs(1)] show ?thesis by metis
next
  case SyncBackup
  with inv_other [OF assms(1-3) _ _ nowrite_syncs(2) only_spares_syncs(2)] show ?thesis by metis
next
  case SyncRestore
  with inv_other [OF assms(1-3) _ _ nowrite_syncs(3) only_spares_syncs(3)] show ?thesis by metis
next
  case Deleted
  with inv_serve_delete [OF assms(1)] show ?thesis by metis
next
  case (Metadata n w0 w ls as fs rv)
  then have w: "State w = State w0" "DeletionTimestamp w = DeletionTimestamp w0" "present s w = present s w0"
    by (simp_all add: present_def volumePath_def)
  have "State w0 = ZFSStatusReady \<and> DeletionTimestamp w0 = None \<longrightarrow> present s w0"
    using assms(1) Metadata(2) by (simp add: sysInv_def)
  then show ?thesis unfolding Metadata(1)
    using inv_object [OF assms(1) Metadata(2)] Metadata(3,5) w
    by (intro inv_settle [OF assms(1) Metadata(4)]) (auto simp: goodVolume_def)
qed

lemma reachable_inv: "reachable pools s \<Longrightarrow> flat pools \<Longrightarrow> sysInv s \<and> tidy pools s"
proof (induction rule: reachable.induct)
  case (Start s)
  then show ?case by (simp add: sysInv_def tidy_def)
qed (use inv_step in blast)

section \<open>What a step takes away\<close>

text \<open>A dataset of a volume disappears only in a run of the volume controller that works on this volume.\<close>

lemma run_removed:
  assumes "m [] = (r, es)" "serves es s s1" "d \<in> set (data s k)" "d \<notin> set (data (onNodeData n es s1) k)"
  shows "n = k \<and> \<not> only (spares d) m"
  using assms serves_data [OF assms(2)] kept_data [of d m r es "data s k"] by (auto simp: onNodeData_def split: if_splits)

lemma dataset_removed:
  assumes inv: "sysInv s" "tidy pools s" "flat pools" and step: "sysStep s s'"
    and v: "objects s x = Some v" "volumePath v \<in> set (data s k)" "volumePath v \<notin> set (data s' k)"
  shows "OwnerNodeID (Spec v) = k \<and> DeletionTimestamp v \<noteq> None \<and> GetUserFinalizers (Finalizers v) = []"
proof -
  note at = tidy_volume(4) [OF inv(2) v(1) inv(1,3)]
  from step show ?thesis
  proof cases
    case (SyncVolume n zv E r es s1)
    with run_removed [of "syncZV E zv", OF SyncVolume(5,6) v(2)] v(3)
    have "NodeID E = k" "\<not> only (spares (volumePath v)) (syncZV E zv)" by auto
    with syncZV_spares_others [OF inv v(1) SyncVolume(2), of E]
    have "x = n" "DeletionTimestamp zv \<noteq> None" "GetUserFinalizers (Finalizers zv) = []" by fastforce+
    with \<open>NodeID E = k\<close> v(1) SyncVolume(2,3) show ?thesis by simp
  next
    case (SyncSnapshot E snap r es s1)
    with run_removed [of "syncSnap E snap", OF SyncSnapshot(2,3) v(2)] v(3) only_spares_syncs(1) [OF at] show ?thesis by blast
  next
    case (SyncBackup E bkp r es s1)
    with run_removed [of "syncBkp E bkp", OF SyncBackup(2,3) v(2)] v(3) only_spares_syncs(2) [OF at] show ?thesis by blast
  next
    case (SyncRestore E rstr r es s1)
    with run_removed [of "syncRestore E rstr", OF SyncRestore(2,3) v(2)] v(3) only_spares_syncs(3) [OF at] show ?thesis by blast
  qed (use v serve_data in auto)
qed

lemma serves_removed:
  assumes "serves es u u'" "sysInv u" "zv \<in> versions u" "objects u x = Some v" "objects u' x = None"
    and "\<And>e. e \<in> set es \<Longrightarrow> acceptedWrite e \<Longrightarrow> \<exists>ns v w. e = EvVol (KUpdate ns v (Inr w)) \<and> agentWrite u zv v"
  shows "Name zv = x \<and> DeletionTimestamp zv \<noteq> None \<and> (\<exists>e \<in> set es. acceptedWrite e)"
  using assms
proof (induction arbitrary: v rule: serves.induct)
  case (Write e s s1 es s')
  note e = serve_acceptedWrite [OF Write.hyps(1)]
  from Write.hyps(1) Write.prems(5) [of e] obtain v' w0 w rv where w: "agentWrite s zv v'" "objects s (Name v') = Some w0"
    "ResourceVersion v' = ResourceVersion w0" "w = v'\<lparr> ResourceVersion := rv, DeletionTimestamp := DeletionTimestamp w0 \<rparr>"
    "fresh s w" "s1 = settle w s" by (rule serve_agentWrite) simp
  have w0: "w0 = zv" by (rule agentWrite_basis [OF Write.prems(1,2) w(1-3)])
  show ?case
  proof (cases "objects s1 x")
    case None
    with Write.prems(3) w(6) have "Name w = x" "DeletionTimestamp w \<noteq> None" by (auto simp: settle_def split: if_splits)
    moreover have "Name v' = Name zv" using w(1) by (auto simp: agentWrite_def markedVol_def)
    ultimately show ?thesis using e w0 w(4) by auto
  next
    case (Some v1)
    have "sysInv s1" unfolding w(6) by (rule inv_agentWrite [OF Write.prems(1,2) w(1-5)])
    moreover have "zv \<in> versions s1" using Write.prems(2) versions_settle w(6) by blast
    moreover have "agentWrite s1 zv = agentWrite s zv" by (rule ext) (simp add: agentWrite_def w(6))
    ultimately show ?thesis using Write.IH [OF _ _ Some] Write.prems(4,5) by auto
  qed
qed auto


text \<open>An object with the driver's finalizer is removed only by its node agent, and only after its dataset.\<close>

lemma settle_removed:
  "objects s x = Some v \<Longrightarrow> objects (settle w s) x = None \<Longrightarrow> Name w = x \<and> DeletionTimestamp w \<noteq> None \<and> Finalizers w = []"
  by (auto simp: settle_def split: if_splits)

lemma request_removed:
  assumes inv: "sysInv s" and run: "ctlTrace E C q = a @ e # b"
    and reads: "\<And>ns n v. EvVol (KGet ns n (Inr v)) \<in> set a \<Longrightarrow> v \<in> versions s" and e: "serve e s s'"
    and v: "objects s x = Some v" "objects s' x = None"
  shows "Finalizers v = []"
proof -
  have g: "writeGuard e a" using ctlTrace_guarded [of E C q] run by (simp add: guardedBy_def)
  from e show ?thesis
  proof cases
    case (Created v' w rv ns)
    with settle_removed [of s x v w] v show ?thesis by auto
  next
    case (Updated v' w0 w rv ns)
    with g obtain n v0 where "EvVol (KGet ns n (Inr v0)) \<in> set a" "changeOf v0 v'" by (auto simp: writeGuard_def)
    with Updated reads inv_change(2) [OF inv] have "Finalizers w = Finalizers w0" by metis
    with settle_removed [of s x v w] v Updated show ?thesis by auto
  next
    case (Marked n w0 w rv t ns)
    with settle_removed [of s x v w] v inv_object [OF inv] show ?thesis by auto
  qed (use v in simp)
qed

lemma object_removed:
  assumes inv: "sysInv s" "tidy pools s" "flat pools" and step: "sysStep s s'"
    and v: "objects s x = Some v" "ZFSFinalizer \<in> set (Finalizers v)" "objects s' x = None"
  shows "volumePath v \<notin> set (data s' (OwnerNodeID (Spec v)))"
  using step
proof cases
  case (Request E C q a e b)
  from request_removed [OF inv(1) Request(1,2,3) v(1,3)] v(2) show ?thesis by simp
next
  case (SyncVolume n zv E r es s1)
  note run = syncVolume_run [OF inv SyncVolume(2-6)]
  have "objects (onNodeData (NodeID E) es s) x = Some v" "objects (onNodeData (NodeID E) es s1) x = None"
    using v SyncVolume(1) by (simp_all add: onNodeData_def)
  from serves_removed [OF run(2,1,3) this run(4)] obtain e
    where e: "Name zv = x" "DeletionTimestamp zv \<noteq> None" "e \<in> set es" "acceptedWrite e" by blast
  moreover have "v = zv" using e(1) inv_object [OF inv(1) SyncVolume(2)] SyncVolume(2) v(1) by simp
  moreover have "volumePath zv \<notin> set (datasets (data s (NodeID E)) es)"
    by (rule syncZV_writes [OF SyncVolume(4,5) e(3,4)]) (use e(2) in \<open>auto simp: isDeletionCandidate_def\<close>)
  ultimately show ?thesis using SyncVolume(1,3) serves_data [OF SyncVolume(6)] by (simp add: onNodeData_def)
next
  case (SyncSnapshot E snap r es s1)
  with serves_only [OF nowrite_syncs(1) SyncSnapshot(2,3)] v show ?thesis by (simp add: onNodeData_def)
next
  case (SyncBackup E bkp r es s1)
  with serves_only [OF nowrite_syncs(2) SyncBackup(2,3)] v show ?thesis by (simp add: onNodeData_def)
next
  case (SyncRestore E rstr r es s1)
  with serves_only [OF nowrite_syncs(3) SyncRestore(2,3)] v show ?thesis by (simp add: onNodeData_def)
next
  case (Deleted ns n)
  then show ?thesis
  proof cases
    case (Marked w0 w rv t)
    with settle_removed [OF v(1), of w] v inv_object [OF inv(1)] show ?thesis by auto
  qed (use v in simp)
next
  case (Metadata n w0 w ls as fs rv)
  with settle_removed [OF v(1), of w] v inv_object [OF inv(1)] show ?thesis by auto
qed

end
