(* ===== verification/Fleet.thy ===== *)
theory Fleet
  imports System
begin

text \<open>
  The controller service and the agents with what lies between them and the API server: every agent has a cache of the
  volume objects that lags behind the store, event handlers that queue names, and workers whose commands and whose write
  to the store are separate steps. The laws of the API server are those of theory System.

  Of the informers the steps use that the versions of an object arrive in the order in which they were stored, where some
  may be left out, and that an agent that starts lists the current objects. Of the work queue they use that a name is given
  to one worker at a time.
\<close>

section \<open>Definitions\<close>

record fleet =
  fStore :: system
  fCache :: "string \<Rightarrow> string \<Rightarrow> ZFSVolume option"
  fNews :: "string \<Rightarrow> string \<Rightarrow> ZFSVolume option list"
  fQueue :: "string \<Rightarrow> string set"
  fBusy :: "string \<Rightarrow> string \<Rightarrow> (ZFSVolume \<times> gerror option option \<times> event list) option"

text \<open>What a node will have seen of an object once all news has arrived.\<close>

definition fView :: "fleet \<Rightarrow> string \<Rightarrow> string \<Rightarrow> ZFSVolume option list" where
  "fView f k n = fCache f k n # fNews f k n"

text \<open>A new state of the store is sent to all nodes.\<close>

definition publish :: "system \<Rightarrow> fleet \<Rightarrow> fleet" where
  "publish s f = f\<lparr> fStore := s, fNews := (\<lambda>k n.
     if objects s n = objects (fStore f) n then fNews f k n else fNews f k n @ [objects s n]) \<rparr>"

text \<open>The handler that an informer calls when the object in its cache changes, and whether it queues the name.\<close>

definition notify :: "env \<Rightarrow> ZFSVolume option \<Rightarrow> ZFSVolume option \<Rightarrow> unit go" where
  "notify E old new =
     (case (old, new) of
        (None, Some v) \<Rightarrow> addZV E (Obj v)
      | (Some u, Some v) \<Rightarrow> updateZV E (Obj u) (Obj v)
      | (Some u, None) \<Rightarrow> deleteZV E (Obj u)
      | (None, None) \<Rightarrow> goRet ())"

definition queues :: "env \<Rightarrow> ZFSVolume option \<Rightarrow> ZFSVolume option \<Rightarrow> bool" where
  "queues E old new \<longleftrightarrow> list_ex (\<lambda>e. case e of EvQAdd _ \<Rightarrow> True | _ \<Rightarrow> False) (snd (notify E old new []))"

definition enqueueIf :: "bool \<Rightarrow> string \<Rightarrow> string \<Rightarrow> fleet \<Rightarrow> fleet" where
  "enqueueIf b k n f = f\<lparr> fQueue := (fQueue f)(k := fQueue f k \<union> (if b then {n} else {})) \<rparr>"

definition setBusy :: "string \<Rightarrow> string \<Rightarrow> (ZFSVolume \<times> gerror option option \<times> event list) option \<Rightarrow> fleet \<Rightarrow> fleet" where
  "setBusy k n b f = f\<lparr> fBusy := (fBusy f)(k := (fBusy f k)(n := b)) \<rparr>"

text \<open>What changes the objects from outside the agents. An object that is being deleted gets no new finalizers.\<close>

inductive storeStep :: "system \<Rightarrow> system \<Rightarrow> bool" where
  Request: "ctlTrace E C q = a @ e # b \<Longrightarrow>
    (\<And>ns n v. EvVol (KGet ns n (Inr v)) \<in> set a \<Longrightarrow> v \<in> versions s) \<Longrightarrow> serve e s s' \<Longrightarrow> storeStep s s'"
| Deleted: "serve (EvVol (KDelete ns n None)) s s' \<Longrightarrow> storeStep s s'"
| Metadata: "objects s n = Some w0 \<Longrightarrow>
    w = w0\<lparr> Labels := ls, Annotations := as, Finalizers := fs, ResourceVersion := rv \<rparr> \<Longrightarrow> fresh s w \<Longrightarrow>
    (ZFSFinalizer \<in> set (Finalizers w0) \<Longrightarrow> ZFSFinalizer \<in> set fs) \<Longrightarrow>
    (DeletionTimestamp w0 \<noteq> None \<Longrightarrow> set fs \<subseteq> set (Finalizers w0)) \<Longrightarrow> storeStep s (settle w s)"

text \<open>The accepted writes of a run, each of which is sent to all nodes.\<close>

inductive posts :: "event list \<Rightarrow> fleet \<Rightarrow> fleet \<Rightarrow> bool" where
  Done: "posts [] f f"
| Other: "\<not> acceptedWrite e \<Longrightarrow> posts es f f' \<Longrightarrow> posts (e # es) f f'"
| Write: "serve e (fStore f) s \<Longrightarrow> posts es (publish s f) f' \<Longrightarrow> posts (e # es) f f'"

inductive fleetStep :: "fleet \<Rightarrow> fleet \<Rightarrow> bool" where
  Outside: "storeStep (fStore f) s \<Longrightarrow> fleetStep f (publish s f)"
| Observe: "fNews f (NodeID E) n = xs @ y # ys \<Longrightarrow>
    fleetStep f (enqueueIf (queues E (fCache f (NodeID E) n) y) (NodeID E) n
      (f\<lparr> fCache := (fCache f)(NodeID E := (fCache f (NodeID E))(n := y)), fNews := (fNews f)(NodeID E := (fNews f (NodeID E))(n := ys)) \<rparr>))"
| Resync: "fleetStep f (enqueueIf (queues E (fCache f (NodeID E) n) (fCache f (NodeID E) n)) (NodeID E) n f)"
| Missing: "n \<in> fQueue f k \<Longrightarrow> fBusy f k n = None \<Longrightarrow> fCache f k n = None \<Longrightarrow>
    fleetStep f (f\<lparr> fQueue := (fQueue f)(k := fQueue f k - {n}) \<rparr>)"
| Work: "n \<in> fQueue f (NodeID E) \<Longrightarrow> fBusy f (NodeID E) n = None \<Longrightarrow> fCache f (NodeID E) n = Some zv \<Longrightarrow>
    lists_truthfully E (data (fStore f) (NodeID E)) \<Longrightarrow> syncZV E zv [] = (r, es) \<Longrightarrow>
    fleetStep f (setBusy (NodeID E) n (Some (zv, r, es)) (f\<lparr> fStore := onNodeData (NodeID E) es (fStore f),
      fQueue := (fQueue f)(NodeID E := fQueue f (NodeID E) - {n}) \<rparr>))"
| Finish: "fBusy f k n = Some (zv, r, es) \<Longrightarrow> posts es f f' \<Longrightarrow>
    fleetStep f (enqueueIf (r \<noteq> Some None) k n (setBusy k n None f'))"
| Others: "m \<in> {syncSnap E snap, syncBkp E bkp, syncRestore E rstr} \<Longrightarrow> m [] = (r, es) \<Longrightarrow>
    fleetStep f (f\<lparr> fStore := onNodeData (NodeID E) es (fStore f) \<rparr>)"
| Restart: "fleetStep f (f\<lparr> fCache := (fCache f)(NodeID E := objects (fStore f)), fNews := (fNews f)(NodeID E := (\<lambda>_. [])),
      fQueue := (fQueue f)(NodeID E := {n. queues E None (objects (fStore f) n)}), fBusy := (fBusy f)(NodeID E := (\<lambda>_. None)) \<rparr>)"

inductive fleetRun :: "fleet \<Rightarrow> bool" where
  Start: "objects (fStore f) = (\<lambda>_. None) \<Longrightarrow> versions (fStore f) = {} \<Longrightarrow> fCache f = (\<lambda>_ _. None) \<Longrightarrow> fNews f = (\<lambda>_ _. []) \<Longrightarrow>
    fQueue f = (\<lambda>_. {}) \<Longrightarrow> fBusy f = (\<lambda>_ _. None) \<Longrightarrow> fleetRun f"
| Step: "fleetRun f \<Longrightarrow> fleetStep f f' \<Longrightarrow> fleetRun f'"

text \<open>No name was ever used on two nodes, and every version that was stored is on one of the pools.\<close>

definition unmoved :: "system \<Rightarrow> bool" where
  "unmoved s \<longleftrightarrow> (\<forall>v \<in> versions s. \<forall>w \<in> versions s. Name v = Name w \<longrightarrow> OwnerNodeID (Spec v) = OwnerNodeID (Spec w))"

definition tidyVersions :: "string set \<Rightarrow> system \<Rightarrow> bool" where
  "tidyVersions pools s \<longleftrightarrow> (\<forall>v \<in> versions s. PoolName (Spec v) \<in> pools \<and> CHR ''/'' \<notin> set (Name v) \<and> CHR ''@'' \<notin> set (Name v))"

text \<open>The parts of the invariant.\<close>

definition viewInv :: "fleet \<Rightarrow> bool" where
  "viewInv f \<longleftrightarrow> (\<forall>k n. last (fView f k n) = objects (fStore f) n
     \<and> (\<forall>v. Some v \<in> set (fView f k n) \<longrightarrow> v \<in> versions (fStore f) \<and> Name v = n)
     \<and> (\<forall>v. objects (fStore f) n = Some v \<longrightarrow> Some v \<notin> set (butlast (fView f k n))))"

definition ownInv :: "fleet \<Rightarrow> bool" where
  "ownInv f \<longleftrightarrow> (\<forall>k n. n \<in> fQueue f k \<or> fBusy f k n \<noteq> None \<longrightarrow> (\<exists>v \<in> versions (fStore f). Name v = n \<and> OwnerNodeID (Spec v) = k))"

definition busyInv :: "fleet \<Rightarrow> bool" where
  "busyInv f \<longleftrightarrow> (\<forall>k n zv r es. fBusy f k n = Some (zv, r, es) \<longrightarrow> zv \<in> versions (fStore f) \<and> Name zv = n
     \<and> (objects (fStore f) n = Some zv \<longrightarrow> fView f k n = [Some zv])
     \<and> (\<forall>e \<in> set es. acceptedWrite e \<longrightarrow> (\<exists>ns v w. e = EvVol (KUpdate ns v (Inr w)) \<and> agentWrite (fStore f) zv v)))"

text \<open>A node that has a ready volume does not take an older version of it for one that is being deleted.\<close>

definition lagInv :: "fleet \<Rightarrow> bool" where
  "lagInv f \<longleftrightarrow> (\<forall>n v u. objects (fStore f) n = Some v \<and> State v = ZFSStatusReady \<and> Some u \<in> set (fView f (OwnerNodeID (Spec v)) n)
     \<and> DeletionTimestamp u \<noteq> None \<longrightarrow>
     DeletionTimestamp v \<noteq> None \<and> set (GetUserFinalizers (Finalizers v)) \<subseteq> set (GetUserFinalizers (Finalizers u)))"

definition fleetInv :: "fleet \<Rightarrow> bool" where
  "fleetInv f \<longleftrightarrow> sysInv (fStore f) \<and> viewInv f \<and> ownInv f \<and> busyInv f \<and> lagInv f"

text \<open>The version that is to be stored is ahead of what its node has seen.\<close>

definition ahead :: "fleet \<Rightarrow> ZFSVolume \<Rightarrow> bool" where
  "ahead f w \<longleftrightarrow> (\<forall>u. Some u \<in> set (fView f (OwnerNodeID (Spec w)) (Name w)) \<and> DeletionTimestamp u \<noteq> None \<longrightarrow>
     DeletionTimestamp w \<noteq> None \<and> set (GetUserFinalizers (Finalizers w)) \<subseteq> set (GetUserFinalizers (Finalizers u)))"

section \<open>Stored versions\<close>

lemma storeStep_sysStep: "storeStep s s' \<Longrightarrow> sysStep s s'"
  by (induction rule: storeStep.induct) (auto intro: sysStep.intros)

lemma serve_versions: "serve e s s' \<Longrightarrow> versions s \<subseteq> versions s'"
  by (cases rule: serve.cases) (auto simp: settle_def)

lemma storeStep_versions: "storeStep s s' \<Longrightarrow> versions s \<subseteq> versions s'"
  by (cases rule: storeStep.cases) (auto dest: serve_versions simp: settle_def)

lemma storeStep_data: "storeStep s s' \<Longrightarrow> data s' = data s"
  by (cases rule: storeStep.cases) (auto dest: serve_data)

lemma posts_versions: "posts es f f' \<Longrightarrow> versions (fStore f) \<subseteq> versions (fStore f')"
  by (induction rule: posts.induct) (auto simp: publish_def dest: serve_versions [THEN subsetD])

lemma posts_data: "posts es f f' \<Longrightarrow> data (fStore f') = data (fStore f)"
  by (induction rule: posts.induct) (auto simp: publish_def dest: serve_data)

lemma fleetStep_versions: "fleetStep f f' \<Longrightarrow> versions (fStore f) \<subseteq> versions (fStore f')"
  by (cases rule: fleetStep.cases)
    (auto simp: publish_def enqueueIf_def setBusy_def onNodeData_def dest: storeStep_versions [THEN subsetD] posts_versions [THEN subsetD])

lemma unmoved_mono: "versions s \<subseteq> versions s' \<Longrightarrow> unmoved s' \<Longrightarrow> unmoved s"
  by (auto simp: unmoved_def)

lemma tidyVersions_mono: "versions s \<subseteq> versions s' \<Longrightarrow> tidyVersions pools s' \<Longrightarrow> tidyVersions pools s"
  by (auto simp: tidyVersions_def)

lemma tidy_of_versions: "sysInv s \<Longrightarrow> tidyVersions pools s \<Longrightarrow> tidy pools s"
  unfolding tidyVersions_def tidy_def sysInv_def by blast

section \<open>Sending a new state\<close>

lemma fView_publish:
  "fView (publish s f) k n = (if objects s n = objects (fStore f) n then fView f k n else fView f k n @ [objects s n])"
  by (simp add: fView_def publish_def)

lemma publish_fields [simp]:
  "fStore (publish s f) = s" "fQueue (publish s f) = fQueue f" "fBusy (publish s f) = fBusy f"
  by (simp_all add: publish_def)

lemma publish_same [simp]: "publish (fStore f) f = f"
  by (simp add: publish_def)

lemma fresh_new_version: "fresh s w \<Longrightarrow> w \<notin> versions s"
  by (auto simp: fresh_def)

lemma objects_settle:
  "objects (settle w s) n = (if n = Name w then if DeletionTimestamp w \<noteq> None \<and> Finalizers w = [] then None else Some w else objects s n)"
  by (simp add: settle_def)

lemma viewInv_settle:
  assumes "viewInv f" "fresh (fStore f) w"
  shows "viewInv (publish (settle w (fStore f)) f)"
proof -
  have "last (fView f' k n) = objects (fStore f') n
     \<and> (\<forall>v. Some v \<in> set (fView f' k n) \<longrightarrow> v \<in> versions (fStore f') \<and> Name v = n)
     \<and> (\<forall>v. objects (fStore f') n = Some v \<longrightarrow> Some v \<notin> set (butlast (fView f' k n)))"
    if "f' = publish (settle w (fStore f)) f" for f' k n
  proof -
    have old: "last (fView f k n) = objects (fStore f) n" "\<And>v. Some v \<in> set (fView f k n) \<Longrightarrow> v \<in> versions (fStore f) \<and> Name v = n"
      "\<And>v. objects (fStore f) n = Some v \<Longrightarrow> Some v \<notin> set (butlast (fView f k n))"
      using assms(1) by (auto simp: viewInv_def)
    show ?thesis
    proof (cases "objects (settle w (fStore f)) n = objects (fStore f) n")
      case True
      then have v: "fView f' k n = fView f k n" "fStore f' = settle w (fStore f)" by (simp_all add: that fView_publish)
      show ?thesis unfolding v True using old versions_settle [of "fStore f" w] by blast
    next
      case False
      then have v: "fView f' k n = fView f k n @ [objects (settle w (fStore f)) n]" "fStore f' = settle w (fStore f)"
        by (simp_all add: that fView_publish)
      have n: "n = Name w" using False by (rule contrapos_np) (simp add: objects_settle)
      have w: "objects (settle w (fStore f)) n = Some v \<Longrightarrow> v = w \<and> w \<in> versions (settle w (fStore f))" for v
        by (auto simp: n settle_def split: if_splits)
      have known: "Some u \<in> set (fView f k n) \<Longrightarrow> u \<in> versions (settle w (fStore f)) \<and> Name u = n" for u
        using old(2) versions_settle by blast
      have "objects (settle w (fStore f)) n = Some u \<Longrightarrow>
          u \<in> versions (settle w (fStore f)) \<and> Name u = n \<and> Some u \<notin> set (fView f k n)" for u
        using w [of u] old(2) [of u] fresh_new_version [OF assms(2)] n by blast
      with known show ?thesis unfolding v by simp
    qed
  qed
  then show ?thesis by (simp add: viewInv_def)
qed

lemma agentWrite_settle [simp]: "agentWrite (settle w s) = agentWrite s"
  by (intro ext) (simp add: agentWrite_def)

lemma busyInv_settle:
  assumes "busyInv f" "fresh (fStore f) w"
  shows "busyInv (publish (settle w (fStore f)) f)"
  unfolding busyInv_def publish_fields agentWrite_settle
proof (intro allI impI)
  fix k n zv r es
  assume b: "fBusy f k n = Some (zv, r, es)"
  then have old: "zv \<in> versions (fStore f)" "Name zv = n" "objects (fStore f) n = Some zv \<longrightarrow> fView f k n = [Some zv]"
    "\<forall>e \<in> set es. acceptedWrite e \<longrightarrow> (\<exists>ns v w. e = EvVol (KUpdate ns v (Inr w)) \<and> agentWrite (fStore f) zv v)"
    using assms(1) unfolding busyInv_def by blast+
  have "zv \<noteq> w" using old(1) fresh_new_version [OF assms(2)] by blast
  with old versions_settle [of "fStore f" w]
  show "zv \<in> versions (settle w (fStore f)) \<and> Name zv = n
     \<and> (objects (settle w (fStore f)) n = Some zv \<longrightarrow> fView (publish (settle w (fStore f)) f) k n = [Some zv])
     \<and> (\<forall>e \<in> set es. acceptedWrite e \<longrightarrow> (\<exists>ns v w. e = EvVol (KUpdate ns v (Inr w)) \<and> agentWrite (fStore f) zv v))"
    by (auto simp: fView_publish objects_settle split: if_splits)
qed

lemma ownInv_publish: "ownInv f \<Longrightarrow> versions (fStore f) \<subseteq> versions s \<Longrightarrow> ownInv (publish s f)"
  unfolding ownInv_def publish_fields by blast

text \<open>
  The only part of the invariant that depends on what is written: a new ready version must be as far in its deletion as
  everything that its node still has to see.
\<close>

lemma lagInv_settle:
  assumes "lagInv f" "State w = ZFSStatusReady \<Longrightarrow> DeletionTimestamp w = None \<or> Finalizers w \<noteq> [] \<Longrightarrow> ahead f w"
  shows "lagInv (publish (settle w (fStore f)) f)"
  unfolding lagInv_def publish_fields
proof (intro allI impI, elim conjE)
  fix n v u
  assume v: "objects (settle w (fStore f)) n = Some v" "State v = ZFSStatusReady" and d: "DeletionTimestamp u \<noteq> None"
    and u: "Some u \<in> set (fView (publish (settle w (fStore f)) f) (OwnerNodeID (Spec v)) n)"
  show "DeletionTimestamp v \<noteq> None \<and> set (GetUserFinalizers (Finalizers v)) \<subseteq> set (GetUserFinalizers (Finalizers u))"
  proof (cases "n = Name w")
    case True
    with v have w: "v = w" "DeletionTimestamp w = None \<or> Finalizers w \<noteq> []" by (auto simp: objects_settle split: if_splits)
    show ?thesis
    proof (cases "u = w")
      case False
      with u v True w have "Some u \<in> set (fView f (OwnerNodeID (Spec w)) (Name w))" by (auto simp: fView_publish split: if_splits)
      with assms(2) w v d show ?thesis by (auto simp: ahead_def)
    qed (use w d in simp)
  next
    case False
    with v u have "objects (fStore f) n = Some v" "Some u \<in> set (fView f (OwnerNodeID (Spec v)) n)"
      by (auto simp: fView_publish objects_settle)
    with assms(1) v(2) d show ?thesis unfolding lagInv_def by blast
  qed
qed

lemma fleetInv_settle:
  assumes "fleetInv f" "fresh (fStore f) w" "sysInv (settle w (fStore f))"
    and "State w = ZFSStatusReady \<Longrightarrow> DeletionTimestamp w = None \<or> Finalizers w \<noteq> [] \<Longrightarrow> ahead f w"
  shows "fleetInv (publish (settle w (fStore f)) f)"
  using assms versions_settle [of "fStore f" w]
  by (auto simp: fleetInv_def intro: viewInv_settle busyInv_settle lagInv_settle ownInv_publish)

lemma ahead_ready:
  assumes "lagInv f" "objects (fStore f) (Name w) = Some w0" "State w0 = ZFSStatusReady" "OwnerNodeID (Spec w) = OwnerNodeID (Spec w0)"
    and "DeletionTimestamp w0 \<noteq> None \<Longrightarrow>
      DeletionTimestamp w \<noteq> None \<and> set (GetUserFinalizers (Finalizers w)) \<subseteq> set (GetUserFinalizers (Finalizers w0))"
  shows "ahead f w"
  using assms unfolding ahead_def lagInv_def by (metis subset_trans)

section \<open>Changes from outside\<close>

lemma inv_parts:
  assumes "fleetInv f"
  shows "sysInv (fStore f)" "viewInv f" "ownInv f" "busyInv f" "lagInv f"
  using assms by (simp_all add: fleetInv_def)

lemma ahead_marked:
  assumes "fleetInv f" "objects (fStore f) n = Some w0" "w = w0\<lparr> ResourceVersion := rv, DeletionTimestamp := Some t \<rparr>" "State w = ZFSStatusReady"
  shows "ahead f w"
  using assms(2-4) inv_object [OF inv_parts(1) [OF assms(1)] assms(2)]
  by (intro ahead_ready [OF inv_parts(5) [OF assms(1)], of _ w0]) simp_all

lemma fleet_delete:
  assumes inv: "fleetInv f" and e: "serve (EvVol (KDelete ns n None)) (fStore f) s"
  shows "fleetInv (publish s f)"
  using e
proof cases
  case (Marked w0 w rv t)
  show ?thesis unfolding Marked(1)
    by (rule fleetInv_settle [OF inv Marked(5) inv_marked [OF inv_parts(1) [OF inv] Marked(2,4,5)]])
      (rule ahead_marked [OF inv Marked(2,4)])
qed (use inv in simp)

lemma fleet_change:
  assumes inv: "fleetInv f" and w0: "objects (fStore f) (Name v) = Some w0" "ResourceVersion v = ResourceVersion w0"
    and v0: "v0 \<in> versions (fStore f)" "changeOf v0 v"
    and w: "w = v\<lparr> ResourceVersion := rv, DeletionTimestamp := DeletionTimestamp w0 \<rparr>" "fresh (fStore f) w"
  shows "fleetInv (publish (settle w (fStore f)) f)"
proof (rule fleetInv_settle [OF inv w(2) inv_change(1) [OF inv_parts(1) [OF inv] w0 v0 w]])
  assume ready: "State w = ZFSStatusReady"
  note obj = inv_object [OF inv_parts(1) [OF inv] w0(1)]
  have "Name v0 = Name v" "ResourceVersion v0 = ResourceVersion v" using v0(2) by (auto simp: changeOf_def)
  with inv_version [OF inv_parts(1) [OF inv] v0(1)] obj w0(2) have "v0 = w0" by simp
  with v0(2) ready w(1) have "State w0 = ZFSStatusReady" "OwnerNodeID (Spec w) = OwnerNodeID (Spec w0)" "Finalizers w = Finalizers w0"
    "DeletionTimestamp w = DeletionTimestamp w0" by (auto simp: changeOf_def)
  then show "ahead f w" using w0(1) w(1) by (intro ahead_ready [OF inv_parts(5) [OF inv], of _ w0]) simp_all
qed

lemma fleet_request:
  assumes inv: "fleetInv f" and run: "ctlTrace E C q = a @ e # b"
    and reads: "\<And>ns n v. EvVol (KGet ns n (Inr v)) \<in> set a \<Longrightarrow> v \<in> versions (fStore f)" and e: "serve e (fStore f) s"
  shows "fleetInv (publish s f)"
proof -
  have g: "writeGuard e a" using ctlTrace_guarded [of E C q] run by (simp add: guardedBy_def)
  from e show ?thesis
  proof cases
    case (Created v w rv ns)
    with g have "plainNew v" by (simp add: writeGuard_def)
    then have "State w \<noteq> ZFSStatusReady" using Created(4) by (simp add: plainNew_def)
    moreover have "sysInv (settle w (fStore f))" using inv_request [OF inv_parts(1) [OF inv] run reads e] Created(2) by simp
    ultimately show ?thesis unfolding Created(2) by (intro fleetInv_settle [OF inv Created(5)]) simp_all
  next
    case (Updated v w0 w rv ns)
    with g obtain n v0 where "EvVol (KGet ns n (Inr v0)) \<in> set a" "changeOf v0 v" by (auto simp: writeGuard_def)
    with Updated reads fleet_change [OF inv] show ?thesis by metis
  next
    case (Marked n w0 w rv t ns)
    with fleet_delete [OF inv, of ns n s] e show ?thesis by simp
  qed (use inv in simp)
qed

lemma user_finalizers_mono: "set fs \<subseteq> set gs \<Longrightarrow> set (GetUserFinalizers fs) \<subseteq> set (GetUserFinalizers gs)"
  unfolding GetUserFinalizers_filter set_filter by blast

lemma fleet_outside:
  assumes inv: "fleetInv f" and step: "storeStep (fStore f) s"
  shows "fleetInv (publish s f)"
  using step
proof cases
  case Request
  with fleet_request [OF inv] show ?thesis by metis
next
  case Deleted
  with fleet_delete [OF inv] show ?thesis by metis
next
  case (Metadata n w0 w ls as fs rv)
  note obj = inv_object [OF inv_parts(1) [OF inv] Metadata(2)]
  have same: "State w = State w0" "DeletionTimestamp w = DeletionTimestamp w0" "OwnerNodeID (Spec w) = OwnerNodeID (Spec w0)" "Name w = n"
    using Metadata(3) obj by simp_all
  have "present (fStore f) w = present (fStore f) w0" using Metadata(3) by (simp add: present_def volumePath_def)
  moreover have "State w0 = ZFSStatusReady \<and> DeletionTimestamp w0 = None \<longrightarrow> present (fStore f) w0"
    using inv_parts(1) [OF inv] Metadata(2) by (simp add: sysInv_def)
  ultimately have keep: "sysInv (settle w (fStore f))"
  proof (intro inv_settle [OF inv_parts(1) [OF inv] Metadata(4)])
    show "ZFSFinalizer \<in> set (Finalizers w)" if "State w = ZFSStatusReady"
      using that obj same(1) Metadata(5) by (simp add: goodVolume_def Metadata(3))
  qed (use obj same in \<open>simp_all add: goodVolume_def\<close>)
  have "ahead f w" if "State w = ZFSStatusReady"
  proof (rule ahead_ready [OF inv_parts(5) [OF inv], of w w0])
    show "DeletionTimestamp w \<noteq> None \<and> set (GetUserFinalizers (Finalizers w)) \<subseteq> set (GetUserFinalizers (Finalizers w0))"
      if "DeletionTimestamp w0 \<noteq> None"
      using user_finalizers_mono [OF Metadata(6) [OF that]] that same(2) by (simp add: Metadata(3))
  qed (use that same Metadata(2) in simp_all)
  then show ?thesis unfolding Metadata(1) by (rule fleetInv_settle [OF inv Metadata(4) keep])
qed

section \<open>What the agents write\<close>

lemma busy_parts:
  assumes "busyInv f" "fBusy f k n = Some (zv, r, es)"
  shows "zv \<in> versions (fStore f)" "Name zv = n" "objects (fStore f) n = Some zv \<Longrightarrow> fView f k n = [Some zv]"
    "e \<in> set es \<Longrightarrow> acceptedWrite e \<Longrightarrow> \<exists>ns v w. e = EvVol (KUpdate ns v (Inr w)) \<and> agentWrite (fStore f) zv v"
  using assms unfolding busyInv_def by blast+

text \<open>A name that a node works on belongs to the node.\<close>

lemma own_owner:
  assumes "ownInv f" "unmoved (fStore f)" "n \<in> fQueue f k \<or> fBusy f k n \<noteq> None" "v \<in> versions (fStore f)" "Name v = n"
  shows "OwnerNodeID (Spec v) = k"
  using assms unfolding ownInv_def unmoved_def by metis

lemma fleet_agentWrite:
  assumes inv: "fleetInv f" "unmoved (fStore f)" and b: "fBusy f k n = Some (zv, r, es)" "agentWrite (fStore f) zv v"
    and w0: "objects (fStore f) (Name v) = Some w0" "ResourceVersion v = ResourceVersion w0"
    and w: "w = v\<lparr> ResourceVersion := rv, DeletionTimestamp := DeletionTimestamp w0 \<rparr>" "fresh (fStore f) w"
  shows "fleetInv (publish (settle w (fStore f)) f)"
proof (rule fleetInv_settle [OF inv(1) w(2)])
  note parts = inv_parts [OF inv(1)] and zv = busy_parts [OF inv_parts(4) [OF inv(1)] b(1)]
  show "sysInv (settle w (fStore f))" by (rule inv_agentWrite [OF parts(1) zv(1) b(2) w0 w])
  assume ready: "State w = ZFSStatusReady" and kept: "DeletionTimestamp w = None \<or> Finalizers w \<noteq> []"
  have w0': "w0 = zv" by (rule agentWrite_basis [OF parts(1) zv(1) b(2) w0])
  have name: "Name v = Name zv" "OwnerNodeID (Spec v) = OwnerNodeID (Spec zv)" using b(2) by (auto simp: agentWrite_def markedVol_def)
  have "OwnerNodeID (Spec zv) = k" by (rule own_owner [OF parts(3) inv(2) _ zv(1,2)]) (use b(1) in simp)
  moreover have "fView f k n = [Some zv]" using zv(2,3) w0(1) name w0' by simp
  moreover have "DeletionTimestamp zv = None" using b(2) kept w(1) w0' by (auto simp: agentWrite_def)
  ultimately show "ahead f w" using name zv(2) w(1) by (simp add: ahead_def)
qed

lemma fleet_posts:
  assumes "posts es f f'" "fleetInv f" "unmoved (fStore f')" "fBusy f k n = Some (zv, r, es0)" "set es \<subseteq> set es0"
  shows "fleetInv f' \<and> fBusy f' = fBusy f"
  using assms
proof (induction rule: posts.induct)
  case (Write e f s es f')
  have un: "unmoved (fStore f)"
    using unmoved_mono [OF _ Write.prems(2)] serve_versions [OF Write.hyps(1)] posts_versions [OF Write.hyps(2)] by simp
  note zv = busy_parts [OF inv_parts(4) [OF Write.prems(1)] Write.prems(3)]
  have "e \<in> set es0" using Write.prems(4) by simp
  with zv(4) [of e] obtain v w0 w rv where w: "agentWrite (fStore f) zv v" "objects (fStore f) (Name v) = Some w0"
    "ResourceVersion v = ResourceVersion w0" "w = v\<lparr> ResourceVersion := rv, DeletionTimestamp := DeletionTimestamp w0 \<rparr>"
    "fresh (fStore f) w" "s = settle w (fStore f)"
    by (elim serve_agentWrite [OF Write.hyps(1), rotated]) blast+
  have "fleetInv (publish s f)" unfolding w(6) by (rule fleet_agentWrite [OF Write.prems(1) un Write.prems(3) w(1-5)])
  with Write.IH Write.prems show ?case by simp
qed auto

section \<open>What the agents do to the datasets\<close>

lemma work_spares:
  assumes "flat pools" "tidyVersions pools s" "v \<in> versions s" "zv \<in> versions s"
    and "Name v = Name zv \<Longrightarrow> \<not> (DeletionTimestamp zv \<noteq> None \<and> GetUserFinalizers (Finalizers zv) = [])"
  shows "only (spares (volumePath v)) (syncZV E zv)"
proof (rule only_spares_syncZV)
  note t = assms(2) [unfolded tidyVersions_def, rule_format]
  show "CHR ''@'' \<notin> set (volumePath v)" using t [OF assms(3)] assms(1) by (auto simp: flat_def volumePath_def)
  assume "isDeletionCandidate zv \<and> GetUserFinalizers (Finalizers zv) = []"
  with assms(5) have "Name v \<noteq> Name zv" by (auto simp: isDeletionCandidate_def)
  with volumes_apart [OF assms(1), of v zv] t [OF assms(3)] t [OF assms(4)] show "\<not> under (volumePath zv) (volumePath v)" by blast
qed

text \<open>A run that spares the datasets of ready volumes and of the volumes that other workers are about to mark.\<close>

lemma fleet_data:
  assumes inv: "fleetInv f" "unmoved (fStore f)"
    and ready: "\<And>n v. objects (fStore f) n = Some v \<Longrightarrow> State v = ZFSStatusReady \<Longrightarrow> DeletionTimestamp v = None \<Longrightarrow>
      OwnerNodeID (Spec v) = m \<Longrightarrow> volumePath v \<in> set (data (fStore f) m) \<Longrightarrow> volumePath v \<in> set (datasets (data (fStore f) m) es)"
    and busy: "\<And>n zv r es'. fBusy f m n = Some (zv, r, es') \<Longrightarrow> DeletionTimestamp zv = None \<Longrightarrow>
      volumePath zv \<in> set (data (fStore f) m) \<Longrightarrow> volumePath zv \<in> set (datasets (data (fStore f) m) es)"
  shows "fleetInv (f\<lparr> fStore := onNodeData m es (fStore f) \<rparr>)"
proof -
  let ?s = "onNodeData m es (fStore f)"
  note parts = inv_parts [OF inv(1)]
  have same: "objects ?s = objects (fStore f)" "versions ?s = versions (fStore f)" by (simp_all add: onNodeData_def)
  have view: "fView (f\<lparr> fStore := ?s \<rparr>) = fView f" by (intro ext) (simp add: fView_def)
  have "sysInv ?s" by (rule inv_data [OF parts(1)]) (rule ready)
  moreover have "viewInv (f\<lparr> fStore := ?s \<rparr>)" "ownInv (f\<lparr> fStore := ?s \<rparr>)" "lagInv (f\<lparr> fStore := ?s \<rparr>)"
    using parts(2,3,5) by (simp_all add: viewInv_def ownInv_def lagInv_def same view)
  moreover have "zv \<in> versions (fStore f) \<and> Name zv = n \<and> (objects (fStore f) n = Some zv \<longrightarrow> fView f k n = [Some zv])
      \<and> (\<forall>e \<in> set es'. acceptedWrite e \<longrightarrow> (\<exists>ns v w. e = EvVol (KUpdate ns v (Inr w)) \<and> agentWrite ?s zv v))"
    if b: "fBusy f k n = Some (zv, r, es')" for k n zv r es'
  proof -
    note zv = busy_parts [OF parts(4) b]
    have "OwnerNodeID (Spec zv) = k" by (rule own_owner [OF parts(3) inv(2) _ zv(1,2)]) (use b in simp)
    with busy [of n zv r es'] b have "DeletionTimestamp zv = None \<Longrightarrow> present (fStore f) zv \<Longrightarrow> present ?s zv"
      by (cases "k = m") (simp_all add: present_def onNodeData_def)
    then have "agentWrite (fStore f) zv v \<Longrightarrow> agentWrite ?s zv v" for v by (auto simp: agentWrite_def)
    with zv show ?thesis by blast
  qed
  then have "busyInv (f\<lparr> fStore := ?s \<rparr>)" unfolding busyInv_def view by (simp add: same)
  ultimately show ?thesis by (simp add: fleetInv_def)
qed

text \<open>The worker starts on the version in its cache, which need not be the current one.\<close>

lemma view_cached:
  assumes "viewInv f" "fCache f k n = Some zv"
  shows "zv \<in> versions (fStore f)" "Name zv = n" "objects (fStore f) n = Some zv \<Longrightarrow> fView f k n = [Some zv]"
proof -
  have "Some zv \<in> set (fView f k n)" using assms(2) by (simp add: fView_def)
  with assms(1) show "zv \<in> versions (fStore f)" "Name zv = n" unfolding viewInv_def by blast+
  assume "objects (fStore f) n = Some zv"
  with assms(1) have "Some zv \<notin> set (butlast (fView f k n))" unfolding viewInv_def by blast
  with assms(2) show "fView f k n = [Some zv]" by (cases "fNews f k n") (auto simp: fView_def)
qed

lemma fleet_taken:
  assumes "fleetInv f" "n \<in> fQueue f k" "zv \<in> versions (fStore f)" "Name zv = n" "objects (fStore f) n = Some zv \<Longrightarrow> fView f k n = [Some zv]"
    and "\<And>e. e \<in> set es \<Longrightarrow> acceptedWrite e \<Longrightarrow> \<exists>ns v w. e = EvVol (KUpdate ns v (Inr w)) \<and> agentWrite (fStore f) zv v"
  shows "fleetInv (setBusy k n (Some (zv, r, es)) (f\<lparr> fQueue := (fQueue f)(k := fQueue f k - {n}) \<rparr>))" (is "fleetInv ?f")
proof -
  note parts = inv_parts [OF assms(1)]
  have view: "fView ?f = fView f" "fStore ?f = fStore f" by (intro ext) (simp_all add: fView_def setBusy_def)
  have "ownInv ?f" unfolding ownInv_def view
  proof (intro allI impI)
    fix k' n' assume "n' \<in> fQueue ?f k' \<or> fBusy ?f k' n' \<noteq> None"
    with assms(2) have "n' \<in> fQueue f k' \<or> fBusy f k' n' \<noteq> None" by (auto simp: setBusy_def split: if_splits)
    with parts(3) show "\<exists>v \<in> versions (fStore f). Name v = n' \<and> OwnerNodeID (Spec v) = k'" unfolding ownInv_def by blast
  qed
  moreover have "busyInv ?f" unfolding busyInv_def view
  proof (intro allI impI)
    fix k' n' zv' r' es'
    assume b: "fBusy ?f k' n' = Some (zv', r', es')"
    show "zv' \<in> versions (fStore f) \<and> Name zv' = n' \<and> (objects (fStore f) n' = Some zv' \<longrightarrow> fView f k' n' = [Some zv'])
      \<and> (\<forall>e \<in> set es'. acceptedWrite e \<longrightarrow> (\<exists>ns v w. e = EvVol (KUpdate ns v (Inr w)) \<and> agentWrite (fStore f) zv' v))"
    proof (cases "k' = k \<and> n' = n")
      case True
      with b assms(3-6) show ?thesis by (auto simp: setBusy_def)
    next
      case False
      with b have "fBusy f k' n' = Some (zv', r', es')" by (auto simp: setBusy_def split: if_splits)
      from busy_parts [OF parts(4) this] show ?thesis by blast
    qed
  qed
  moreover have "viewInv ?f" "lagInv ?f" using parts(2,5) unfolding viewInv_def lagInv_def view by blast+
  ultimately show ?thesis using parts(1) by (simp add: fleetInv_def view)
qed

lemma fleet_work:
  assumes inv: "fleetInv f" "unmoved (fStore f)" "tidyVersions pools (fStore f)" "flat pools"
    and k: "k = NodeID E" "n \<in> fQueue f k" "fBusy f k n = None" "fCache f k n = Some zv"
    and run: "lists_truthfully E (data (fStore f) k)" "syncZV E zv [] = (r, es)"
  shows "fleetInv (setBusy k n (Some (zv, r, es)) (f\<lparr> fStore := onNodeData k es (fStore f), fQueue := (fQueue f)(k := fQueue f k - {n}) \<rparr>))"
proof -
  note parts = inv_parts [OF inv(1)] and zv = view_cached [OF inv_parts(2) [OF inv(1)] k(4)]
  have own: "OwnerNodeID (Spec zv) = k" by (rule own_owner [OF parts(3) inv(2) _ zv(1,2)]) (use k in simp)
  let ?f = "f\<lparr> fStore := onNodeData k es (fStore f) \<rparr>"
  have "fleetInv ?f"
  proof (rule fleet_data [OF inv(1,2)])
    fix m v
    assume v: "objects (fStore f) m = Some v" "State v = ZFSStatusReady" "DeletionTimestamp v = None" "OwnerNodeID (Spec v) = k"
      and p: "volumePath v \<in> set (data (fStore f) k)"
    have "only (spares (volumePath v)) (syncZV E zv)"
    proof (rule work_spares [OF inv(4,3) _ zv(1)])
      show "v \<in> versions (fStore f)" using inv_object [OF parts(1) v(1)] by simp
      assume "Name v = Name zv"
      with zv(2) inv_object [OF parts(1) v(1)] have "m = n" by simp
      moreover have "Some zv \<in> set (fView f k n)" using k(4) by (simp add: fView_def)
      ultimately show "\<not> (DeletionTimestamp zv \<noteq> None \<and> GetUserFinalizers (Finalizers zv) = [])"
        using parts(5) v unfolding lagInv_def by blast
    qed
    from kept_data [OF this run(2) p] show "volumePath v \<in> set (datasets (data (fStore f) k) es)" .
  next
    fix m zv' r' es'
    assume b: "fBusy f k m = Some (zv', r', es')" and p: "volumePath zv' \<in> set (data (fStore f) k)"
    note zv' = busy_parts [OF parts(4) b]
    have "only (spares (volumePath zv')) (syncZV E zv)"
      by (rule work_spares [OF inv(4,3) zv'(1) zv(1)]) (use b k(3) zv(2) zv'(2) in auto)
    from kept_data [OF this run(2) p] show "volumePath zv' \<in> set (datasets (data (fStore f) k) es)" .
  qed
  then have "fleetInv (setBusy k n (Some (zv, r, es)) (?f\<lparr> fQueue := (fQueue ?f)(k := fQueue ?f k - {n}) \<rparr>))"
  proof (rule fleet_taken)
    show "n \<in> fQueue ?f k" "zv \<in> versions (fStore ?f)" "Name zv = n" using k zv by (simp_all add: onNodeData_def)
    show "objects (fStore ?f) n = Some zv \<Longrightarrow> fView ?f k n = [Some zv]" using zv(3) by (simp add: onNodeData_def fView_def)
    show "\<exists>ns v w. e = EvVol (KUpdate ns v (Inr w)) \<and> agentWrite (fStore ?f) zv v" if "e \<in> set es" "acceptedWrite e" for e
      by (rule syncZV_writes [OF run that]) (auto simp: agentWrite_def onNodeData_def present_def own isDeletionCandidate_def)
  qed
  then show ?thesis by simp
qed

lemma fleet_others:
  assumes inv: "fleetInv f" "unmoved (fStore f)" "tidyVersions pools (fStore f)" "flat pools"
    and m: "m \<in> {syncSnap E snap, syncBkp E bkp, syncRestore E rstr}" "m [] = (r, es)"
  shows "fleetInv (f\<lparr> fStore := onNodeData (NodeID E) es (fStore f) \<rparr>)"
proof -
  note parts = inv_parts [OF inv(1)]
  have kept: "volumePath v \<in> set (datasets base es)" if "v \<in> versions (fStore f)" "volumePath v \<in> set base" for v base
  proof -
    have at: "CHR ''@'' \<notin> set (volumePath v)" using inv(3,4) that(1) by (auto simp: tidyVersions_def flat_def volumePath_def)
    have "only (spares (volumePath v)) m" using m(1) only_spares_syncs [OF at] by blast
    from kept_data [OF this m(2) that(2)] show ?thesis .
  qed
  show ?thesis
    by (rule fleet_data [OF inv(1,2)]) (auto intro: kept dest: inv_object [OF parts(1)] busy_parts(1) [OF parts(4)])
qed

section \<open>Caches and queues\<close>

lemma queues_own:
  assumes "queues E old new"
  obtains v where "Some v \<in> {old, new}" "OwnerNodeID (Spec v) = NodeID E"
  using assms that
  by (cases old; cases new)
    (auto simp: queues_def notify_def addZV_def updateZV_def deleteZV_def enqueueZV_def enqueueObj_def qAdd_def go_simps Let_def
      split: if_splits)

text \<open>The queues and the workers matter only to the parts that speak of them.\<close>

lemma fleet_fewer:
  assumes "fleetInv f" "fStore f' = fStore f" "fCache f' = fCache f" "fNews f' = fNews f"
    and "\<And>k n. n \<in> fQueue f' k \<Longrightarrow> n \<in> fQueue f k \<or> (\<exists>v \<in> versions (fStore f). Name v = n \<and> OwnerNodeID (Spec v) = k)"
    and "\<And>k n b. fBusy f' k n = Some b \<Longrightarrow> fBusy f k n = Some b"
  shows "fleetInv f'"
proof -
  note parts = inv_parts [OF assms(1)]
  have view: "fView f' = fView f" by (intro ext) (simp add: fView_def assms)
  have "ownInv f'" using parts(3) assms(5,6) unfolding ownInv_def assms(2) by (metis not_Some_eq)
  moreover have "busyInv f'" using parts(4) assms(6) unfolding busyInv_def view assms(2) by blast
  ultimately show ?thesis using parts by (simp add: fleetInv_def viewInv_def lagInv_def view assms(2))
qed

lemma fleet_enqueue:
  assumes "fleetInv f" "b \<Longrightarrow> n \<in> fQueue f k \<or> (\<exists>v \<in> versions (fStore f). Name v = n \<and> OwnerNodeID (Spec v) = k)"
  shows "fleetInv (enqueueIf b k n f)"
  by (rule fleet_fewer [OF assms(1)]) (use assms(2) in \<open>auto simp: enqueueIf_def split: if_splits\<close>)

lemma queues_versions:
  assumes "viewInv f" "queues E old new" "{old, new} - {None} \<subseteq> set (fView f k n)"
  shows "\<exists>v \<in> versions (fStore f). Name v = n \<and> OwnerNodeID (Spec v) = NodeID E"
proof -
  from assms(2) obtain v where "Some v \<in> {old, new}" "OwnerNodeID (Spec v) = NodeID E" by (rule queues_own)
  with assms(1,3) show ?thesis unfolding viewInv_def by blast
qed

lemma views_shrink:
  assumes "viewInv f" "lagInv f" "fStore f' = fStore f"
    and "\<And>k n. set (fView f' k n) \<subseteq> set (fView f k n)" "\<And>k n. last (fView f' k n) = last (fView f k n)"
    and "\<And>k n. set (butlast (fView f' k n)) \<subseteq> set (butlast (fView f k n))"
  shows "viewInv f' \<and> lagInv f'"
proof
  show "viewInv f'" unfolding viewInv_def assms(3)
  proof (intro allI conjI impI)
    fix k n v
    show "last (fView f' k n) = objects (fStore f) n" using assms(1,5) unfolding viewInv_def by simp
    show "v \<in> versions (fStore f)" "Name v = n" if "Some v \<in> set (fView f' k n)"
      using assms(1) subsetD [OF assms(4) that] unfolding viewInv_def by blast+
    show "Some v \<notin> set (butlast (fView f' k n))" if "objects (fStore f) n = Some v"
      using assms(1) that assms(6) [of k n] unfolding viewInv_def by blast
  qed
  show "lagInv f'" unfolding lagInv_def assms(3)
  proof (intro allI impI, elim conjE)
    fix n v u
    assume v: "objects (fStore f) n = Some v" "State v = ZFSStatusReady" "DeletionTimestamp u \<noteq> None"
      and u: "Some u \<in> set (fView f' (OwnerNodeID (Spec v)) n)"
    show "DeletionTimestamp v \<noteq> None \<and> set (GetUserFinalizers (Finalizers v)) \<subseteq> set (GetUserFinalizers (Finalizers u))"
      using assms(2) v subsetD [OF assms(4) u] unfolding lagInv_def by blast
  qed
qed

text \<open>A node that hears of a newer version has less to wait for.\<close>

lemma fleet_observe:
  assumes inv: "fleetInv f" and news: "fNews f k n = xs @ y # ys"
  shows "fleetInv (f\<lparr> fCache := (fCache f)(k := (fCache f k)(n := y)), fNews := (fNews f)(k := (fNews f k)(n := ys)) \<rparr>)" (is "fleetInv ?f")
proof -
  note parts = inv_parts [OF inv]
  have old: "fView f k n = (fCache f k n # xs) @ y # ys" using news by (simp add: fView_def)
  have new: "fView ?f k' n' = (if k' = k \<and> n' = n then y # ys else fView f k' n')" for k' n' by (simp add: fView_def)
  have sub: "set (fView ?f k' n') \<subseteq> set (fView f k' n')" "last (fView ?f k' n') = last (fView f k' n')"
    "set (butlast (fView ?f k' n')) \<subseteq> set (butlast (fView f k' n'))" for k' n'
    using old by (auto simp: new butlast_append)
  have same: "fStore ?f = fStore f" "fQueue ?f = fQueue f" "fBusy ?f = fBusy f" by simp_all
  have "viewInv ?f \<and> lagInv ?f" by (rule views_shrink [OF parts(2,5) same(1) sub])
  moreover have "ownInv ?f" using parts(3) unfolding ownInv_def same .
  moreover have "busyInv ?f" unfolding busyInv_def same
  proof (intro allI impI)
    fix k' n' zv r es
    assume b: "fBusy f k' n' = Some (zv, r, es)"
    note zv = busy_parts [OF parts(4) b]
    from zv(3) old have "objects (fStore f) n' = Some zv \<Longrightarrow> fView ?f k' n' = [Some zv]" by (auto simp: new)
    with zv show "zv \<in> versions (fStore f) \<and> Name zv = n' \<and> (objects (fStore f) n' = Some zv \<longrightarrow> fView ?f k' n' = [Some zv])
      \<and> (\<forall>e \<in> set es. acceptedWrite e \<longrightarrow> (\<exists>ns v w. e = EvVol (KUpdate ns v (Inr w)) \<and> agentWrite (fStore f) zv v))" by blast
  qed
  ultimately show ?thesis using parts(1) by (simp add: fleetInv_def)
qed

lemma fleet_restart:
  assumes inv: "fleetInv f"
  shows "fleetInv (f\<lparr> fCache := (fCache f)(NodeID E := objects (fStore f)), fNews := (fNews f)(NodeID E := (\<lambda>_. [])),
    fQueue := (fQueue f)(NodeID E := {n. queues E None (objects (fStore f) n)}), fBusy := (fBusy f)(NodeID E := (\<lambda>_. None)) \<rparr>)" (is "fleetInv ?f")
proof -
  note parts = inv_parts [OF inv]
  have new: "fView ?f k n = (if k = NodeID E then [objects (fStore f) n] else fView f k n)" for k n by (simp add: fView_def)
  have same: "fStore ?f = fStore f" by simp
  have object: "objects (fStore f) n = Some v \<Longrightarrow> v \<in> versions (fStore f) \<and> Name v = n" for n v
    using inv_object [OF parts(1)] by blast
  have "fView f k n \<noteq> []" "last (fView f k n) = objects (fStore f) n" for k n
    using parts(2) by (simp_all add: viewInv_def fView_def)
  with last_in_set have "objects (fStore f) n \<in> set (fView f k n)" "last (fView f k n) = objects (fStore f) n" for k n by metis+
  then have "viewInv ?f \<and> lagInv ?f" by (intro views_shrink [OF parts(2,5) same]) (simp_all add: new)
  moreover have "ownInv ?f" unfolding ownInv_def same
  proof (intro allI impI)
    fix k n assume q: "n \<in> fQueue ?f k \<or> fBusy ?f k n \<noteq> None"
    show "\<exists>v \<in> versions (fStore f). Name v = n \<and> OwnerNodeID (Spec v) = k"
    proof (cases "k = NodeID E")
      case True
      with q have "queues E None (objects (fStore f) n)" by simp
      then obtain v where "Some v \<in> {None, objects (fStore f) n}" "OwnerNodeID (Spec v) = NodeID E" by (rule queues_own)
      then have "objects (fStore f) n = Some v" by auto
      with object True \<open>OwnerNodeID (Spec v) = NodeID E\<close> show ?thesis by blast
    next
      case False
      with q have "n \<in> fQueue f k \<or> fBusy f k n \<noteq> None" by simp
      with parts(3) show ?thesis unfolding ownInv_def by blast
    qed
  qed
  moreover have "busyInv ?f" using parts(4) unfolding busyInv_def same by (simp add: new)
  ultimately show ?thesis using parts(1) by (simp add: fleetInv_def)
qed

section \<open>Every run\<close>

lemma fleet_step:
  assumes "fleetInv f" "fleetStep f f'" "unmoved (fStore f')" "tidyVersions pools (fStore f')" "flat pools"
  shows "fleetInv f'"
proof -
  note parts = inv_parts [OF assms(1)] and grows = fleetStep_versions [OF assms(2)]
  have hyps: "unmoved (fStore f)" "tidyVersions pools (fStore f)"
    using unmoved_mono [OF grows assms(3)] tidyVersions_mono [OF grows assms(4)] .
  from assms(2) show ?thesis
  proof cases
    case (Outside s)
    with fleet_outside [OF assms(1)] show ?thesis by simp
  next
    case (Observe E n xs y ys)
    show ?thesis unfolding Observe(1)
      by (rule fleet_enqueue [OF fleet_observe [OF assms(1) Observe(2)]], rule disjI2, simp,
          rule queues_versions [OF parts(2)], assumption) (use Observe(2) in \<open>auto simp: fView_def\<close>)
  next
    case (Resync E n)
    show ?thesis unfolding Resync(1)
      by (rule fleet_enqueue [OF assms(1)], rule disjI2, rule queues_versions [OF parts(2)], assumption) (auto simp: fView_def)
  next
    case (Missing n k)
    show ?thesis unfolding Missing(1) by (rule fleet_fewer [OF assms(1)]) (auto split: if_splits)
  next
    case (Work n E zv r es)
    with fleet_work [OF assms(1) hyps assms(5) refl] show ?thesis by simp
  next
    case (Finish k n zv r es g)
    have g: "fleetInv g \<and> fBusy g = fBusy f"
      by (rule fleet_posts [OF Finish(3) assms(1) _ Finish(2)]) (use assms(3) Finish(1) in \<open>simp_all add: enqueueIf_def setBusy_def\<close>)
    then have "\<exists>v \<in> versions (fStore g). Name v = n \<and> OwnerNodeID (Spec v) = k"
      using inv_parts(3) [of g] Finish(2) unfolding ownInv_def by (metis option.distinct(1))
    moreover have "fleetInv (setBusy k n None g)"
      by (rule fleet_fewer [OF g [THEN conjunct1]]) (auto simp: setBusy_def split: if_splits)
    ultimately show ?thesis unfolding Finish(1) by (intro fleet_enqueue) (simp_all add: setBusy_def)
  next
    case (Others m E snap bkp rstr r es)
    with fleet_others [OF assms(1) hyps assms(5)] show ?thesis by blast
  next
    case (Restart E)
    with fleet_restart [OF assms(1)] show ?thesis by simp
  qed
qed

lemma fleetRun_inv:
  "fleetRun f \<Longrightarrow> unmoved (fStore f) \<Longrightarrow> tidyVersions pools (fStore f) \<Longrightarrow> flat pools \<Longrightarrow> fleetInv f"
proof (induction rule: fleetRun.induct)
  case (Start f)
  then show ?case by (simp add: fleetInv_def sysInv_def viewInv_def ownInv_def busyInv_def lagInv_def fView_def)
next
  case (Step f f')
  note grows = fleetStep_versions [OF Step.hyps(2)]
  with Step unmoved_mono [OF grows] tidyVersions_mono [OF grows] show ?case by (blast intro: fleet_step)
qed

text \<open>The only step that removes the dataset of a ready volume is the work of its node on the deletion of the volume.\<close>

lemma fleet_dataset_removed:
  assumes inv: "fleetInv f" "unmoved (fStore f)" "tidyVersions pools (fStore f)" "flat pools" and step: "fleetStep f f'"
    and v: "objects (fStore f) n = Some v" "State v = ZFSStatusReady"
    and p: "present (fStore f) v" "volumePath v \<notin> set (data (fStore f') (OwnerNodeID (Spec v)))"
  shows "DeletionTimestamp v \<noteq> None \<and> GetUserFinalizers (Finalizers v) = []"
proof -
  note parts = inv_parts [OF inv(1)]
  have v': "v \<in> versions (fStore f)" "Name v = n" using inv_object [OF parts(1) v(1)] by simp_all
  have changed: "data (fStore f') (OwnerNodeID (Spec v)) \<noteq> data (fStore f) (OwnerNodeID (Spec v))" using p by (auto simp: present_def)
  have not_spared: "\<not> only (spares (volumePath v)) m"
    if "m [] = (r, es)" "fStore f' = onNodeData (NodeID E) es (fStore f)" for m :: "'z go" and r es E
    using kept_data [of "volumePath v" m r es "data (fStore f) (NodeID E)"] that(1) p
    by (auto simp: that(2) onNodeData_def present_def split: if_splits)
  from step show ?thesis
  proof cases
    case (Work m E zv r es)
    note zv = view_cached [OF parts(2) Work(4)]
    have "\<not> only (spares (volumePath v)) (syncZV E zv)" using not_spared [of "syncZV E zv" r es E] Work(1,6) by (simp add: setBusy_def)
    with work_spares [OF inv(4,3) v'(1) zv(1)]
    have d: "Name v = Name zv" "DeletionTimestamp zv \<noteq> None" "GetUserFinalizers (Finalizers zv) = []" by blast+
    have "OwnerNodeID (Spec v) = NodeID E" by (rule own_owner [OF parts(3) inv(2)]) (use Work(2) v' d(1) zv(2) in auto)
    with Work(4) v'(2) d(1) zv(2) have "Some zv \<in> set (fView f (OwnerNodeID (Spec v)) n)" by (simp add: fView_def)
    then have "DeletionTimestamp v \<noteq> None" "set (GetUserFinalizers (Finalizers v)) \<subseteq> set (GetUserFinalizers (Finalizers zv))"
      using parts(5) v d(2) unfolding lagInv_def by blast+
    with d(3) show ?thesis by simp
  next
    case (Others m E snap bkp rstr r es)
    have "CHR ''@'' \<notin> set (volumePath v)" using inv(3,4) v'(1) by (auto simp: tidyVersions_def flat_def volumePath_def)
    with Others(2) only_spares_syncs have "only (spares (volumePath v)) m" by blast
    with not_spared [of m r es E] Others(1,3) show ?thesis by simp
  qed (use changed in \<open>auto simp: publish_def enqueueIf_def setBusy_def dest: storeStep_data posts_data\<close>)
qed

end
