(* ===== verification/SystemSafety.thy ===== *)
theory SystemSafety
  imports System
begin

text \<open>
  What the controller and the node agents promise together, in every order of their steps: ready volumes have their
  data, the objects are well formed, data is removed only with the volume, and a volume only after its data.
\<close>

section \<open>Definitions\<close>

text \<open>
  The life of a volume, for the examples: the controller creates \<open>createdVol\<close>, the agent of its node makes it ready,
  a deletion marks it, and the agent destroys it. The API server stamps what it stores.
\<close>

definition createdVol :: ZFSVolume where
  "createdVol = emptyVolume\<lparr> Name := ''v1'', State := ZFSStatusPending, Spec := emptyInfo\<lparr> OwnerNodeID := ''node-1'',
     PoolName := ''pool'', Capacity := ''1048576'', ThinProvision := ''yes'', VolumeType := VolTypeDataset,
     QuotaType := ''quota'', FsType := ''zfs'',
     UserProperties := [(''openebs.io:pvc-name'', []), (''openebs.io:pvc-namespace'', []), (''openebs.io:pv-name'', [])] \<rparr> \<rparr>"

definition stamped :: "ZFSVolume \<Rightarrow> ZFSVolume" where
  "stamped v = v\<lparr> ResourceVersion := CHR ''I'' # ResourceVersion v \<rparr>"

definition stampEnv :: "string list \<Rightarrow> env" where
  "stampEnv base = (truthEnv base)\<lparr> cluster := quietCluster\<lparr> volApi := quietApi\<lparr>
     apiUpdate := (\<lambda>h ns x. Inr (stamped x)) \<rparr> \<rparr> \<rparr>"

definition servedVol :: ZFSVolume where
  "servedVol = stamped (markedVol quietEnv createdVol ZFSStatusReady)"

definition leavingVol :: ZFSVolume where
  "leavingVol = (stamped servedVol)\<lparr> DeletionTimestamp := Some ''now'' \<rparr>"

definition sysAt :: "ZFSVolume option \<Rightarrow> ZFSVolume set \<Rightarrow> string list \<Rightarrow> system" where
  "sysAt v vs ds = \<lparr> objects = [''v1'' \<mapsto> the v] |` (if v = None then {} else UNIV), versions = vs, data = (\<lambda>_. [])(''node-1'' := ds) \<rparr>"

section \<open>The life of a volume\<close>

lemma created_requested:
  assumes "requestedVolume plainCtl thinReq (VolParameters thinReq) ''v1'' (FormatInt (getRoundedCapacity 1000000)) = Inr v"
  shows "v\<lparr> Spec := (Spec v)\<lparr> OwnerNodeID := ''node-1'', PoolName := ''pool'' \<rparr>, State := ZFSStatusPending \<rparr> = createdVol"
proof -
  let ?cs = "requestCalls plainCtl thinReq (VolParameters thinReq) ''v1'' (FormatInt (getRoundedCapacity 1000000))"
  from assms have b: "Build (fold vol_with ?cs vol_NewBuilder) = Inr v" by (simp only: requestedVolume_calls)
  note calls = vb.build_object [OF b] requestCalls_def Let_def builder_defs newBuilder_def nonEmpty_def setObj_object
    specUpd_def volProps_def reserved_object
  show ?thesis
    by (simp add: calls thin_fields plain_fields mget_def createdVol_def emptyVolume_def emptyInfo_def GetVolumeType_def
      rounded_eq MaxInt64_def FormatInt_def natDigits.simps)
qed

lemma created_trace:
  obtains b where "ctlTrace eagerNode plainCtl (CtlCreateVolume thinReq) =
    [EvLock ''v1'', EvClientset [] None, EvVol (KGet ''openebs'' ''v1'' (Inl (True, ''not found''))),
     EvClientset [] None, EvNode (KList ''openebs'' [] (Inr [])), EvGetNode ''node-1'' (Inr []), EvClientset [] None,
     EvVol (KGet ''openebs'' ''v1'' (Inl (True, ''not found''))), EvClientset [] None]
    @ EvVol (KCreate ''openebs'' createdVol (Inr createdVol)) # b"
proof -
  obtain f where f: "parsePoolParams quietLib ''pool'' [] = Some (Inr f)"
    using poolname_compiles [of "''pool''" quietLib] by auto
  obtain v where v: "requestedVolume plainCtl thinReq (VolParameters thinReq) ''v1'' (FormatInt (getRoundedCapacity 1000000)) = Inr v"
    and "Name v = ''v1''" by (rule thin_requested)
  moreover have "Name createdVol = ''v1''" by (simp add: createdVol_def)
  ultimately show ?thesis
    by (intro that) (simp add: created_requested [OF v] CreateVolume_def createFrom_def withVolume_def goLock_def validateVolumeCreateReq_def validateRequest_def
        newControllerCapabilities_def sendEventOrIgnore_def create_simps errOf_def eagerNode_def f ProvisionVolume_def
        checkVolCreation_def vol_Create_def kube_Create_def readyVol_def builder_defs buildFrom_def newBuilder_def setObj_def
        nonEmpty_def specUpd_def Build_def)
qed

lemmas life_simps = sysAt_def stampEnv_def stamped_def createdVol_def servedVol_def leavingVol_def markedVol_def

lemma life_flat: "flat {''pool''}"
  by (simp add: flat_def)

lemma life_tidy: "Name v = ''v1'' \<Longrightarrow> PoolName (Spec v) = ''pool'' \<Longrightarrow> tidy {''pool''} (sysAt (Some v) vs ds)"
  by (auto simp: tidy_def sysAt_def)

lemma created_served:
  "serve (EvVol (KCreate ''openebs'' createdVol (Inr createdVol))) (sysAt None {} [''pool'']) (sysAt (Some createdVol) {createdVol} [''pool''])"
proof -
  have "serve (EvVol (KCreate ''openebs'' createdVol (Inr createdVol))) (sysAt None {} [''pool''])
      (settle createdVol (sysAt None {} [''pool'']))"
    by (rule serve.Created [where rv = "[]"]) (simp_all add: life_simps emptyVolume_def fresh_def)
  also have "settle createdVol (sysAt None {} [''pool'']) = sysAt (Some createdVol) {createdVol} [''pool'']"
    by (simp add: life_simps settle_def emptyVolume_def)
  finally show ?thesis .
qed

lemma life_created: "reachable {''pool''} (sysAt (Some createdVol) {createdVol} [''pool''])"
proof (rule reachable.Step)
  show "reachable {''pool''} (sysAt None {} [''pool''])" by (rule reachable.Start) (auto simp: sysAt_def)
  obtain b where b: "ctlTrace eagerNode plainCtl (CtlCreateVolume thinReq) =
    [EvLock ''v1'', EvClientset [] None, EvVol (KGet ''openebs'' ''v1'' (Inl (True, ''not found''))),
     EvClientset [] None, EvNode (KList ''openebs'' [] (Inr [])), EvGetNode ''node-1'' (Inr []), EvClientset [] None,
     EvVol (KGet ''openebs'' ''v1'' (Inl (True, ''not found''))), EvClientset [] None]
    @ EvVol (KCreate ''openebs'' createdVol (Inr createdVol)) # b" by (rule created_trace)
  from created_served show "sysStep (sysAt None {} [''pool'']) (sysAt (Some createdVol) {createdVol} [''pool''])"
    by (rule sysStep.Request [OF b, rotated]) simp
  show "tidy {''pool''} (sysAt (Some createdVol) {createdVol} [''pool''])" by (rule life_tidy) (simp_all add: createdVol_def emptyVolume_def)
qed

lemma serves_filter: "serves (filter acceptedWrite es) s s' \<Longrightarrow> serves es s s'"
proof (induction es arbitrary: s)
  case (Cons e es)
  show ?case
  proof (cases "acceptedWrite e")
    case True
    from Cons.prems [unfolded filter.simps if_P [OF True]] show ?thesis by cases (use True Cons.IH in \<open>auto intro: serves.Write\<close>)
  qed (use Cons in \<open>auto intro: serves.Other\<close>)
qed simp

lemma created_valid: "Validate (Spec createdVol) = None"
  unfolding Validate_def validateProps_None_iff by (simp add: createdVol_def reserved_names HasPrefix_def)

lemma served_run:
  "let es = snd (syncZV (stampEnv [''pool'']) createdVol []) in
   filter acceptedWrite es = [EvVol (KUpdate ''openebs'' (markedVol quietEnv createdVol ZFSStatusReady) (Inr servedVol))]
   \<and> datasets [''pool''] es = [''pool/v1'', ''pool'']"
proof -
  have sync: "syncZV E createdVol = provisionZV E createdVol" for E
    using created_valid by (simp add: syncZV_def isDeletionCandidate_def IsVolumeReady_def createdVol_def emptyVolume_def)
  show ?thesis
    unfolding sync by (simp add: provisionZV_def UpdateZvolInfo_eq sync_simps life_simps)
qed

lemma leaving_run:
  "let es = snd (syncZV (stampEnv [''pool/v1'', ''pool'']) leavingVol []) in
   filter acceptedWrite es = [EvVol (KUpdate ''openebs'' (leavingVol\<lparr> Finalizers := [] \<rparr>) (Inr (stamped (leavingVol\<lparr> Finalizers := [] \<rparr>))))]
   \<and> datasets [''pool/v1'', ''pool''] es = [''pool'']"
  by (simp add: syncZV_def sync_simps life_simps under_def)

lemma leaving_trace:
  "ctlTrace (holding servedVol []) plainCtl (CtlDeleteVolume ''v1'') =
   [EvLock ''v1'', EvClientset [] None, EvVol (KGet ''openebs'' ''v1'' (Inr servedVol)), EvClientset [] None,
    EvSnap (KList ''openebs'' ''openebs.io/persistent-volume=v1'' (Inr [])), EvClientset [] None]
   @ EvVol (KDelete ''openebs'' ''v1'' None) # [EvUnlock ''v1'']"
  by (simp add: DeleteVolume_def validateDeleteVolumeReq_def deleteReady_def control_simps life_simps)

text \<open>A run of the agent of the example that writes once.\<close>

lemma life_sync:
  assumes "reachable {''pool''} s" and s: "s = sysAt (Some zv) vs base" and zv: "OwnerNodeID (Spec zv) = ''node-1''"
    and run: "let es = snd (syncZV (stampEnv base) zv []) in
        filter acceptedWrite es = [EvVol (KUpdate ''openebs'' v (Inr w))] \<and> datasets base es = ds"
    and w: "w = v\<lparr> ResourceVersion := rv, DeletionTimestamp := DeletionTimestamp zv \<rparr>" "fresh s w"
    and v: "Name v = ''v1''" "ResourceVersion v = ResourceVersion zv"
    and s': "s' = (settle w s)\<lparr> data := (\<lambda>_. [])(''node-1'' := ds) \<rparr>" "tidy {''pool''} s'"
  shows "sysStep s s' \<and> reachable {''pool''} s'"
proof -
  let ?E = "stampEnv base"
  let ?es = "snd (syncZV ?E zv [])"
  have "serve (EvVol (KUpdate ''openebs'' v (Inr w))) s (settle w s)"
    by (rule serve.Updated [OF _ _ w]) (simp_all add: s v sysAt_def)
  then have "serves (filter acceptedWrite ?es) s (settle w s)"
    using run by (auto simp: Let_def intro: serves.Write serves.Done)
  then have srv: "serves ?es s (settle w s)" by (rule serves_filter)
  have law: "lists_truthfully ?E (data s (NodeID ?E))"
    by (simp add: s sysAt_def stampEnv_def truthEnv_def quietEnv_def lists_truthfully_def)
  have "sysStep s (onNodeData (NodeID ?E) ?es (settle w s))"
    by (rule sysStep.SyncVolume [OF _ _ law prod.collapse [symmetric] srv, of "''v1''"])
      (simp_all add: s sysAt_def zv stampEnv_def truthEnv_def quietEnv_def)
  also have "onNodeData (NodeID ?E) ?es (settle w s) = s'"
    using run by (simp add: s s' sysAt_def onNodeData_def Let_def stampEnv_def truthEnv_def quietEnv_def)
  finally show ?thesis using reachable.Step [OF assms(1) _ s'(2)] by blast
qed

lemma life_served: "reachable {''pool''} (sysAt (Some servedVol) {createdVol, servedVol} [''pool/v1'', ''pool''])"
  by (rule life_sync [where rv = "''I''", OF life_created refl _ served_run, THEN conjunct2])
    (auto simp: life_simps settle_def fresh_def emptyVolume_def tidy_def split: if_splits)

lemma leaving_served:
  "serve (EvVol (KDelete ''openebs'' ''v1'' None)) (sysAt (Some servedVol) {createdVol, servedVol} [''pool/v1'', ''pool''])
     (sysAt (Some leavingVol) {createdVol, servedVol, leavingVol} [''pool/v1'', ''pool''])"
proof -
  let ?s = "sysAt (Some servedVol) {createdVol, servedVol} [''pool/v1'', ''pool'']"
  have "serve (EvVol (KDelete ''openebs'' ''v1'' None)) ?s (settle leavingVol ?s)"
    by (rule serve.Marked [where rv = "''II''" and t = "''now''"])
      (auto simp: life_simps fresh_def emptyVolume_def split: if_splits)
  also have "settle leavingVol ?s = sysAt (Some leavingVol) {createdVol, servedVol, leavingVol} [''pool/v1'', ''pool'']"
    by (auto simp: life_simps settle_def emptyVolume_def)
  finally show ?thesis .
qed

lemma life_leaving:
  "reachable {''pool''} (sysAt (Some leavingVol) {createdVol, servedVol, leavingVol} [''pool/v1'', ''pool''])"
proof (rule reachable.Step [OF life_served])
  from leaving_served show "sysStep (sysAt (Some servedVol) {createdVol, servedVol} [''pool/v1'', ''pool'']) (sysAt (Some leavingVol) {createdVol, servedVol, leavingVol} [''pool/v1'', ''pool''])"
    by (rule sysStep.Request [OF leaving_trace, rotated]) (simp add: sysAt_def)
qed (rule life_tidy; simp add: life_simps emptyVolume_def)

lemma life_gone:
  "sysStep (sysAt (Some leavingVol) {createdVol, servedVol, leavingVol} [''pool/v1'', ''pool''])
     (sysAt None {createdVol, servedVol, leavingVol} [''pool''])"
  by (rule life_sync [where rv = "''III''", OF life_leaving refl _ leaving_run, THEN conjunct1])
    (auto simp: life_simps settle_def fresh_def emptyVolume_def tidy_def split: if_splits)

section \<open>Properties\<close>

text \<open>Ready volumes have their data. However the requests of the controller, the runs of the node agents and the
  deletions and metadata changes of others are interleaved, and whatever stale versions the requests read: the dataset of
  a volume that is ready and not being deleted is on the node that owns it. The pools lie beside each other, names of volumes have no
  slash and no at sign, and a node's \<open>zfs list\<close> tells the truth.\<close>
lemma ready_volumes_have_data:
  assumes "reachable pools s" "flat pools" "objects s n = Some v" "State v = ZFSStatusReady" "DeletionTimestamp v = None"
  shows "present s v"
  using reachable_inv [OF assms(1,2)] assms(3-5) by (simp add: sysInv_def)

text \<open>Data is removed only with its volume: a step that removes the dataset of a stored volume from a node is a run of
  the volume controller on the node that owns it, for a volume that is being deleted and has no finalizers of users left.
  No other request, no other controller of the agent and no other volume's deletion takes the data away.\<close>
lemma data_removed_with_volume:
  assumes "reachable pools s" "flat pools" "sysStep s s'" "objects s n = Some v"
    and "volumePath v \<in> set (data s k)" "volumePath v \<notin> set (data s' k)"
  shows "OwnerNodeID (Spec v) = k \<and> DeletionTimestamp v \<noteq> None \<and> GetUserFinalizers (Finalizers v) = []"
  using dataset_removed [OF _ _ assms(2-6)] reachable_inv [OF assms(1,2)] by blast





section \<open>Limits\<close>

text \<open>
  A request to create a volume that is still being deleted, without the parameter to wait, overwrites the object, its
  node included, and marks it pending: the agent of the new node will release the object, and the dataset
  stays on the old one.
\<close>

lemma deleting_volume_moved:
  "let old = leavingVol\<lparr> Spec := (Spec leavingVol)\<lparr> OwnerNodeID := ''node-2'' \<rparr> \<rparr>;
       moved = leavingVol\<lparr> Spec := (Spec createdVol), State := ZFSStatusPending \<rparr>
   in EvVol (KUpdate ''openebs'' moved (Inr moved)) \<in> set (snd (CreateZFSVolume (holding old []) plainCtl thinReq []))"
proof -
  obtain f where f: "parsePoolParams quietLib ''pool'' [] = Some (Inr f)"
    using poolname_compiles [of "''pool''" quietLib] by auto
  obtain v where v: "requestedVolume plainCtl thinReq (VolParameters thinReq) ''v1'' (FormatInt (getRoundedCapacity 1000000)) = Inr v"
    and "Name v = ''v1''" by (rule thin_requested)
  moreover have "Name leavingVol = ''v1''" "Name createdVol = ''v1''" "State createdVol = ZFSStatusPending"
    "DeletionTimestamp leavingVol = Some ''now''" "State leavingVol = ZFSStatusReady" by (simp_all add: life_simps emptyVolume_def)
  ultimately show ?thesis
    by (simp add: created_requested [OF v] create_simps holding_def f ProvisionVolume_def builder_defs buildFrom_def
      newBuilder_def setObj_def nonEmpty_def specUpd_def Build_def putVol_def vol_Update_def kube_Update_def errOf_def
      checkVolCreation_def quietApi_def quietCluster_def quietEnv_def)
qed

text \<open>
  Provisioning overwrites an object that is there already. The clone functions do not look for one before, so a repeated
  clone request sets a volume that is ready back to pending.
\<close>

lemma provision_overwrites:
  assumes "GetZFSVolume E (Name vol) h = (Some (Inr zv), h1)"
  shows "\<exists>m. ProvisionVolume E vol h = goBind (putVol E (zv\<lparr> Spec := Spec vol, State := State vol \<rparr>)) m h1"
  using assms by (auto simp: ProvisionVolume_def go_simps)

end
