(* ===== verification/FleetSafety.thy ===== *)
theory FleetSafety
  imports Fleet SystemSafety
begin

text \<open>
  What holds of the volumes however late the agents hear of them: ready volumes have their data, and data is removed only
  with its volume. The last section shows that both depend on a name staying on its node.
\<close>

section \<open>Definitions\<close>

text \<open>
  The fleet of the examples, where all happens to volume \<open>v1\<close>: what node-1 has in its cache and has still to hear, what all
  other nodes have still to hear, whether the name is queued on node-1, and what its worker has to write.
\<close>

definition fleetAt :: "system \<Rightarrow> ZFSVolume option list \<Rightarrow> ZFSVolume option list \<Rightarrow> bool \<Rightarrow>
    (ZFSVolume \<times> gerror option option \<times> event list) option \<Rightarrow> fleet" where
  "fleetAt s view elsewhere queued b =
     \<lparr> fStore = s, fCache = (\<lambda>k n. if k = ''node-1'' \<and> n = ''v1'' then hd view else None),
       fNews = (\<lambda>k n. if n = ''v1'' then if k = ''node-1'' then tl view else elsewhere else []),
       fQueue = (\<lambda>k. if k = ''node-1'' \<and> queued then {''v1''} else {}),
       fBusy = (\<lambda>k n. if k = ''node-1'' \<and> n = ''v1'' then b else None) \<rparr>"

text \<open>What the agent of node-1 does for a volume, given the datasets it finds.\<close>

definition workOf :: "string list \<Rightarrow> ZFSVolume \<Rightarrow> ZFSVolume \<times> gerror option option \<times> event list" where
  "workOf base zv = (zv, syncZV (stampEnv base) zv [])"

text \<open>The volume of the examples after its request was given up, and created anew on another node.\<close>

definition movingCtl :: ctl where
  "movingCtl = plainCtl\<lparr> scheduler := (\<lambda>h req w. [''node-2'']) \<rparr>"

definition movingEnv :: env where
  "movingEnv = eagerNode\<lparr> cluster := (cluster eagerNode)\<lparr> volApi := (volApi (cluster eagerNode))\<lparr>
     apiCreate := (\<lambda>h ns x. Inr (stamped x)) \<rparr> \<rparr> \<rparr>"

definition abandonedVol :: ZFSVolume where
  "abandonedVol = createdVol\<lparr> ResourceVersion := ''D'', DeletionTimestamp := Some ''now'' \<rparr>"

definition elsewhereVol :: ZFSVolume where
  "elsewhereVol = createdVol\<lparr> Spec := (Spec createdVol)\<lparr> OwnerNodeID := ''node-2'' \<rparr> \<rparr>"

section \<open>Steps of the examples\<close>

lemma fleetAt_fields [simp]:
  "fStore (fleetAt s view hist q b) = s" "fCache (fleetAt s view hist q b) ''node-1'' ''v1'' = hd view"
  "fNews (fleetAt s view hist q b) ''node-1'' ''v1'' = tl view" "fBusy (fleetAt s view hist q b) ''node-1'' ''v1'' = b"
  "''v1'' \<in> fQueue (fleetAt s view hist q b) ''node-1'' \<longleftrightarrow> q"
  by (simp_all add: fleetAt_def)

lemma fleetAt_publish:
  assumes "view \<noteq> []" "objects s' ''v1'' \<noteq> objects s ''v1''" "\<And>n. n \<noteq> ''v1'' \<Longrightarrow> objects s' n = objects s n"
  shows "publish s' (fleetAt s view hist q b) = fleetAt s' (view @ [objects s' ''v1'']) (hist @ [objects s' ''v1'']) q b"
  using assms by (auto simp: publish_def fleetAt_def fun_eq_iff)

lemma fleetAt_observe:
  assumes "NodeID E = ''node-1''" "view = c # xs @ y # ys"
  shows "fleetStep (fleetAt s view hist q b) (fleetAt s (y # ys) hist (q \<or> queues E c y) b)"
proof -
  let ?f = "fleetAt s view hist q b"
  have "fleetStep ?f (enqueueIf (queues E (fCache ?f (NodeID E) ''v1'') y) (NodeID E) ''v1''
      (?f\<lparr> fCache := (fCache ?f)(NodeID E := (fCache ?f (NodeID E))(''v1'' := y)),
           fNews := (fNews ?f)(NodeID E := (fNews ?f (NodeID E))(''v1'' := ys)) \<rparr>))"
    by (rule fleetStep.Observe [where xs = xs]) (simp add: assms)
  also have "enqueueIf (queues E (fCache ?f (NodeID E) ''v1'') y) (NodeID E) ''v1''
      (?f\<lparr> fCache := (fCache ?f)(NodeID E := (fCache ?f (NodeID E))(''v1'' := y)),
           fNews := (fNews ?f)(NodeID E := (fNews ?f (NodeID E))(''v1'' := ys)) \<rparr>) = fleetAt s (y # ys) hist (q \<or> queues E c y) b"
    by (auto simp: assms enqueueIf_def fleetAt_def fun_eq_iff)
  finally show ?thesis .
qed

lemma stampEnv_node [simp]: "NodeID (stampEnv base) = ''node-1''"
  by (simp add: stampEnv_def truthEnv_def quietEnv_def)

lemma fleetAt_work:
  assumes "data s ''node-1'' = base"
  shows "fleetStep (fleetAt s (Some zv # ys) hist True None)
    (fleetAt (onNodeData ''node-1'' (snd (syncZV (stampEnv base) zv [])) s) (Some zv # ys) hist False (Some (workOf base zv)))"
proof -
  let ?f = "fleetAt s (Some zv # ys) hist True None" and ?E = "stampEnv base"
  let ?es = "snd (syncZV ?E zv [])"
  have "fleetStep ?f (setBusy (NodeID ?E) ''v1'' (Some (zv, syncZV ?E zv [])) (?f\<lparr> fStore := onNodeData (NodeID ?E) ?es (fStore ?f),
      fQueue := (fQueue ?f)(NodeID ?E := fQueue ?f (NodeID ?E) - {''v1''}) \<rparr>))"
    using fleetStep.Work [of "''v1''" ?f ?E zv "fst (syncZV ?E zv [])" ?es]
    by (simp add: assms) (simp add: stampEnv_def truthEnv_def lists_truthfully_def)
  also have "setBusy (NodeID ?E) ''v1'' (Some (zv, syncZV ?E zv [])) (?f\<lparr> fStore := onNodeData (NodeID ?E) ?es (fStore ?f),
      fQueue := (fQueue ?f)(NodeID ?E := fQueue ?f (NodeID ?E) - {''v1''}) \<rparr>) =
    fleetAt (onNodeData ''node-1'' ?es s) (Some zv # ys) hist False (Some (workOf base zv))"
    by (auto simp: setBusy_def fleetAt_def workOf_def fun_eq_iff)
  finally show ?thesis .
qed

lemma posts_filter: "posts (filter acceptedWrite es) f f' \<Longrightarrow> posts es f f'"
proof (induction es arbitrary: f)
  case (Cons e es)
  show ?case
  proof (cases "acceptedWrite e")
    case True
    from Cons.prems [unfolded filter.simps if_P [OF True]] show ?thesis by cases (use True Cons.IH in \<open>auto intro: posts.Write\<close>)
  qed (use Cons in \<open>auto intro: posts.Other\<close>)
qed simp

lemma fleetAt_finish:
  assumes b: "b = (zv, r, es)" "filter acceptedWrite es = [EvVol (KUpdate ns v (Inr w))]"
    and srv: "serve (EvVol (KUpdate ns v (Inr w))) s (settle w s)"
    and new: "view \<noteq> []" "Name w = ''v1''" "objects (settle w s) ''v1'' = y" "objects s ''v1'' \<noteq> y"
  shows "fleetStep (fleetAt s view hist q (Some b)) (fleetAt (settle w s) (view @ [y]) (hist @ [y]) (q \<or> r \<noteq> Some None) None)"
proof -
  let ?f = "fleetAt s view hist q (Some b)"
  let ?g = "fleetAt (settle w s) (view @ [y]) (hist @ [y]) q (Some b)"
  have "objects (settle w s) ''v1'' \<noteq> objects s ''v1''" unfolding new(3) using new(4) by (rule not_sym)
  moreover have "n \<noteq> ''v1'' \<Longrightarrow> objects (settle w s) n = objects s n" for n by (simp only: objects_settle new(2) if_False)
  ultimately have "publish (settle w s) ?f = ?g" unfolding new(3) [symmetric] by (rule fleetAt_publish [OF new(1)])
  then have "posts [EvVol (KUpdate ns v (Inr w))] ?f ?g" using srv by (intro posts.Write [where s = "settle w s"]) (simp_all add: posts.Done)
  then have p: "posts es ?f ?g" unfolding b(2) [symmetric] by (rule posts_filter)
  have "fleetStep ?f (enqueueIf (r \<noteq> Some None) ''node-1'' ''v1'' (setBusy ''node-1'' ''v1'' None ?g))"
    by (rule fleetStep.Finish [OF _ p]) (simp add: b)
  also have "enqueueIf (r \<noteq> Some None) ''node-1'' ''v1'' (setBusy ''node-1'' ''v1'' None ?g) =
      fleetAt (settle w s) (view @ [y]) (hist @ [y]) (q \<or> r \<noteq> Some None) None"
    by (auto simp: enqueueIf_def setBusy_def fleetAt_def fun_eq_iff)
  finally show ?thesis .
qed

text \<open>A run of the agent of the examples, up to its command and up to its write.\<close>

lemma fleetAt_sync:
  assumes at: "fleetRun (fleetAt (sysAt (Some zv) vs base) [Some zv] hist True None)"
    and run: "let es = snd (syncZV (stampEnv base) zv []) in
        filter acceptedWrite es = [EvVol (KUpdate ''openebs'' v (Inr w))] \<and> datasets base es = ds"
    and answer: "fst (syncZV (stampEnv base) zv []) = Some None"
    and w: "w = v\<lparr> ResourceVersion := rv, DeletionTimestamp := DeletionTimestamp zv \<rparr>" "fresh (sysAt (Some zv) vs base) w"
    and v: "Name v = ''v1''" "ResourceVersion v = ResourceVersion zv" "DeletionTimestamp zv = None" "w \<noteq> zv"
  shows "fleetRun (fleetAt (sysAt (Some w) (insert w vs) ds) [Some zv, Some w] (hist @ [Some w]) False None)"
proof -
  let ?es = "snd (syncZV (stampEnv base) zv [])" and ?s = "sysAt (Some zv) vs base"
  let ?u = "sysAt (Some zv) vs ds"
  have u: "onNodeData ''node-1'' ?es ?s = ?u" using run by (simp add: onNodeData_def sysAt_def Let_def)
  have y: "settle w ?u = sysAt (Some w) (insert w vs) ds" using w(1) v by (simp add: settle_def sysAt_def)
  have "serve (EvVol (KUpdate ''openebs'' v (Inr w))) ?u (settle w ?u)"
    by (rule serve.Updated [OF _ _ w(1)]) (use w(2) in \<open>simp_all add: sysAt_def v fresh_def\<close>)
  note srv = this
  have b: "workOf base zv = (zv, fst (syncZV (stampEnv base) zv []), ?es)" by (simp add: workOf_def)
  have es: "filter acceptedWrite ?es = [EvVol (KUpdate ''openebs'' v (Inr w))]" using run by (simp add: Let_def)
  have "Name w = ''v1''" "objects (settle w ?u) ''v1'' = Some w" "objects ?u ''v1'' \<noteq> Some w"
    unfolding y using w(1) v by (simp_all add: sysAt_def)
  from fleetAt_finish [OF b es srv list.distinct(2) this]
  have "fleetStep (fleetAt ?u [Some zv] hist False (Some (workOf base zv)))
      (fleetAt (settle w ?u) ([Some zv] @ [Some w]) (hist @ [Some w]) (False \<or> fst (syncZV (stampEnv base) zv []) \<noteq> Some None) None)" .
  moreover have "fleetStep (fleetAt ?s [Some zv] hist True None) (fleetAt ?u [Some zv] hist False (Some (workOf base zv)))"
    unfolding u [symmetric] by (rule fleetAt_work) (simp add: sysAt_def)
  ultimately show ?thesis using fleetRun.Step [OF fleetRun.Step [OF at]] unfolding y answer by simp
qed

text \<open>A change from outside, and a version that the node hears of, in the examples.\<close>

lemma fleetAt_outside:
  assumes "fleetRun (fleetAt (sysAt c vs ds) view hist q b)" "storeStep (sysAt c vs ds) (sysAt c' vs' ds)" "view \<noteq> []" "c' \<noteq> c"
  shows "fleetRun (fleetAt (sysAt c' vs' ds) (view @ [c']) (hist @ [c']) q b)"
proof -
  have o: "objects (sysAt d us ds) ''v1'' = d" "n \<noteq> ''v1'' \<Longrightarrow> objects (sysAt d us ds) n = None" for d us n
    by (cases d) (simp_all add: sysAt_def)
  have "publish (sysAt c' vs' ds) (fleetAt (sysAt c vs ds) view hist q b) = fleetAt (sysAt c' vs' ds) (view @ [c']) (hist @ [c']) q b"
    using fleetAt_publish [OF assms(3), of "sysAt c' vs' ds" "sysAt c vs ds" hist q b] assms(4) by (simp add: o)
  with fleetRun.Step [OF assms(1) fleetStep.Outside] assms(2) show ?thesis by fastforce
qed

lemma fleetAt_hears:
  "fleetRun (fleetAt s (c # xs @ y # ys) hist q b) \<Longrightarrow> fleetRun (fleetAt s (y # ys) hist (q \<or> queues (stampEnv []) c y) b)"
  by (erule fleetRun.Step) (rule fleetAt_observe; simp)

lemmas queue_simps = queues_def notify_def addZV_def updateZV_def enqueueZV_def enqueueObj_def qAdd_def go_simps Let_def

lemma created_queued [simp]: "queues (stampEnv []) None (Some createdVol)"
  by (simp add: queue_simps) (simp add: createdVol_def)

lemma leaving_queued [simp]: "queues (stampEnv []) c (Some leavingVol)"
  by (cases c) (simp_all add: queue_simps isDeletionCandidate_def, simp_all add: life_simps)

section \<open>The life of a volume, with what the nodes have seen of it\<close>

lemma fleet_started: "fleetRun (fleetAt (sysAt None {} [''pool'']) [None] [] False None)"
  by (rule fleetRun.Start) (auto simp: fleetAt_def sysAt_def fun_eq_iff)

lemma fleet_created: "fleetRun (fleetAt (sysAt (Some createdVol) {createdVol} [''pool'']) [Some createdVol] [Some createdVol] True None)"
proof -
  obtain b where b: "ctlTrace eagerNode plainCtl (CtlCreateVolume thinReq) =
    [EvLock ''v1'', EvClientset [] None, EvVol (KGet ''openebs'' ''v1'' (Inl (True, ''not found''))),
     EvClientset [] None, EvNode (KList ''openebs'' [] (Inr [])), EvGetNode ''node-1'' (Inr []), EvClientset [] None,
     EvVol (KGet ''openebs'' ''v1'' (Inl (True, ''not found''))), EvClientset [] None]
    @ EvVol (KCreate ''openebs'' createdVol (Inr createdVol)) # b" by (rule created_trace)
  from created_served have "storeStep (sysAt None {} [''pool'']) (sysAt (Some createdVol) {createdVol} [''pool''])"
    by (rule storeStep.Request [OF b, rotated]) simp
  from fleetAt_outside [OF fleet_started this]
  have "fleetRun (fleetAt (sysAt (Some createdVol) {createdVol} [''pool'']) (None # [] @ Some createdVol # []) [Some createdVol] False None)" by simp
  from fleetAt_hears [OF this] show ?thesis by simp
qed

lemma created_answer: "fst (syncZV (stampEnv [''pool'']) createdVol []) = Some None"
proof -
  have sync: "syncZV E createdVol = provisionZV E createdVol" for E
    using created_valid by (simp add: syncZV_def isDeletionCandidate_def IsVolumeReady_def createdVol_def emptyVolume_def)
  show ?thesis unfolding sync by (simp add: provisionZV_def UpdateZvolInfo_eq sync_simps life_simps)
qed

lemma fleet_served:
  "fleetRun (fleetAt (sysAt (Some servedVol) {createdVol, servedVol} [''pool/v1'', ''pool''])
     [Some createdVol, Some servedVol] [Some createdVol, Some servedVol] False None)"
proof -
  have w: "servedVol = (markedVol quietEnv createdVol ZFSStatusReady)\<lparr> ResourceVersion := ''I'', DeletionTimestamp := DeletionTimestamp createdVol \<rparr>"
    "fresh (sysAt (Some createdVol) {createdVol} [''pool'']) servedVol" "Name (markedVol quietEnv createdVol ZFSStatusReady) = ''v1''"
    "ResourceVersion (markedVol quietEnv createdVol ZFSStatusReady) = ResourceVersion createdVol" "DeletionTimestamp createdVol = None"
    by (simp_all add: life_simps fresh_def emptyVolume_def)
  have "ResourceVersion servedVol \<noteq> ResourceVersion createdVol" by (simp add: life_simps emptyVolume_def)
  then have "servedVol \<noteq> createdVol" by metis
  from fleetAt_sync [OF fleet_created served_run created_answer w this] show ?thesis by (simp add: insert_commute)
qed

lemma fleet_leaving:
  "fleetRun (fleetAt (sysAt (Some leavingVol) {createdVol, servedVol, leavingVol} [''pool/v1'', ''pool''])
     [Some leavingVol] [Some createdVol, Some servedVol, Some leavingVol] True None)"
proof -
  from leaving_served have "storeStep (sysAt (Some servedVol) {createdVol, servedVol} [''pool/v1'', ''pool''])
      (sysAt (Some leavingVol) {createdVol, servedVol, leavingVol} [''pool/v1'', ''pool''])"
    by (rule storeStep.Request [OF leaving_trace, rotated]) (simp add: sysAt_def)
  moreover have "Some leavingVol \<noteq> Some servedVol"
  proof -
    have "DeletionTimestamp leavingVol \<noteq> DeletionTimestamp servedVol" by (simp add: life_simps emptyVolume_def)
    then show ?thesis by auto
  qed
  ultimately have "fleetRun (fleetAt (sysAt (Some leavingVol) {createdVol, servedVol, leavingVol} [''pool/v1'', ''pool''])
      (Some createdVol # [Some servedVol] @ Some leavingVol # []) [Some createdVol, Some servedVol, Some leavingVol] False None)"
    using fleetAt_outside [OF fleet_served] by simp
  from fleetAt_hears [OF this] show ?thesis by simp
qed

lemma fleet_gone:
  "fleetStep (fleetAt (sysAt (Some leavingVol) {createdVol, servedVol, leavingVol} [''pool/v1'', ''pool''])
       [Some leavingVol] [Some createdVol, Some servedVol, Some leavingVol] True None)
     (fleetAt (sysAt (Some leavingVol) {createdVol, servedVol, leavingVol} [''pool''])
       [Some leavingVol] [Some createdVol, Some servedVol, Some leavingVol] False (Some (workOf [''pool/v1'', ''pool''] leavingVol)))"
proof -
  let ?s = "sysAt (Some leavingVol) {createdVol, servedVol, leavingVol}"
  have "onNodeData ''node-1'' (snd (syncZV (stampEnv [''pool/v1'', ''pool'']) leavingVol [])) (?s [''pool/v1'', ''pool'']) = ?s [''pool'']"
    using leaving_run by (simp add: onNodeData_def sysAt_def Let_def)
  with fleetAt_work [of "?s [''pool/v1'', ''pool'']" "[''pool/v1'', ''pool'']" leavingVol "[]"] show ?thesis by (simp add: sysAt_def)
qed

lemma life_unmoved: "unmoved (sysAt c {createdVol, servedVol} ds)" "unmoved (sysAt c {createdVol, servedVol, leavingVol} ds)"
  by (simp_all add: unmoved_def life_simps)

lemma life_versions: "tidyVersions {''pool''} (sysAt c {createdVol, servedVol} ds)"
  "tidyVersions {''pool''} (sysAt c {createdVol, servedVol, leavingVol} ds)"
  by (simp_all add: tidyVersions_def life_simps)

section \<open>Properties\<close>

text \<open>C1: Ready volumes have their data. However the requests of the controller, the deletions and metadata changes of others,
  the news that reaches the agents, the commands of their workers, their writes and their restarts are interleaved, and
  however old the versions are that the workers act on: the dataset of a volume that is ready and not being deleted is on
  the node that owns it. A name is used on one node only, the pools lie beside each other, names of volumes have no slash
  and no at sign, and a node's \<open>zfs list\<close> tells the truth.\<close>
theorem fleet_ready_have_data:
  assumes "fleetRun f" "unmoved (fStore f)" "tidyVersions pools (fStore f)" "flat pools"
    and "objects (fStore f) n = Some v" "State v = ZFSStatusReady" "DeletionTimestamp v = None"
  shows "present (fStore f) v"
  using inv_parts(1) [OF fleetRun_inv [OF assms(1-4)]] assms(5-7) by (simp add: sysInv_def)

theorem fleet_ready_have_data_witness:
  "let s = sysAt (Some servedVol) {createdVol, servedVol} [''pool/v1'', ''pool''];
       f = fleetAt s [Some createdVol, Some servedVol] [Some createdVol, Some servedVol] False None
   in fleetRun f \<and> fCache f ''node-1'' ''v1'' = Some createdVol \<and> objects (fStore f) ''v1'' = Some servedVol
      \<and> State servedVol = ZFSStatusReady \<and> present (fStore f) servedVol"
proof -
  let ?s = "sysAt (Some servedVol) {createdVol, servedVol} [''pool/v1'', ''pool'']"
  let ?f = "fleetAt ?s [Some createdVol, Some servedVol] [Some createdVol, Some servedVol] False None"
  have v: "objects (fStore ?f) ''v1'' = Some servedVol" by (simp add: sysAt_def)
  have r: "State servedVol = ZFSStatusReady" "DeletionTimestamp servedVol = None" by (simp_all add: life_simps emptyVolume_def)
  have u: "unmoved (fStore ?f)" "tidyVersions {''pool''} (fStore ?f)" using life_unmoved(1) life_versions(1) by simp_all
  from fleet_ready_have_data [OF fleet_served u life_flat v r] fleet_served v r show ?thesis unfolding Let_def by simp
qed



section \<open>Limits\<close>

text \<open>
  The handlers of the events look at the owner of a volume, the worker that takes its name from the queue does not. A request
  on node-1 is given up before its agent came to it: the controller deletes the object and creates it again on node-2. The
  name is still queued on node-1, whose agent creates the dataset there and marks the volume of node-2 as ready.
\<close>

lemma moving_requested: "requestedVolume movingCtl = requestedVolume plainCtl"
  by (intro ext) (simp add: requestedVolume_def movingCtl_def)

lemma moving_trace:
  obtains b where "ctlTrace movingEnv movingCtl (CtlCreateVolume thinReq) =
    [EvLock ''v1'', EvClientset [] None, EvVol (KGet ''openebs'' ''v1'' (Inl (True, ''not found''))),
     EvClientset [] None, EvNode (KList ''openebs'' [] (Inr [])), EvGetNode ''node-2'' (Inr []), EvClientset [] None,
     EvVol (KGet ''openebs'' ''v1'' (Inl (True, ''not found''))), EvClientset [] None]
    @ EvVol (KCreate ''openebs'' elsewhereVol (Inr (stamped elsewhereVol))) # b"
proof -
  obtain f where f: "parsePoolParams quietLib ''pool'' [] = Some (Inr f)"
    using poolname_compiles [of "''pool''" quietLib] by auto
  obtain v where v: "requestedVolume plainCtl thinReq (VolParameters thinReq) ''v1'' (FormatInt (getRoundedCapacity 1000000)) = Inr v"
    and "Name v = ''v1''" by (rule thin_requested)
  moreover have "v\<lparr> Spec := (Spec v)\<lparr> OwnerNodeID := ''node-2'', PoolName := ''pool'' \<rparr>, State := ZFSStatusPending \<rparr> = elsewhereVol"
    unfolding elsewhereVol_def created_requested [OF v, symmetric] by simp
  moreover have "Name elsewhereVol = ''v1''" by (simp add: elsewhereVol_def createdVol_def)
  moreover note moving_requested
  ultimately show ?thesis
    by (intro that) (simp add: CreateVolume_def createFrom_def withVolume_def goLock_def validateVolumeCreateReq_def validateRequest_def
        newControllerCapabilities_def sendEventOrIgnore_def create_simps errOf_def movingEnv_def eagerNode_def f ProvisionVolume_def
        checkVolCreation_def vol_Create_def kube_Create_def readyVol_def builder_defs buildFrom_def newBuilder_def setObj_def
        nonEmpty_def specUpd_def Build_def movingCtl_def)
qed

lemmas moving_simps = life_simps abandonedVol_def elsewhereVol_def emptyVolume_def

lemma fleet_elsewhere:
  "fleetRun (fleetAt (sysAt (Some (stamped elsewhereVol)) {createdVol, stamped elsewhereVol} [''pool''])
     [Some (stamped elsewhereVol)] [Some createdVol, None, Some (stamped elsewhereVol)] True None)"
proof -
  let ?s1 = "sysAt (Some createdVol) {createdVol} [''pool'']" and ?s2 = "sysAt None {createdVol} [''pool'']"
  let ?s3 = "sysAt (Some (stamped elsewhereVol)) {createdVol, stamped elsewhereVol} [''pool'']"
  have "serve (EvVol (KDelete ''openebs'' ''v1'' None)) ?s1 (settle abandonedVol ?s1)"
    by (rule serve.Marked [where ?w0.0 = createdVol and rv = "''D''" and t = "''now''"]) (simp_all add: moving_simps fresh_def)
  also have "settle abandonedVol ?s1 = ?s2" by (auto simp: moving_simps settle_def)
  finally have deleted: "storeStep ?s1 ?s2" by (rule storeStep.Deleted)
  have "serve (EvVol (KCreate ''openebs'' elsewhereVol (Inr (stamped elsewhereVol)))) ?s2 (settle (stamped elsewhereVol) ?s2)"
    by (rule serve.Created [where rv = "''I''"]) (simp_all add: moving_simps fresh_def)
  also have "settle (stamped elsewhereVol) ?s2 = ?s3" by (simp add: moving_simps settle_def insert_commute)
  finally have srv: "serve (EvVol (KCreate ''openebs'' elsewhereVol (Inr (stamped elsewhereVol)))) ?s2 ?s3" .
  obtain b where b: "ctlTrace movingEnv movingCtl (CtlCreateVolume thinReq) =
    [EvLock ''v1'', EvClientset [] None, EvVol (KGet ''openebs'' ''v1'' (Inl (True, ''not found''))),
     EvClientset [] None, EvNode (KList ''openebs'' [] (Inr [])), EvGetNode ''node-2'' (Inr []), EvClientset [] None,
     EvVol (KGet ''openebs'' ''v1'' (Inl (True, ''not found''))), EvClientset [] None]
    @ EvVol (KCreate ''openebs'' elsewhereVol (Inr (stamped elsewhereVol))) # b" by (rule moving_trace)
  from srv have "storeStep ?s2 ?s3" by (rule storeStep.Request [OF b, rotated]) simp
  from fleetAt_outside [OF fleetAt_outside [OF fleet_created deleted] this]
  have "fleetRun (fleetAt ?s3 (Some createdVol # [None] @ Some (stamped elsewhereVol) # [])
      [Some createdVol, None, Some (stamped elsewhereVol)] True None)" by simp
  from fleetAt_hears [OF this] show ?thesis by simp
qed

lemma elsewhere_run:
  "let es = snd (syncZV (stampEnv [''pool'']) (stamped elsewhereVol) []) in
   filter acceptedWrite es = [EvVol (KUpdate ''openebs'' (markedVol quietEnv (stamped elsewhereVol) ZFSStatusReady)
     (Inr (stamped (markedVol quietEnv (stamped elsewhereVol) ZFSStatusReady))))]
   \<and> datasets [''pool''] es = [''pool/v1'', ''pool'']"
  "fst (syncZV (stampEnv [''pool'']) (stamped elsewhereVol) []) = Some None"
proof -
  have "Validate (Spec (stamped elsewhereVol)) = None"
    unfolding Validate_def validateProps_None_iff by (simp add: moving_simps reserved_names HasPrefix_def)
  then have sync: "syncZV E (stamped elsewhereVol) = provisionZV E (stamped elsewhereVol)" for E
    by (simp add: syncZV_def isDeletionCandidate_def IsVolumeReady_def moving_simps)
  show "let es = snd (syncZV (stampEnv [''pool'']) (stamped elsewhereVol) []) in
   filter acceptedWrite es = [EvVol (KUpdate ''openebs'' (markedVol quietEnv (stamped elsewhereVol) ZFSStatusReady)
     (Inr (stamped (markedVol quietEnv (stamped elsewhereVol) ZFSStatusReady))))]
   \<and> datasets [''pool''] es = [''pool/v1'', ''pool'']"
    "fst (syncZV (stampEnv [''pool'']) (stamped elsewhereVol) []) = Some None"
    unfolding sync by (simp_all add: provisionZV_def UpdateZvolInfo_eq sync_simps moving_simps)
qed

lemma queued_name_crosses_nodes:
  "\<exists>f v. fleetRun f \<and> tidyVersions {''pool''} (fStore f) \<and> objects (fStore f) ''v1'' = Some v \<and> State v = ZFSStatusReady
     \<and> DeletionTimestamp v = None \<and> OwnerNodeID (Spec v) = ''node-2'' \<and> \<not> present (fStore f) v"
proof -
  let ?zv = "stamped elsewhereVol"
  let ?v = "markedVol quietEnv ?zv ZFSStatusReady"
  let ?vs = "{createdVol, ?zv}"
  have w: "stamped ?v = ?v\<lparr> ResourceVersion := ''II'', DeletionTimestamp := DeletionTimestamp ?zv \<rparr>" "fresh (sysAt (Some ?zv) ?vs [''pool'']) (stamped ?v)"
    "Name ?v = ''v1''" "ResourceVersion ?v = ResourceVersion ?zv" "DeletionTimestamp ?zv = None"
    by (simp_all add: moving_simps fresh_def)
  have "ResourceVersion (stamped ?v) \<noteq> ResourceVersion ?zv" by (simp add: moving_simps)
  then have "stamped ?v \<noteq> ?zv" by metis
  from fleetAt_sync [OF fleet_elsewhere elsewhere_run w this] obtain f
    where f: "fleetRun f" "fStore f = sysAt (Some (stamped ?v)) (insert (stamped ?v) ?vs) [''pool/v1'', ''pool'']" by (auto simp: fleetAt_def)
  have "objects (fStore f) ''v1'' = Some (stamped ?v)" "tidyVersions {''pool''} (fStore f)" "\<not> present (fStore f) (stamped ?v)"
    "State (stamped ?v) = ZFSStatusReady" "DeletionTimestamp (stamped ?v) = None" "OwnerNodeID (Spec (stamped ?v)) = ''node-2''"
    by (simp_all add: f(2) tidyVersions_def present_def moving_simps)
  with f(1) show ?thesis by blast
qed

end
