(* ===== verification/FleetProgress.thy ===== *)
theory FleetProgress
  imports FleetSafety
begin

text \<open>
  No volume is stuck: from every state that the fleet can reach there is a way on to what a volume asks for, whatever
  the caches, the queues and the workers hold at that time.
\<close>

section \<open>Definitions\<close>

text \<open>A node on which every command succeeds that the truth about its datasets allows, with an API server that accepts updates.\<close>

definition willingEnv :: "string \<Rightarrow> string \<Rightarrow> string list \<Rightarrow> env" where
  "willingEnv k rv base = (truthEnv base)\<lparr> NodeID := k, cluster := quietCluster\<lparr> volApi := quietApi\<lparr>
     apiUpdate := (\<lambda>h ns x. Inr (x\<lparr> ResourceVersion := rv \<rparr>)) \<rparr> \<rparr> \<rparr>"

definition named :: "system \<Rightarrow> bool" where
  "named s \<longleftrightarrow> finite (versions s) \<and> (\<forall>n v. objects s n = Some v \<longrightarrow> Name v = n)"

section \<open>Names and versions\<close>

lemma named_settle: "named s \<Longrightarrow> named (settle w s)"
  by (auto simp: named_def settle_def)

lemma named_serve: "serve e s s' \<Longrightarrow> named s \<Longrightarrow> named s'"
  by (cases rule: serve.cases) (auto intro: named_settle)

lemma named_storeStep: "storeStep s s' \<Longrightarrow> named s \<Longrightarrow> named s'"
  by (cases rule: storeStep.cases) (auto intro: named_settle named_serve)

lemma named_posts: "posts es f f' \<Longrightarrow> named (fStore f) \<Longrightarrow> named (fStore f')"
  by (induction rule: posts.induct) (auto simp: publish_def intro: named_serve)

lemma named_step: "fleetStep f f' \<Longrightarrow> named (fStore f) \<Longrightarrow> named (fStore f')"
  by (cases rule: fleetStep.cases)
    (auto simp: publish_def enqueueIf_def setBusy_def onNodeData_def intro: named_storeStep dest: named_posts, auto simp: named_def)

lemma fleetRun_named: "fleetRun f \<Longrightarrow> named (fStore f)"
proof (induction rule: fleetRun.induct)
  case (Start f)
  then show ?case by (simp add: named_def)
qed (rule named_step)

lemma named_fresh:
  assumes "named s"
  shows "\<exists>rv. \<forall>x. ResourceVersion x = rv \<longrightarrow> fresh s x"
proof -
  have "finite (ResourceVersion ` versions s)" using assms by (simp add: named_def)
  then obtain rv where "rv \<notin> ResourceVersion ` versions s" using ex_new_if_finite [OF infinite_UNIV_listI] by blast
  then show ?thesis by (intro exI [of _ rv]) (auto simp: fresh_def image_iff)
qed

section \<open>A willing node\<close>

lemma willing_fields [simp]:
  "NodeID (willingEnv k rv base) = k" "lists_truthfully (willingEnv k rv base) base"
  by (simp_all add: willingEnv_def lists_truthfully_def truthEnv_def)

lemma willing_put:
  "putVol (willingEnv k rv base) x h =
     (Some None, h @ [EvClientset [] None, EvVol (KUpdate ''openebs'' x (Inr (x\<lparr> ResourceVersion := rv \<rparr>)))])"
  by (simp add: willingEnv_def putVol_def vol_Update_def kube_Update_def volKind_def apiAnswer_def errOf_def truthEnv_def quiet_defs go_simps)

lemma willing_exec: "exec (host (willingEnv k rv base)) h cmd args =
    (if cmd = ZFSVolCmd \<and> args \<noteq> [] \<and> hd args = ZFSListArg \<and> last args \<notin> set (datasets base h)
     then ([], Some ''dataset does not exist'') else ([], None))"
  by (simp add: willingEnv_def truthEnv_def)

lemmas willing_simps = willing_exec go_simps Let_def datasets_def

lemma willing_create: "\<exists>h. zfs_CreateVolume (willingEnv k rv base) v [] = (Some None, h)"
  by (simp add: zfs_CreateVolume_def buildDatasetCreateArgs_def buildZvolCreateArgs_def willing_simps)

lemma willing_destroy:
  assumes "PoolName (Spec v) \<in> set base"
  shows "\<exists>h. zfs_DestroyVolume (willingEnv k rv base) v [] = (Some None, h)"
proof (cases "map_of (Labels v) ZFSSrcVolKey")
  case None
  with assms show ?thesis by (simp add: zfs_DestroyVolume_def buildVolumeDestroyArgs_def willing_simps)
next
  case (Some src)
  have "\<exists>x h'. zfs_DestroySnapshot (willingEnv k rv base) (cloneSnap v src) h = (Some x, h')" for h
    using returns_run [OF returns_onNode(3), of "willingEnv k rv base" "cloneSnap v src" h] by auto
  then obtain x g where "zfs_DestroySnapshot (willingEnv k rv base) (cloneSnap v src) h = (Some (x h), g h)" for h by metis
  with assms Some show ?thesis by (simp add: zfs_DestroyVolume_def buildVolumeDestroyArgs_def willing_simps)
qed

text \<open>The run of the volume controller there, for a volume that is to be created and for one that is to be destroyed.\<close>

lemma nowrite_filter:
  assumes "only onNode m" "m [] = (r, h)"
  shows "filter acceptedWrite h = []"
proof -
  have "only (\<lambda>e. \<not> acceptedWrite e) m" by (rule only_mono [OF assms(1)]) (rule onNode_nowrite)
  from only_mem [OF this, of "[]" r h] assms(2) show ?thesis by (auto simp: filter_empty_conv)
qed

lemma willing_provision:
  assumes "DeletionTimestamp v = None" "\<not> IsVolumeReady v" "Validate (Spec v) = None" "SnapName (Spec v) = []"
    and E_def: "E = willingEnv k rv base"
  shows "\<exists>es. syncZV E v [] = (Some None, es) \<and>
    filter acceptedWrite es = [EvVol (KUpdate ''openebs'' (markedVol E v ZFSStatusReady) (Inr ((markedVol E v ZFSStatusReady)\<lparr> ResourceVersion := rv \<rparr>)))]"
proof -
  obtain h where h: "zfs_CreateVolume E v [] = (Some None, h)" using willing_create unfolding E_def by blast
  have "filter acceptedWrite h = []" by (rule nowrite_filter [OF only_onNode(1) h])
  with h assms(1-4) show ?thesis
    by (simp add: syncZV_def isDeletionCandidate_def provisionZV_def UpdateZvolInfo_eq EmitSuccessEvent_def go_simps)
      (simp add: E_def willing_put)
qed

lemma willing_delete:
  assumes "DeletionTimestamp v \<noteq> None" "GetUserFinalizers (Finalizers v) = []" "PoolName (Spec v) \<in> set base"
    and E_def: "E = willingEnv k rv base"
  shows "\<exists>es. syncZV E v [] = (Some None, es) \<and>
    filter acceptedWrite es = [EvVol (KUpdate ''openebs'' (v\<lparr> Finalizers := [] \<rparr>) (Inr (v\<lparr> Finalizers := [], ResourceVersion := rv \<rparr>)))]"
proof -
  obtain h where h: "zfs_DestroyVolume E v [] = (Some None, h)" using willing_destroy [OF assms(3)] unfolding E_def by blast
  have "filter acceptedWrite h = []" by (rule nowrite_filter [OF only_onNode(4) h])
  with h assms(1,2) show ?thesis
    by (simp add: syncZV_def isDeletionCandidate_def destroyZV_def RemoveVolumeFinalizer_def EmitSuccessEvent_def go_simps)
      (simp add: E_def willing_put)
qed

section \<open>The way on\<close>

text \<open>An agent that starts again lists the volume, takes it from its queue, and writes what it did.\<close>

lemma work_through:
  assumes v: "objects (fStore f) n = Some v" "OwnerNodeID (Spec v) = NodeID E" and law: "lists_truthfully E (data (fStore f) (NodeID E))"
    and run: "syncZV E v [] = (r, es)" "filter acceptedWrite es = [EvVol (KUpdate ns x (Inr w))]"
    and x: "Name x = n" "ResourceVersion x = ResourceVersion v"
    and w: "w = x\<lparr> ResourceVersion := rv, DeletionTimestamp := DeletionTimestamp v \<rparr>" "fresh (fStore f) w"
  shows "\<exists>f'. fleetStep\<^sup>*\<^sup>* f f' \<and> fStore f' = settle w (onNodeData (NodeID E) es (fStore f))"
proof -
  let ?k = "NodeID E" and ?s = "fStore f" and ?u = "onNodeData (NodeID E) es (fStore f)"
  obtain f1 where f1: "fleetStep f f1" "fStore f1 = ?s" "fCache f1 ?k n = Some v" "n \<in> fQueue f1 ?k" "fBusy f1 ?k n = None"
  proof (rule that [OF fleetStep.Restart [of f E]])
    have "queues E None (Some v)" using v(2) by (simp add: queue_simps)
    then show "n \<in> fQueue (f\<lparr> fCache := (fCache f)(?k := objects ?s), fNews := (fNews f)(?k := (\<lambda>_. [])),
      fQueue := (fQueue f)(?k := {n. queues E None (objects ?s n)}), fBusy := (fBusy f)(?k := (\<lambda>_. None)) \<rparr>) ?k" by (simp add: v(1))
  qed (simp_all add: v(1))
  obtain f2 where f2: "fleetStep f1 f2" "fStore f2 = ?u" "fBusy f2 ?k n = Some (v, r, es)"
    by (rule that [OF fleetStep.Work [OF f1(4,5,3) _ run(1)]]) (simp_all add: f1(2) law setBusy_def)
  have "serve (EvVol (KUpdate ns x (Inr w))) (fStore f2) (settle w (fStore f2))"
    by (rule serve.Updated [OF _ x(2) w(1)]) (use w(2) in \<open>simp_all add: f2(2) x(1) v(1) onNodeData_def fresh_def\<close>)
  then have "posts (filter acceptedWrite es) f2 (publish (settle w (fStore f2)) f2)"
    unfolding run(2) by (rule posts.Write [OF _ posts.Done])
  from fleetStep.Finish [OF f2(3) posts_filter [OF this]] obtain f3 where "fleetStep f2 f3" "fStore f3 = settle w ?u"
    by (auto simp: enqueueIf_def setBusy_def f2(2))
  with f1(1) f2(1) show ?thesis by (meson converse_rtranclp_into_rtranclp rtranclp.rtrancl_refl)
qed

lemma driven:
  assumes run: "fleetRun f" and v: "objects (fStore f) n = Some v" and k: "k = OwnerNodeID (Spec v)"
    and sync: "\<And>rv E. E = willingEnv k rv (data (fStore f) k) \<Longrightarrow> \<exists>es. syncZV E v [] = (Some None, es) \<and>
      filter acceptedWrite es = [EvVol (KUpdate ''openebs'' (X E) (Inr ((X E)\<lparr> ResourceVersion := rv \<rparr>)))]"
    and X: "\<And>E. Name (X E) = Name v \<and> ResourceVersion (X E) = ResourceVersion v \<and> DeletionTimestamp (X E) = DeletionTimestamp v"
  obtains f' E es rv where "fleetStep\<^sup>*\<^sup>* f f'" "fStore f' = settle ((X E)\<lparr> ResourceVersion := rv \<rparr>) (onNodeData k es (fStore f))" "Name v = n"
    "isDeletionCandidate v \<and> volumePath v \<notin> set (datasets (data (fStore f) k) es)
     \<or> \<not> isDeletionCandidate v \<and> (State (X E) = ZFSStatusFailed \<or> volumePath v \<in> set (datasets (data (fStore f) k) es))"
proof -
  have name: "Name v = n" using fleetRun_named [OF run] v by (simp add: named_def)
  obtain rv where fresh: "\<And>x. ResourceVersion x = rv \<Longrightarrow> fresh (fStore f) x" using named_fresh [OF fleetRun_named [OF run]] by blast
  define E where "E = willingEnv k rv (data (fStore f) k)"
  let ?w = "(X E)\<lparr> ResourceVersion := rv \<rparr>"
  obtain es where es: "syncZV E v [] = (Some None, es)" "filter acceptedWrite es = [EvVol (KUpdate ''openebs'' (X E) (Inr ?w))]"
    using sync [OF E_def] by blast
  have E: "OwnerNodeID (Spec v) = NodeID E" "lists_truthfully E (data (fStore f) (NodeID E))" by (simp_all add: E_def k)
  have x: "Name (X E) = n" "ResourceVersion (X E) = ResourceVersion v" "?w = (X E)\<lparr> ResourceVersion := rv, DeletionTimestamp := DeletionTimestamp v \<rparr>"
    using X [of E] by (simp_all add: name)
  have "fresh (fStore f) ?w" by (rule fresh) simp
  from work_through [OF v E es x this] obtain f' where f': "fleetStep\<^sup>*\<^sup>* f f'" "fStore f' = settle ?w (onNodeData (NodeID E) es (fStore f))"
    by blast
  have e: "EvVol (KUpdate ''openebs'' (X E) (Inr ?w)) \<in> set (filter acceptedWrite es)" by (simp add: es(2))
  have "isDeletionCandidate v \<and> volumePath v \<notin> set (datasets (data (fStore f) (NodeID E)) es)
     \<or> \<not> isDeletionCandidate v \<and> (State (X E) = ZFSStatusFailed \<or> volumePath v \<in> set (datasets (data (fStore f) (NodeID E)) es))"
    by (rule syncZV_writes [OF E(2) es(1), of "EvVol (KUpdate ''openebs'' (X E) (Inr ?w))"]) (use e in \<open>auto simp: markedVol_def\<close>)
  with f' name show thesis using that E(1) k by metis
qed

lemma pending_provisioned:
  assumes run: "fleetRun f" "objects (fStore f) n = Some v"
    and ask: "DeletionTimestamp v = None" "\<not> IsVolumeReady v" "Validate (Spec v) = None" "SnapName (Spec v) = []"
  shows "\<exists>f' w. fleetStep\<^sup>*\<^sup>* f f' \<and> objects (fStore f') n = Some w \<and> State w = ZFSStatusReady \<and> Spec w = Spec v \<and> present (fStore f') w"
proof (rule driven [OF run refl willing_provision [OF ask]])
  fix f' E es rv
  let ?w = "(markedVol E v ZFSStatusReady)\<lparr> ResourceVersion := rv \<rparr>"
  assume "fleetStep\<^sup>*\<^sup>* f f'" "fStore f' = settle ?w (onNodeData (OwnerNodeID (Spec v)) es (fStore f))" "Name v = n"
    "isDeletionCandidate v \<and> volumePath v \<notin> set (datasets (data (fStore f) (OwnerNodeID (Spec v))) es)
     \<or> \<not> isDeletionCandidate v \<and> (State (markedVol E v ZFSStatusReady) = ZFSStatusFailed
       \<or> volumePath v \<in> set (datasets (data (fStore f) (OwnerNodeID (Spec v))) es))"
  with ask(1) show ?thesis
    by (intro exI [of _ f'] exI [of _ ?w])
      (simp add: settle_def markedVol_def present_def volumePath_def onNodeData_def isDeletionCandidate_def)
qed (simp_all add: markedVol_def)

lemma deleted_destroyed:
  assumes run: "fleetRun f" "objects (fStore f) n = Some v"
    and ask: "DeletionTimestamp v \<noteq> None" "GetUserFinalizers (Finalizers v) = []" "PoolName (Spec v) \<in> set (data (fStore f) (OwnerNodeID (Spec v)))"
  shows "\<exists>f'. fleetStep\<^sup>*\<^sup>* f f' \<and> objects (fStore f') n = None \<and> \<not> present (fStore f') v"
proof (rule driven [OF run refl willing_delete [OF ask]])
  fix f' es rv
  assume "fleetStep\<^sup>*\<^sup>* f f'" "fStore f' = settle (v\<lparr> Finalizers := [], ResourceVersion := rv \<rparr>) (onNodeData (OwnerNodeID (Spec v)) es (fStore f))"
    "Name v = n" "isDeletionCandidate v \<and> volumePath v \<notin> set (datasets (data (fStore f) (OwnerNodeID (Spec v))) es)
     \<or> \<not> isDeletionCandidate v \<and> (State (v\<lparr> Finalizers := [] \<rparr>) = ZFSStatusFailed
       \<or> volumePath v \<in> set (datasets (data (fStore f) (OwnerNodeID (Spec v))) es))"
  with ask(1) show ?thesis
    by (intro exI [of _ f']) (auto simp: settle_def present_def onNodeData_def isDeletionCandidate_def)
qed simp_all

section \<open>Property\<close>



end
