(* ===== verification/ObjectLists.thy ===== *)
theory ObjectLists
  imports Builders
begin

text \<open>
  The wrappers and filtered lists of \<open>pkg/builder/{volbuilder,snapbuilder,bkpbuilder,restorebuilder}\<close>: an object behind a
  pointer that may be nil, predicates on it and the list builder that applies them. A predicate that reads the labels of a nil
  object panics, which is the value \<^term>\<open>None\<close>. The code ranges over a map in any order; the order is the order of the
  association list that the model is given, and the lemmas show when it does not matter.
\<close>

section \<open>Wrapped objects and predicates\<close>

record 'o wrapped =
  Object :: "'o option"

type_synonym 'o predicate = "'o wrapped \<Rightarrow> bool option"

definition From :: "'o option \<Rightarrow> 'o wrapped" where
  "From obj = \<lparr> Object = obj \<rparr>"

definition GetAPIObject :: "'o wrapped \<Rightarrow> 'o option" where
  "GetAPIObject w = Object w"

definition wrapped_IsNil :: "'o wrapped \<Rightarrow> bool" where
  "wrapped_IsNil w \<longleftrightarrow> Object w = None"

definition IsNil :: "'o predicate" where
  "IsNil = (\<lambda>w. Some (wrapped_IsNil w))"

definition wrapped_HasLabel :: "('o \<Rightarrow> smap) \<Rightarrow> 'o wrapped \<Rightarrow> string \<Rightarrow> string \<Rightarrow> bool option" where
  "wrapped_HasLabel labels w key val =
     (case Object w of
        None \<Rightarrow> None
      | Some obj \<Rightarrow> Some (case map_of (labels obj) key of Some v \<Rightarrow> v = val | None \<Rightarrow> False))"

definition hasLabelPred :: "('o \<Rightarrow> smap) \<Rightarrow> string \<Rightarrow> string \<Rightarrow> 'o predicate" where
  "hasLabelPred labels key val = (\<lambda>w. wrapped_HasLabel labels w key val)"

text \<open>A loop that stops with false at the first member that fails.\<close>

fun allLoop :: "('a \<Rightarrow> bool option) \<Rightarrow> 'a list \<Rightarrow> bool option" where
  "allLoop p [] = Some True"
| "allLoop p (x # xs) = (case p x of None \<Rightarrow> None | Some False \<Rightarrow> Some False | Some True \<Rightarrow> allLoop p xs)"

definition predicateList_all :: "'o predicate list \<Rightarrow> 'o wrapped \<Rightarrow> bool option" where
  "predicateList_all l w = allLoop (\<lambda>pred. pred w) l"

definition hasLabelsPred :: "('o \<Rightarrow> smap) \<Rightarrow> smap \<Rightarrow> 'o predicate" where
  "hasLabelsPred labels keyValuePair = (\<lambda>w. allLoop (\<lambda>(key, val). wrapped_HasLabel labels w key val) keyValuePair)"

section \<open>List builders\<close>

record 'o listBuilder =
  lbItems :: "'o list"
  lbFilters :: "'o predicate list"

definition NewListBuilder :: "'o listBuilder" where
  "NewListBuilder = \<lparr> lbItems = [], lbFilters = [] \<rparr>"

definition listBuilderFrom :: "'o list \<Rightarrow> 'o listBuilder" where
  "listBuilderFrom vols =
     (let b = NewListBuilder in if length vols = 0 then b else b\<lparr> lbItems := lbItems b @ vols \<rparr>)"

definition lbWithFilter :: "'o predicate list \<Rightarrow> 'o listBuilder \<Rightarrow> 'o listBuilder" where
  "lbWithFilter pred b = b\<lparr> lbFilters := lbFilters b @ pred \<rparr>"

fun filterLoop :: "'o predicate list \<Rightarrow> 'o list \<Rightarrow> 'o list \<Rightarrow> 'o list option" where
  "filterLoop fs [] filtered = Some filtered"
| "filterLoop fs (vol # vols) filtered =
     (case predicateList_all fs (From (Some vol)) of
        None \<Rightarrow> None
      | Some ok \<Rightarrow> filterLoop fs vols (if ok then filtered @ [vol] else filtered))"

definition lbList :: "'o listBuilder \<Rightarrow> 'o list option" where
  "lbList b = (if length (lbFilters b) = 0 then Some (lbItems b) else filterLoop (lbFilters b) (lbItems b) [])"

definition list_Len :: "'o list \<Rightarrow> nat" where
  "list_Len l = length l"

section \<open>The packages\<close>

text \<open>The definitions above are \<open>volbuilder\<close>; the other three packages have the same functions on their own objects.\<close>

definition snap_HasLabels :: "smap \<Rightarrow> ZFSSnapshot predicate" where
  "snap_HasLabels = hasLabelsPred Labels"

definition snap_built :: "ZFSSnapshot list \<Rightarrow> ZFSSnapshot predicate list \<Rightarrow> ZFSSnapshot list option" where
  "snap_built vols preds = lbList (lbWithFilter preds (listBuilderFrom vols))"

definition bkp_HasLabels :: "smap \<Rightarrow> ZFSBackup predicate" where
  "bkp_HasLabels = hasLabelsPred Labels"

definition bkp_built :: "ZFSBackup list \<Rightarrow> ZFSBackup predicate list \<Rightarrow> ZFSBackup list option" where
  "bkp_built vols preds = lbList (lbWithFilter preds (listBuilderFrom vols))"

definition rstr_HasLabels :: "smap \<Rightarrow> ZFSRestore predicate" where
  "rstr_HasLabels = hasLabelsPred Labels"

definition rstr_built :: "ZFSRestore list \<Rightarrow> ZFSRestore predicate list \<Rightarrow> ZFSRestore list option" where
  "rstr_built vols preds = lbList (lbWithFilter preds (listBuilderFrom vols))"

section \<open>Filtering\<close>

lemma allLoop_total: "(\<And>x. x \<in> set xs \<Longrightarrow> p x = Some (q x)) \<Longrightarrow> allLoop p xs = Some (list_all q xs)"
  by (induction xs) (auto split: bool.split)

text \<open>On an object that is there, predicates on labels do not panic, and the order of the map does not matter.\<close>

lemma hasLabelsPred_present:
  "hasLabelsPred labels kvs (From (Some obj)) = Some (\<forall>(k, v)\<in>set kvs. map_of (labels obj) k = Some v)"
  unfolding hasLabelsPred_def
  by (subst allLoop_total [where q = "\<lambda>(k, v). map_of (labels obj) k = Some v"])
    (auto simp: wrapped_HasLabel_def From_def list_all_iff split: option.split)

lemma hasLabelsPred_nil: "hasLabelsPred labels kvs (From None) = (if kvs = [] then Some True else None)"
  by (cases kvs) (auto simp: hasLabelsPred_def wrapped_HasLabel_def From_def)

lemma filterLoop_total:
  "(\<And>x. x \<in> set vols \<Longrightarrow> predicateList_all fs (From (Some x)) = Some (q x)) \<Longrightarrow> filterLoop fs vols acc = Some (acc @ filter q vols)"
  by (induction vols arbitrary: acc) auto

text \<open>
  A built list is exactly the objects that satisfy every filter, in their order, and does not depend on the order or the
  number of the calls that gave the filters.
\<close>

lemma lbList_filters:
  assumes "\<And>f x. f \<in> set fs \<Longrightarrow> x \<in> set vols \<Longrightarrow> f (From (Some x)) = Some (q f x)"
  shows "lbList (lbWithFilter fs (listBuilderFrom vols)) = Some (filter (\<lambda>x. \<forall>f\<in>set fs. q f x) vols)"
proof -
  have "predicateList_all fs (From (Some x)) = Some (\<forall>f\<in>set fs. q f x)" if "x \<in> set vols" for x
    unfolding predicateList_all_def by (subst allLoop_total [where q = "\<lambda>f. q f x"]) (use assms that in \<open>auto simp: list_all_iff\<close>)
  then have "filterLoop fs vols [] = Some (filter (\<lambda>x. \<forall>f\<in>set fs. q f x) vols)"
    using filterLoop_total [of vols fs "\<lambda>x. \<forall>f\<in>set fs. q f x" "[]"] by simp
  then show ?thesis
    by (auto simp: lbList_def lbWithFilter_def listBuilderFrom_def NewListBuilder_def Let_def)
qed

lemma lbWithFilter_twice: "lbWithFilter gs (lbWithFilter fs b) = lbWithFilter (fs @ gs) b"
  by (simp add: lbWithFilter_def)

lemma snap_built_labels:
  "snap_built vols [snap_HasLabels kvs] = Some (filter (\<lambda>s. \<forall>(k, v)\<in>set kvs. map_of (Labels s) k = Some v) vols)"
  unfolding snap_built_def snap_HasLabels_def
  by (subst lbList_filters [where q = "\<lambda>_ s. \<forall>(k, v)\<in>set kvs. map_of (Labels s) k = Some v"]) (auto simp: hasLabelsPred_present)

end
