(* ===== verification/ClientBuild.thy ===== *)
theory ClientBuild
  imports Kubeclient
begin

text \<open>
  How the API clients of \<open>pkg/builder/*/kubernetes.go\<close> are put together: the struct with its function fields,
  the build options, the defaults and the methods that call through the fields. A client that is built from the options
  of its package refines the client of \<open>Kubeclient\<close>, which the rest of the development uses, in every sequence of calls.

  The clientset of the generated code is known by the kubeconfig it was made from. A function field may be nil, and a
  call of a nil function and a request through a nil clientset panic.
\<close>

section \<open>The client with its function fields\<close>

datatype Clientset = Clientset string

record 'o FullClient =
  fClientset :: "Clientset option"
  fPath :: string
  fNamespace :: string
  fGetClientset :: "(gerror + Clientset option) go option"
  fGetClientsetForPath :: "(string \<Rightarrow> (gerror + Clientset option) go) option"
  fGet :: "(Clientset option \<Rightarrow> string \<Rightarrow> string \<Rightarrow> (gerror + 'o) go) option"
  fList :: "(Clientset option \<Rightarrow> string \<Rightarrow> string \<Rightarrow> (gerror + 'o list) go) option"
  fDel :: "(Clientset option \<Rightarrow> string \<Rightarrow> string \<Rightarrow> gerror option go) option"
  fCreate :: "(Clientset option \<Rightarrow> 'o \<Rightarrow> string \<Rightarrow> (gerror + 'o) go) option"
  fUpdate :: "(Clientset option \<Rightarrow> 'o \<Rightarrow> string \<Rightarrow> (gerror + 'o) go) option"

definition emptyClient :: "'o FullClient" where
  "emptyClient = \<lparr> fClientset = None, fPath = [], fNamespace = [], fGetClientset = None, fGetClientsetForPath = None,
     fGet = None, fList = None, fDel = None, fCreate = None, fUpdate = None \<rparr>"

definition call :: "'f option \<Rightarrow> ('f \<Rightarrow> 'r go) \<Rightarrow> 'r go" where
  "call f body = (case f of None \<Rightarrow> goPanic ''nil pointer dereference'' | Some g \<Rightarrow> body g)"

section \<open>Default functions\<close>

definition clientsetOf :: "env \<Rightarrow> string \<Rightarrow> (gerror + Clientset option) go" where
  "clientsetOf E path =
     goBind (goCall (\<lambda>h. clientsetFor (cluster E) h path) (EvClientset path)) (\<lambda>r. case r of
       Some t \<Rightarrow> goRet (Inl (EApi False t))
     | None \<Rightarrow> goRet (Inr (Some (Clientset path))))"

definition defaultGetClientset :: "env \<Rightarrow> (gerror + Clientset option) go" where
  "defaultGetClientset E = clientsetOf E []"

definition defaultGetClientsetForPath :: "env \<Rightarrow> string \<Rightarrow> (gerror + Clientset option) go" where
  "defaultGetClientsetForPath E path = clientsetOf E path"

definition defaultGet :: "env \<Rightarrow> 'o kind \<Rightarrow> Clientset option \<Rightarrow> string \<Rightarrow> string \<Rightarrow> (gerror + 'o) go" where
  "defaultGet E K cli name ns = call cli (\<lambda>_.
     goBind (goCall (\<lambda>h. apiGet (kApi K (cluster E)) h ns name) (\<lambda>r. kEv K (KGet ns name r))) (\<lambda>r. goRet (apiAnswer r)))"

definition defaultList :: "env \<Rightarrow> 'o kind \<Rightarrow> Clientset option \<Rightarrow> string \<Rightarrow> string \<Rightarrow> (gerror + 'o list) go" where
  "defaultList E K cli ns selector = call cli (\<lambda>_.
     goBind (goCall (\<lambda>h. apiList (kApi K (cluster E)) h ns selector) (\<lambda>r. kEv K (KList ns selector r)))
       (\<lambda>r. goRet (apiAnswer r)))"

definition defaultDel :: "env \<Rightarrow> 'o kind \<Rightarrow> Clientset option \<Rightarrow> string \<Rightarrow> string \<Rightarrow> gerror option go" where
  "defaultDel E K cli name ns = call cli (\<lambda>_.
     goBind (goCall (\<lambda>h. apiDelete (kApi K (cluster E)) h ns name) (\<lambda>r. kEv K (KDelete ns name r)))
       (\<lambda>r. goRet (map_option extErr r)))"

definition defaultCreate :: "env \<Rightarrow> 'o kind \<Rightarrow> Clientset option \<Rightarrow> 'o \<Rightarrow> string \<Rightarrow> (gerror + 'o) go" where
  "defaultCreate E K cli x ns = call cli (\<lambda>_.
     goBind (goCall (\<lambda>h. apiCreate (kApi K (cluster E)) h ns x) (\<lambda>r. kEv K (KCreate ns x r))) (\<lambda>r. goRet (apiAnswer r)))"

definition defaultUpdate :: "env \<Rightarrow> 'o kind \<Rightarrow> Clientset option \<Rightarrow> 'o \<Rightarrow> string \<Rightarrow> (gerror + 'o) go" where
  "defaultUpdate E K cli x ns = call cli (\<lambda>_.
     goBind (goCall (\<lambda>h. apiUpdate (kApi K (cluster E)) h ns x) (\<lambda>r. kEv K (KUpdate ns x r))) (\<lambda>r. goRet (apiAnswer r)))"

definition orDefault :: "'f \<Rightarrow> 'f option \<Rightarrow> 'f option" where
  "orDefault d f = (case f of None \<Rightarrow> Some d | Some g \<Rightarrow> Some g)"

definition withDefaults :: "env \<Rightarrow> 'o kind \<Rightarrow> 'o FullClient \<Rightarrow> 'o FullClient" where
  "withDefaults E K k = k\<lparr>
     fGetClientset := orDefault (defaultGetClientset E) (fGetClientset k),
     fGetClientsetForPath := orDefault (defaultGetClientsetForPath E) (fGetClientsetForPath k),
     fGet := orDefault (defaultGet E K) (fGet k), fList := orDefault (defaultList E K) (fList k),
     fDel := orDefault (defaultDel E K) (fDel k), fCreate := orDefault (defaultCreate E K) (fCreate k),
     fUpdate := orDefault (defaultUpdate E K) (fUpdate k) \<rparr>"

section \<open>Build options\<close>

definition WithClientSet :: "Clientset option \<Rightarrow> 'o FullClient \<Rightarrow> 'o FullClient" where
  "WithClientSet c k = k\<lparr> fClientset := c \<rparr>"

definition optNamespace :: "string \<Rightarrow> 'o FullClient \<Rightarrow> 'o FullClient" where
  "optNamespace ns k = k\<lparr> fNamespace := ns \<rparr>"

definition full_WithNamespace :: "string \<Rightarrow> 'o FullClient \<Rightarrow> 'o FullClient" where
  "full_WithNamespace ns k = k\<lparr> fNamespace := ns \<rparr>"

definition WithKubeConfigPath :: "string \<Rightarrow> 'o FullClient \<Rightarrow> 'o FullClient" where
  "WithKubeConfigPath path k = k\<lparr> fPath := path \<rparr>"

datatype buildOption = OptClientSet "Clientset option" | OptNamespace string | OptKubeConfigPath string

fun setOption :: "buildOption \<Rightarrow> 'o FullClient \<Rightarrow> 'o FullClient" where
  "setOption (OptClientSet c) k = WithClientSet c k"
| "setOption (OptNamespace ns) k = optNamespace ns k"
| "setOption (OptKubeConfigPath path) k = WithKubeConfigPath path k"

definition buildClient :: "env \<Rightarrow> 'o kind \<Rightarrow> ('o FullClient \<Rightarrow> 'o FullClient) list \<Rightarrow> 'o FullClient" where
  "buildClient E K opts = withDefaults E K (fold (\<lambda>opt k. opt k) opts emptyClient)"

section \<open>Methods\<close>

definition getClientsetForPathOrDirect :: "'o FullClient \<Rightarrow> (gerror + Clientset option) go" where
  "getClientsetForPathOrDirect k =
     (if fPath k \<noteq> [] then call (fGetClientsetForPath k) (\<lambda>f. f (fPath k)) else call (fGetClientset k) (\<lambda>f. f))"

definition full_getClientOrCached :: "'o FullClient \<Rightarrow> ((gerror + Clientset option) \<times> 'o FullClient) go" where
  "full_getClientOrCached k =
     (if fClientset k \<noteq> None then goRet (Inr (fClientset k), k)
      else goBind (getClientsetForPathOrDirect k) (\<lambda>r. case r of
        Inl e \<Rightarrow> goRet (Inl (EWrap ''failed to get clientset'' e), k)
      | Inr c \<Rightarrow> goRet (Inr c, k\<lparr> fClientset := c \<rparr>)))"

definition full_Create :: "'a ObjectMeta_scheme kind \<Rightarrow> 'a ObjectMeta_scheme option \<Rightarrow> 'a ObjectMeta_scheme FullClient
    \<Rightarrow> ((gerror + 'a ObjectMeta_scheme) \<times> 'a ObjectMeta_scheme FullClient) go" where
  "full_Create K obj k =
     (case obj of
        None \<Rightarrow> goRet (Inl (EText (mCreateNil K)), k)
      | Some x \<Rightarrow> goBind (full_getClientOrCached k) (\<lambda>(cs, k). case cs of
          Inl e \<Rightarrow> goRet (Inl (EWrap (inNamespace (mCreate K) (Name x) (fNamespace k)) e), k)
        | Inr c \<Rightarrow> goBind (call (fCreate k) (\<lambda>f. f c x (fNamespace k))) (\<lambda>r. goRet (r, k))))"

definition full_Get :: "'a ObjectMeta_scheme kind \<Rightarrow> string \<Rightarrow> 'a ObjectMeta_scheme FullClient
    \<Rightarrow> ((gerror + 'a ObjectMeta_scheme) \<times> 'a ObjectMeta_scheme FullClient) go" where
  "full_Get K name k =
     (if name = [] then goRet (Inl (EText (mGetMissing K)), k)
      else goBind (full_getClientOrCached k) (\<lambda>(cli, k). case cli of
        Inl e \<Rightarrow> goRet (Inl (EWrap (inNamespace (mGet K) name (fNamespace k)) e), k)
      | Inr c \<Rightarrow> goBind (call (fGet k) (\<lambda>f. f c name (fNamespace k))) (\<lambda>r. goRet (r, k))))"

text \<open>\<open>marshal\<close> stands for \<open>json.Marshal\<close>, \<open>missing\<close> for the message of the kind.\<close>

definition full_GetRaw :: "('a ObjectMeta_scheme \<Rightarrow> gerror + string) \<Rightarrow> string \<Rightarrow> 'a ObjectMeta_scheme kind \<Rightarrow> string
    \<Rightarrow> 'a ObjectMeta_scheme FullClient \<Rightarrow> ((gerror + string) \<times> 'a ObjectMeta_scheme FullClient) go" where
  "full_GetRaw marshal missing K name k =
     (if name = [] then goRet (Inl (EText missing), k)
      else goBind (full_Get K name k) (\<lambda>(r, k). case r of
        Inl e \<Rightarrow> goRet (Inl (EWrap (inNamespace (mGet K) name (fNamespace k)) e), k)
      | Inr x \<Rightarrow> goRet (marshal x, k)))"

definition full_List :: "'o kind \<Rightarrow> string \<Rightarrow> 'o FullClient \<Rightarrow> ((gerror + 'o list) \<times> 'o FullClient) go" where
  "full_List K selector k =
     goBind (full_getClientOrCached k) (\<lambda>(cli, k). case cli of
       Inl e \<Rightarrow> goRet (Inl (EWrap (mList K @ '' in namespace {'' @ fNamespace k @ ''}'') e), k)
     | Inr c \<Rightarrow> goBind (call (fList k) (\<lambda>f. f c (fNamespace k) selector)) (\<lambda>r. goRet (r, k)))"

definition full_Delete :: "'o kind \<Rightarrow> string \<Rightarrow> 'o FullClient \<Rightarrow> (gerror option \<times> 'o FullClient) go" where
  "full_Delete K name k =
     (if name = [] then goRet (Some (EText (mDelMissing K)), k)
      else goBind (full_getClientOrCached k) (\<lambda>(cli, k). case cli of
        Inl e \<Rightarrow> goRet (Some (EWrap (inNamespace (mDel K) name (fNamespace k)) e), k)
      | Inr c \<Rightarrow> goBind (call (fDel k) (\<lambda>f. f c name (fNamespace k))) (\<lambda>r. goRet (r, k))))"

definition full_Update :: "'a ObjectMeta_scheme kind \<Rightarrow> 'a ObjectMeta_scheme option \<Rightarrow> 'a ObjectMeta_scheme FullClient
    \<Rightarrow> ((gerror + 'a ObjectMeta_scheme) \<times> 'a ObjectMeta_scheme FullClient) go" where
  "full_Update K obj k =
     (case obj of
        None \<Rightarrow> goRet (Inl (EText (mUpdateNil K)), k)
      | Some x \<Rightarrow> goBind (full_getClientOrCached k) (\<lambda>(cs, k). case cs of
          Inl e \<Rightarrow> goRet (Inl (EWrap (inNamespace (mUpdate K) (Name x) (Namespace x)) e), k)
        | Inr c \<Rightarrow> goBind (call (fUpdate k) (\<lambda>f. f c x (fNamespace k))) (\<lambda>r. goRet (r, k))))"

section \<open>The five packages\<close>

type_synonym vol_Kubeclient = "ZFSVolume FullClient"

definition vol_withDefaults :: "env \<Rightarrow> vol_Kubeclient \<Rightarrow> vol_Kubeclient" where
  "vol_withDefaults E k = withDefaults E volKind k"

definition vol_NewKubeclient :: "env \<Rightarrow> buildOption list \<Rightarrow> vol_Kubeclient" where
  "vol_NewKubeclient E opts = buildClient E volKind (map setOption opts)"

definition vol_getClientOrCached :: "vol_Kubeclient \<Rightarrow> ((gerror + Clientset option) \<times> vol_Kubeclient) go" where
  "vol_getClientOrCached k = full_getClientOrCached k"

definition vol_GetRaw :: "(ZFSVolume \<Rightarrow> gerror + string) \<Rightarrow> string \<Rightarrow> vol_Kubeclient \<Rightarrow> ((gerror + string) \<times> vol_Kubeclient) go" where
  "vol_GetRaw marshal name k = full_GetRaw marshal ''failed to get raw zfs volume: missing vol name'' volKind name k"

type_synonym snap_Kubeclient = "ZFSSnapshot FullClient"

definition snap_withDefaults :: "env \<Rightarrow> snap_Kubeclient \<Rightarrow> snap_Kubeclient" where
  "snap_withDefaults E k = withDefaults E snapKind k"

definition snap_NewKubeclient :: "env \<Rightarrow> buildOption list \<Rightarrow> snap_Kubeclient" where
  "snap_NewKubeclient E opts = buildClient E snapKind (map setOption opts)"

definition snap_getClientOrCached :: "snap_Kubeclient \<Rightarrow> ((gerror + Clientset option) \<times> snap_Kubeclient) go" where
  "snap_getClientOrCached k = full_getClientOrCached k"

definition snap_GetRaw :: "(ZFSSnapshot \<Rightarrow> gerror + string) \<Rightarrow> string \<Rightarrow> snap_Kubeclient \<Rightarrow> ((gerror + string) \<times> snap_Kubeclient) go" where
  "snap_GetRaw marshal name k = full_GetRaw marshal ''failed to get raw zfssnap volume: missing vol name'' snapKind name k"

type_synonym bkp_Kubeclient = "ZFSBackup FullClient"

definition bkp_withDefaults :: "env \<Rightarrow> bkp_Kubeclient \<Rightarrow> bkp_Kubeclient" where
  "bkp_withDefaults E k = withDefaults E bkpKind k"

definition bkp_NewKubeclient :: "env \<Rightarrow> buildOption list \<Rightarrow> bkp_Kubeclient" where
  "bkp_NewKubeclient E opts = buildClient E bkpKind (map setOption opts)"

definition bkp_getClientOrCached :: "bkp_Kubeclient \<Rightarrow> ((gerror + Clientset option) \<times> bkp_Kubeclient) go" where
  "bkp_getClientOrCached k = full_getClientOrCached k"

definition bkp_GetRaw :: "(ZFSBackup \<Rightarrow> gerror + string) \<Rightarrow> string \<Rightarrow> bkp_Kubeclient \<Rightarrow> ((gerror + string) \<times> bkp_Kubeclient) go" where
  "bkp_GetRaw marshal name k = full_GetRaw marshal ''failed to get raw zfsbkp bkpume: missing bkp name'' bkpKind name k"

type_synonym rstr_Kubeclient = "ZFSRestore FullClient"

definition rstr_withDefaults :: "env \<Rightarrow> rstr_Kubeclient \<Rightarrow> rstr_Kubeclient" where
  "rstr_withDefaults E k = withDefaults E rstrKind k"

definition rstr_NewKubeclient :: "env \<Rightarrow> buildOption list \<Rightarrow> rstr_Kubeclient" where
  "rstr_NewKubeclient E opts = buildClient E rstrKind (map setOption opts)"

definition rstr_getClientOrCached :: "rstr_Kubeclient \<Rightarrow> ((gerror + Clientset option) \<times> rstr_Kubeclient) go" where
  "rstr_getClientOrCached k = full_getClientOrCached k"

definition rstr_GetRaw :: "(ZFSRestore \<Rightarrow> gerror + string) \<Rightarrow> string \<Rightarrow> rstr_Kubeclient \<Rightarrow> ((gerror + string) \<times> rstr_Kubeclient) go" where
  "rstr_GetRaw marshal name k = full_GetRaw marshal ''failed to get raw zfsrstr rstrume: missing rstr name'' rstrKind name k"

type_synonym node_Kubeclient = "ZFSNode FullClient"

definition node_withDefaults :: "env \<Rightarrow> node_Kubeclient \<Rightarrow> node_Kubeclient" where
  "node_withDefaults E k = withDefaults E nodeKind k"

definition node_NewKubeclient :: "env \<Rightarrow> buildOption list \<Rightarrow> node_Kubeclient" where
  "node_NewKubeclient E opts = buildClient E nodeKind (map setOption opts)"

definition node_getClientOrCached :: "node_Kubeclient \<Rightarrow> ((gerror + Clientset option) \<times> node_Kubeclient) go" where
  "node_getClientOrCached k = full_getClientOrCached k"

definition node_GetRaw :: "(ZFSNode \<Rightarrow> gerror + string) \<Rightarrow> string \<Rightarrow> node_Kubeclient \<Rightarrow> ((gerror + string) \<times> node_Kubeclient) go" where
  "node_GetRaw marshal name k = full_GetRaw marshal ''failed to get raw zfs node: missing node name'' nodeKind name k"

section \<open>Calls\<close>

text \<open>A sequence of calls on one client, and the same on the client of \<open>Kubeclient\<close>.\<close>

datatype 'o clientCall = CallCreate "'o option" | CallGet string | CallList string | CallDelete string | CallUpdate "'o option"

datatype 'o clientAnswer = AnsObject "gerror + 'o" | AnsList "gerror + 'o list" | AnsDone "gerror option"

definition answer :: "('r \<Rightarrow> 's) \<Rightarrow> ('r \<times> 'k) go \<Rightarrow> ('s \<times> 'k) go" where
  "answer f m = goBind m (\<lambda>(r, k). goRet (f r, k))"

fun fullCall :: "'a ObjectMeta_scheme kind \<Rightarrow> 'a ObjectMeta_scheme clientCall \<Rightarrow> 'a ObjectMeta_scheme FullClient
    \<Rightarrow> ('a ObjectMeta_scheme clientAnswer \<times> 'a ObjectMeta_scheme FullClient) go" where
  "fullCall K (CallCreate obj) k = answer AnsObject (full_Create K obj k)"
| "fullCall K (CallGet name) k = answer AnsObject (full_Get K name k)"
| "fullCall K (CallList selector) k = answer AnsList (full_List K selector k)"
| "fullCall K (CallDelete name) k = answer AnsDone (full_Delete K name k)"
| "fullCall K (CallUpdate obj) k = answer AnsObject (full_Update K obj k)"

fun kubeCall :: "env \<Rightarrow> 'a ObjectMeta_scheme kind \<Rightarrow> 'a ObjectMeta_scheme clientCall \<Rightarrow> Kubeclient
    \<Rightarrow> ('a ObjectMeta_scheme clientAnswer \<times> Kubeclient) go" where
  "kubeCall E K (CallCreate obj) k = answer AnsObject (kube_Create E K obj k)"
| "kubeCall E K (CallGet name) k = answer AnsObject (kube_Get E K name k)"
| "kubeCall E K (CallList selector) k = answer AnsList (kube_List E K selector k)"
| "kubeCall E K (CallDelete name) k = answer AnsDone (kube_Delete E K name k)"
| "kubeCall E K (CallUpdate obj) k = answer AnsObject (kube_Update E K obj k)"

fun runCalls :: "('c \<Rightarrow> 'k \<Rightarrow> ('s \<times> 'k) go) \<Rightarrow> 'c list \<Rightarrow> 'k \<Rightarrow> ('s list \<times> 'k) go" where
  "runCalls f [] k = goRet ([], k)"
| "runCalls f (c # cs) k = goBind (f c k) (\<lambda>(r, k). goBind (runCalls f cs k) (\<lambda>(rs, k). goRet (r # rs, k)))"

definition plainClient :: "'o FullClient \<Rightarrow> Kubeclient" where
  "plainClient k = \<lparr> clientset = (fClientset k \<noteq> None), kubeConfigPath = fPath k, namespace = fNamespace k \<rparr>"

definition defaulted :: "env \<Rightarrow> 'o kind \<Rightarrow> 'o FullClient \<Rightarrow> bool" where
  "defaulted E K k \<longleftrightarrow>
     fGetClientset k = Some (defaultGetClientset E) \<and> fGetClientsetForPath k = Some (defaultGetClientsetForPath E)
   \<and> fGet k = Some (defaultGet E K) \<and> fList k = Some (defaultList E K) \<and> fDel k = Some (defaultDel E K)
   \<and> fCreate k = Some (defaultCreate E K) \<and> fUpdate k = Some (defaultUpdate E K)"

text \<open>A run that does the same on both clients and leaves the full client in order.\<close>

definition simulates :: "env \<Rightarrow> 'o kind \<Rightarrow> ('r \<times> 'o FullClient) go \<Rightarrow> ('r \<times> Kubeclient) go \<Rightarrow> bool" where
  "simulates E K m g \<longleftrightarrow> (\<forall>h. case m h of
       (None, h') \<Rightarrow> g h = (None, h')
     | (Some (r, k), h') \<Rightarrow> defaulted E K k \<and> g h = (Some (r, plainClient k), h'))"

section \<open>Refinement\<close>

lemma simulates_ret: "defaulted E K k \<Longrightarrow> simulates E K (goRet (r, k)) (goRet (r, plainClient k))"
  by (simp add: simulates_def go_simps)

lemma simulates_bind:
  assumes "simulates E K m g" "\<And>r k. defaulted E K k \<Longrightarrow> simulates E K (f (r, k)) (f' (r, plainClient k))"
  shows "simulates E K (goBind m f) (goBind g f')"
  using assms unfolding simulates_def by (fastforce simp: go_simps split: prod.splits option.splits)

lemma simulates_answer: "simulates E K m g \<Longrightarrow> simulates E K (answer f m) (answer f g)"
  unfolding answer_def by (erule simulates_bind) (simp add: simulates_ret)

text \<open>What the clientset step of a client with defaults does.\<close>

lemma full_getClient_run:
  assumes "defaulted E K k"
  shows "full_getClientOrCached k h =
    (case fClientset k of
       Some c \<Rightarrow> (Some (Inr (Some c), k), h)
     | None \<Rightarrow> (case clientsetFor (cluster E) h (fPath k) of
         Some t \<Rightarrow> (Some (Inl (EWrap ''failed to get clientset'' (EApi False t)), k), h @ [EvClientset (fPath k) (Some t)])
       | None \<Rightarrow> (Some (Inr (Some (Clientset (fPath k))), k\<lparr> fClientset := Some (Clientset (fPath k)) \<rparr>),
                  h @ [EvClientset (fPath k) None])))"
  using assms by (auto simp: full_getClientOrCached_def getClientsetForPathOrDirect_def defaulted_def call_def
    defaultGetClientset_def defaultGetClientsetForPath_def clientsetOf_def go_simps split: option.split)

lemma defaulted_cache [simp]: "defaulted E K (k\<lparr> fClientset := c \<rparr>) = defaulted E K k"
  by (simp add: defaulted_def)

lemma getClient_run:
  "getClientOrCached E (plainClient k) h =
    (case fClientset k of
       Some c \<Rightarrow> (Some (None, plainClient k), h)
     | None \<Rightarrow> (case clientsetFor (cluster E) h (fPath k) of
         Some t \<Rightarrow> (Some (Some (EWrap ''failed to get clientset'' (EApi False t)), plainClient k),
                    h @ [EvClientset (fPath k) (Some t)])
       | None \<Rightarrow> (Some (None, plainClient (k\<lparr> fClientset := Some (Clientset (fPath k)) \<rparr>)), h @ [EvClientset (fPath k) None])))"
  by (simp add: getClientOrCached_def plainClient_def go_simps split: option.split)

lemma plainClient_sel [simp]: "namespace (plainClient k) = fNamespace k" "kubeConfigPath (plainClient k) = fPath k"
  by (simp_all add: plainClient_def)

lemmas request_defs = defaultGet_def defaultList_def defaultDel_def defaultCreate_def defaultUpdate_def call_def

lemma defaulted_fields:
  assumes "defaulted E K k"
  shows "fGet k = Some (defaultGet E K)" "fList k = Some (defaultList E K)" "fDel k = Some (defaultDel E K)"
    "fCreate k = Some (defaultCreate E K)" "fUpdate k = Some (defaultUpdate E K)"
  using assms by (simp_all add: defaulted_def)

lemma simulates_methods:
  assumes "defaulted E K k"
  shows "simulates E K (full_Create K obj k) (kube_Create E K obj (plainClient k))"
    and "simulates E K (full_Get K name k) (kube_Get E K name (plainClient k))"
    and "simulates E K (full_List K sel k) (kube_List E K sel (plainClient k))"
    and "simulates E K (full_Delete K name k) (kube_Delete E K name (plainClient k))"
    and "simulates E K (full_Update K obj k) (kube_Update E K obj (plainClient k))"
  unfolding simulates_def full_Create_def full_Get_def full_List_def full_Delete_def full_Update_def
    kube_Create_def kube_Get_def kube_List_def kube_Delete_def kube_Update_def
  by (simp_all add: goBind_def full_getClient_run [OF assms] getClient_run defaulted_fields [OF assms] request_defs
    go_simps assms split: option.split)

lemma simulates_call: "defaulted E K k \<Longrightarrow> simulates E K (fullCall K c k) (kubeCall E K c (plainClient k))"
  by (cases c) (simp_all add: simulates_answer simulates_methods)

lemma simulates_runCalls: "defaulted E K k \<Longrightarrow> simulates E K (runCalls (fullCall K) cs k) (runCalls (kubeCall E K) cs (plainClient k))"
proof (induction cs arbitrary: k)
  case (Cons c cs)
  have "simulates E K (goBind (runCalls (fullCall K) cs k') (\<lambda>(rs, k). goRet (r # rs, k)))
      (goBind (runCalls (kubeCall E K) cs (plainClient k')) (\<lambda>(rs, k). goRet (r # rs, k)))" if "defaulted E K k'" for r k'
    by (rule simulates_bind [OF Cons.IH [OF that]]) (simp add: simulates_ret)
  then show ?case by (simp add: simulates_bind [OF simulates_call [OF Cons.prems]])
qed (simp add: simulates_ret)

text \<open>The options of the package keep the function fields nil, so the client gets all defaults.\<close>

lemma setOption_fields: "fGetClientset k = None \<and> fGetClientsetForPath k = None \<and> fGet k = None \<and> fList k = None \<and>
    fDel k = None \<and> fCreate k = None \<and> fUpdate k = None \<Longrightarrow> defaulted E K (withDefaults E K (fold setOption opts k))"
proof (induction opts arbitrary: k)
  case Nil
  then show ?case by (simp add: withDefaults_def defaulted_def orDefault_def)
next
  case (Cons x opts)
  show ?case unfolding fold.simps comp_def
    by (rule Cons.IH) (cases x; use Cons.prems in \<open>simp add: WithClientSet_def optNamespace_def WithKubeConfigPath_def\<close>)
qed

lemma fold_map_id: "fold (\<lambda>opt k. opt k) (map f xs) k = fold f xs k"
  by (induction xs arbitrary: k) auto

lemma buildClient_defaulted: "defaulted E K (buildClient E K (map setOption opts))"
  unfolding buildClient_def fold_map_id by (rule setOption_fields) (simp add: emptyClient_def)

lemma returns_kubeCall: "always_returns (kubeCall E K c k)"
  by (cases c) (auto simp: answer_def kube_Create_def kube_Get_def kube_List_def kube_Delete_def kube_Update_def
    intro!: returns_rules)

lemma returns_runCalls: "(\<And>c k. always_returns (f c k)) \<Longrightarrow> always_returns (runCalls f cs k)"
  by (induction cs arbitrary: k) (auto intro!: returns_rules)

lemma simulates_run:
  assumes "simulates E K m g" "always_returns g"
  shows "\<exists>r k h'. m h = (Some (r, k), h') \<and> g h = (Some (r, plainClient k), h')"
proof -
  obtain x h' where m: "m h = (x, h')" by (cases "m h")
  have "fst (g h) \<noteq> None" using assms(2) by (simp add: always_returns_def)
  with assms(1) m show ?thesis
    unfolding simulates_def by (cases x) (auto dest!: spec [of _ h])
qed

lemma defaulted_namespace [simp]: "defaulted E K (full_WithNamespace ns k) = defaulted E K k"
  by (simp add: defaulted_def full_WithNamespace_def)

lemma GetRaw_requests: "name \<noteq> [] \<Longrightarrow> snd (full_GetRaw marshal missing K name k h) = snd (full_Get K name k h)"
  by (simp add: full_GetRaw_def go_simps split: prod.split option.split sum.split)

text \<open>C35: The API clients are built right: a client from the options of its package, moved to the namespace of the driver,
  answers every sequence of calls as the client with one cached clientset does, sends the same requests and leaves
  it in the same state. No function field is nil, so no call panics. Without options it is the client that the driver
  uses for its own calls.\<close>
theorem built_client_refines:
  "let k = full_WithNamespace ns (buildClient E K (map setOption opts)) in
     (\<exists>rs k' h'. runCalls (fullCall K) cs k h = (Some (rs, k'), h')
        \<and> runCalls (kubeCall E K) cs (plainClient k) h = (Some (rs, plainClient k'), h'))
     \<and> namespace (plainClient k) = ns \<and> (opts = [] \<and> ns = OpenEBSNamespace E \<longrightarrow> plainClient k = ownClient E)"
proof -
  let ?k = "full_WithNamespace ns (buildClient E K (map setOption opts))"
  have "simulates E K (runCalls (fullCall K) cs ?k) (runCalls (kubeCall E K) cs (plainClient ?k))"
    by (rule simulates_runCalls) (simp add: buildClient_defaulted)
  from simulates_run [OF this returns_runCalls [OF returns_kubeCall], of h]
  show ?thesis
    unfolding Let_def by (simp add: full_WithNamespace_def plainClient_def buildClient_def withDefaults_def emptyClient_def
      ownClient_def kube_WithNamespace_def NewKubeclient_def)
qed

theorem built_client_refines_witness:
  "let k = full_WithNamespace ''openebs'' (buildClient quietEnv volKind (map setOption [])) in
     plainClient k = ownClient quietEnv \<and> (\<exists>rs k' h'. runCalls (fullCall volKind) [CallGet ''v1'', CallDelete ''v1''] k [] = (Some (rs, k'), h')
        \<and> runCalls (kubeCall quietEnv volKind) [CallGet ''v1'', CallDelete ''v1''] (plainClient k) [] = (Some (rs, plainClient k'), h'))"
  using built_client_refines [of "''openebs''" quietEnv volKind "[]" "[CallGet ''v1'', CallDelete ''v1'']" "[]"]
  by (auto simp: Let_def quietEnv_def)

end
