(* ===== verification/RestClients.thy ===== *)
theory RestClients
  imports GoLib Complex_Main
begin

text \<open>
  The generated clientset: \<open>pkg/generated/clientset/versioned/clientset.go\<close> and the typed client of the group
  (\<open>typed/zfs/v1\<close>). Every constructor works on a copy of the configuration it is given, so its caller's is an unchanged
  argument here. The transport, the rate limiter, the REST client and the discovery client are made by the Kubernetes
  libraries: they are values of type parameters, made by the functions of \<open>restLib\<close>.
\<close>

section \<open>Configurations and clients\<close>

record 'l restConfig =
  UserAgent :: string
  RateLimiter :: "'l option"
  QPS :: rat
  Burst :: int
  GroupVersion :: "(string \<times> string) option"
  APIPath :: string
  Serializer :: string

record ('h, 'l, 'r, 'd) restLib =
  defaultUserAgent :: string
  HTTPClientFor :: "'l restConfig \<Rightarrow> string + 'h"
  NewTokenBucketRateLimiter :: "rat \<Rightarrow> int \<Rightarrow> 'l"
  RESTClientForConfigAndClient :: "'l restConfig \<Rightarrow> 'h \<Rightarrow> string + 'r"
  NewDiscoveryClientFor :: "'l restConfig \<Rightarrow> 'h \<Rightarrow> string + 'd"
  NewDiscoveryClient :: "'r \<Rightarrow> 'd"
  generatedCodec :: string

record 'r ZfsV1Client =
  restClient :: 'r

record ('r, 'd) clientset =
  zfsV1 :: "'r ZfsV1Client"
  DiscoveryClient :: 'd

record 'r typedClient =
  tcResource :: string
  tcRest :: "'r option"
  tcNamespace :: string

section \<open>The typed client\<close>

definition SchemeGroupVersion :: "string \<times> string" where
  "SchemeGroupVersion = (''zfs.openebs.io'', ''v1'')"

definition setConfigDefaults :: "('h, 'l, 'r, 'd) restLib \<Rightarrow> 'l restConfig \<Rightarrow> 'l restConfig" where
  "setConfigDefaults L config =
     (let config = config\<lparr> GroupVersion := Some SchemeGroupVersion, APIPath := ''/apis'', Serializer := generatedCodec L \<rparr>
      in if UserAgent config = [] then config\<lparr> UserAgent := defaultUserAgent L \<rparr> else config)"

definition v1_NewForConfigAndClient :: "('h, 'l, 'r, 'd) restLib \<Rightarrow> 'l restConfig \<Rightarrow> 'h \<Rightarrow> gerror + 'r ZfsV1Client" where
  "v1_NewForConfigAndClient L c h =
     (case RESTClientForConfigAndClient L (setConfigDefaults L c) h of
        Inl e \<Rightarrow> Inl (EText e)
      | Inr client \<Rightarrow> Inr \<lparr> restClient = client \<rparr>)"

definition v1_NewForConfig :: "('h, 'l, 'r, 'd) restLib \<Rightarrow> 'l restConfig \<Rightarrow> gerror + 'r ZfsV1Client" where
  "v1_NewForConfig L c =
     (let config = setConfigDefaults L c
      in case HTTPClientFor L config of
           Inl e \<Rightarrow> Inl (EText e)
         | Inr httpClient \<Rightarrow> v1_NewForConfigAndClient L config httpClient)"

text \<open>\<open>None\<close> is the panic.\<close>

definition v1_NewForConfigOrDie :: "('h, 'l, 'r, 'd) restLib \<Rightarrow> 'l restConfig \<Rightarrow> 'r ZfsV1Client option" where
  "v1_NewForConfigOrDie L c = (case v1_NewForConfig L c of Inl _ \<Rightarrow> None | Inr client \<Rightarrow> Some client)"

definition v1_New :: "'r \<Rightarrow> 'r ZfsV1Client" where
  "v1_New c = \<lparr> restClient = c \<rparr>"

definition RESTClient :: "'r ZfsV1Client option \<Rightarrow> 'r option" where
  "RESTClient c = (case c of None \<Rightarrow> None | Some c \<Rightarrow> Some (restClient c))"

definition newZFSVolumes :: "'r ZfsV1Client option \<Rightarrow> string \<Rightarrow> 'r typedClient" where
  "newZFSVolumes c namespace = \<lparr> tcResource = ''zfsvolumes'', tcRest = RESTClient c, tcNamespace = namespace \<rparr>"

definition newZFSSnapshots :: "'r ZfsV1Client option \<Rightarrow> string \<Rightarrow> 'r typedClient" where
  "newZFSSnapshots c namespace = \<lparr> tcResource = ''zfssnapshots'', tcRest = RESTClient c, tcNamespace = namespace \<rparr>"

definition newZFSBackups :: "'r ZfsV1Client option \<Rightarrow> string \<Rightarrow> 'r typedClient" where
  "newZFSBackups c namespace = \<lparr> tcResource = ''zfsbackups'', tcRest = RESTClient c, tcNamespace = namespace \<rparr>"

definition newZFSRestores :: "'r ZfsV1Client option \<Rightarrow> string \<Rightarrow> 'r typedClient" where
  "newZFSRestores c namespace = \<lparr> tcResource = ''zfsrestores'', tcRest = RESTClient c, tcNamespace = namespace \<rparr>"

definition newZFSNodes :: "'r ZfsV1Client option \<Rightarrow> string \<Rightarrow> 'r typedClient" where
  "newZFSNodes c namespace = \<lparr> tcResource = ''zfsnodes'', tcRest = RESTClient c, tcNamespace = namespace \<rparr>"

section \<open>The clientset\<close>

definition NewForConfigAndClient :: "('h, 'l, 'r, 'd) restLib \<Rightarrow> 'l restConfig \<Rightarrow> 'h \<Rightarrow> gerror + ('r, 'd) clientset" where
  "NewForConfigAndClient L c httpClient =
     (let limited = RateLimiter c = None \<and> QPS c > 0
      in if limited \<and> Burst c \<le> 0 then
           Inl (EText ''burst is required to be greater than 0 when RateLimiter is not set and QPS is set to greater than 0'')
         else
           let config = (if limited then c\<lparr> RateLimiter := Some (NewTokenBucketRateLimiter L (QPS c) (Burst c)) \<rparr> else c)
           in case v1_NewForConfigAndClient L config httpClient of
                Inl e \<Rightarrow> Inl e
              | Inr client \<Rightarrow>
                  (case NewDiscoveryClientFor L config httpClient of
                     Inl e \<Rightarrow> Inl (EText e)
                   | Inr disco \<Rightarrow> Inr \<lparr> zfsV1 = client, DiscoveryClient = disco \<rparr>))"

definition NewForConfig :: "('h, 'l, 'r, 'd) restLib \<Rightarrow> 'l restConfig \<Rightarrow> gerror + ('r, 'd) clientset" where
  "NewForConfig L c =
     (let config = (if UserAgent c = [] then c\<lparr> UserAgent := defaultUserAgent L \<rparr> else c)
      in case HTTPClientFor L config of
           Inl e \<Rightarrow> Inl (EText e)
         | Inr httpClient \<Rightarrow> NewForConfigAndClient L config httpClient)"

definition NewForConfigOrDie :: "('h, 'l, 'r, 'd) restLib \<Rightarrow> 'l restConfig \<Rightarrow> ('r, 'd) clientset option" where
  "NewForConfigOrDie L c = (case NewForConfig L c of Inl _ \<Rightarrow> None | Inr cs \<Rightarrow> Some cs)"

definition clientset_New :: "('h, 'l, 'r, 'd) restLib \<Rightarrow> 'r \<Rightarrow> ('r, 'd) clientset" where
  "clientset_New L c = \<lparr> zfsV1 = v1_New c, DiscoveryClient = NewDiscoveryClient L c \<rparr>"

definition ZfsV1 :: "('r, 'd) clientset \<Rightarrow> 'r ZfsV1Client" where
  "ZfsV1 cs = zfsV1 cs"

definition Discovery :: "('r, 'd) clientset option \<Rightarrow> 'd option" where
  "Discovery c = (case c of None \<Rightarrow> None | Some cs \<Rightarrow> Some (DiscoveryClient cs))"

section \<open>What a clientset is made of\<close>

lemma setConfigDefaults_fields [simp]:
  "GroupVersion (setConfigDefaults L c) = Some SchemeGroupVersion" "APIPath (setConfigDefaults L c) = ''/apis''"
  "RateLimiter (setConfigDefaults L c) = RateLimiter c" "Serializer (setConfigDefaults L c) = generatedCodec L"
  "UserAgent (setConfigDefaults L c) = (if UserAgent c = [] then defaultUserAgent L else UserAgent c)"
  by (simp_all add: setConfigDefaults_def Let_def)

lemma setConfigDefaults_idem: "setConfigDefaults L (setConfigDefaults L c) = setConfigDefaults L c"
  by (simp add: setConfigDefaults_def Let_def)

text \<open>
  A clientset that is built talks to the group of the driver through one transport, has a user agent, and if the
  configuration limits the rate it has one rate limiter that both of its clients share.
\<close>

lemma NewForConfig_sound:
  assumes "NewForConfig L c = Inr cs"
  obtains config h where
    "UserAgent config = (if UserAgent c = [] then defaultUserAgent L else UserAgent c)"
    "HTTPClientFor L (c\<lparr> UserAgent := UserAgent config \<rparr>) = Inr h"
    "RESTClientForConfigAndClient L (setConfigDefaults L config) h = Inr (restClient (zfsV1 cs))"
    "NewDiscoveryClientFor L config h = Inr (DiscoveryClient cs)"
    "RateLimiter config = (if RateLimiter c = None \<and> QPS c > 0 then Some (NewTokenBucketRateLimiter L (QPS c) (Burst c)) else RateLimiter c)"
    "QPS c > 0 \<longrightarrow> RateLimiter c \<noteq> None \<or> Burst c > 0"
proof -
  let ?ua = "if UserAgent c = [] then defaultUserAgent L else UserAgent c"
  let ?c = "c\<lparr> UserAgent := ?ua \<rparr>"
  have c: "(if UserAgent c = [] then c\<lparr> UserAgent := defaultUserAgent L \<rparr> else c) = ?c" by simp
  obtain h where h: "HTTPClientFor L ?c = Inr h" "NewForConfigAndClient L ?c h = Inr cs"
    using assms unfolding NewForConfig_def Let_def c by (auto split: sum.splits)
  let ?config = "if RateLimiter c = None \<and> QPS c > 0
    then ?c\<lparr> RateLimiter := Some (NewTokenBucketRateLimiter L (QPS c) (Burst c)) \<rparr> else ?c"
  have parts: "RESTClientForConfigAndClient L (setConfigDefaults L ?config) h = Inr (restClient (zfsV1 cs))"
    "NewDiscoveryClientFor L ?config h = Inr (DiscoveryClient cs)" "QPS c > 0 \<longrightarrow> RateLimiter c \<noteq> None \<or> Burst c > 0"
    using h(2) unfolding NewForConfigAndClient_def v1_NewForConfigAndClient_def Let_def
    by (auto split: if_splits sum.splits)
  show thesis by (rule that [of ?config h]) (use h(1) parts in auto)
qed

text \<open>A rate without a burst is refused, whatever the libraries do.\<close>

lemma NewForConfig_needs_burst:
  assumes "RateLimiter c = None" "QPS c > 0" "Burst c \<le> 0"
  shows "\<exists>e. NewForConfig L c = Inl e" and "NewForConfigOrDie L c = None"
proof -
  show e: "\<exists>e. NewForConfig L c = Inl e"
    using assms by (auto simp: NewForConfig_def NewForConfigAndClient_def Let_def split: sum.split)
  then show "NewForConfigOrDie L c = None" by (auto simp: NewForConfigOrDie_def)
qed

text \<open>The five typed clients of a clientset send their requests through its REST client, each to a resource of its own.\<close>

lemma typed_clients_apart:
  "distinct (map (\<lambda>new. tcResource (new (Some (ZfsV1 cs)) ns)) [newZFSVolumes, newZFSSnapshots, newZFSBackups, newZFSRestores, newZFSNodes])"
  "new \<in> {newZFSVolumes, newZFSSnapshots, newZFSBackups, newZFSRestores, newZFSNodes} \<Longrightarrow>
     tcRest (new (Some (ZfsV1 cs)) ns) = Some (restClient (zfsV1 cs)) \<and> tcNamespace (new (Some (ZfsV1 cs)) ns) = ns"
  by (auto simp: newZFSVolumes_def newZFSSnapshots_def newZFSBackups_def newZFSRestores_def newZFSNodes_def RESTClient_def ZfsV1_def)

end
