(* ===== verification/DeepCopy.thy ===== *)
theory DeepCopy
  imports Apis
begin

text \<open>
  The deep copies of \<open>pkg/apis/openebs.io/zfs/v1/zz_generated.deepcopy.go\<close>, on an explicit memory: maps, slices and
  pointers are locations, and two objects that hold the same location share what is stored there. The controllers copy
  an object of the informer cache before they work on it; the copy reads as the original and nothing that is written
  through it changes the original.

  A location holds a map, the elements of a slice or the target of a pointer, which is kept as a slice of one
  element; \<open>None\<close> is nil. The functions of the Kubernetes libraries that copy metadata and quantities are parameters.
\<close>

section \<open>Memory\<close>

type_synonym loc = nat

text \<open>The structs in memory. A struct without locations is kept as its value.\<close>

record MetaS =
  mName :: string
  mNamespace :: string
  mResourceVersion :: string
  mLabels :: "loc option"
  mAnnotations :: "loc option"
  mFinalizers :: "loc option"
  mDeletionTimestamp :: "loc option"
  mOwnerReferences :: "loc option"

record ListMetaS =
  lResourceVersion :: string
  lContinue :: string
  lRemaining :: "loc option"

record InfoS =
  iScalars :: VolumeInfo
  iUserProperties :: "loc option"

record QuantityS =
  qAmount :: int64
  qDecimal :: "loc option"

record PoolS =
  pName :: string
  pUUID :: string
  pFree :: QuantityS
  pUsed :: QuantityS

record VolumeS =
  vMeta :: MetaS
  vSpec :: InfoS
  vStatus :: string

record SnapshotS =
  sMeta :: MetaS
  sSpec :: InfoS
  sStatus :: string

record BackupS =
  bMeta :: MetaS
  bSpec :: ZFSBackupSpec
  bStatus :: string

record RestoreS =
  rMeta :: MetaS
  rSpec :: ZFSRestoreSpec
  rVolSpec :: InfoS
  rStatus :: string

record NodeS =
  nMeta :: MetaS
  nPools :: "loc option"

record ListS =
  lMeta :: ListMetaS
  lItems :: "loc option"

datatype cell =
    MapCell smap | StringsCell "string list" | OwnersCell "OwnerReference list" | TimeCell string | NumberCell int64
  | InfoCells "InfoS list" | StatusCells "string list" | BackupSpecCells "ZFSBackupSpec list"
  | RestoreSpecCells "ZFSRestoreSpec list" | PoolCells "PoolS list" | VolumeCells "VolumeS list"
  | SnapshotCells "SnapshotS list" | BackupCells "BackupS list" | RestoreCells "RestoreS list" | NodeCells "NodeS list"
  | ListCells "ListS list"

fun mapIn :: "cell \<Rightarrow> smap" where
  "mapIn (MapCell m) = m"
| "mapIn _ = []"

fun stringsIn :: "cell \<Rightarrow> string list" where
  "stringsIn (StringsCell xs) = xs"
| "stringsIn _ = []"

fun ownersIn :: "cell \<Rightarrow> OwnerReference list" where
  "ownersIn (OwnersCell xs) = xs"
| "ownersIn _ = []"

fun timeIn :: "cell \<Rightarrow> string" where
  "timeIn (TimeCell t) = t"
| "timeIn _ = []"

fun numberIn :: "cell \<Rightarrow> int64" where
  "numberIn (NumberCell n) = n"
| "numberIn _ = 0"

fun infosIn :: "cell \<Rightarrow> InfoS list" where
  "infosIn (InfoCells xs) = xs"
| "infosIn _ = []"

fun statusIn :: "cell \<Rightarrow> string list" where
  "statusIn (StatusCells xs) = xs"
| "statusIn _ = []"

fun backupSpecsIn :: "cell \<Rightarrow> ZFSBackupSpec list" where
  "backupSpecsIn (BackupSpecCells xs) = xs"
| "backupSpecsIn _ = []"

fun restoreSpecsIn :: "cell \<Rightarrow> ZFSRestoreSpec list" where
  "restoreSpecsIn (RestoreSpecCells xs) = xs"
| "restoreSpecsIn _ = []"

fun poolsIn :: "cell \<Rightarrow> PoolS list" where
  "poolsIn (PoolCells xs) = xs"
| "poolsIn _ = []"

fun volumesIn :: "cell \<Rightarrow> VolumeS list" where
  "volumesIn (VolumeCells xs) = xs"
| "volumesIn _ = []"

fun snapshotsIn :: "cell \<Rightarrow> SnapshotS list" where
  "snapshotsIn (SnapshotCells xs) = xs"
| "snapshotsIn _ = []"

fun backupsIn :: "cell \<Rightarrow> BackupS list" where
  "backupsIn (BackupCells xs) = xs"
| "backupsIn _ = []"

fun restoresIn :: "cell \<Rightarrow> RestoreS list" where
  "restoresIn (RestoreCells xs) = xs"
| "restoresIn _ = []"

fun nodesIn :: "cell \<Rightarrow> NodeS list" where
  "nodesIn (NodeCells xs) = xs"
| "nodesIn _ = []"

fun listsIn :: "cell \<Rightarrow> ListS list" where
  "listsIn (ListCells xs) = xs"
| "listsIn _ = []"

record memory =
  cells :: "loc \<Rightarrow> cell"
  nextLoc :: loc

definition alloc :: "cell \<Rightarrow> memory \<Rightarrow> loc \<times> memory" where
  "alloc c M = (nextLoc M, M\<lparr> cells := (cells M)(nextLoc M := c), nextLoc := Suc (nextLoc M) \<rparr>)"

type_synonym 'x copier = "'x \<Rightarrow> memory \<Rightarrow> 'x \<times> memory"

text \<open>The copying functions of the libraries.\<close>

record copyLib =
  copyMeta :: "MetaS copier"
  copyListMeta :: "ListMetaS copier"
  copyQuantity :: "QuantityS copier"

section \<open>Copying\<close>

text \<open>The elements of a slice, one after the other, and the target of a pointer or slice.\<close>

fun copyEach :: "'x copier \<Rightarrow> 'x list copier" where
  "copyEach cp [] M = ([], M)"
| "copyEach cp (x # xs) M = (let (x', M1) = cp x M; (xs', M2) = copyEach cp xs M1 in (x' # xs', M2))"

definition copyPtr :: "('x list \<Rightarrow> cell) \<Rightarrow> (cell \<Rightarrow> 'x list) \<Rightarrow> 'x copier \<Rightarrow> loc option copier" where
  "copyPtr wrap unwrap cp p M =
     (case p of
        None \<Rightarrow> (None, M)
      | Some l \<Rightarrow> let (xs', M1) = copyEach cp (unwrap (cells M l)) M; (l', M2) = alloc (wrap xs') M1 in (Some l', M2))"

definition copyPlain :: "'x copier" where
  "copyPlain x M = (x, M)"

definition copyMap :: "loc option copier" where
  "copyMap p M =
     (case p of
        None \<Rightarrow> (None, M)
      | Some l \<Rightarrow> let (l', M1) = alloc (MapCell (fold (\<lambda>(key, val). AList.update key val) (mapIn (cells M l)) [])) M in (Some l', M1))"

definition SnapStatus_DeepCopyInto :: "string copier" where
  "SnapStatus_DeepCopyInto x M = copyPlain x M"

definition SnapStatus_DeepCopy :: "loc option copier" where
  "SnapStatus_DeepCopy p M = copyPtr StatusCells statusIn SnapStatus_DeepCopyInto p M"

definition VolStatus_DeepCopyInto :: "string copier" where
  "VolStatus_DeepCopyInto x M = copyPlain x M"

definition VolStatus_DeepCopy :: "loc option copier" where
  "VolStatus_DeepCopy p M = copyPtr StatusCells statusIn VolStatus_DeepCopyInto p M"

definition VolumeInfo_DeepCopyInto :: "InfoS copier" where
  "VolumeInfo_DeepCopyInto x M = (let (p, M1) = copyMap (iUserProperties x) M in (x\<lparr> iUserProperties := p \<rparr>, M1))"

definition VolumeInfo_DeepCopy :: "loc option copier" where
  "VolumeInfo_DeepCopy p M = copyPtr InfoCells infosIn VolumeInfo_DeepCopyInto p M"

definition ZFSBackupSpec_DeepCopyInto :: "ZFSBackupSpec copier" where
  "ZFSBackupSpec_DeepCopyInto x M = copyPlain x M"

definition ZFSBackupSpec_DeepCopy :: "loc option copier" where
  "ZFSBackupSpec_DeepCopy p M = copyPtr BackupSpecCells backupSpecsIn ZFSBackupSpec_DeepCopyInto p M"

definition ZFSRestoreSpec_DeepCopyInto :: "ZFSRestoreSpec copier" where
  "ZFSRestoreSpec_DeepCopyInto x M = copyPlain x M"

definition ZFSRestoreSpec_DeepCopy :: "loc option copier" where
  "ZFSRestoreSpec_DeepCopy p M = copyPtr RestoreSpecCells restoreSpecsIn ZFSRestoreSpec_DeepCopyInto p M"

definition Pool_DeepCopyInto :: "copyLib \<Rightarrow> PoolS copier" where
  "Pool_DeepCopyInto L x M =
     (let (f, M1) = copyQuantity L (pFree x) M; (u, M2) = copyQuantity L (pUsed x) M1 in (x\<lparr> pFree := f, pUsed := u \<rparr>, M2))"

definition Pool_DeepCopy :: "copyLib \<Rightarrow> loc option copier" where
  "Pool_DeepCopy L p M = copyPtr PoolCells poolsIn (Pool_DeepCopyInto L) p M"

definition ZFSVolume_DeepCopyInto :: "copyLib \<Rightarrow> VolumeS copier" where
  "ZFSVolume_DeepCopyInto L x M =
     (let (m, M1) = copyMeta L (vMeta x) M; (s, M2) = VolumeInfo_DeepCopyInto (vSpec x) M1
      in (x\<lparr> vMeta := m, vSpec := s \<rparr>, M2))"

definition ZFSSnapshot_DeepCopyInto :: "copyLib \<Rightarrow> SnapshotS copier" where
  "ZFSSnapshot_DeepCopyInto L x M =
     (let (m, M1) = copyMeta L (sMeta x) M; (s, M2) = VolumeInfo_DeepCopyInto (sSpec x) M1
      in (x\<lparr> sMeta := m, sSpec := s \<rparr>, M2))"

definition ZFSBackup_DeepCopyInto :: "copyLib \<Rightarrow> BackupS copier" where
  "ZFSBackup_DeepCopyInto L x M = (let (m, M1) = copyMeta L (bMeta x) M in (x\<lparr> bMeta := m \<rparr>, M1))"

definition ZFSRestore_DeepCopyInto :: "copyLib \<Rightarrow> RestoreS copier" where
  "ZFSRestore_DeepCopyInto L x M =
     (let (m, M1) = copyMeta L (rMeta x) M; (s, M2) = VolumeInfo_DeepCopyInto (rVolSpec x) M1
      in (x\<lparr> rMeta := m, rVolSpec := s \<rparr>, M2))"

definition ZFSNode_DeepCopyInto :: "copyLib \<Rightarrow> NodeS copier" where
  "ZFSNode_DeepCopyInto L x M =
     (let (m, M1) = copyMeta L (nMeta x) M; (p, M2) = copyPtr PoolCells poolsIn (Pool_DeepCopyInto L) (nPools x) M1
      in (x\<lparr> nMeta := m, nPools := p \<rparr>, M2))"

definition copyList :: "copyLib \<Rightarrow> loc option copier \<Rightarrow> ListS copier" where
  "copyList L items x M =
     (let (m, M1) = copyListMeta L (lMeta x) M; (p, M2) = items (lItems x) M1 in (x\<lparr> lMeta := m, lItems := p \<rparr>, M2))"

definition ZFSVolume_DeepCopy :: "copyLib \<Rightarrow> loc option copier" where
  "ZFSVolume_DeepCopy L p M = copyPtr VolumeCells volumesIn (ZFSVolume_DeepCopyInto L) p M"

definition ZFSVolumeList_DeepCopyInto :: "copyLib \<Rightarrow> ListS copier" where
  "ZFSVolumeList_DeepCopyInto L x M = copyList L (copyPtr VolumeCells volumesIn (ZFSVolume_DeepCopyInto L)) x M"

definition ZFSVolumeList_DeepCopy :: "copyLib \<Rightarrow> loc option copier" where
  "ZFSVolumeList_DeepCopy L p M = copyPtr ListCells listsIn (ZFSVolumeList_DeepCopyInto L) p M"

definition ZFSSnapshot_DeepCopy :: "copyLib \<Rightarrow> loc option copier" where
  "ZFSSnapshot_DeepCopy L p M = copyPtr SnapshotCells snapshotsIn (ZFSSnapshot_DeepCopyInto L) p M"

definition ZFSSnapshotList_DeepCopyInto :: "copyLib \<Rightarrow> ListS copier" where
  "ZFSSnapshotList_DeepCopyInto L x M = copyList L (copyPtr SnapshotCells snapshotsIn (ZFSSnapshot_DeepCopyInto L)) x M"

definition ZFSSnapshotList_DeepCopy :: "copyLib \<Rightarrow> loc option copier" where
  "ZFSSnapshotList_DeepCopy L p M = copyPtr ListCells listsIn (ZFSSnapshotList_DeepCopyInto L) p M"

definition ZFSBackup_DeepCopy :: "copyLib \<Rightarrow> loc option copier" where
  "ZFSBackup_DeepCopy L p M = copyPtr BackupCells backupsIn (ZFSBackup_DeepCopyInto L) p M"

definition ZFSBackupList_DeepCopyInto :: "copyLib \<Rightarrow> ListS copier" where
  "ZFSBackupList_DeepCopyInto L x M = copyList L (copyPtr BackupCells backupsIn (ZFSBackup_DeepCopyInto L)) x M"

definition ZFSBackupList_DeepCopy :: "copyLib \<Rightarrow> loc option copier" where
  "ZFSBackupList_DeepCopy L p M = copyPtr ListCells listsIn (ZFSBackupList_DeepCopyInto L) p M"

definition ZFSRestore_DeepCopy :: "copyLib \<Rightarrow> loc option copier" where
  "ZFSRestore_DeepCopy L p M = copyPtr RestoreCells restoresIn (ZFSRestore_DeepCopyInto L) p M"

definition ZFSRestoreList_DeepCopyInto :: "copyLib \<Rightarrow> ListS copier" where
  "ZFSRestoreList_DeepCopyInto L x M = copyList L (copyPtr RestoreCells restoresIn (ZFSRestore_DeepCopyInto L)) x M"

definition ZFSRestoreList_DeepCopy :: "copyLib \<Rightarrow> loc option copier" where
  "ZFSRestoreList_DeepCopy L p M = copyPtr ListCells listsIn (ZFSRestoreList_DeepCopyInto L) p M"

definition ZFSNode_DeepCopy :: "copyLib \<Rightarrow> loc option copier" where
  "ZFSNode_DeepCopy L p M = copyPtr NodeCells nodesIn (ZFSNode_DeepCopyInto L) p M"

definition ZFSNodeList_DeepCopyInto :: "copyLib \<Rightarrow> ListS copier" where
  "ZFSNodeList_DeepCopyInto L x M = copyList L (copyPtr NodeCells nodesIn (ZFSNode_DeepCopyInto L)) x M"

definition ZFSNodeList_DeepCopy :: "copyLib \<Rightarrow> loc option copier" where
  "ZFSNodeList_DeepCopy L p M = copyPtr ListCells listsIn (ZFSNodeList_DeepCopyInto L) p M"

text \<open>
  \<open>DeepCopyObject\<close> returns the copy as a value of the interface type. It returns an untyped nil for a nil pointer, since an
  interface that holds a nil pointer is not nil.
\<close>

datatype runtimeObject = VolumeObject loc | VolumeListObject loc | SnapshotObject loc | SnapshotListObject loc | BackupObject loc | BackupListObject loc | RestoreObject loc | RestoreListObject loc | NodeObject loc | NodeListObject loc

definition copyObject :: "(loc \<Rightarrow> runtimeObject) \<Rightarrow> loc option copier \<Rightarrow> loc option \<Rightarrow> memory \<Rightarrow> runtimeObject option \<times> memory" where
  "copyObject as cp p M = (let (c, M1) = cp p M in (case c of None \<Rightarrow> None | Some l \<Rightarrow> Some (as l), M1))"

definition ZFSVolume_DeepCopyObject :: "copyLib \<Rightarrow> loc option \<Rightarrow> memory \<Rightarrow> runtimeObject option \<times> memory" where
  "ZFSVolume_DeepCopyObject L p M = copyObject VolumeObject (ZFSVolume_DeepCopy L) p M"

definition ZFSVolumeList_DeepCopyObject :: "copyLib \<Rightarrow> loc option \<Rightarrow> memory \<Rightarrow> runtimeObject option \<times> memory" where
  "ZFSVolumeList_DeepCopyObject L p M = copyObject VolumeListObject (ZFSVolumeList_DeepCopy L) p M"

definition ZFSSnapshot_DeepCopyObject :: "copyLib \<Rightarrow> loc option \<Rightarrow> memory \<Rightarrow> runtimeObject option \<times> memory" where
  "ZFSSnapshot_DeepCopyObject L p M = copyObject SnapshotObject (ZFSSnapshot_DeepCopy L) p M"

definition ZFSSnapshotList_DeepCopyObject :: "copyLib \<Rightarrow> loc option \<Rightarrow> memory \<Rightarrow> runtimeObject option \<times> memory" where
  "ZFSSnapshotList_DeepCopyObject L p M = copyObject SnapshotListObject (ZFSSnapshotList_DeepCopy L) p M"

definition ZFSBackup_DeepCopyObject :: "copyLib \<Rightarrow> loc option \<Rightarrow> memory \<Rightarrow> runtimeObject option \<times> memory" where
  "ZFSBackup_DeepCopyObject L p M = copyObject BackupObject (ZFSBackup_DeepCopy L) p M"

definition ZFSBackupList_DeepCopyObject :: "copyLib \<Rightarrow> loc option \<Rightarrow> memory \<Rightarrow> runtimeObject option \<times> memory" where
  "ZFSBackupList_DeepCopyObject L p M = copyObject BackupListObject (ZFSBackupList_DeepCopy L) p M"

definition ZFSRestore_DeepCopyObject :: "copyLib \<Rightarrow> loc option \<Rightarrow> memory \<Rightarrow> runtimeObject option \<times> memory" where
  "ZFSRestore_DeepCopyObject L p M = copyObject RestoreObject (ZFSRestore_DeepCopy L) p M"

definition ZFSRestoreList_DeepCopyObject :: "copyLib \<Rightarrow> loc option \<Rightarrow> memory \<Rightarrow> runtimeObject option \<times> memory" where
  "ZFSRestoreList_DeepCopyObject L p M = copyObject RestoreListObject (ZFSRestoreList_DeepCopy L) p M"

definition ZFSNode_DeepCopyObject :: "copyLib \<Rightarrow> loc option \<Rightarrow> memory \<Rightarrow> runtimeObject option \<times> memory" where
  "ZFSNode_DeepCopyObject L p M = copyObject NodeObject (ZFSNode_DeepCopy L) p M"

definition ZFSNodeList_DeepCopyObject :: "copyLib \<Rightarrow> loc option \<Rightarrow> memory \<Rightarrow> runtimeObject option \<times> memory" where
  "ZFSNodeList_DeepCopyObject L p M = copyObject NodeListObject (ZFSNodeList_DeepCopy L) p M"

section \<open>Reading\<close>

definition deref :: "'v \<Rightarrow> (cell \<Rightarrow> 'v) \<Rightarrow> memory \<Rightarrow> loc option \<Rightarrow> 'v" where
  "deref d f M p = (case p of None \<Rightarrow> d | Some l \<Rightarrow> f (cells M l))"

definition readMeta :: "memory \<Rightarrow> MetaS \<Rightarrow> ObjectMeta" where
  "readMeta M x = \<lparr> Name = mName x, Namespace = mNamespace x, ResourceVersion = mResourceVersion x,
     Labels = deref [] mapIn M (mLabels x), Annotations = deref [] mapIn M (mAnnotations x),
     Finalizers = deref [] stringsIn M (mFinalizers x),
     DeletionTimestamp = deref None (\<lambda>c. Some (timeIn c)) M (mDeletionTimestamp x),
     OwnerReferences = deref [] ownersIn M (mOwnerReferences x) \<rparr>"

definition refsMeta :: "memory \<Rightarrow> MetaS \<Rightarrow> loc set" where
  "refsMeta M x = set_option (mLabels x) \<union> set_option (mAnnotations x) \<union> set_option (mFinalizers x)
     \<union> set_option (mDeletionTimestamp x) \<union> set_option (mOwnerReferences x)"

definition readListMeta :: "memory \<Rightarrow> ListMetaS \<Rightarrow> string \<times> string \<times> int64 option" where
  "readListMeta M x = (lResourceVersion x, lContinue x, deref None (\<lambda>c. Some (numberIn c)) M (lRemaining x))"

definition refsListMeta :: "memory \<Rightarrow> ListMetaS \<Rightarrow> loc set" where
  "refsListMeta M x = set_option (lRemaining x)"

definition readQuantity :: "memory \<Rightarrow> QuantityS \<Rightarrow> int64" where
  "readQuantity M x = deref (qAmount x) numberIn M (qDecimal x)"

definition refsQuantity :: "memory \<Rightarrow> QuantityS \<Rightarrow> loc set" where
  "refsQuantity M x = set_option (qDecimal x)"

definition readInfo :: "memory \<Rightarrow> InfoS \<Rightarrow> VolumeInfo" where
  "readInfo M x = (iScalars x)\<lparr> UserProperties := deref [] mapIn M (iUserProperties x) \<rparr>"

definition refsInfo :: "memory \<Rightarrow> InfoS \<Rightarrow> loc set" where
  "refsInfo M x = set_option (iUserProperties x)"

definition readPool :: "memory \<Rightarrow> PoolS \<Rightarrow> Pool" where
  "readPool M x = \<lparr> PoolNodeName = pName x, UUID = pUUID x, Free = readQuantity M (pFree x), Used = readQuantity M (pUsed x) \<rparr>"

definition refsPool :: "memory \<Rightarrow> PoolS \<Rightarrow> loc set" where
  "refsPool M x = refsQuantity M (pFree x) \<union> refsQuantity M (pUsed x)"

text \<open>Through a pointer, and through the elements of a slice.\<close>

definition readPtr :: "(cell \<Rightarrow> 'x list) \<Rightarrow> (memory \<Rightarrow> 'x \<Rightarrow> 'v) \<Rightarrow> memory \<Rightarrow> loc option \<Rightarrow> 'v list option" where
  "readPtr unwrap rd M p = map_option (\<lambda>l. map (rd M) (unwrap (cells M l))) p"

definition refsPtr :: "(cell \<Rightarrow> 'x list) \<Rightarrow> (memory \<Rightarrow> 'x \<Rightarrow> loc set) \<Rightarrow> memory \<Rightarrow> loc option \<Rightarrow> loc set" where
  "refsPtr unwrap refs M p = (\<Union>l \<in> set_option p. insert l (\<Union>x \<in> set (unwrap (cells M l)). refs M x))"

definition readVolume :: "memory \<Rightarrow> VolumeS \<Rightarrow> ZFSVolume" where
  "readVolume M x = ObjectMeta.extend (readMeta M (vMeta x)) (ZFSVolume.fields (readInfo M (vSpec x)) (vStatus x))"

definition readSnapshot :: "memory \<Rightarrow> SnapshotS \<Rightarrow> ZFSSnapshot" where
  "readSnapshot M x = ObjectMeta.extend (readMeta M (sMeta x)) (ZFSSnapshot.fields (readInfo M (sSpec x)) (sStatus x))"

definition readBackup :: "memory \<Rightarrow> BackupS \<Rightarrow> ZFSBackup" where
  "readBackup M x = ObjectMeta.extend (readMeta M (bMeta x)) (ZFSBackup.fields (bSpec x) (bStatus x))"

definition readRestore :: "memory \<Rightarrow> RestoreS \<Rightarrow> ZFSRestore" where
  "readRestore M x =
     ObjectMeta.extend (readMeta M (rMeta x)) (ZFSRestore.fields (rSpec x) (readInfo M (rVolSpec x)) (rStatus x))"

definition readNode :: "memory \<Rightarrow> NodeS \<Rightarrow> ZFSNode" where
  "readNode M x = ObjectMeta.extend (readMeta M (nMeta x))
     (ZFSNode.fields (case readPtr poolsIn readPool M (nPools x) of None \<Rightarrow> [] | Some ps \<Rightarrow> ps))"

definition refsVolume :: "memory \<Rightarrow> VolumeS \<Rightarrow> loc set" where
  "refsVolume M x = refsMeta M (vMeta x) \<union> refsInfo M (vSpec x)"

definition refsSnapshot :: "memory \<Rightarrow> SnapshotS \<Rightarrow> loc set" where
  "refsSnapshot M x = refsMeta M (sMeta x) \<union> refsInfo M (sSpec x)"

definition refsBackup :: "memory \<Rightarrow> BackupS \<Rightarrow> loc set" where
  "refsBackup M x = refsMeta M (bMeta x)"

definition refsRestore :: "memory \<Rightarrow> RestoreS \<Rightarrow> loc set" where
  "refsRestore M x = refsMeta M (rMeta x) \<union> refsInfo M (rVolSpec x)"

definition refsNode :: "memory \<Rightarrow> NodeS \<Rightarrow> loc set" where
  "refsNode M x = refsMeta M (nMeta x) \<union> refsPtr poolsIn refsPool M (nPools x)"

definition readList :: "(memory \<Rightarrow> loc option \<Rightarrow> 'v) \<Rightarrow> memory \<Rightarrow> ListS \<Rightarrow> (string \<times> string \<times> int64 option) \<times> 'v" where
  "readList items M x = (readListMeta M (lMeta x), items M (lItems x))"

definition refsList :: "(memory \<Rightarrow> loc option \<Rightarrow> loc set) \<Rightarrow> memory \<Rightarrow> ListS \<Rightarrow> loc set" where
  "refsList items M x = refsListMeta M (lMeta x) \<union> items M (lItems x)"

section \<open>Laws\<close>

definition below :: "memory \<Rightarrow> loc set" where
  "below M = {l. l < nextLoc M}"

definition goodMem :: "memory \<Rightarrow> bool" where
  "goodMem M \<longleftrightarrow> (\<forall>l. distinct (map fst (mapIn (cells M l))))"

definition keepsBelow :: "memory \<Rightarrow> memory \<Rightarrow> bool" where
  "keepsBelow M M' \<longleftrightarrow> nextLoc M \<le> nextLoc M' \<and> (\<forall>l \<in> below M. cells M' l = cells M l)"

text \<open>What is read of a value depends on the locations it refers to only.\<close>

definition localTo :: "(memory \<Rightarrow> 'x \<Rightarrow> 'v) \<Rightarrow> (memory \<Rightarrow> 'x \<Rightarrow> loc set) \<Rightarrow> bool" where
  "localTo rd refs \<longleftrightarrow>
     (\<forall>x M M'. (\<forall>l \<in> refs M x. cells M' l = cells M l) \<longrightarrow> rd M' x = rd M x \<and> refs M' x = refs M x)"

text \<open>A copy reads the same, refers to new locations only, and the old ones are left alone.\<close>

definition copied :: "(memory \<Rightarrow> 'x \<Rightarrow> 'v) \<Rightarrow> (memory \<Rightarrow> 'x \<Rightarrow> loc set) \<Rightarrow> memory \<Rightarrow> 'x \<Rightarrow> memory \<Rightarrow> 'x \<Rightarrow> bool" where
  "copied rd refs M x M' x' \<longleftrightarrow>
     goodMem M' \<and> keepsBelow M M' \<and> rd M' x' = rd M x \<and> refs M' x' \<inter> below M = {} \<and> refs M' x' \<subseteq> below M'"

definition deepCopies :: "(memory \<Rightarrow> 'x \<Rightarrow> 'v) \<Rightarrow> (memory \<Rightarrow> 'x \<Rightarrow> loc set) \<Rightarrow> 'x copier \<Rightarrow> bool" where
  "deepCopies rd refs cp \<longleftrightarrow>
     (\<forall>x M. goodMem M \<and> refs M x \<subseteq> below M \<longrightarrow> copied rd refs M x (snd (cp x M)) (fst (cp x M)))"

text \<open>What the libraries document of their copying functions.\<close>

definition lawful :: "copyLib \<Rightarrow> bool" where
  "lawful L \<longleftrightarrow> deepCopies readMeta refsMeta (copyMeta L) \<and> deepCopies readListMeta refsListMeta (copyListMeta L)
     \<and> deepCopies readQuantity refsQuantity (copyQuantity L)"

text \<open>
  What a caller of a deep copy relies on: it reads as the original, whatever is written to the locations of the copy
  does not change the original, and whatever is written to those of the original does not change the copy.
\<close>

definition isolates :: "(memory \<Rightarrow> 'x \<Rightarrow> 'v) \<Rightarrow> (memory \<Rightarrow> 'x \<Rightarrow> loc set) \<Rightarrow> 'x copier \<Rightarrow> bool" where
  "isolates rd refs cp \<longleftrightarrow>
     (\<forall>x M x' M'. goodMem M \<and> refs M x \<subseteq> below M \<and> cp x M = (x', M') \<longrightarrow>
        rd M' x' = rd M x
      \<and> (\<forall>M''. (\<forall>l. l \<notin> refs M' x' \<longrightarrow> cells M'' l = cells M' l) \<longrightarrow> rd M'' x = rd M x)
      \<and> (\<forall>M''. (\<forall>l. l \<notin> refs M x \<longrightarrow> cells M'' l = cells M' l) \<longrightarrow> rd M'' x' = rd M x))"

text \<open>A library for the examples, which copies every location of its argument, and a small volume in memory.\<close>

definition copyCell :: "loc option copier" where
  "copyCell p M = (case p of None \<Rightarrow> (None, M) | Some l \<Rightarrow> let (l', M1) = alloc (cells M l) M in (Some l', M1))"

definition demoLib :: copyLib where
  "demoLib = \<lparr>
     copyMeta = (\<lambda>x M.
       let (ps, M1) = copyEach copyCell [mLabels x, mAnnotations x, mFinalizers x, mDeletionTimestamp x, mOwnerReferences x] M
       in (x\<lparr> mLabels := ps ! 0, mAnnotations := ps ! 1, mFinalizers := ps ! 2, mDeletionTimestamp := ps ! 3,
              mOwnerReferences := ps ! 4 \<rparr>, M1)),
     copyListMeta = (\<lambda>x M. let (p, M1) = copyCell (lRemaining x) M in (x\<lparr> lRemaining := p \<rparr>, M1)),
     copyQuantity = (\<lambda>x M. let (p, M1) = copyCell (qDecimal x) M in (x\<lparr> qDecimal := p \<rparr>, M1)) \<rparr>"

definition demoMem :: memory where
  "demoMem = \<lparr> cells = (\<lambda>_. StringsCell [])(0 := StringsCell [''f''], 1 := MapCell [(''a'', ''b'')],
     2 := VolumeCells [\<lparr> vMeta = \<lparr> mName = ''v1'', mNamespace = [], mResourceVersion = [], mLabels = None,
       mAnnotations = None, mFinalizers = Some 0, mDeletionTimestamp = None, mOwnerReferences = None \<rparr>,
       vSpec = \<lparr> iScalars = emptyInfo, iUserProperties = Some 1 \<rparr>, vStatus = ''Ready'' \<rparr>]), nextLoc = 3 \<rparr>"

section \<open>Composing copies\<close>

lemma alloc_simps [simp]:
  "fst (alloc c M) = nextLoc M" "nextLoc (snd (alloc c M)) = Suc (nextLoc M)"
  "cells (snd (alloc c M)) = (cells M)(nextLoc M := c)"
  by (simp_all add: alloc_def)

lemma keepsBelow_trans: "keepsBelow M M1 \<Longrightarrow> keepsBelow M1 M2 \<Longrightarrow> keepsBelow M M2"
  by (auto simp: keepsBelow_def below_def)

lemma keepsBelow_refl [simp]: "keepsBelow M M"
  by (simp add: keepsBelow_def)

lemma below_mono: "keepsBelow M M' \<Longrightarrow> below M \<subseteq> below M'"
  by (auto simp: keepsBelow_def below_def)

lemma local_kept: "localTo rd refs \<Longrightarrow> keepsBelow M M' \<Longrightarrow> refs M x \<subseteq> below M \<Longrightarrow> rd M' x = rd M x \<and> refs M' x = refs M x"
  unfolding localTo_def keepsBelow_def by blast

lemma valid_kept: "localTo rd refs \<Longrightarrow> keepsBelow M M' \<Longrightarrow> refs M x \<subseteq> below M \<Longrightarrow> refs M' x \<subseteq> below M'"
  using local_kept [of rd refs M M' x] below_mono [of M M'] by auto

lemma deepCopiesD:
  "deepCopies rd refs cp \<Longrightarrow> goodMem M \<Longrightarrow> refs M x \<subseteq> below M \<Longrightarrow> cp x M = (x', M') \<Longrightarrow> copied rd refs M x M' x'"
  unfolding deepCopies_def by (metis fst_conv snd_conv)

lemma deepCopiesI:
  assumes "\<And>x M x' M'. goodMem M \<Longrightarrow> refs M x \<subseteq> below M \<Longrightarrow> cp x M = (x', M') \<Longrightarrow> copied rd refs M x M' x'"
  shows "deepCopies rd refs cp"
  unfolding deepCopies_def using assms by (metis prod.collapse)

text \<open>Two copies one after the other.\<close>

lemma copied_then:
  assumes loc: "localTo rd1 refs1" "localTo rd2 refs2"
    and c: "copied rd1 refs1 M x M1 x'" "copied rd2 refs2 M1 y M2 y'" and y: "refs2 M y \<subseteq> below M"
  shows "goodMem M2" "keepsBelow M M2" "rd1 M2 x' = rd1 M x" "rd2 M2 y' = rd2 M y" "refs1 M2 x' \<inter> below M = {}"
    "refs2 M2 y' \<inter> below M = {}" "refs1 M2 x' \<subseteq> below M2" "refs2 M2 y' \<subseteq> below M2"
proof -
  from c(1) have c1: "keepsBelow M M1" "rd1 M1 x' = rd1 M x" "refs1 M1 x' \<inter> below M = {}" "refs1 M1 x' \<subseteq> below M1"
    by (simp_all add: copied_def)
  from c(2) have c2: "goodMem M2" "keepsBelow M1 M2" "rd2 M2 y' = rd2 M1 y" "refs2 M2 y' \<inter> below M1 = {}" "refs2 M2 y' \<subseteq> below M2"
    by (simp_all add: copied_def)
  note x' = local_kept [OF loc(1) c2(2) c1(4)] and y' = local_kept [OF loc(2) c1(1) y]
  note b = below_mono [OF c1(1)] below_mono [OF c2(2)]
  show "goodMem M2" "rd1 M2 x' = rd1 M x" "rd2 M2 y' = rd2 M y" "refs2 M2 y' \<subseteq> below M2" using c1(2) c2 x' y' by simp_all
  show "keepsBelow M M2" by (rule keepsBelow_trans [OF c1(1) c2(2)])
  show "refs1 M2 x' \<inter> below M = {}" "refs1 M2 x' \<subseteq> below M2" using c1(3,4) x' b(2) by auto
  show "refs2 M2 y' \<inter> below M = {}" using c2(4) b(1) by blast
qed

lemma local_pair:
  assumes "localTo rd1 refs1" "localTo rd2 refs2"
    and "\<And>M x. rd M x = F x (rd1 M (g1 x)) (rd2 M (g2 x))" "\<And>M x. refs M x = refs1 M (g1 x) \<union> refs2 M (g2 x)"
  shows "localTo rd refs"
  unfolding localTo_def
proof (intro allI impI)
  fix x and M M' :: memory assume "\<forall>l \<in> refs M x. cells M' l = cells M l"
  then have "rd1 M' (g1 x) = rd1 M (g1 x) \<and> refs1 M' (g1 x) = refs1 M (g1 x)" "rd2 M' (g2 x) = rd2 M (g2 x) \<and> refs2 M' (g2 x) = refs2 M (g2 x)"
    using assms(1,2) unfolding localTo_def assms(4) by (metis UnCI)+
  then show "rd M' x = rd M x \<and> refs M' x = refs M x" by (simp add: assms(3,4))
qed

text \<open>A struct of two parts that refer to memory, and one of a single part.\<close>

lemma copies_pair:
  assumes cp1: "localTo rd1 refs1" "deepCopies rd1 refs1 cp1" and cp2: "localTo rd2 refs2" "deepCopies rd2 refs2 cp2"
    and rd: "\<And>M x. rd M x = F x (rd1 M (g1 x)) (rd2 M (g2 x))" "\<And>M x. refs M x = refs1 M (g1 x) \<union> refs2 M (g2 x)"
    and cp: "\<And>x M. cp x M = (let (a, M1) = cp1 (g1 x) M; (b, M2) = cp2 (g2 x) M1 in (put x a b, M2))"
    and put: "\<And>x a b. g1 (put x a b) = a \<and> g2 (put x a b) = b \<and> F (put x a b) = F x"
  shows "deepCopies rd refs cp"
proof (rule deepCopiesI)
  fix x M x' M' assume M: "goodMem M" and v: "refs M x \<subseteq> below M" and run: "cp x M = (x', M')"
  obtain a M1 where a: "cp1 (g1 x) M = (a, M1)" by force
  obtain b M2 where b: "cp2 (g2 x) M1 = (b, M2)" by force
  have v12: "refs1 M (g1 x) \<subseteq> below M" "refs2 M (g2 x) \<subseteq> below M" using v by (auto simp: rd(2))
  note c1 = deepCopiesD [OF cp1(2) M v12(1) a]
  have "goodMem M1" "keepsBelow M M1" using c1 by (simp_all add: copied_def)
  note c2 = deepCopiesD [OF cp2(2) this(1) valid_kept [OF cp2(1) this(2) v12(2)] b]
  have "x' = put x a b" "M' = M2" using run by (simp_all add: cp a b)
  then show "copied rd refs M x M' x'"
    using copied_then [OF cp1(1) cp2(1) c1 c2 v12(2)] by (simp add: copied_def rd put Int_Un_distrib2)
qed

lemma copies_one:
  assumes "localTo rd1 refs1" "deepCopies rd1 refs1 cp1"
    and rd: "\<And>M x. rd M x = F x (rd1 M (g1 x))" "\<And>M x. refs M x = refs1 M (g1 x)"
    and cp: "\<And>x M. cp x M = (let (a, M1) = cp1 (g1 x) M in (put x a, M1))"
    and put: "\<And>x a M M1. cp1 (g1 x) M = (a, M1) \<Longrightarrow> g1 (put x a) = a \<and> F (put x a) = F x"
  shows "localTo rd refs" "deepCopies rd refs cp"
proof -
  show "localTo rd refs" using assms(1) unfolding localTo_def rd by metis
  show "deepCopies rd refs cp"
  proof (rule deepCopiesI)
    fix x M x' M' assume M: "goodMem M" and v: "refs M x \<subseteq> below M" and run: "cp x M = (x', M')"
    obtain a where a: "cp1 (g1 x) M = (a, M')" "x' = put x a" using run by (auto simp: cp split: prod.splits)
    from deepCopiesD [OF assms(2) M v [unfolded rd] a(1)] show "copied rd refs M x M' x'" by (simp add: copied_def rd put [OF a(1)] a(2))
  qed
qed

lemma copies_plain: "localTo (\<lambda>M x. x) (\<lambda>M x. {})" "deepCopies (\<lambda>M x. x) (\<lambda>M x. {}) copyPlain"
  by (simp_all add: localTo_def deepCopies_def copied_def copyPlain_def)

text \<open>The copy of a map has the same entries.\<close>

lemma fold_update: "distinct (map fst m) \<Longrightarrow> fst ` set m \<inter> fst ` set acc = {} \<Longrightarrow>
    fold (\<lambda>(key, val). AList.update key val) m acc = acc @ m"
proof (induction m arbitrary: acc)
  case (Cons kv m)
  obtain k v where kv: "kv = (k, v)" by (cases kv)
  have "AList.update k v acc = acc @ [(k, v)]" if "k \<notin> fst ` set acc" for acc :: "('a \<times> 'b) list"
    using that by (induction acc) auto
  with Cons kv show ?case by auto
qed simp

lemma copies_map:
  "localTo (deref [] mapIn) (\<lambda>M. set_option)" "deepCopies (deref [] mapIn) (\<lambda>M. set_option) copyMap"
proof -
  show "localTo (deref [] mapIn) (\<lambda>M. set_option)" by (auto simp: localTo_def deref_def split: option.split)
  show "deepCopies (deref [] mapIn) (\<lambda>M. set_option) copyMap"
  proof (rule deepCopiesI)
    fix p p' :: "loc option" and M M'
    assume M: "goodMem M" and v: "set_option p \<subseteq> below M" and run: "copyMap p M = (p', M')"
    show "copied (deref [] mapIn) (\<lambda>M. set_option) M p M' p'"
    proof (cases p)
      case (Some l)
      have "fold (\<lambda>(key, val). AList.update key val) (mapIn (cells M l)) [] = mapIn (cells M l)"
        using M fold_update [of "mapIn (cells M l)" "[]"] by (simp add: goodMem_def)
      with run Some have "p' = Some (nextLoc M)" "M' = snd (alloc (MapCell (mapIn (cells M l))) M)"
        by (auto simp: copyMap_def alloc_def)
      then show ?thesis using M Some v by (auto simp: copied_def goodMem_def keepsBelow_def below_def deref_def)
    qed (use M run in \<open>simp add: copyMap_def copied_def\<close>)
  qed
qed

section \<open>Pointers and slices\<close>

text \<open>What holds of a struct holds of slices of it and of pointers to it.\<close>

locale struct_copy =
  fixes rd :: "memory \<Rightarrow> 'x \<Rightarrow> 'v" and refs :: "memory \<Rightarrow> 'x \<Rightarrow> loc set" and cp :: "'x copier"
  assumes local: "localTo rd refs" and copies: "deepCopies rd refs cp"
begin

lemma local_each: "localTo (\<lambda>M. map (rd M)) (\<lambda>M xs. \<Union>x \<in> set xs. refs M x)"
  unfolding localTo_def
proof (intro allI impI)
  fix xs and M M' :: memory assume same: "\<forall>l \<in> (\<Union>x \<in> set xs. refs M x). cells M' l = cells M l"
  have "rd M' x = rd M x \<and> refs M' x = refs M x" if "x \<in> set xs" for x
    by (rule local [unfolded localTo_def, rule_format]) (use same that in blast)
  then show "map (rd M') xs = map (rd M) xs \<and> (\<Union>x \<in> set xs. refs M' x) = (\<Union>x \<in> set xs. refs M x)" by simp
qed

lemma copies_each: "deepCopies (\<lambda>M. map (rd M)) (\<lambda>M xs. \<Union>x \<in> set xs. refs M x) (copyEach cp)"
proof (rule deepCopiesI)
  let ?rd = "\<lambda>M. map (rd M)" and ?refs = "\<lambda>M xs. \<Union>x \<in> set xs. refs M x"
  fix xs M xs' M'
  show "goodMem M \<Longrightarrow> ?refs M xs \<subseteq> below M \<Longrightarrow> copyEach cp xs M = (xs', M') \<Longrightarrow> copied ?rd ?refs M xs M' xs'"
  proof (induction xs arbitrary: M xs' M')
    case (Cons x xs)
    obtain a M1 where a: "cp x M = (a, M1)" by force
    obtain as M2 where as: "copyEach cp xs M1 = (as, M2)" by force
    have v: "refs M x \<subseteq> below M" "?refs M xs \<subseteq> below M" using Cons.prems(2) by auto
    note c1 = deepCopiesD [OF copies Cons.prems(1) v(1) a]
    have "goodMem M1" "keepsBelow M M1" using c1 by (simp_all add: copied_def)
    note c2 = Cons.IH [OF this(1) valid_kept [OF local_each this(2) v(2)] as]
    have "xs' = a # as" "M' = M2" using Cons.prems(3) by (simp_all add: a as)
    then show ?case
      using copied_then [OF local local_each c1 c2 v(2)] by (simp add: copied_def Int_Un_distrib2)
  qed (simp add: copied_def)
qed

end

locale deep_copy = struct_copy rd refs cp
  for rd :: "memory \<Rightarrow> 'x \<Rightarrow> 'v" and refs :: "memory \<Rightarrow> 'x \<Rightarrow> loc set" and cp :: "'x copier" +
  fixes wrap :: "'x list \<Rightarrow> cell" and unwrap :: "cell \<Rightarrow> 'x list"
  assumes unwrap_wrap: "unwrap (wrap xs) = xs" and no_map: "mapIn (wrap xs) = []"
begin

lemma local_ptr: "localTo (readPtr unwrap rd) (refsPtr unwrap refs)"
  unfolding localTo_def
proof (intro allI impI)
  fix p and M M' :: memory assume same: "\<forall>l \<in> refsPtr unwrap refs M p. cells M' l = cells M l"
  show "readPtr unwrap rd M' p = readPtr unwrap rd M p \<and> refsPtr unwrap refs M' p = refsPtr unwrap refs M p"
  proof (cases p)
    case (Some l)
    with same have l: "cells M' l = cells M l" "\<forall>k \<in> (\<Union>x \<in> set (unwrap (cells M l)). refs M x). cells M' k = cells M k"
      by (auto simp: refsPtr_def)
    from local_each [unfolded localTo_def, rule_format, OF l(2) [rule_format]] l(1) show ?thesis
      by (simp add: Some readPtr_def refsPtr_def)
  qed (simp add: readPtr_def refsPtr_def)
qed

lemma copies_ptr: "deepCopies (readPtr unwrap rd) (refsPtr unwrap refs) (copyPtr wrap unwrap cp)"
proof (rule deepCopiesI)
  fix p M p' M'
  assume M: "goodMem M" and v: "refsPtr unwrap refs M p \<subseteq> below M" and run: "copyPtr wrap unwrap cp p M = (p', M')"
  show "copied (readPtr unwrap rd) (refsPtr unwrap refs) M p M' p'"
  proof (cases p)
    case (Some l)
    obtain xs M1 where xs: "copyEach cp (unwrap (cells M l)) M = (xs, M1)" by force
    have "(\<Union>x \<in> set (unwrap (cells M l)). refs M x) \<subseteq> below M" using v Some by (auto simp: refsPtr_def)
    note c = deepCopiesD [OF copies_each M this xs, unfolded copied_def]
    have p': "p' = Some (nextLoc M1)" "M' = snd (alloc (wrap xs) M1)"
      using run Some xs by (auto simp: copyPtr_def alloc_def)
    have k: "keepsBelow M1 M'" by (auto simp: p' keepsBelow_def below_def)
    note kept = local_kept [OF local_each k, of xs]
    have "cells M' (nextLoc M1) = wrap xs" by (simp add: p')
    moreover have "nextLoc M1 \<in> below M'" "nextLoc M1 \<notin> below M" using c by (auto simp: p' below_def keepsBelow_def)
    moreover have "goodMem M'" using c no_map by (auto simp: p' goodMem_def)
    moreover have "below M1 \<subseteq> below M'" by (rule below_mono [OF k])
    ultimately show ?thesis
      using c kept keepsBelow_trans [OF _ k, of M] by (auto simp: copied_def Some p'(1) readPtr_def refsPtr_def unwrap_wrap)
  qed (use M run in \<open>simp add: copyPtr_def copied_def readPtr_def refsPtr_def\<close>)
qed

end

section \<open>The types\<close>

interpretation info: deep_copy readInfo refsInfo VolumeInfo_DeepCopyInto InfoCells infosIn
proof -
  note one = copies_one [OF copies_map, of readInfo "\<lambda>x v. (iScalars x)\<lparr> UserProperties := v \<rparr>" iUserProperties refsInfo
    VolumeInfo_DeepCopyInto "\<lambda>x p. x\<lparr> iUserProperties := p \<rparr>"]
  show "deep_copy readInfo refsInfo VolumeInfo_DeepCopyInto InfoCells infosIn"
    by unfold_locales (rule one; simp add: readInfo_def refsInfo_def VolumeInfo_DeepCopyInto_def; fail | simp)+
qed

lemma copyPlain_eq: "SnapStatus_DeepCopyInto = copyPlain" "VolStatus_DeepCopyInto = copyPlain"
    "ZFSBackupSpec_DeepCopyInto = copyPlain" "ZFSRestoreSpec_DeepCopyInto = copyPlain"
  by (rule ext, rule ext, simp add: SnapStatus_DeepCopyInto_def VolStatus_DeepCopyInto_def ZFSBackupSpec_DeepCopyInto_def
    ZFSRestoreSpec_DeepCopyInto_def)+

interpretation status: deep_copy "\<lambda>M x. x" "\<lambda>M x. {}" VolStatus_DeepCopyInto StatusCells statusIn
  by unfold_locales (simp_all add: copies_plain copyPlain_eq)

interpretation backupSpec: deep_copy "\<lambda>M x. x" "\<lambda>M x. {}" ZFSBackupSpec_DeepCopyInto BackupSpecCells backupSpecsIn
  by unfold_locales (simp_all add: copies_plain copyPlain_eq)

interpretation restoreSpec: deep_copy "\<lambda>M x. x" "\<lambda>M x. {}" ZFSRestoreSpec_DeepCopyInto RestoreSpecCells restoreSpecsIn
  by unfold_locales (simp_all add: copies_plain copyPlain_eq)

lemma local_lib: "localTo readMeta refsMeta" "localTo readListMeta refsListMeta" "localTo readQuantity refsQuantity"
  by (auto simp: localTo_def readMeta_def refsMeta_def readListMeta_def refsListMeta_def readQuantity_def refsQuantity_def
    deref_def split: option.split)

text \<open>The structs with metadata or quantities copy deeply if the library does.\<close>

lemma deep_pair:
  assumes "localTo rd1 refs1" "deepCopies rd1 refs1 cp1" "localTo rd2 refs2" "deepCopies rd2 refs2 cp2"
    and "\<And>M x. rd M x = F x (rd1 M (g1 x)) (rd2 M (g2 x))" "\<And>M x. refs M x = refs1 M (g1 x) \<union> refs2 M (g2 x)"
    and "\<And>x M. cp x M = (let (a, M1) = cp1 (g1 x) M; (b, M2) = cp2 (g2 x) M1 in (put x a b, M2))"
    and "\<And>x a b. g1 (put x a b) = a \<and> g2 (put x a b) = b \<and> F (put x a b) = F x"
    and "\<And>xs. unwrap (wrap xs) = xs \<and> mapIn (wrap xs) = []"
  shows "deep_copy rd refs cp wrap unwrap"
  by unfold_locales (rule local_pair [OF assms(1,3), of rd F g1 g2, OF assms(5,6)],
    rule copies_pair [OF assms(1-4), of rd F g1 g2 refs cp put, OF assms(5-8)], simp_all add: assms(9))

lemma lawfulD:
  "lawful L \<Longrightarrow> deepCopies readMeta refsMeta (copyMeta L)" "lawful L \<Longrightarrow> deepCopies readListMeta refsListMeta (copyListMeta L)"
  "lawful L \<Longrightarrow> deepCopies readQuantity refsQuantity (copyQuantity L)"
  by (simp_all add: lawful_def)

lemmas meta_local = local_lib(1) and list_local = local_lib(2) and quantity_local = local_lib(3)

lemma pool_deep: "lawful L \<Longrightarrow> deep_copy readPool refsPool (Pool_DeepCopyInto L) PoolCells poolsIn"
  by (rule deep_pair [OF quantity_local lawfulD(3) quantity_local lawfulD(3),
      where F = "\<lambda>x f u. \<lparr> PoolNodeName = pName x, UUID = pUUID x, Free = f, Used = u \<rparr>" and put = "\<lambda>x f u. x\<lparr> pFree := f, pUsed := u \<rparr>" and ?g1.0 = pFree and ?g2.0 = pUsed])
    (simp_all add: readPool_def refsPool_def Pool_DeepCopyInto_def)

lemma volume_deep: "lawful L \<Longrightarrow> deep_copy readVolume refsVolume (ZFSVolume_DeepCopyInto L) VolumeCells volumesIn"
  by (rule deep_pair [OF meta_local lawfulD(1) info.local info.copies,
      where F = "\<lambda>x m s. ObjectMeta.extend m (ZFSVolume.fields s (vStatus x))" and put = "\<lambda>x m s. x\<lparr> vMeta := m, vSpec := s \<rparr>" and ?g1.0 = vMeta and ?g2.0 = vSpec])
    (simp_all add: readVolume_def refsVolume_def ZFSVolume_DeepCopyInto_def)

lemma snapshot_deep: "lawful L \<Longrightarrow> deep_copy readSnapshot refsSnapshot (ZFSSnapshot_DeepCopyInto L) SnapshotCells snapshotsIn"
  by (rule deep_pair [OF meta_local lawfulD(1) info.local info.copies,
      where F = "\<lambda>x m s. ObjectMeta.extend m (ZFSSnapshot.fields s (sStatus x))" and put = "\<lambda>x m s. x\<lparr> sMeta := m, sSpec := s \<rparr>" and ?g1.0 = sMeta and ?g2.0 = sSpec])
    (simp_all add: readSnapshot_def refsSnapshot_def ZFSSnapshot_DeepCopyInto_def)

lemma restore_deep: "lawful L \<Longrightarrow> deep_copy readRestore refsRestore (ZFSRestore_DeepCopyInto L) RestoreCells restoresIn"
  by (rule deep_pair [OF meta_local lawfulD(1) info.local info.copies,
      where F = "\<lambda>x m s. ObjectMeta.extend m (ZFSRestore.fields (rSpec x) s (rStatus x))"
        and put = "\<lambda>x m s. x\<lparr> rMeta := m, rVolSpec := s \<rparr>" and ?g1.0 = rMeta and ?g2.0 = rVolSpec])
    (simp_all add: readRestore_def refsRestore_def ZFSRestore_DeepCopyInto_def)

lemma node_deep:
  assumes "lawful L"
  shows "deep_copy readNode refsNode (ZFSNode_DeepCopyInto L) NodeCells nodesIn"
  by (rule deep_pair [OF meta_local lawfulD(1) deep_copy.local_ptr [OF pool_deep] deep_copy.copies_ptr [OF pool_deep], OF assms assms assms,
      where F = "\<lambda>x m ps. ObjectMeta.extend m (ZFSNode.fields (case ps of None \<Rightarrow> [] | Some ps \<Rightarrow> ps))"
        and put = "\<lambda>x m p. x\<lparr> nMeta := m, nPools := p \<rparr>" and ?g1.0 = nMeta and ?g2.0 = nPools])
    (simp_all add: readNode_def refsNode_def ZFSNode_DeepCopyInto_def)

lemma backup_deep: "lawful L \<Longrightarrow> deep_copy readBackup refsBackup (ZFSBackup_DeepCopyInto L) BackupCells backupsIn"
  by (rule deep_pair [OF meta_local lawfulD(1) copies_plain,
      where F = "\<lambda>x m s. ObjectMeta.extend m (ZFSBackup.fields s (bStatus x))" and put = "\<lambda>x m s. x\<lparr> bMeta := m, bSpec := s \<rparr>" and ?g1.0 = bMeta and ?g2.0 = bSpec])
    (simp_all add: readBackup_def refsBackup_def ZFSBackup_DeepCopyInto_def copyPlain_def split: prod.split)

text \<open>Lists of objects.\<close>

lemma list_deep:
  "lawful L \<Longrightarrow> localTo rd refs \<Longrightarrow> deepCopies rd refs items \<Longrightarrow>
   deep_copy (readList rd) (refsList refs) (copyList L items) ListCells listsIn"
  by (rule deep_pair [OF list_local lawfulD(2), where F = "\<lambda>x. Pair" and put = "\<lambda>x m p. x\<lparr> lMeta := m, lItems := p \<rparr>" and ?g1.0 = lMeta and ?g2.0 = lItems])
    (simp_all add: readList_def refsList_def copyList_def)

section \<open>Isolation\<close>

lemma copies_isolate:
  assumes loc: "localTo rd refs" and cp: "deepCopies rd refs cp"
  shows "isolates rd refs cp"
  unfolding isolates_def
proof (intro allI impI, elim conjE, intro conjI allI impI)
  fix x M x' M' assume M: "goodMem M" "refs M x \<subseteq> below M" and run: "cp x M = (x', M')"
  note c = deepCopiesD [OF cp M run, unfolded copied_def]
  then show "rd M' x' = rd M x" by blast
  have old: "cells M' l = cells M l" if "l \<in> refs M x" for l using c M(2) that by (auto simp: keepsBelow_def)
  fix M'' :: memory
  {
    assume "\<forall>l. l \<notin> refs M' x' \<longrightarrow> cells M'' l = cells M' l"
    with c M(2) old have "\<forall>l \<in> refs M x. cells M'' l = cells M l" by fastforce
    then show "rd M'' x = rd M x" using loc [unfolded localTo_def, rule_format, of M x M''] by blast
  next
    assume "\<forall>l. l \<notin> refs M x \<longrightarrow> cells M'' l = cells M' l"
    with c M(2) have "\<forall>l \<in> refs M' x'. cells M'' l = cells M' l" by blast
    then show "rd M'' x' = rd M x" using loc [unfolded localTo_def, rule_format, of M' x' M''] c by auto
  }
qed

lemma isolate_ptr:
  assumes "deep_copy rd refs cp wrap unwrap"
  shows "isolates (readPtr unwrap rd) (refsPtr unwrap refs) (copyPtr wrap unwrap cp)"
  by (rule copies_isolate [OF deep_copy.local_ptr [OF assms] deep_copy.copies_ptr [OF assms]])

lemma isolate_list:
  assumes "lawful L" "deep_copy rd refs cp wrap unwrap"
  shows "isolates (readPtr listsIn (readList (readPtr unwrap rd))) (refsPtr listsIn (refsList (refsPtr unwrap refs)))
    (copyPtr ListCells listsIn (copyList L (copyPtr wrap unwrap cp)))"
  by (rule isolate_ptr [OF list_deep [OF assms(1) deep_copy.local_ptr [OF assms(2)] deep_copy.copies_ptr [OF assms(2)]]])

text \<open>The functions in terms of the generic ones.\<close>

lemma copy_eqs:
  "ZFSVolume_DeepCopy L = copyPtr VolumeCells volumesIn (ZFSVolume_DeepCopyInto L)"
  "ZFSVolumeList_DeepCopy L = copyPtr ListCells listsIn (copyList L (copyPtr VolumeCells volumesIn (ZFSVolume_DeepCopyInto L)))"
  "ZFSSnapshot_DeepCopy L = copyPtr SnapshotCells snapshotsIn (ZFSSnapshot_DeepCopyInto L)"
  "ZFSSnapshotList_DeepCopy L = copyPtr ListCells listsIn (copyList L (copyPtr SnapshotCells snapshotsIn (ZFSSnapshot_DeepCopyInto L)))"
  "ZFSBackup_DeepCopy L = copyPtr BackupCells backupsIn (ZFSBackup_DeepCopyInto L)"
  "ZFSBackupList_DeepCopy L = copyPtr ListCells listsIn (copyList L (copyPtr BackupCells backupsIn (ZFSBackup_DeepCopyInto L)))"
  "ZFSRestore_DeepCopy L = copyPtr RestoreCells restoresIn (ZFSRestore_DeepCopyInto L)"
  "ZFSRestoreList_DeepCopy L = copyPtr ListCells listsIn (copyList L (copyPtr RestoreCells restoresIn (ZFSRestore_DeepCopyInto L)))"
  "ZFSNode_DeepCopy L = copyPtr NodeCells nodesIn (ZFSNode_DeepCopyInto L)"
  "ZFSNodeList_DeepCopy L = copyPtr ListCells listsIn (copyList L (copyPtr NodeCells nodesIn (ZFSNode_DeepCopyInto L)))"
  by ((rule ext)+, simp add: ZFSVolume_DeepCopy_def ZFSVolumeList_DeepCopy_def ZFSVolumeList_DeepCopyInto_def [abs_def] ZFSSnapshot_DeepCopy_def ZFSSnapshotList_DeepCopy_def ZFSSnapshotList_DeepCopyInto_def [abs_def] ZFSBackup_DeepCopy_def ZFSBackupList_DeepCopy_def ZFSBackupList_DeepCopyInto_def [abs_def] ZFSRestore_DeepCopy_def ZFSRestoreList_DeepCopy_def ZFSRestoreList_DeepCopyInto_def [abs_def] ZFSNode_DeepCopy_def ZFSNodeList_DeepCopy_def ZFSNodeList_DeepCopyInto_def [abs_def])+

section \<open>The library of the examples\<close>

interpretation raw: struct_copy "\<lambda>M. map_option (cells M)" "\<lambda>M. set_option" copyCell
proof
  show "localTo (\<lambda>M. map_option (cells M)) (\<lambda>M. set_option)" by (auto simp: localTo_def map_option_case split: option.split)
  show "deepCopies (\<lambda>M. map_option (cells M)) (\<lambda>M. set_option) copyCell"
  proof (rule deepCopiesI)
    fix p p' :: "loc option" and M M'
    assume "goodMem M" "set_option p \<subseteq> below M" "copyCell p M = (p', M')"
    then show "copied (\<lambda>M. map_option (cells M)) (\<lambda>M. set_option) M p M' p'"
      by (cases p) (auto simp: copyCell_def alloc_def copied_def goodMem_def keepsBelow_def below_def)
  qed
qed

lemma deref_raw: "deref d f M p = (case map_option (cells M) p of None \<Rightarrow> d | Some c \<Rightarrow> f c)"
  by (simp add: deref_def split: option.split)

lemma copyEach_length: "copyEach cp xs M = (ys, M') \<Longrightarrow> length ys = length xs"
  by (induction xs arbitrary: ys M M') (auto split: prod.splits)

lemma demoLib_lawful: "lawful demoLib"
proof -
  let ?parts = "\<lambda>x. [mLabels x, mAnnotations x, mFinalizers x, mDeletionTimestamp x, mOwnerReferences x]"
  let ?at = "\<lambda>d f c. case c of None \<Rightarrow> d | Some c \<Rightarrow> f c"
  let ?F = "\<lambda>x cs. \<lparr> Name = mName x, Namespace = mNamespace x, ResourceVersion = mResourceVersion x,
     Labels = ?at [] mapIn (cs ! 0), Annotations = ?at [] mapIn (cs ! 1), Finalizers = ?at [] stringsIn (cs ! 2),
     DeletionTimestamp = ?at None (\<lambda>c. Some (timeIn c)) (cs ! 3), OwnerReferences = ?at [] ownersIn (cs ! 4) \<rparr>"
  let ?put = "\<lambda>x ps. x\<lparr> mLabels := ps ! 0, mAnnotations := ps ! 1, mFinalizers := ps ! 2, mDeletionTimestamp := ps ! 3,
     mOwnerReferences := ps ! 4 \<rparr>"
  have five: "[ps ! 0, ps ! 1, ps ! 2, ps ! 3, ps ! 4] = ps" if "length ps = 5" for ps :: "loc option list"
    using that by (auto simp: numeral_eq_Suc length_Suc_conv)
  have "deepCopies readMeta refsMeta (copyMeta demoLib)"
  proof (rule copies_one(2) [OF raw.local_each raw.copies_each, of _ ?F ?parts _ _ ?put])
    fix x a M M1 assume "copyEach copyCell (?parts x) M = (a, M1)"
    then have "length a = 5" using copyEach_length by fastforce
    from five [OF this] show "?parts (?put x a) = a \<and> ?F (?put x a) = ?F x" by simp
  qed (auto simp: readMeta_def refsMeta_def demoLib_def deref_raw)
  moreover have "deepCopies readListMeta refsListMeta (copyListMeta demoLib)"
    by (rule copies_one(2) [OF raw.local raw.copies, of _ "\<lambda>x c. (lResourceVersion x, lContinue x, ?at None (\<lambda>c. Some (numberIn c)) c)"
        lRemaining _ _ "\<lambda>x p. x\<lparr> lRemaining := p \<rparr>"]) (simp_all add: readListMeta_def refsListMeta_def demoLib_def deref_raw)
  moreover have "deepCopies readQuantity refsQuantity (copyQuantity demoLib)"
    by (rule copies_one(2) [OF raw.local raw.copies, of _ "\<lambda>x c. ?at (qAmount x) numberIn c" qDecimal _ _ "\<lambda>x p. x\<lparr> qDecimal := p \<rparr>"])
      (simp_all add: readQuantity_def refsQuantity_def demoLib_def deref_raw fun_eq_iff split: option.split)
  ultimately show ?thesis by (simp add: lawful_def)
qed

section \<open>Properties\<close>

text \<open>C36: A deep copy is independent of the object it was made from: for every kind of object and every list of them, the
  copy reads as the original, nothing written through the copy changes what is read of the original, and the other way
  round, as long as the library copies metadata and quantities deeply.\<close>
theorem deep_copies_isolate:
  assumes "lawful L"
  shows "isolates (readPtr volumesIn readVolume) (refsPtr volumesIn refsVolume) (ZFSVolume_DeepCopy L)
       \<and> isolates (readPtr snapshotsIn readSnapshot) (refsPtr snapshotsIn refsSnapshot) (ZFSSnapshot_DeepCopy L)
       \<and> isolates (readPtr backupsIn readBackup) (refsPtr backupsIn refsBackup) (ZFSBackup_DeepCopy L)
       \<and> isolates (readPtr restoresIn readRestore) (refsPtr restoresIn refsRestore) (ZFSRestore_DeepCopy L)
       \<and> isolates (readPtr nodesIn readNode) (refsPtr nodesIn refsNode) (ZFSNode_DeepCopy L)
       \<and> isolates (readPtr listsIn (readList (readPtr volumesIn readVolume)))
          (refsPtr listsIn (refsList (refsPtr volumesIn refsVolume))) (ZFSVolumeList_DeepCopy L)
       \<and> isolates (readPtr listsIn (readList (readPtr snapshotsIn readSnapshot)))
          (refsPtr listsIn (refsList (refsPtr snapshotsIn refsSnapshot))) (ZFSSnapshotList_DeepCopy L)
       \<and> isolates (readPtr listsIn (readList (readPtr backupsIn readBackup)))
          (refsPtr listsIn (refsList (refsPtr backupsIn refsBackup))) (ZFSBackupList_DeepCopy L)
       \<and> isolates (readPtr listsIn (readList (readPtr restoresIn readRestore)))
          (refsPtr listsIn (refsList (refsPtr restoresIn refsRestore))) (ZFSRestoreList_DeepCopy L)
       \<and> isolates (readPtr listsIn (readList (readPtr nodesIn readNode)))
          (refsPtr listsIn (refsList (refsPtr nodesIn refsNode))) (ZFSNodeList_DeepCopy L)"
proof -
  note deep = volume_deep [OF assms] snapshot_deep [OF assms] backup_deep [OF assms] restore_deep [OF assms] node_deep [OF assms]
  note single = deep [THEN isolate_ptr] and list = deep [THEN isolate_list [OF assms]]
  show ?thesis using single list unfolding copy_eqs by simp
qed

text \<open>Writing to the finalizers of a copy leaves the original as it was.\<close>

theorem deep_copies_isolate_witness:
  "let (p, M) = ZFSVolume_DeepCopy demoLib (Some 2) demoMem; M2 = M\<lparr> cells := (cells M)(3 := StringsCell []) \<rparr>
   in map_option (map Finalizers) (readPtr volumesIn readVolume M p) = Some [[''f'']]
      \<and> map_option (map Finalizers) (readPtr volumesIn readVolume M2 p) = Some [[]]
      \<and> readPtr volumesIn readVolume M2 (Some 2) = readPtr volumesIn readVolume demoMem (Some 2)"
proof -
  obtain p M where run: "ZFSVolume_DeepCopy demoLib (Some 2) demoMem = (p, M)" by force
  let ?M2 = "M\<lparr> cells := (cells M)(3 := StringsCell []) \<rparr>"
  note eval = ZFSVolume_DeepCopy_def copyPtr_def ZFSVolume_DeepCopyInto_def VolumeInfo_DeepCopyInto_def copyMap_def
    demoLib_def demoMem_def copyCell_def alloc_def refsPtr_def refsVolume_def refsMeta_def refsInfo_def
    readPtr_def readVolume_def readMeta_def deref_def ObjectMeta.extend_def
  have iso: "isolates (readPtr volumesIn readVolume) (refsPtr volumesIn refsVolume) (ZFSVolume_DeepCopy demoLib)"
    using deep_copies_isolate [OF demoLib_lawful] by blast
  have "goodMem demoMem" "refsPtr volumesIn refsVolume demoMem (Some 2) \<subseteq> below demoMem"
    by (simp_all add: goodMem_def below_def eval)
  moreover have p: "3 \<in> refsPtr volumesIn refsVolume M p"
    "map_option (map Finalizers) (readPtr volumesIn readVolume M p) = Some [[''f'']]"
    "map_option (map Finalizers) (readPtr volumesIn readVolume ?M2 p) = Some [[]]"
    using run by (auto simp: eval)
  moreover have "\<forall>l. l \<notin> refsPtr volumesIn refsVolume M p \<longrightarrow> cells ?M2 l = cells M l" using p(1) by auto
  ultimately have "readPtr volumesIn readVolume ?M2 (Some 2) = readPtr volumesIn readVolume demoMem (Some 2)"
    using iso [unfolded isolates_def] run by blast
  with p(2,3) show ?thesis unfolding Let_def run by simp
qed

text \<open>An interface value that holds a copy is nil exactly if the pointer was.\<close>

lemma copyObject_nil: "fst (copyObject as (copyPtr wrap unwrap cp) p M) = None \<longleftrightarrow> p = None"
  by (simp add: copyObject_def copyPtr_def split: option.split prod.split)

end
