(* ===== verification/Informers.thy ===== *)
theory Informers
  imports Prelude
begin

text \<open>
  The generated informers of \<open>pkg/generated/informer/externalversions\<close>: the factory that shares one informer per type
  and starts each one once, and the informers of the five types. The factory's methods run under its lock, so
  their interleavings are sequences of whole calls; an informer's goroutine ends on its own.
\<close>

section \<open>Informers\<close>

datatype crd = Volumes | Snapshots | Backups | Restores | Nodes

record ListOptions =
  LabelSelector :: string
  FieldSelector :: string

text \<open>An informer of a type: what it asks the API server for, and the handlers that were added to it.\<close>

record informer =
  iType :: crd
  iNamespace :: string
  iResync :: nat
  iIndexers :: "string list"
  iTweak :: "(ListOptions \<Rightarrow> ListOptions) option"
  iTransform :: "string option"
  iHandlers :: "string list"

type_synonym newInformer = "nat \<Rightarrow> informer"

text \<open>The list and watch functions of an informer apply the tweak to the options and ask for its type and namespace.\<close>

definition listRequest :: "informer \<Rightarrow> ListOptions \<Rightarrow> crd \<times> string \<times> ListOptions" where
  "listRequest i options =
     (iType i, iNamespace i, case iTweak i of None \<Rightarrow> options | Some tweak \<Rightarrow> tweak options)"

definition NewFilteredInformer ::
  "crd \<Rightarrow> string \<Rightarrow> nat \<Rightarrow> string list \<Rightarrow> (ListOptions \<Rightarrow> ListOptions) option \<Rightarrow> informer" where
  "NewFilteredInformer t ns resync indexers tweak =
     \<lparr> iType = t, iNamespace = ns, iResync = resync, iIndexers = indexers, iTweak = tweak, iTransform = None, iHandlers = [] \<rparr>"

section \<open>The factory\<close>

text \<open>
  \<open>runs\<close> lists the types whose informer was run, oldest first, and \<open>running\<close> those that still run; the wait group counts
  them in \<open>wg\<close>.
\<close>

record factory =
  namespace :: string
  tweakListOptions :: "(ListOptions \<Rightarrow> ListOptions) option"
  defaultResync :: nat
  customResync :: "(crd \<times> nat) list"
  transform :: "string option"
  informers :: "(crd \<times> informer) list"
  startedInformers :: "crd list"
  wg :: nat
  shuttingDown :: bool
  runs :: "crd list"
  running :: "crd list"

definition WithCustomResyncConfig :: "(crd \<times> nat) list \<Rightarrow> factory \<Rightarrow> factory" where
  "WithCustomResyncConfig config f = f\<lparr> customResync := fold (\<lambda>(k, v). AList.update k v) config (customResync f) \<rparr>"

definition WithTweakListOptions :: "(ListOptions \<Rightarrow> ListOptions) option \<Rightarrow> factory \<Rightarrow> factory" where
  "WithTweakListOptions tweak f = f\<lparr> tweakListOptions := tweak \<rparr>"

definition WithNamespace :: "string \<Rightarrow> factory \<Rightarrow> factory" where
  "WithNamespace ns f = f\<lparr> namespace := ns \<rparr>"

definition WithTransform :: "string option \<Rightarrow> factory \<Rightarrow> factory" where
  "WithTransform tr f = f\<lparr> transform := tr \<rparr>"

datatype factoryOption = OptResync "(crd \<times> nat) list" | OptTweak "(ListOptions \<Rightarrow> ListOptions) option"
  | OptInNamespace string | OptTransform "string option"

fun setFactory :: "factoryOption \<Rightarrow> factory \<Rightarrow> factory" where
  "setFactory (OptResync config) f = WithCustomResyncConfig config f"
| "setFactory (OptTweak tweak) f = WithTweakListOptions tweak f"
| "setFactory (OptInNamespace ns) f = WithNamespace ns f"
| "setFactory (OptTransform tr) f = WithTransform tr f"

definition NewSharedInformerFactoryWithOptions :: "nat \<Rightarrow> factoryOption list \<Rightarrow> factory" where
  "NewSharedInformerFactoryWithOptions resync options =
     fold setFactory options
       \<lparr> namespace = [], tweakListOptions = None, defaultResync = resync, customResync = [], transform = None, informers = [],
         startedInformers = [], wg = 0, shuttingDown = False, runs = [], running = [] \<rparr>"

definition NewSharedInformerFactory :: "nat \<Rightarrow> factory" where
  "NewSharedInformerFactory resync = NewSharedInformerFactoryWithOptions resync []"

definition NewFilteredSharedInformerFactory ::
  "nat \<Rightarrow> string \<Rightarrow> (ListOptions \<Rightarrow> ListOptions) option \<Rightarrow> factory" where
  "NewFilteredSharedInformerFactory resync ns tweak =
     NewSharedInformerFactoryWithOptions resync [OptInNamespace ns, OptTweak tweak]"

definition startOne :: "crd \<Rightarrow> factory \<Rightarrow> factory" where
  "startOne t f =
     (if t \<notin> set (startedInformers f)
      then f\<lparr> wg := wg f + 1, runs := runs f @ [t], running := t # running f, startedInformers := t # startedInformers f \<rparr>
      else f)"

definition factory_Start :: "factory \<Rightarrow> factory" where
  "factory_Start f = (if shuttingDown f then f else fold startOne (map fst (informers f)) f)"

text \<open>\<open>Shutdown\<close> marks the factory and then waits for the group, which it can pass when the count is 0.\<close>

definition beginShutdown :: "factory \<Rightarrow> factory" where
  "beginShutdown f = f\<lparr> shuttingDown := True \<rparr>"

definition shutdownReturns :: "factory \<Rightarrow> bool" where
  "shutdownReturns f \<longleftrightarrow> shuttingDown f \<and> wg f = 0"

text \<open>\<open>synced\<close> tells for each type whether its cache was filled before the stop channel was closed.\<close>

definition factory_WaitForCacheSync :: "(crd \<Rightarrow> bool) \<Rightarrow> factory \<Rightarrow> (crd \<times> bool) list" where
  "factory_WaitForCacheSync synced f =
     map (\<lambda>t. (t, synced t)) (filter (\<lambda>t. t \<in> set (startedInformers f)) (map fst (informers f)))"

definition InformerFor :: "crd \<Rightarrow> newInformer \<Rightarrow> factory \<Rightarrow> informer \<times> factory" where
  "InformerFor t newFunc f =
     (case map_of (informers f) t of
        Some i \<Rightarrow> (i, f)
      | None \<Rightarrow>
          let resync = (case map_of (customResync f) t of Some r \<Rightarrow> r | None \<Rightarrow> defaultResync f);
              i = (newFunc resync)\<lparr> iTransform := transform f \<rparr>
          in (i, f\<lparr> informers := informers f @ [(t, i)] \<rparr>))"

section \<open>The five types\<close>

text \<open>\<open>sharedInformer\<close> is the accessor of a type: its namespace and tweak are those of the factory.\<close>

definition sharedInformer :: "(nat \<Rightarrow> string \<Rightarrow> (ListOptions \<Rightarrow> ListOptions) option \<Rightarrow> informer) \<Rightarrow> crd \<Rightarrow> factory \<Rightarrow> informer \<times> factory" where
  "sharedInformer new t f = InformerFor t (\<lambda>resync. new resync (namespace f) (tweakListOptions f)) f"

definition NewFilteredZFSVolumeInformer ::
  "string \<Rightarrow> nat \<Rightarrow> string list \<Rightarrow> (ListOptions \<Rightarrow> ListOptions) option \<Rightarrow> informer" where
  "NewFilteredZFSVolumeInformer ns resync indexers tweak = NewFilteredInformer Volumes ns resync indexers tweak"

definition NewZFSVolumeInformer :: "string \<Rightarrow> nat \<Rightarrow> string list \<Rightarrow> informer" where
  "NewZFSVolumeInformer ns resync indexers = NewFilteredZFSVolumeInformer ns resync indexers None"

definition ZFSVolumes_Informer :: "factory \<Rightarrow> informer \<times> factory" where
  "ZFSVolumes_Informer f =
     sharedInformer (\<lambda>resync ns tweak. NewFilteredZFSVolumeInformer ns resync [''namespace''] tweak) Volumes f"

definition NewFilteredZFSSnapshotInformer ::
  "string \<Rightarrow> nat \<Rightarrow> string list \<Rightarrow> (ListOptions \<Rightarrow> ListOptions) option \<Rightarrow> informer" where
  "NewFilteredZFSSnapshotInformer ns resync indexers tweak = NewFilteredInformer Snapshots ns resync indexers tweak"

definition NewZFSSnapshotInformer :: "string \<Rightarrow> nat \<Rightarrow> string list \<Rightarrow> informer" where
  "NewZFSSnapshotInformer ns resync indexers = NewFilteredZFSSnapshotInformer ns resync indexers None"

definition ZFSSnapshots_Informer :: "factory \<Rightarrow> informer \<times> factory" where
  "ZFSSnapshots_Informer f =
     sharedInformer (\<lambda>resync ns tweak. NewFilteredZFSSnapshotInformer ns resync [''namespace''] tweak) Snapshots f"

definition NewFilteredZFSBackupInformer ::
  "string \<Rightarrow> nat \<Rightarrow> string list \<Rightarrow> (ListOptions \<Rightarrow> ListOptions) option \<Rightarrow> informer" where
  "NewFilteredZFSBackupInformer ns resync indexers tweak = NewFilteredInformer Backups ns resync indexers tweak"

definition NewZFSBackupInformer :: "string \<Rightarrow> nat \<Rightarrow> string list \<Rightarrow> informer" where
  "NewZFSBackupInformer ns resync indexers = NewFilteredZFSBackupInformer ns resync indexers None"

definition ZFSBackups_Informer :: "factory \<Rightarrow> informer \<times> factory" where
  "ZFSBackups_Informer f =
     sharedInformer (\<lambda>resync ns tweak. NewFilteredZFSBackupInformer ns resync [''namespace''] tweak) Backups f"

definition NewFilteredZFSRestoreInformer ::
  "string \<Rightarrow> nat \<Rightarrow> string list \<Rightarrow> (ListOptions \<Rightarrow> ListOptions) option \<Rightarrow> informer" where
  "NewFilteredZFSRestoreInformer ns resync indexers tweak = NewFilteredInformer Restores ns resync indexers tweak"

definition NewZFSRestoreInformer :: "string \<Rightarrow> nat \<Rightarrow> string list \<Rightarrow> informer" where
  "NewZFSRestoreInformer ns resync indexers = NewFilteredZFSRestoreInformer ns resync indexers None"

definition ZFSRestores_Informer :: "factory \<Rightarrow> informer \<times> factory" where
  "ZFSRestores_Informer f =
     sharedInformer (\<lambda>resync ns tweak. NewFilteredZFSRestoreInformer ns resync [''namespace''] tweak) Restores f"

definition NewFilteredZFSNodeInformer ::
  "string \<Rightarrow> nat \<Rightarrow> string list \<Rightarrow> (ListOptions \<Rightarrow> ListOptions) option \<Rightarrow> informer" where
  "NewFilteredZFSNodeInformer ns resync indexers tweak = NewFilteredInformer Nodes ns resync indexers tweak"

definition NewZFSNodeInformer :: "string \<Rightarrow> nat \<Rightarrow> string list \<Rightarrow> informer" where
  "NewZFSNodeInformer ns resync indexers = NewFilteredZFSNodeInformer ns resync indexers None"

definition ZFSNodes_Informer :: "factory \<Rightarrow> informer \<times> factory" where
  "ZFSNodes_Informer f =
     sharedInformer (\<lambda>resync ns tweak. NewFilteredZFSNodeInformer ns resync [''namespace''] tweak) Nodes f"

fun informerOf :: "crd \<Rightarrow> factory \<Rightarrow> informer \<times> factory" where
  "informerOf Volumes f = ZFSVolumes_Informer f"
| "informerOf Snapshots f = ZFSSnapshots_Informer f"
| "informerOf Backups f = ZFSBackups_Informer f"
| "informerOf Restores f = ZFSRestores_Informer f"
| "informerOf Nodes f = ZFSNodes_Informer f"

definition ForResource :: "string \<Rightarrow> factory \<Rightarrow> (string + informer) \<times> factory" where
  "ForResource resource f =
     (let found = (\<lambda>t. let (i, f') = informerOf t f in (Inr i, f')) in
      if resource = ''zfsbackups'' then found Backups
      else if resource = ''zfsnodes'' then found Nodes
      else if resource = ''zfsrestores'' then found Restores
      else if resource = ''zfssnapshots'' then found Snapshots
      else if resource = ''zfsvolumes'' then found Volumes
      else (Inl (''no informer found for '' @ resource), f))"

text \<open>\<open>AddEventHandler\<close> on the shared informer of a type.\<close>

definition addHandler :: "crd \<Rightarrow> string \<Rightarrow> factory \<Rightarrow> factory" where
  "addHandler t handler f =
     (let (i, f') = informerOf t f
      in f'\<lparr> informers := AList.map_entry t (\<lambda>i. i\<lparr> iHandlers := iHandlers i @ [handler] \<rparr>) (informers f') \<rparr>)"

section \<open>Interleavings\<close>

text \<open>What the goroutines of a process do with a factory, in any order.\<close>

inductive factoryStep :: "factory \<Rightarrow> factory \<Rightarrow> bool" where
  Request: "factoryStep f (snd (informerOf t f))"
| Handler: "factoryStep f (addHandler t handler f)"
| Start: "factoryStep f (factory_Start f)"
| Ends: "t \<in> set (running f) \<Longrightarrow> factoryStep f (f\<lparr> running := remove1 t (running f), wg := wg f - 1 \<rparr>)"
| Shutdown: "factoryStep f (beginShutdown f)"

inductive factoryRun :: "factory \<Rightarrow> factory \<Rightarrow> bool" where
  Stay: "factoryRun f f"
| Move: "factoryRun f f' \<Longrightarrow> factoryStep f' f'' \<Longrightarrow> factoryRun f f''"

definition factoryInv :: "factory \<Rightarrow> bool" where
  "factoryInv f \<longleftrightarrow>
     distinct (map fst (informers f)) \<and> distinct (runs f) \<and> distinct (running f) \<and> set (running f) \<subseteq> set (runs f)
   \<and> set (runs f) = set (startedInformers f) \<and> set (runs f) \<subseteq> fst ` set (informers f) \<and> wg f = length (running f)
   \<and> (\<forall>(t, i) \<in> set (informers f). iType i = t)"

text \<open>An example: the informer for volumes, asked for and started twice.\<close>

definition demoFactory :: factory where
  "demoFactory = factory_Start (addHandler Volumes ''ZV'' (factory_Start (addHandler Volumes ''first'' (NewSharedInformerFactory 30))))"

section \<open>Rules\<close>

lemmas informer_defs = ZFSVolumes_Informer_def ZFSSnapshots_Informer_def ZFSBackups_Informer_def ZFSRestores_Informer_def
  ZFSNodes_Informer_def NewFilteredZFSVolumeInformer_def NewFilteredZFSSnapshotInformer_def NewFilteredZFSBackupInformer_def
  NewFilteredZFSRestoreInformer_def NewFilteredZFSNodeInformer_def NewFilteredInformer_def

lemma informerOf_eq: "informerOf t f =
  InformerFor t (\<lambda>resync. NewFilteredInformer t (namespace f) resync [''namespace''] (tweakListOptions f)) f"
  by (cases t) (simp_all add: informer_defs sharedInformer_def)

lemma informerOf_known: "map_of (informers f) t = Some i \<Longrightarrow> informerOf t f = (i, f)"
  by (simp add: informerOf_eq InformerFor_def)

lemma informerOf_there: "\<exists>i. map_of (informers (snd (informerOf t f))) t = Some i \<and> fst (informerOf t f) = i"
  by (auto simp: informerOf_eq InformerFor_def Let_def map_add_def split: option.split)

lemma informerOf_cases:
  obtains "snd (informerOf t f) = f" "fst (informerOf t f) = the (map_of (informers f) t)" "t \<in> fst ` set (informers f)"
  | i where "snd (informerOf t f) = f\<lparr> informers := informers f @ [(t, i)] \<rparr>" "iType i = t" "t \<notin> fst ` set (informers f)"
proof (cases "map_of (informers f) t")
  case None
  let ?i = "(NewFilteredInformer t (namespace f) (case map_of (customResync f) t of Some r \<Rightarrow> r | None \<Rightarrow> defaultResync f)
    [''namespace''] (tweakListOptions f))\<lparr> iTransform := transform f \<rparr>"
  show ?thesis
  proof (rule that(2) [of ?i])
    show "snd (informerOf t f) = f\<lparr> informers := informers f @ [(t, ?i)] \<rparr>" using None by (simp add: informerOf_eq InformerFor_def Let_def)
    show "t \<notin> fst ` set (informers f)" using None by (simp add: map_of_eq_None_iff)
  qed (simp add: NewFilteredInformer_def)
next
  case (Some i)
  then have "t \<in> fst ` set (informers f)" by (metis domI dom_map_of_conv_image_fst)
  with Some show ?thesis using that(1) by (simp add: informerOf_known)
qed

lemma factory_request_inv: "factoryInv f \<Longrightarrow> factoryInv (snd (informerOf t f))"
  by (rule informerOf_cases [of t f]) (auto simp: factoryInv_def)

lemma addHandler_eq: "addHandler t handler f = (snd (informerOf t f))\<lparr> informers :=
    AList.map_entry t (\<lambda>i. i\<lparr> iHandlers := iHandlers i @ [handler] \<rparr>) (informers (snd (informerOf t f))) \<rparr>"
  by (simp add: addHandler_def split: prod.split)

lemma map_entry_values: "(k, v) \<in> set (AList.map_entry t g xs) \<Longrightarrow> (k, v) \<in> set xs \<or> (\<exists>w. (k, w) \<in> set xs \<and> v = g w)"
  by (induction xs) (auto split: if_splits)

lemma inv_handler:
  assumes "factoryInv f"
  shows "factoryInv (addHandler t handler f)"
proof -
  let ?f = "snd (informerOf t f)" and ?g = "\<lambda>i :: informer. i\<lparr> iHandlers := iHandlers i @ [handler] \<rparr>"
  have keys: "map fst (AList.map_entry t ?g xs) = map fst xs" for xs by (induction xs) auto
  then have "fst ` set (AList.map_entry t ?g xs) = fst ` set xs" for xs by (metis list.set_map)
  with keys factory_request_inv [OF assms, of t] show ?thesis
    unfolding addHandler_eq factoryInv_def by (auto dest!: map_entry_values)
qed

lemma inv_startOne: "factoryInv f \<Longrightarrow> t \<in> fst ` set (informers f) \<Longrightarrow> factoryInv (startOne t f)"
  by (auto simp: factoryInv_def startOne_def)

lemma startOne_informers [simp]: "informers (startOne t f) = informers f"
  by (simp add: startOne_def)

lemma inv_starts: "factoryInv f \<Longrightarrow> set ts \<subseteq> fst ` set (informers f) \<Longrightarrow> factoryInv (fold startOne ts f)"
  by (induction ts arbitrary: f) (auto simp: inv_startOne)

lemma factory_step_inv: "factoryStep f f' \<Longrightarrow> factoryInv f \<Longrightarrow> factoryInv f'"
proof (induction rule: factoryStep.induct)
  case (Start f)
  then show ?case by (simp add: factory_Start_def inv_starts)
next
  case (Ends t f)
  then show ?case by (auto simp: factoryInv_def length_remove1 dest: notin_set_remove1)
qed (simp_all add: factory_request_inv inv_handler, auto simp: factoryInv_def beginShutdown_def)

lemma inv_run: "factoryRun f f' \<Longrightarrow> factoryInv f \<Longrightarrow> factoryInv f'"
  by (induction rule: factoryRun.induct) (auto intro: factory_step_inv)

lemma inv_new: "factoryInv (NewSharedInformerFactoryWithOptions resync options)"
proof -
  have "factoryInv (fold setFactory options f)" if "informers f = []" "runs f = []" "running f = []" "startedInformers f = []" "wg f = 0" for f
    using that
  proof (induction options arbitrary: f)
    case (Cons opt options)
    show ?case unfolding fold.simps comp_def
      by (rule Cons.IH; cases opt; use Cons.prems in \<open>simp add: WithCustomResyncConfig_def WithTweakListOptions_def WithNamespace_def WithTransform_def\<close>)
  qed (simp add: factoryInv_def)
  then show ?thesis by (simp add: NewSharedInformerFactoryWithOptions_def)
qed

text \<open>Once the factory shuts down nothing is started any more.\<close>

lemma startOne_runs: "set (runs f) \<subseteq> set (runs (startOne t f))"
  by (auto simp: startOne_def)

lemma addHandler_same: "runs (addHandler t handler f) = runs f" "shuttingDown (addHandler t handler f) = shuttingDown f"
  "runs (snd (informerOf t f)) = runs f" "shuttingDown (snd (informerOf t f)) = shuttingDown f"
  by (rule informerOf_cases [of t f]; simp add: addHandler_eq)+

lemma down_step: "factoryStep f f' \<Longrightarrow> shuttingDown f \<Longrightarrow> shuttingDown f' \<and> runs f' = runs f"
  by (induction rule: factoryStep.induct) (simp_all add: addHandler_same factory_Start_def beginShutdown_def)

lemma down_run: "factoryRun f f' \<Longrightarrow> shuttingDown f \<Longrightarrow> shuttingDown f' \<and> runs f' = runs f"
  by (induction rule: factoryRun.induct) (auto dest: down_step)

text \<open>The informer of a type stays the same one, and collects handlers.\<close>

lemma starts_informers: "informers (fold startOne ts f) = informers f"
  by (induction ts arbitrary: f) auto

lemma request_keeps: "map_of (informers f) t = Some i \<Longrightarrow> map_of (informers (snd (informerOf t' f))) t = Some i"
  by (rule informerOf_cases [of t' f]) (auto simp: map_add_def split: option.split)

lemma map_of_entry: "map_of (AList.map_entry k g xs) t = (if t = k then map_option g (map_of xs t) else map_of xs t)"
  by (induction xs) auto

lemma same_step:
  "factoryStep f f' \<Longrightarrow> map_of (informers f) t = Some i \<Longrightarrow> \<exists>hs. map_of (informers f') t = Some (i\<lparr> iHandlers := iHandlers i @ hs \<rparr>)"
proof (induction rule: factoryStep.induct)
  case (Request f t')
  then show ?case using request_keeps by (metis append_Nil2 informer.surjective informer.update_convs(7))
next
  case (Handler f t' handler)
  then have "map_of (informers (snd (informerOf t' f))) t = Some i" by (rule request_keeps)
  then show ?case
    by (cases "t = t'") (auto simp: addHandler_eq map_of_entry intro: exI [of _ "[handler]"] exI [of _ "[]"])
qed (auto simp: factory_Start_def starts_informers beginShutdown_def intro: exI [of _ "[]"])

lemma same_run:
  "factoryRun f f' \<Longrightarrow> map_of (informers f) t = Some i \<Longrightarrow> \<exists>hs. map_of (informers f') t = Some (i\<lparr> iHandlers := iHandlers i @ hs \<rparr>)"
proof (induction rule: factoryRun.induct)
  case (Stay f)
  then show ?case by (intro exI [of _ "[]"]) simp
next
  case (Move f f' f'')
  then obtain hs where "map_of (informers f') t = Some (i\<lparr> iHandlers := iHandlers i @ hs \<rparr>)" by blast
  from same_step [OF Move.hyps(2) this] show ?case by (auto simp: append_assoc)
qed

text \<open>C37: The informers are shared and started once: whatever the goroutines of a process ask of a factory, in any order,
  every informer runs at most once and only if it was asked for, the wait group counts those that run, and the
  informer of a type stays the same one, for its type, while handlers are added to it. When \<open>Shutdown\<close> returns none runs,
  and none will be started.\<close>
theorem informers_shared:
  assumes "factoryRun (NewSharedInformerFactoryWithOptions resync options) f"
  shows "distinct (runs f) \<and> set (runs f) \<subseteq> fst ` set (informers f) \<and> wg f = length (running f)
    \<and> (shutdownReturns f \<longrightarrow> running f = [] \<and> (\<forall>f'. factoryRun f f' \<longrightarrow> runs f' = runs f))
    \<and> (\<forall>t i f'. map_of (informers f) t = Some i \<and> factoryRun f f' \<longrightarrow>
         iType i = t \<and> (\<exists>hs. fst (informerOf t f') = i\<lparr> iHandlers := iHandlers i @ hs \<rparr>))"
proof -
  have inv: "factoryInv f" by (rule inv_run [OF assms inv_new])
  then have now: "distinct (runs f)" "set (runs f) \<subseteq> fst ` set (informers f)" "wg f = length (running f)"
    unfolding factoryInv_def by blast+
  then have none: "shutdownReturns f \<Longrightarrow> running f = []" by (simp add: shutdownReturns_def)
  have "runs f' = runs f" if "shutdownReturns f" "factoryRun f f'" for f'
    using down_run [OF that(2)] that(1) by (simp add: shutdownReturns_def)
  moreover have "iType i = t \<and> (\<exists>hs. fst (informerOf t f') = i\<lparr> iHandlers := iHandlers i @ hs \<rparr>)"
    if i: "map_of (informers f) t = Some i" and f': "factoryRun f f'" for t i f'
  proof -
    obtain hs where "map_of (informers f') t = Some (i\<lparr> iHandlers := iHandlers i @ hs \<rparr>)" using same_run [OF f' i] by blast
    then have "fst (informerOf t f') = i\<lparr> iHandlers := iHandlers i @ hs \<rparr>" by (simp add: informerOf_known)
    moreover have "iType i = t" using inv map_of_SomeD [OF i] unfolding factoryInv_def by blast
    ultimately show ?thesis by blast
  qed
  ultimately show ?thesis using now none by blast
qed

theorem informers_shared_witness:
  "runs demoFactory = [Volumes] \<and> wg demoFactory = 1 \<and> iHandlers (the (map_of (informers demoFactory) Volumes)) = [''first'', ''ZV'']
   \<and> set (runs demoFactory) \<subseteq> fst ` set (informers demoFactory)"
proof -
  have run: "factoryRun (NewSharedInformerFactoryWithOptions 30 []) demoFactory"
    unfolding demoFactory_def NewSharedInformerFactory_def
    by (rule factoryRun.Move [OF factoryRun.Move [OF factoryRun.Move [OF factoryRun.Move [OF factoryRun.Stay
      factoryStep.Handler] factoryStep.Start] factoryStep.Handler] factoryStep.Start])
  have "runs demoFactory = [Volumes] \<and> wg demoFactory = 1 \<and> iHandlers (the (map_of (informers demoFactory) Volumes)) = [''first'', ''ZV'']"
    by (simp add: demoFactory_def NewSharedInformerFactory_def NewSharedInformerFactoryWithOptions_def addHandler_def informerOf_eq
      InformerFor_def NewFilteredInformer_def factory_Start_def startOne_def Let_def)
  with informers_shared [OF run] show ?thesis by blast
qed

end
