(* ===== verification/Server.thy ===== *)
theory Server
  imports Mount Csi
begin

text \<open>
  How the driver presents itself: the endpoint it serves (\<open>pkg/driver/grpc.go\<close>), the identity
  service (\<open>pkg/driver/identity.go\<close>) and the version it reports (\<open>pkg/version/version.go\<close>).
\<close>

section \<open>Endpoint\<close>

text \<open>\<open>strings.SplitN\<close> with limit 2: what precedes and what follows the first separator.\<close>

fun splitAtSub :: "string \<Rightarrow> string \<Rightarrow> (string \<times> string) option" where
  "splitAtSub sep [] = (if sep = [] then Some ([], []) else None)"
| "splitAtSub sep (c # cs) =
     (if prefix sep (c # cs) then Some ([], drop (length sep) (c # cs))
      else map_option (\<lambda>(a, b). (c # a, b)) (splitAtSub sep cs))"

text \<open>\<open>None\<close> is the panic of \<open>s[1]\<close> where there is no separator.\<close>

definition parseEndpoint :: "lib \<Rightarrow> string \<Rightarrow> (gerror + string \<times> string) option" where
  "parseEndpoint L ep =
     (let invalid = Some (Inl (EText (''invalid endpoint: '' @ ep)))
      in if HasPrefix (ToLower L ep) ''unix://'' \<or> HasPrefix (ToLower L ep) ''tcp://'' then
           case splitAtSub ''://'' ep of
             None \<Rightarrow> None
           | Some (s0, s1) \<Rightarrow> if s1 \<noteq> [] then Some (Inr (s0, s1)) else invalid
         else invalid)"

text \<open>The network and address \<open>serve\<close> listens on.\<close>

definition listenOn :: "string \<times> string \<Rightarrow> string \<times> string" where
  "listenOn pa = (case pa of (proto, addr) \<Rightarrow> (proto, if proto = ''unix'' then ''/'' @ addr else addr))"

definition isInfotrmativeLog :: "string \<Rightarrow> bool" where
  "isInfotrmativeLog info =
     list_all (\<lambda>msg. \<not> contains info msg) [''NodeGetVolumeStats'', ''NodeGetCapabilities'']"

text \<open>The interceptor of every request: what the handler answers goes back as it is, and the entries of the log.\<close>

definition logGRPC :: "string \<Rightarrow> string \<Rightarrow> (gerror + 'r) \<Rightarrow> (gerror \<Rightarrow> string) \<Rightarrow> ('r \<Rightarrow> string) \<Rightarrow> string list \<times> (gerror + 'r)" where
  "logGRPC fullMethod req answer showErr strip =
     (if isInfotrmativeLog fullMethod
      then ([''GRPC call: '' @ fullMethod @ '' requests '' @ req,
             case answer of Inl e \<Rightarrow> ''GRPC error: '' @ showErr e | Inr resp \<Rightarrow> ''GRPC response: '' @ strip resp], answer)
      else ([], answer))"

section \<open>Version\<close>

text \<open>
  The package variables the linker fills in, and what is read where they are empty: \<open>GOPATH\<close>, files,
  and the output of \<open>git rev-parse\<close>.
\<close>

record build =
  GitCommit :: string
  BuildVersion :: string
  VersionMeta :: string
  gopath :: string
  readFile :: "string \<Rightarrow> string option"
  gitHead :: "string option"

definition versionFile :: string where
  "versionFile = ''/src/github.com/openebs/zfs-localpv/VERSION''"

definition buildMetaFile :: string where
  "buildMetaFile = ''/src/github.com/openebs/zfs-localpv/BUILDMETA''"

definition version_Get :: "build \<Rightarrow> string" where
  "version_Get B =
     (if BuildVersion B \<noteq> [] then BuildVersion B
      else case readFile B (Clean (Clean (gopath B @ versionFile))) of None \<Rightarrow> [] | Some v \<Rightarrow> TrimSpace v)"

definition version_Current :: "build \<Rightarrow> string" where
  "version_Current B = version_Get B"

definition GetBuildMeta :: "build \<Rightarrow> string" where
  "GetBuildMeta B =
     (if VersionMeta B \<noteq> [] then ''-'' @ VersionMeta B
      else case readFile B (Clean (Clean (gopath B @ buildMetaFile))) of None \<Rightarrow> [] | Some v \<Rightarrow> ''-'' @ TrimSpace v)"

definition GetGitCommit :: "build \<Rightarrow> string" where
  "GetGitCommit B =
     (if GitCommit B \<noteq> [] then GitCommit B
      else case gitHead B of None \<Rightarrow> [] | Some v \<Rightarrow> TrimSpace v)"

text \<open>Slicing the first seven characters of a shorter commit panics: \<open>None\<close>.\<close>

definition Verbose :: "build \<Rightarrow> string option" where
  "Verbose B = (let c = GetGitCommit B
     in if length c < 7 then None else Some (joinWith ''-'' [version_Get B, take 7 c]))"

definition GetVersionDetails :: "build \<Rightarrow> string option" where
  "GetVersionDetails B = (let c = GetGitCommit B
     in if length c < 7 then None else Some (''zfs-'' @ joinWith ''-'' [version_Get B, take 7 c]))"

section \<open>Identity service\<close>

record config =
  DriverName :: string
  PluginType :: string
  ConfigVersion :: string
  Endpoint :: string
  ConfigNodename :: string
  DefaultFormatOptions :: "string list"

definition GetPluginInfo :: "build \<Rightarrow> config \<Rightarrow> gerror + string \<times> string" where
  "GetPluginInfo B c =
     (if DriverName c = [] then Inl (EStatus Unavailable ''missing driver name'')
      else if ConfigVersion c = [] then Inl (EStatus Unavailable ''missing driver version'')
      else Inr (DriverName c, version_Current B))"

datatype pluginService = CONTROLLER_SERVICE | VOLUME_ACCESSIBILITY_CONSTRAINTS

definition Probe :: "gerror + unit" where
  "Probe = Inr ()"

definition GetPluginCapabilities :: "gerror + pluginService list" where
  "GetPluginCapabilities = Inr [CONTROLLER_SERVICE, VOLUME_ACCESSIBILITY_CONSTRAINTS]"

section \<open>Facts\<close>

lemma splitAtSub_first:
  "splitAtSub sep s = Some (a, b) \<Longrightarrow> s = a @ sep @ b \<and> (\<forall>x y. s = x @ sep @ y \<longrightarrow> length a \<le> length x)"
proof (induction s arbitrary: a b)
  case Nil
  then show ?case by (auto split: if_splits)
next
  case (Cons c cs)
  show ?case
  proof (cases "prefix sep (c # cs)")
    case True
    with Cons.prems show ?thesis by (auto simp: prefix_def)
  next
    case False
    with Cons.prems obtain a' where a: "a = c # a'" "splitAtSub sep cs = Some (a', b)" by auto
    have "length a \<le> length x" if "c # cs = x @ sep @ y" for x y
      using that False a Cons.IH [OF a(2)] by (cases x) (auto simp: prefix_def)
    with a Cons.IH [OF a(2)] show ?thesis by auto
  qed
qed

text \<open>An accepted endpoint is cut at its first separator, and there is an address.\<close>

lemma parseEndpoint_parts:
  assumes "parseEndpoint L ep = Some (Inr (proto, addr))"
  shows "ep = proto @ ''://'' @ addr \<and> addr \<noteq> [] \<and> (\<forall>x y. ep = x @ ''://'' @ y \<longrightarrow> length proto \<le> length x)"
  using assms splitAtSub_first [of "''://''" ep proto addr]
  by (simp add: parseEndpoint_def Let_def split: if_splits option.splits prod.splits)

text \<open>
  The prefix is compared without regard to case, but the protocol is returned as written: an endpoint
  in capitals is accepted and then not treated as a socket, so its address stays relative and the
  network has a name \<open>net.Listen\<close> does not know.
\<close>

lemma endpoint_case_kept:
  "parseEndpoint quietLib ''UNIX://csi/csi.sock'' = Some (Inr (''UNIX'', ''csi/csi.sock''))
   \<and> listenOn (''UNIX'', ''csi/csi.sock'') = (''UNIX'', ''csi/csi.sock'')
   \<and> map_option (map_sum id listenOn) (parseEndpoint quietLib ''unix://csi/csi.sock'') = Some (Inr (''unix'', ''/csi/csi.sock''))"
  by (simp add: parseEndpoint_def listenOn_def ToLower_def lowerChar_def ascii_def HasPrefix_def)

text \<open>Without a commit, from the linker or from git, the version details panic.\<close>

lemma version_details_panic:
  "GitCommit B = [] \<Longrightarrow> gitHead B = None \<Longrightarrow> GetVersionDetails B = None \<and> Verbose B = None"
  by (simp add: GetVersionDetails_def Verbose_def GetGitCommit_def)

end
