(* ===== verification/Startup.thy ===== *)
theory Startup
  imports Informers Server
begin

text \<open>
  How the driver starts: the process picks its services (\<open>cmd/main.go\<close>, \<open>pkg/driver/driver.go\<close>), the agent starts the
  five controllers of \<open>pkg/mgmt\<close> as goroutines that share a mutex (\<open>NewNode\<close>, \<open>start.go\<close>, \<open>builder.go\<close>, \<open>Run\<close>), the
  controller service prepares its informers (\<open>init\<close>), and a gRPC server serves until a signal comes (\<open>grpc.go\<close>).

  A program of this theory records what it does in a trace of its own. The Kubernetes clients, the state of the caches, the
  signal and the timer are oracles; a fatal log entry ends the process.
\<close>

section \<open>The world of a starting process\<close>

type_synonym k8sNode = "string \<times> string"

datatype bootEvent =
    BConfig "string option" | BKubeClient "string option" | BOpenEBSClient "string option" | BLock | BUnlock
  | BScheme "string option" | BHandler crd string | BIndexers crd "string option" | BGoStart "crd list" | BGoKube
  | BSyncWait "crd list" bool | BWorker string | BTick bool | BQueueAdd string string | BStopped | BQueueShutDown string
  | BGetNode string "string + k8sNode" | BListNodes string "string + k8sNode list" | BRecorder string | BAnalytics
  | BFatal gerror | BPanic string | BGo string | BServe | BWaited

type_synonym 'a boot = "(bootEvent, 'a) prog"

record bootEnv =
  bConfig :: "bootEvent list \<Rightarrow> string option"
  bKube :: "bootEvent list \<Rightarrow> string option"
  bOpenEBS :: "bootEvent list \<Rightarrow> string option"
  bScheme :: "bootEvent list \<Rightarrow> string option"
  bSynced :: "bootEvent list \<Rightarrow> crd list \<Rightarrow> bool"
  bIndexers :: "bootEvent list \<Rightarrow> crd \<Rightarrow> string option"
  bGetNode :: "bootEvent list \<Rightarrow> string \<Rightarrow> string + k8sNode"
  bRequirement :: "string \<Rightarrow> string \<Rightarrow> string + string"
  bListNodes :: "bootEvent list \<Rightarrow> string \<Rightarrow> string + k8sNode list"
  bTick :: "bootEvent list \<Rightarrow> bool"
  bPolls :: nat
  bNodeName :: string
  bNodeID :: string
  bNamespace :: string
  bAnalytics :: string
  bBackupGC :: bool
  bNameSelector :: "string \<Rightarrow> string"

text \<open>A call that may fail and, if it does, ends the start with its error.\<close>

definition orFail :: "(bootEvent list \<Rightarrow> string option) \<Rightarrow> (string option \<Rightarrow> bootEvent) \<Rightarrow> string \<Rightarrow> gerror option boot \<Rightarrow> gerror option boot" where
  "orFail f ev msg next = goBind (goCall f ev) (\<lambda>r. case r of Some t \<Rightarrow> goRet (Some (EWrap msg (EText t))) | None \<Rightarrow> next)"

section \<open>The variables of the process\<close>

text \<open>
  The package initialiser of \<open>pkg/zfs/volume.go\<close>, with the environment variables as a function: \<open>Inl\<close> is the message of
  the fatal log entry.
\<close>

record zfsVars =
  vNamespace :: string
  vNodeID :: string
  vAnalytics :: string
  vBackupGC :: bool

definition zfs_init :: "env \<Rightarrow> (string \<Rightarrow> string) \<Rightarrow> (gerror + zfsVars) go" where
  "zfs_init E Getenv =
     (let ns = Getenv ''OPENEBS_NAMESPACE'';
          finish = (\<lambda>nodeid. goRet (Inr \<lparr> vNamespace = ns, vNodeID = nodeid, vAnalytics = Getenv ''OPENEBS_IO_ENABLE_ANALYTICS'',
                     vBackupGC = (Getenv ''OPENEBS_IO_ENABLE_BACKUP_GC'' = ''true'') \<rparr>))
      in if Getenv ''OPENEBS_NODE_DRIVER'' \<noteq> [] then
           if ns = [] then goRet (Inl (EText ''OPENEBS_NAMESPACE environment variable not set for daemonset''))
           else let nodename = Getenv ''OPENEBS_NODE_NAME'' in
             if nodename = [] then goRet (Inl (EText ''OPENEBS_NODE_NAME environment variable not set''))
             else goBind (GetNodeID E nodename) (\<lambda>r. case r of
               Inl e \<Rightarrow> goRet (Inl (EFmt (''GetNodeID failed for node='' @ nodename @ '' err: '') e))
             | Inr nodeid \<Rightarrow> finish nodeid)
         else if Getenv ''OPENEBS_CONTROLLER_DRIVER'' \<noteq> [] then
           if ns = [] then goRet (Inl (EText ''OPENEBS_NAMESPACE environment variable not set for controller''))
           else finish []
         else finish [])"

section \<open>Controller builders\<close>

text \<open>
  The struct of a controller with what its builder fills in. The lister and the synced function are known by the type of the
  informer they were taken from.
\<close>

record controllerS =
  cKubeclientset :: bool
  cClientset :: bool
  cLister :: "crd option"
  cSynced :: "crd option"
  cWorkqueue :: "string option"
  cRecorder :: "string option"
  cPollInterval :: nat
  cOwnerRef :: "OwnerReference option"

record pkg =
  pType :: crd
  pAgentName :: string
  pQueue :: string

definition NewControllerBuilder :: controllerS where
  "NewControllerBuilder = \<lparr> cKubeclientset = False, cClientset = False, cLister = None, cSynced = None, cWorkqueue = None,
     cRecorder = None, cPollInterval = 0, cOwnerRef = None \<rparr>"

definition withKubeClient :: "controllerS \<Rightarrow> controllerS" where
  "withKubeClient cb = cb\<lparr> cKubeclientset := True \<rparr>"

definition withOpenEBSClient :: "controllerS \<Rightarrow> controllerS" where
  "withOpenEBSClient cb = cb\<lparr> cClientset := True \<rparr>"

definition withLister :: "pkg \<Rightarrow> factory \<Rightarrow> controllerS \<Rightarrow> controllerS \<times> factory" where
  "withLister P f cb = (let (i, f') = informerOf (pType P) f in (cb\<lparr> cLister := Some (iType i) \<rparr>, f'))"

definition withSynced :: "pkg \<Rightarrow> factory \<Rightarrow> controllerS \<Rightarrow> controllerS \<times> factory" where
  "withSynced P f cb = (let (i, f') = informerOf (pType P) f in (cb\<lparr> cSynced := Some (iType i) \<rparr>, f'))"

definition withWorkqueueRateLimiting :: "pkg \<Rightarrow> controllerS \<Rightarrow> controllerS" where
  "withWorkqueueRateLimiting P cb = cb\<lparr> cWorkqueue := Some (pQueue P) \<rparr>"

definition withRecorder :: "pkg \<Rightarrow> controllerS \<Rightarrow> controllerS" where
  "withRecorder P cb = cb\<lparr> cRecorder := Some (pAgentName P) \<rparr>"

definition withEventHandler :: "pkg \<Rightarrow> factory \<Rightarrow> factory boot" where
  "withEventHandler P f = goBind (goEmit (BHandler (pType P) (pQueue P))) (\<lambda>_. goRet (addHandler (pType P) (pQueue P) f))"

definition withPollInterval :: "nat \<Rightarrow> controllerS \<Rightarrow> controllerS" where
  "withPollInterval interval cb = cb\<lparr> cPollInterval := interval \<rparr>"

definition withOwnerReference :: "OwnerReference \<Rightarrow> controllerS \<Rightarrow> controllerS" where
  "withOwnerReference ref cb = cb\<lparr> cOwnerRef := Some ref \<rparr>"

definition buildScheme :: "bootEnv \<Rightarrow> controllerS \<Rightarrow> (gerror + controllerS) boot" where
  "buildScheme B cb = goBind (goCall (bScheme B) BScheme) (\<lambda>r. case r of
     Some t \<Rightarrow> goRet (Inl (EText t)) | None \<Rightarrow> goRet (Inr cb))"

text \<open>The chain of calls in \<open>Start\<close>, and its result with the factory as the chain leaves it.\<close>

definition buildChain :: "bootEnv \<Rightarrow> pkg \<Rightarrow> (controllerS \<Rightarrow> controllerS) \<Rightarrow> factory \<Rightarrow> ((gerror + controllerS) \<times> factory) boot" where
  "buildChain B P extra f =
     (let cb = withOpenEBSClient (withKubeClient NewControllerBuilder);
          (cb, f) = withSynced P f cb;
          (cb, f) = withLister P f cb;
          cb = withRecorder P cb
      in goBind (withEventHandler P f) (\<lambda>f.
         goBind (buildScheme B (withWorkqueueRateLimiting P (extra cb))) (\<lambda>r. goRet (r, f))))"

section \<open>Run\<close>

text \<open>
  The deferred shutdown of the queue happens on every return. A controller that was not given a queue or a synced function
  would panic.
\<close>

definition runWorkers :: "bootEnv \<Rightarrow> nat \<Rightarrow> controllerS \<Rightarrow> (string \<Rightarrow> unit boot) \<Rightarrow> gerror option boot" where
  "runWorkers B threadiness c rest =
     (case (cWorkqueue c, cSynced c) of
        (Some q, Some t) \<Rightarrow>
          goBind (goCall (\<lambda>h. bSynced B h [t]) (BSyncWait [t])) (\<lambda>ok.
            if \<not> ok then goBind (goEmit (BQueueShutDown q)) (\<lambda>_. goRet (Some (EText ''failed to wait for caches to sync'')))
            else goBind (goEach (\<lambda>_. goEmit (BWorker q)) (replicate threadiness ())) (\<lambda>_.
                 goBind (rest q) (\<lambda>_.
                 goBind (goEmit (BQueueShutDown q)) (\<lambda>_. goRet None))))
      | _ \<Rightarrow> goStop (BPanic ''nil pointer dereference''))"

definition ctlRun :: "bootEnv \<Rightarrow> nat \<Rightarrow> controllerS \<Rightarrow> gerror option boot" where
  "ctlRun B threadiness c = runWorkers B threadiness c (\<lambda>_. goEmit BStopped)"

text \<open>The node controller queues its item on every tick of its timer, until the stop channel is closed.\<close>

fun pollLoop :: "nat \<Rightarrow> bootEnv \<Rightarrow> string \<Rightarrow> unit boot" where
  "pollLoop 0 B q = goStop BWaited"
| "pollLoop (Suc n) B q =
     goBind (goCall (bTick B) BTick) (\<lambda>fired.
       if \<not> fired then goEmit BStopped
       else goBind (goEmit (BQueueAdd q (bNamespace B @ ''/'' @ bNodeID B))) (\<lambda>_. pollLoop n B q))"

definition Node_Run :: "bootEnv \<Rightarrow> nat \<Rightarrow> controllerS \<Rightarrow> gerror option boot" where
  "Node_Run B threadiness c = runWorkers B threadiness c (pollLoop (bPolls B) B)"

section \<open>Start\<close>

definition ctlStart :: "bootEnv \<Rightarrow> (factory \<Rightarrow> ((gerror + controllerS) \<times> factory) boot) \<Rightarrow> (controllerS \<Rightarrow> gerror option boot)
    \<Rightarrow> gerror option boot" where
  "ctlStart B build run =
     orFail (bConfig B) BConfig ''error building kubeconfig''
    (orFail (bKube B) BKubeClient ''error building kubernetes clientset''
    (orFail (bOpenEBS B) BOpenEBSClient ''error building openebs clientset''
    (goBind (goEmit BLock) (\<lambda>_.
     goBind (build (NewSharedInformerFactory 30)) (\<lambda>(r, f).
     goBind (goEmit BUnlock) (\<lambda>_. case r of
       Inl e \<Rightarrow> goRet (Some (EWrap ''error building controller instance'' e))
     | Inr controller \<Rightarrow>
         goBind (goEmit BGoKube) (\<lambda>_.
         goBind (goEmit (BGoStart (runs (factory_Start f)))) (\<lambda>_. run controller))))))))"

definition volumePkg :: pkg where
  "volumePkg = \<lparr> pType = Volumes, pAgentName = ''zfsvolume-controller'', pQueue = ''ZV'' \<rparr>"

definition snapshotPkg :: pkg where
  "snapshotPkg = \<lparr> pType = Snapshots, pAgentName = ''zfssnap-controller'', pQueue = ''Snap'' \<rparr>"

definition backupPkg :: pkg where
  "backupPkg = \<lparr> pType = Backups, pAgentName = ''zfsbackup-controller'', pQueue = ''Bkp'' \<rparr>"

definition restorePkg :: pkg where
  "restorePkg = \<lparr> pType = Restores, pAgentName = ''zfsrestore-controller'', pQueue = ''Restore'' \<rparr>"

definition nodePkg :: pkg where
  "nodePkg = \<lparr> pType = Nodes, pAgentName = ''zfsnode-controller'', pQueue = ''Node'' \<rparr>"

definition ZV_build :: "bootEnv \<Rightarrow> factory \<Rightarrow> ((gerror + controllerS) \<times> factory) boot" where
  "ZV_build B f = buildChain B volumePkg id f"

definition ZV_Run :: "bootEnv \<Rightarrow> nat \<Rightarrow> controllerS \<Rightarrow> gerror option boot" where
  "ZV_Run B threadiness c = ctlRun B threadiness c"

definition volume_Start :: "bootEnv \<Rightarrow> gerror option boot" where
  "volume_Start B = ctlStart B (ZV_build B) (ZV_Run B 2)"

definition Snap_build :: "bootEnv \<Rightarrow> factory \<Rightarrow> ((gerror + controllerS) \<times> factory) boot" where
  "Snap_build B f = buildChain B snapshotPkg id f"

definition Snap_Run :: "bootEnv \<Rightarrow> nat \<Rightarrow> controllerS \<Rightarrow> gerror option boot" where
  "Snap_Run B threadiness c = ctlRun B threadiness c"

definition snapshot_Start :: "bootEnv \<Rightarrow> gerror option boot" where
  "snapshot_Start B = ctlStart B (Snap_build B) (Snap_Run B 2)"

definition Bkp_build :: "bootEnv \<Rightarrow> factory \<Rightarrow> ((gerror + controllerS) \<times> factory) boot" where
  "Bkp_build B f = buildChain B backupPkg id f"

definition Bkp_Run :: "bootEnv \<Rightarrow> nat \<Rightarrow> controllerS \<Rightarrow> gerror option boot" where
  "Bkp_Run B threadiness c = ctlRun B threadiness c"

definition backup_Start :: "bootEnv \<Rightarrow> gerror option boot" where
  "backup_Start B = ctlStart B (Bkp_build B) (Bkp_Run B 2)"

definition Rstr_build :: "bootEnv \<Rightarrow> factory \<Rightarrow> ((gerror + controllerS) \<times> factory) boot" where
  "Rstr_build B f = buildChain B restorePkg id f"

definition Rstr_Run :: "bootEnv \<Rightarrow> nat \<Rightarrow> controllerS \<Rightarrow> gerror option boot" where
  "Rstr_Run B threadiness c = ctlRun B threadiness c"

definition restore_Start :: "bootEnv \<Rightarrow> gerror option boot" where
  "restore_Start B = ctlStart B (Rstr_build B) (Rstr_Run B 2)"

section \<open>The node controller\<close>

text \<open>
  The Kubernetes node behind the identity of the agent: by name if the identity is the name, and otherwise the only one with
  the identity as its topology label.
\<close>

definition findNode :: "bootEnv \<Rightarrow> (gerror + k8sNode) boot" where
  "findNode B =
     (let nodeID = bNodeID B in
      if length (TrimSpace nodeID) = 0 \<or> bNodeName B = nodeID then
        goBind (goCall (\<lambda>h. bGetNode B h nodeID) (BGetNode nodeID)) (\<lambda>r. case r of
          Inl t \<Rightarrow> goRet (Inl (EWrap (''fetch k8s node '' @ nodeID) (EText t)))
        | Inr node \<Rightarrow> goRet (Inr node))
      else
        (case bRequirement B ZFSTopologyKey nodeID of
           Inl t \<Rightarrow> goRet (Inl (EWrap (''Unable to generate topology requirement by '' @ ZFSTopologyKey @ '' for node id '' @ nodeID) (EText t)))
         | Inr selector \<Rightarrow>
             goBind (goCall (\<lambda>h. bListNodes B h selector) (BListNodes selector)) (\<lambda>r. case r of
               Inl t \<Rightarrow> goRet (Inl (EWrap (''error trying to find node with label '' @ ZFSTopologyKey @ '' having value '' @ nodeID) (EText t)))
             | Inr candidates \<Rightarrow>
                 if length candidates \<noteq> 1
                 then goRet (Inl (EText (''unable to retrieve a single node by '' @ ZFSTopologyKey @ '' for '' @ nodeID)))
                 else goRet (Inr (hd candidates)))))"

definition nodeOwnerRef :: "k8sNode \<Rightarrow> OwnerReference" where
  "nodeOwnerRef node = \<lparr> RefAPIVersion = ''v1'', RefKind = ''Node'', RefName = fst node, RefUID = snd node, RefController = Some True \<rparr>"

definition Node_build :: "bootEnv \<Rightarrow> OwnerReference \<Rightarrow> factory \<Rightarrow> ((gerror + controllerS) \<times> factory) boot" where
  "Node_build B ref f = buildChain B nodePkg (withOwnerReference ref \<circ> withPollInterval 60) f"

definition node_Start :: "bootEnv \<Rightarrow> gerror option boot" where
  "node_Start B =
     orFail (bConfig B) BConfig ''error building kubeconfig''
    (orFail (bKube B) BKubeClient ''error building kubernetes clientset''
    (orFail (bOpenEBS B) BOpenEBSClient ''error building openebs clientset''
    (let factory = NewSharedInformerFactoryWithOptions 0 [OptInNamespace (bNamespace B),
           OptTweak (Some (\<lambda>options. options\<lparr> FieldSelector := bNameSelector B (bNodeID B) \<rparr>))]
     in goBind (findNode B) (\<lambda>n. case n of
          Inl e \<Rightarrow> goRet (Some e)
        | Inr node \<Rightarrow>
            goBind (goEmit BLock) (\<lambda>_.
            goBind (Node_build B (nodeOwnerRef node) factory) (\<lambda>(r, f).
            goBind (goEmit BUnlock) (\<lambda>_. case r of
              Inl e \<Rightarrow> goRet (Some (EWrap ''error building controller instance'' e))
            | Inr controller \<Rightarrow>
                goBind (goEmit (BGoStart (runs (factory_Start f)))) (\<lambda>_. Node_Run B 1 controller))))))))"

section \<open>The services\<close>

definition orFatal :: "string \<Rightarrow> gerror option boot \<Rightarrow> unit boot" where
  "orFatal msg m = goBind m (\<lambda>err. case err of None \<Rightarrow> goRet () | Some e \<Rightarrow> goStop (BFatal (EFmt msg e)))"

text \<open>The goroutines that \<open>NewNode\<close> starts.\<close>

definition NewNode :: "bootEnv \<Rightarrow> unit boot list" where
  "NewNode B =
     [orFatal ''Failed to start ZFS node controller: '' (node_Start B),
      orFatal ''Failed to start ZFS volume management controller: '' (volume_Start B),
      orFatal ''Failed to start ZFS volume snapshot management controller: '' (snapshot_Start B),
      orFatal ''Failed to start ZFS backup management controller: '' (backup_Start B),
      orFatal ''Failed to start ZFS restore management controller: '' (restore_Start B)]"

definition startAndWaitForInformer :: "bootEnv \<Rightarrow> gerror option boot" where
  "startAndWaitForInformer B =
     goBind (goEmit (BGoStart [Backups])) (\<lambda>_.
     goBind (goCall (\<lambda>h. bSynced B h [Backups]) (BSyncWait [Backups])) (\<lambda>ok.
       goRet (if ok then None else Some (EText ''timed out waiting for ZFS backup informer cache to sync''))))"

definition gc_Initialize :: "bootEnv \<Rightarrow> gerror option boot" where
  "gc_Initialize B =
     (let (i, f) = informerOf Backups (NewSharedInformerFactoryWithOptions 0 [OptInNamespace (bNamespace B)])
      in orFail (\<lambda>h. bIndexers B h (iType i)) (BIndexers (iType i)) ''failed to set up informer indexers''
           (goBind (goEmit (BHandler (iType i) ''backup garbage collector'')) (\<lambda>_. startAndWaitForInformer B)))"

definition gc_InitializeForTesting :: "bootEnv \<Rightarrow> string \<Rightarrow> gerror option boot" where
  "gc_InitializeForTesting B ns =
     (let (i, f) = informerOf Backups (NewSharedInformerFactoryWithOptions 0 [OptInNamespace ns])
      in goBind (goCall (\<lambda>h. bIndexers B h (iType i)) (BIndexers (iType i))) (\<lambda>r. case r of
           Some t \<Rightarrow> goRet (Some (EText t))
         | None \<Rightarrow> goBind (goEmit (BHandler (iType i) ''backup garbage collector'')) (\<lambda>_. startAndWaitForInformer B)))"

text \<open>The cache of the Kubernetes nodes is waited for together with that of the node objects; the outcome is not looked at.\<close>

definition controller_init :: "bootEnv \<Rightarrow> gerror option boot" where
  "controller_init B =
     orFail (bConfig B) BConfig ''failed to build kubeconfig''
    (orFail (bKube B) BKubeClient ''failed to build k8s clientset''
    (orFail (bOpenEBS B) BOpenEBSClient ''failed to build openebs clientset''
    (let (i, f) = informerOf Nodes (NewSharedInformerFactoryWithOptions 0 [OptInNamespace (bNamespace B)])
     in orFail (\<lambda>h. bIndexers B h (iType i)) (BIndexers (iType i)) ''failed to add index on label ''
          (goBind (goEmit BGoKube) (\<lambda>_.
           goBind (goEmit (BGoStart [iType i])) (\<lambda>_.
           goBind (if bAnalytics B = ''true'' then goEmit BAnalytics else goRet ()) (\<lambda>_.
           goBind (goCall (\<lambda>h. bSynced B h [iType i]) (BSyncWait [iType i])) (\<lambda>_.
             if bBackupGC B then
               goBind (gc_Initialize B) (\<lambda>err. case err of
                 Some e \<Rightarrow> goRet (Some (EWrap ''failed to initialize backup garbage collector'' e))
               | None \<Rightarrow> goRet None)
             else goRet None))))))))"

definition NewController :: "bootEnv \<Rightarrow> unit boot" where
  "NewController B = orFatal ''init controller: '' (controller_init B)"

record CSIDriver =
  dIdentity :: bool
  dNode :: bool
  dController :: bool

definition driver_New :: "bootEnv \<Rightarrow> config \<Rightarrow> (CSIDriver \<times> unit boot list) boot" where
  "driver_New B c =
     (if PluginType c = ''controller'' then
        goBind (NewController B) (\<lambda>_. goRet (\<lparr> dIdentity = True, dNode = False, dController = True \<rparr>, []))
      else if PluginType c = ''agent'' then goRet (\<lparr> dIdentity = True, dNode = True, dController = False \<rparr>, NewNode B)
      else goRet (\<lparr> dIdentity = True, dNode = False, dController = False \<rparr>, []))"

text \<open>\<open>run\<close> of \<open>cmd/main.go\<close> up to the point where the server is started.\<close>

definition main_run :: "bootEnv \<Rightarrow> build \<Rightarrow> env \<Rightarrow> config \<Rightarrow> (env \<times> config \<times> CSIDriver \<times> unit boot list) boot" where
  "main_run B v E c =
     (let c = (if ConfigVersion c = [] then c\<lparr> ConfigVersion := version_Current v \<rparr> else c)
      in case SetDefaultFormatOptions E (DefaultFormatOptions c) of
           (Some e, _) \<Rightarrow> goStop (BFatal e)
         | (None, E') \<Rightarrow> goBind (driver_New B c) (\<lambda>(d, gs). goRet (E', c, d, gs)))"

text \<open>
  The flags of the command: their defaults, which replace what \<open>Default\<close> gave, and what one occurrence on the command
  line sets. Other flags belong to the logger. \<open>Execute\<close> is the command line library: it fails, prints a help text, or
  gives the occurrences in their order.
\<close>

definition config_Default :: config where
  "config_Default = \<lparr> DriverName = [], PluginType = [], ConfigVersion = [], Endpoint = [], ConfigNodename = [], DefaultFormatOptions = [] \<rparr>"

definition mainFlags :: "string \<Rightarrow> config \<Rightarrow> config" where
  "mainFlags nodeID c = c\<lparr> ConfigNodename := nodeID, ConfigVersion := [], Endpoint := ''unix://csi/csi.sock'',
     DriverName := ''zfs.csi.openebs.io'', PluginType := ''csi-plugin'', DefaultFormatOptions := [] \<rparr>"

definition setFlag :: "string \<times> string \<Rightarrow> config \<Rightarrow> config" where
  "setFlag f c = (case f of (name, v) \<Rightarrow>
     if name = ''nodename'' then c\<lparr> ConfigNodename := v \<rparr>
     else if name = ''version'' then c\<lparr> ConfigVersion := v \<rparr>
     else if name = ''endpoint'' then c\<lparr> Endpoint := v \<rparr>
     else if name = ''name'' then c\<lparr> DriverName := v \<rparr>
     else if name = ''plugin'' then c\<lparr> PluginType := v \<rparr>
     else if name = ''default-format-options'' then c\<lparr> DefaultFormatOptions := DefaultFormatOptions c @ [v] \<rparr>
     else c)"

definition main :: "(string list \<Rightarrow> gerror + (string \<times> string) list option) \<Rightarrow> bootEnv \<Rightarrow> build \<Rightarrow> env \<Rightarrow> string list \<Rightarrow>
    (env \<times> config \<times> CSIDriver \<times> unit boot list) option boot" where
  "main Execute B v E args =
     (let c = mainFlags (NodeID E) config_Default in
      case Execute args of
        Inl e \<Rightarrow> goStop (BFatal e)
      | Inr None \<Rightarrow> goRet None
      | Inr (Some given) \<Rightarrow> goBind (main_run B v E (fold setFlag given c)) (\<lambda>r. goRet (Some r)))"

section \<open>The gRPC server\<close>

text \<open>
  The goroutine that serves and the one that waits for a signal, step by step. A server that was stopped before it
  serves returns an error from \<open>Serve\<close>, and one that was not created yet is a nil pointer.
\<close>

datatype servePc = Starting | Listening | Created | Serving | Ended

datatype stopPc = AwaitSignal | Stopping | Stopped | Finished

datatype exitKind = ExitZero | ExitFatal | ExitPanic

record grpcState =
  gServe :: servePc
  gStop :: stopPc
  gServer :: bool
  gWait :: nat
  gExit :: "exitKind option"

definition grpc_Start :: grpcState where
  "grpc_Start = \<lparr> gServe = Starting, gStop = AwaitSignal, gServer = False, gWait = 1, gExit = None \<rparr>"

inductive grpcStep :: "grpcState \<Rightarrow> grpcState \<Rightarrow> bool" where
  Listen: "gExit s = None \<Longrightarrow> gServe s = Starting \<Longrightarrow> grpcStep s (s\<lparr> gServe := Listening \<rparr>)"
| ListenFails: "gExit s = None \<Longrightarrow> gServe s = Starting \<Longrightarrow> grpcStep s (s\<lparr> gExit := Some ExitFatal \<rparr>)"
| Create: "gExit s = None \<Longrightarrow> gServe s = Listening \<Longrightarrow> grpcStep s (s\<lparr> gServe := Created, gServer := True \<rparr>)"
| Serve: "gExit s = None \<Longrightarrow> gServe s = Created \<Longrightarrow> gStop s \<noteq> Stopped \<Longrightarrow> gStop s \<noteq> Finished \<Longrightarrow> grpcStep s (s\<lparr> gServe := Serving \<rparr>)"
| ServeStopped: "gExit s = None \<Longrightarrow> gServe s = Created \<Longrightarrow> gStop s = Stopped \<or> gStop s = Finished \<Longrightarrow> grpcStep s (s\<lparr> gExit := Some ExitFatal \<rparr>)"
| ServeFails: "gExit s = None \<Longrightarrow> gServe s = Serving \<Longrightarrow> gStop s \<noteq> Stopped \<Longrightarrow> gStop s \<noteq> Finished \<Longrightarrow> grpcStep s (s\<lparr> gExit := Some ExitFatal \<rparr>)"
| ServeEnds: "gExit s = None \<Longrightarrow> gServe s = Serving \<Longrightarrow> gStop s = Stopped \<or> gStop s = Finished \<Longrightarrow> grpcStep s (s\<lparr> gServe := Ended \<rparr>)"
| Signal: "gExit s = None \<Longrightarrow> gStop s = AwaitSignal \<Longrightarrow> grpcStep s (s\<lparr> gStop := Stopping \<rparr>)"
| StopNil: "gExit s = None \<Longrightarrow> gStop s = Stopping \<Longrightarrow> \<not> gServer s \<Longrightarrow> grpcStep s (s\<lparr> gExit := Some ExitPanic \<rparr>)"
| StopGracefully: "gExit s = None \<Longrightarrow> gStop s = Stopping \<Longrightarrow> gServer s \<Longrightarrow> grpcStep s (s\<lparr> gStop := Stopped \<rparr>)"
| Done: "gExit s = None \<Longrightarrow> gStop s = Stopped \<Longrightarrow> grpcStep s (s\<lparr> gStop := Finished, gWait := gWait s - 1 \<rparr>)"
| Wait: "gExit s = None \<Longrightarrow> gWait s = 0 \<Longrightarrow> grpcStep s (s\<lparr> gExit := Some ExitZero \<rparr>)"

text \<open>
  The mutex that the goroutines of \<open>NewNode\<close> share, on an interleaving of their events: \<open>holder\<close> is the goroutine that
  has it, and an interleaving is possible only if it is taken when it is free.
\<close>

fun holder :: "(nat \<times> bootEvent) list \<Rightarrow> nat option \<Rightarrow> nat option" where
  "holder [] o' = o'"
| "holder ((i, e) # es) o' = holder es (if e = BLock then Some i else if e = BUnlock then None else o')"

fun mutexOk :: "(nat \<times> bootEvent) list \<Rightarrow> nat option \<Rightarrow> bool" where
  "mutexOk [] o' = True"
| "mutexOk ((i, e) # es) o' = ((e = BLock \<longrightarrow> o' = None) \<and> mutexOk es (if e = BLock then Some i else if e = BUnlock then None else o'))"

definition eventsOf :: "nat \<Rightarrow> (nat \<times> bootEvent) list \<Rightarrow> bootEvent list" where
  "eventsOf i es = map snd (filter (\<lambda>(j, _). j = i) es)"

text \<open>Whether a goroutine is between the two calls of the mutex.\<close>

fun inside :: "bootEvent list \<Rightarrow> bool \<Rightarrow> bool" where
  "inside [] b = b"
| "inside (e # es) b = inside es (if e = BLock then True else if e = BUnlock then False else b)"

text \<open>A trace that changes the scheme, and gives the mutex back, only while it has it.\<close>

fun insideMutex :: "bootEvent list \<Rightarrow> bool \<Rightarrow> bool" where
  "insideMutex [] b = True"
| "insideMutex (e # es) b =
     ((case e of BLock \<Rightarrow> \<not> b | BUnlock \<Rightarrow> b | BScheme _ \<Rightarrow> b | _ \<Rightarrow> True)
      \<and> insideMutex es (if e = BLock then True else if e = BUnlock then False else b))"

text \<open>The controller that the chain builds.\<close>

definition builtController :: "pkg \<Rightarrow> (controllerS \<Rightarrow> controllerS) \<Rightarrow> controllerS" where
  "builtController P extra = withWorkqueueRateLimiting P (extra \<lparr> cKubeclientset = True, cClientset = True, cLister = Some (pType P),
     cSynced = Some (pType P), cWorkqueue = None, cRecorder = Some (pAgentName P), cPollInterval = 0, cOwnerRef = None \<rparr>)"

text \<open>A program that starts outside (or inside) the mutex, keeps to it, and leaves it as the last argument says if it returns.\<close>

definition keepsMutex :: "bool \<Rightarrow> 'a boot \<Rightarrow> bool \<Rightarrow> bool" where
  "keepsMutex b m b' \<longleftrightarrow> (\<forall>h. \<exists>es. snd (m h) = h @ es \<and> insideMutex es b \<and> (fst (m h) \<noteq> None \<longrightarrow> inside es b = b'))"

text \<open>A cluster in which every call succeeds, the timer fires once, and the agent runs on the node \<open>n1\<close>.\<close>

definition calmBoot :: bootEnv where
  "calmBoot = \<lparr> bConfig = (\<lambda>_. None), bKube = (\<lambda>_. None), bOpenEBS = (\<lambda>_. None), bScheme = (\<lambda>_. None), bSynced = (\<lambda>_ _. True),
     bIndexers = (\<lambda>_ _. None), bGetNode = (\<lambda>_ n. Inr (n, ''uid-'' @ n)), bRequirement = (\<lambda>k v. Inr (k @ ''='' @ v)),
     bListNodes = (\<lambda>_ _. Inr []), bTick = (\<lambda>h. BTick True \<notin> set h), bPolls = 5, bNodeName = ''n1'', bNodeID = ''n1'',
     bNamespace = ''openebs'', bAnalytics = ''false'', bBackupGC = False, bNameSelector = (\<lambda>n. ''metadata.name='' @ n) \<rparr>"

text \<open>How many steps the two goroutines of the server have left at most.\<close>

definition grpcLeft :: "grpcState \<Rightarrow> nat" where
  "grpcLeft s = (case gServe s of Starting \<Rightarrow> 4 | Listening \<Rightarrow> 3 | Created \<Rightarrow> 2 | Serving \<Rightarrow> 1 | Ended \<Rightarrow> 0)
     + (case gStop s of AwaitSignal \<Rightarrow> 3 | Stopping \<Rightarrow> 2 | Stopped \<Rightarrow> 1 | Finished \<Rightarrow> 0) + (if gExit s = None then 1 else 0)"

named_theorems mutex_rules

section \<open>Starting a controller\<close>

lemma orFail_run [go_simps]:
  "orFail f ev msg m h = (case f h of Some t \<Rightarrow> (Some (Some (EWrap msg (EText t))), h @ [ev (Some t)]) | None \<Rightarrow> m (h @ [ev None]))"
  by (simp add: orFail_def go_simps split: option.split)

text \<open>The chain asks a new factory for one informer, adds the handler to it and fills every field it needs.\<close>

lemma fresh_new:
  "informers (NewSharedInformerFactoryWithOptions resync options) = []
   \<and> startedInformers (NewSharedInformerFactoryWithOptions resync options) = []
   \<and> runs (NewSharedInformerFactoryWithOptions resync options) = []
   \<and> \<not> shuttingDown (NewSharedInformerFactoryWithOptions resync options)"
proof -
  have "informers (fold setFactory options f) = informers f \<and> startedInformers (fold setFactory options f) = startedInformers f
      \<and> runs (fold setFactory options f) = runs f \<and> shuttingDown (fold setFactory options f) = shuttingDown f" for f
  proof (induction options arbitrary: f)
    case (Cons opt options)
    show ?case
      by (cases opt) (simp_all add: Cons.IH WithCustomResyncConfig_def WithTweakListOptions_def WithNamespace_def WithTransform_def)
  qed simp
  then show ?thesis by (simp add: NewSharedInformerFactoryWithOptions_def)
qed

lemma buildChain_run:
  assumes "informers f = []" "startedInformers f = []" "runs f = []" "\<not> shuttingDown f"
  obtains f' i where "buildChain B P extra f h = (Some (case bScheme B (h @ [BHandler (pType P) (pQueue P)]) of
        Some t \<Rightarrow> Inl (EText t) | None \<Rightarrow> Inr (builtController P extra), f'),
      h @ [BHandler (pType P) (pQueue P), BScheme (bScheme B (h @ [BHandler (pType P) (pQueue P)]))])"
    "runs (factory_Start f') = [pType P]" "informers f' = [(pType P, i)]" "iHandlers i = [pQueue P]"
proof -
  let ?t = "pType P"
  define i where "i = fst (informerOf ?t f)"
  define f1 where "f1 = f\<lparr> informers := [(?t, i)] \<rparr>"
  have first: "informerOf ?t f = (i, f1)" "iType i = ?t" "iHandlers i = []"
    using assms(1) by (simp_all add: i_def f1_def informerOf_eq InformerFor_def Let_def NewFilteredInformer_def)
  have again: "informerOf ?t f1 = (i, f1)" by (rule informerOf_known) (simp add: f1_def)
  define f' where "f' = addHandler ?t (pQueue P) f1"
  have f': "informers f' = [(?t, i\<lparr> iHandlers := [pQueue P] \<rparr>)]" "startedInformers f' = []" "runs f' = []" "\<not> shuttingDown f'"
    using assms(2-4) first(3) by (simp_all add: f'_def addHandler_eq again) (simp_all add: f1_def)
  show thesis
  proof (rule that [of f' "i\<lparr> iHandlers := [pQueue P] \<rparr>"])
    show "runs (factory_Start f') = [?t]" using f' by (simp add: factory_Start_def startOne_def)
  qed (simp_all add: f' buildChain_def withSynced_def withLister_def first again withEventHandler_def buildScheme_def
      builtController_def withKubeClient_def withOpenEBSClient_def withRecorder_def NewControllerBuilder_def go_simps f'_def [symmetric]
      split: option.split)
qed

lemma builtController_fields:
  assumes "\<And>c. cSynced (extra c) = cSynced c"
  shows "cWorkqueue (builtController P extra) = Some (pQueue P)" "cSynced (builtController P extra) = Some (pType P)"
  using assms by (simp_all add: builtController_def withWorkqueueRateLimiting_def)

lemma goEach_workers: "goEach (\<lambda>_. goEmit e) (replicate n ()) h = (Some (), h @ replicate n e)"
  by (induction n arbitrary: h) (simp_all add: go_simps)

text \<open>What a controller does to start, up to the first of its calls that fails.\<close>

lemma ctlStart_run:
  fixes P defines "t \<equiv> pType P" and "q \<equiv> pQueue P"
  shows "\<exists>r es. ctlStart B (\<lambda>f. buildChain B P id f) (ctlRun B 2) h = (Some r, h @ es) \<and> insideMutex es False
     \<and> (r = None \<longrightarrow> es = [BConfig None, BKubeClient None, BOpenEBSClient None, BLock, BHandler t q, BScheme None, BUnlock, BGoKube,
          BGoStart [t], BSyncWait [t] True, BWorker q, BWorker q, BStopped, BQueueShutDown q])
     \<and> (r \<noteq> None \<longrightarrow> BWorker q \<notin> set es)"
proof -
  define h1 where "h1 = h @ [BConfig None, BKubeClient None, BOpenEBSClient None, BLock]"
  define sch where "sch = bScheme B (h1 @ [BHandler t q])"
  obtain f' i where chain: "buildChain B P id (NewSharedInformerFactory 30) h1 =
      (Some (case sch of Some e \<Rightarrow> Inl (EText e) | None \<Rightarrow> Inr (builtController P id), f'), h1 @ [BHandler t q, BScheme sch])"
    and f': "runs (factory_Start f') = [t]"
    using fresh_new [of 30 "[]"] by (auto intro: buildChain_run [of "NewSharedInformerFactory 30" B P id h1]
      simp: NewSharedInformerFactory_def t_def q_def sch_def)
  note steps = ctlStart_def go_simps chain [unfolded h1_def] f' ctlRun_def runWorkers_def builtController_fields goEach_workers
    t_def [symmetric] q_def [symmetric]
  have two: "replicate 2 x = [x, x]" for x :: bootEvent by (simp add: numeral_2_eq_2)
  show ?thesis
    by (cases "bConfig B h"; cases "bKube B (h @ [BConfig None])"; cases "bOpenEBS B (h @ [BConfig None, BKubeClient None])";
        cases sch) (simp_all add: steps two)
qed



section \<open>The node controller finds its node\<close>

text \<open>
  The node controller starts to change the scheme only after it has found its node: the one with the name of the agent, or
  the only one with its topology label, and the owner reference of the node object is that node.
\<close>

lemma findNode_found:
  assumes "fst (findNode B h) = Some (Inr node)"
  shows "if length (TrimSpace (bNodeID B)) = 0 \<or> bNodeName B = bNodeID B then bGetNode B h (bNodeID B) = Inr node
    else \<exists>sel. bRequirement B ZFSTopologyKey (bNodeID B) = Inr sel \<and> bListNodes B h sel = Inr [node]"
  using assms by (auto simp: findNode_def Let_def go_simps length_Suc_conv split: if_splits sum.splits)

lemma owner_built:
  "cOwnerRef (builtController nodePkg (withOwnerReference (nodeOwnerRef node) \<circ> withPollInterval 60)) = Some (nodeOwnerRef node)"
  "cPollInterval (builtController nodePkg (withOwnerReference (nodeOwnerRef node) \<circ> withPollInterval 60)) = 60"
  by (simp_all add: builtController_def withWorkqueueRateLimiting_def withOwnerReference_def withPollInterval_def)

text \<open>
  The identity that the initialiser gives an agent and the lookup of the node controller agree: an agent whose node has no
  topology label looks its node up by name, and one whose node has a label of another value by that label.
\<close>

lemma agent_finds_own_node:
  assumes init: "fst (zfs_init E Getenv h) = Some (Inr g)" and agent: "Getenv ''OPENEBS_NODE_DRIVER'' \<noteq> []"
    and B: "bNodeName B = Getenv ''OPENEBS_NODE_NAME''" "bNodeID B = vNodeID g"
    and found: "fst (findNode B h') = Some (Inr node)"
  obtains ls where "getNode (cluster E) h (Getenv ''OPENEBS_NODE_NAME'') = Inr ls" "vNamespace g \<noteq> []"
    "map_of ls ZFSTopologyKey = None \<Longrightarrow> bGetNode B h' (Getenv ''OPENEBS_NODE_NAME'') = Inr node"
    "\<And>v. map_of ls ZFSTopologyKey = Some v \<Longrightarrow> v \<noteq> Getenv ''OPENEBS_NODE_NAME'' \<Longrightarrow> length (TrimSpace v) \<noteq> 0 \<Longrightarrow>
       \<exists>sel. bRequirement B ZFSTopologyKey v = Inr sel \<and> bListNodes B h' sel = Inr [node]"
proof -
  obtain ls where ls: "getNode (cluster E) h (Getenv ''OPENEBS_NODE_NAME'') = Inr ls" "vNamespace g \<noteq> []"
    "vNodeID g = (case map_of ls ZFSTopologyKey of None \<Rightarrow> Getenv ''OPENEBS_NODE_NAME'' | Some v \<Rightarrow> v)"
    using init agent by (auto simp: zfs_init_def Let_def GetNodeID_def go_simps split: if_splits sum.splits)
  show thesis
    by (rule that [OF ls(1,2)]) (use findNode_found [OF found] ls(3) B in auto)
qed

section \<open>The mutex of the goroutines\<close>

lemma inside_append [simp]: "inside (xs @ ys) b = inside ys (inside xs b)"
  by (induction xs arbitrary: b) simp_all

lemma insideMutex_append [simp]: "insideMutex (xs @ ys) b \<longleftrightarrow> insideMutex xs b \<and> insideMutex ys (inside xs b)"
  by (induction xs arbitrary: b) auto

lemma holder_append [simp]: "holder (xs @ ys) o' = holder ys (holder xs o')"
  by (induction xs arbitrary: o') auto

lemma mutexOk_append [simp]: "mutexOk (xs @ ys) o' \<longleftrightarrow> mutexOk xs o' \<and> mutexOk ys (holder xs o')"
  by (induction xs arbitrary: o') auto

lemma eventsOf_append [simp]: "eventsOf i (xs @ ys) = eventsOf i xs @ eventsOf i ys"
  by (simp add: eventsOf_def)

lemma eventsOf_single [simp]: "eventsOf i [(j, e)] = (if j = i then [e] else [])"
  by (simp add: eventsOf_def)

text \<open>The goroutine between the two calls is the one that holds the mutex.\<close>

lemma holder_inside:
  assumes "mutexOk es None" "\<And>i. insideMutex (eventsOf i es) False"
  shows "holder es None = Some i \<longleftrightarrow> inside (eventsOf i es) False"
  using assms
proof (induction es arbitrary: i rule: rev_induct)
  case Nil
  then show ?case by (simp add: eventsOf_def)
next
  case (snoc x es)
  obtain j e where x: "x = (j, e)" by (cases x)
  have br: "insideMutex (eventsOf k es) False" for k using snoc.prems(2) [of k] by simp
  have IH: "holder es None = Some k \<longleftrightarrow> inside (eventsOf k es) False" for k using snoc.IH snoc.prems(1) br by simp
  have last: "insideMutex [e] (inside (eventsOf j es) False)" using snoc.prems(2) [of j] by (simp add: x)
  consider "e = BLock" | "e = BUnlock" | "e \<noteq> BLock" "e \<noteq> BUnlock" by blast
  then show ?case
  proof cases
    case 1
    then have "holder es None = None" using snoc.prems(1) by (simp add: x)
    then show ?thesis using IH [of i] 1 by (auto simp: x)
  next
    case 2
    then have "holder es None = Some j" using last IH [of j] by simp
    then show ?thesis using IH [of i] 2 by (auto simp: x)
  qed (use IH [of i] in \<open>auto simp: x\<close>)
qed

subsection \<open>Programs that keep to the mutex\<close>

lemma keepsMutex_ret [mutex_rules]: "keepsMutex b (goRet x) b"
  by (simp add: keepsMutex_def go_simps)

lemma keepsMutex_bind [mutex_rules]:
  assumes "keepsMutex b m b1" "\<And>x. keepsMutex b1 (k x) b2"
  shows "keepsMutex b (goBind m k) b2"
  unfolding keepsMutex_def
proof
  fix h
  obtain es where es: "snd (m h) = h @ es" "insideMutex es b" "fst (m h) \<noteq> None \<longrightarrow> inside es b = b1"
    using assms(1) unfolding keepsMutex_def by blast
  show "\<exists>es. snd (goBind m k h) = h @ es \<and> insideMutex es b \<and> (fst (goBind m k h) \<noteq> None \<longrightarrow> inside es b = b2)"
  proof (cases "fst (m h)")
    case None
    then show ?thesis using es by (cases "m h") (auto simp: goBind_def)
  next
    case (Some x)
    obtain es' where "snd (k x (h @ es)) = (h @ es) @ es'" "insideMutex es' b1" "fst (k x (h @ es)) \<noteq> None \<longrightarrow> inside es' b1 = b2"
      using assms(2) [of x] unfolding keepsMutex_def by blast
    then show ?thesis using es Some by (cases "m h") (auto simp: goBind_def intro!: exI [of _ "es @ es'"])
  qed
qed

lemma keepsMutex_emit: "keepsMutex b (goEmit e) (if e = BLock then True else if e = BUnlock then False else b)" if "insideMutex [e] b"
  using that by (simp add: keepsMutex_def go_simps)

lemma keepsMutex_stop: "keepsMutex b (goStop e) b'" if "insideMutex [e] b"
  using that by (simp add: keepsMutex_def go_simps)

lemma keepsMutex_call: "keepsMutex b (goCall f ev) b" if "\<And>r. insideMutex [ev r] b" "\<And>r. ev r \<noteq> BLock \<and> ev r \<noteq> BUnlock"
  using that by (simp add: keepsMutex_def go_simps)

lemma keepsMutex_each [mutex_rules]: "(\<And>x. keepsMutex b (f x) b) \<Longrightarrow> keepsMutex b (goEach f xs) b"
  by (induction xs) (auto intro: mutex_rules)

lemma keepsMutex_lock [mutex_rules]: "keepsMutex False (goEmit BLock) True"
  using keepsMutex_emit [of BLock False] by simp

lemma keepsMutex_unlock [mutex_rules]: "keepsMutex True (goEmit BUnlock) False"
  using keepsMutex_emit [of BUnlock True] by simp

lemma keepsMutex_scheme [mutex_rules]: "keepsMutex True (goCall f BScheme) True"
  by (rule keepsMutex_call) simp_all

lemma keepsMutex_neutral [mutex_rules]:
  "keepsMutex b (goCall f1 BConfig) b" "keepsMutex b (goCall f1 BKubeClient) b" "keepsMutex b (goCall f1 BOpenEBSClient) b"
  "keepsMutex b (goCall f2 (BSyncWait ts)) b" "keepsMutex b (goCall f2 BTick) b" "keepsMutex b (goCall f3 (BGetNode n)) b"
  "keepsMutex b (goCall f4 (BListNodes n)) b" "keepsMutex b (goEmit (BHandler t q)) b" "keepsMutex b (goEmit (BGoStart ts)) b"
  "keepsMutex b (goEmit BGoKube) b" "keepsMutex b (goEmit (BWorker q)) b" "keepsMutex b (goEmit BStopped) b"
  "keepsMutex b (goEmit (BQueueShutDown q)) b" "keepsMutex b (goEmit (BQueueAdd q k)) b" "keepsMutex b (goStop BWaited) b'"
  "keepsMutex b (goStop (BPanic s)) b'" "keepsMutex b (goStop (BFatal e)) b'"
  by (simp_all add: keepsMutex_def go_simps)

lemma keepsMutex_cases [mutex_rules]:
  "(c \<Longrightarrow> keepsMutex b m1 b') \<Longrightarrow> (\<not> c \<Longrightarrow> keepsMutex b m2 b') \<Longrightarrow> keepsMutex b (if c then m1 else m2) b'"
  "keepsMutex b m3 b' \<Longrightarrow> (\<And>x. keepsMutex b (k1 x) b') \<Longrightarrow> keepsMutex b (case opt of None \<Rightarrow> m3 | Some x \<Rightarrow> k1 x) b'"
  "(\<And>x. keepsMutex b (k2 x) b') \<Longrightarrow> (\<And>y. keepsMutex b (k3 y) b') \<Longrightarrow> keepsMutex b (case r of Inl x \<Rightarrow> k2 x | Inr y \<Rightarrow> k3 y) b'"
  "(\<And>x y. keepsMutex b (k4 x y) b') \<Longrightarrow> keepsMutex b (case p of (x, y) \<Rightarrow> k4 x y) b'"
  by (simp_all split: option.split sum.split prod.split)

lemma keepsMutex_orFail [mutex_rules]:
  "keepsMutex b (goCall f ev) b \<Longrightarrow> keepsMutex b m b \<Longrightarrow> keepsMutex b (orFail f ev msg m) b"
  unfolding orFail_def by (rule mutex_rules | assumption)+

lemma keepsMutex_chain [mutex_rules]: "keepsMutex True (buildChain B P extra f) True"
  unfolding buildChain_def withEventHandler_def buildScheme_def Let_def by (rule mutex_rules)+

lemma keepsMutex_pollLoop [mutex_rules]: "keepsMutex b (pollLoop n B q) b"
  by (induction n) (simp only: pollLoop.simps, (rule mutex_rules | assumption)+)+

lemma keepsMutex_runWorkers [mutex_rules]:
  assumes "\<And>q. keepsMutex b (rest q) b" shows "keepsMutex b (runWorkers B n c rest) b"
  unfolding runWorkers_def by (rule mutex_rules assms)+

lemma keepsMutex_ctlStart [mutex_rules]:
  assumes "\<And>f. keepsMutex True (build f) True" "\<And>c. keepsMutex False (run c) False"
  shows "keepsMutex False (ctlStart B build run) False"
  unfolding ctlStart_def by (rule mutex_rules assms)+

lemma keepsMutex_findNode [mutex_rules]: "keepsMutex b (findNode B) b"
  unfolding findNode_def Let_def by (rule mutex_rules)+

lemma keepsMutex_node_Start [mutex_rules]: "keepsMutex False (node_Start B) False"
  unfolding node_Start_def Let_def Node_build_def Node_Run_def by (rule mutex_rules)+

lemma keepsMutex_starts [mutex_rules]:
  "keepsMutex False (volume_Start B) False" "keepsMutex False (snapshot_Start B) False"
  "keepsMutex False (backup_Start B) False" "keepsMutex False (restore_Start B) False"
  unfolding volume_Start_def snapshot_Start_def backup_Start_def restore_Start_def ZV_build_def Snap_build_def Bkp_build_def
    Rstr_build_def ZV_Run_def Snap_Run_def Bkp_Run_def Rstr_Run_def ctlRun_def
  by (rule mutex_rules)+

lemma keepsMutex_orFatal [mutex_rules]: "keepsMutex b m b \<Longrightarrow> keepsMutex b (orFatal msg m) b"
  unfolding orFatal_def by (rule mutex_rules | assumption)+

lemma keepsMutex_NewNode: "m \<in> set (NewNode B) \<Longrightarrow> keepsMutex False m False"
  unfolding NewNode_def by (auto intro: mutex_rules)

lemma NewNode_insideMutex:
  assumes "i < 5" "snd ((NewNode B ! i) []) = es @ rest" shows "insideMutex es False"
proof -
  have "i < length (NewNode B)" using assms(1) by (simp add: NewNode_def)
  then have "keepsMutex False (NewNode B ! i) False" by (rule keepsMutex_NewNode [OF nth_mem])
  then show ?thesis using assms(2) unfolding keepsMutex_def by (auto dest: spec [of _ "[]"])
qed

text \<open>C39: The scheme of the client library is changed by one controller at a time. In every interleaving of the five goroutines
  of \<open>NewNode\<close>, each run with answers of its own, that the mutex allows, a goroutine that changes the scheme holds the mutex.
\<close>

theorem scheme_changes_serialised:
  assumes "mutexOk es None"
    and "\<And>i e. (i, e) \<in> set es \<Longrightarrow> i < 5"
    and "\<And>i. i < 5 \<Longrightarrow> \<exists>B rest. snd ((NewNode B ! i) []) = eventsOf i es @ rest"
    and "k < length es" "es ! k = (i, BScheme r)"
  shows "holder (take k es) None = Some i"
proof -
  have split: "es = take k es @ (i, BScheme r) # drop (Suc k) es" using id_take_nth_drop [OF assms(4)] assms(5) by simp
  have all: "insideMutex (eventsOf j es) False" for j
  proof (cases "j < 5")
    case True
    then show ?thesis using assms(3) NewNode_insideMutex by blast
  next
    case False
    then have "eventsOf j es = []" using assms(2) by (auto simp: eventsOf_def filter_empty_conv)
    then show ?thesis by simp
  qed
  have parts: "eventsOf j es = eventsOf j (take k es) @ eventsOf j [(i, BScheme r)] @ eventsOf j (drop (Suc k) es)" for j
    by (subst split) (simp add: eventsOf_def)
  have "insideMutex (eventsOf j (take k es)) False" for j using all [of j] by (simp add: parts [of j])
  moreover have "mutexOk (take k es) None" using assms(1) by (subst (asm) split) simp
  moreover have "inside (eventsOf i (take k es)) False" using all [of i] by (simp add: parts [of i])
  ultimately show ?thesis using holder_inside by blast
qed

theorem scheme_changes_serialised_witness:
  "\<exists>es k. es ! k = (1, BScheme None) \<and> k < length es \<and> (0, BConfig None) \<in> set es \<and> holder (take k es) None = Some 1"
proof -
  let ?es = "[(1, BConfig None), (1, BKubeClient None), (0, BConfig None), (1, BOpenEBSClient None), (1, BLock),
    (1, BHandler Volumes ''ZV''), (1, BScheme None)] :: (nat \<times> bootEvent) list"
  have pre: "\<forall>i\<in>set [0..<5]. take (length (eventsOf i ?es)) (snd ((NewNode calmBoot ! i) [])) = eventsOf i ?es" by code_simp
  have runs: "\<exists>B rest. snd ((NewNode B ! i) []) = eventsOf i ?es @ rest" if "i < 5" for i
  proof -
    have "take (length (eventsOf i ?es)) (snd ((NewNode calmBoot ! i) [])) = eventsOf i ?es" using pre that by simp
    then show ?thesis by (metis append_take_drop_id)
  qed
  have "holder (take 6 ?es) None = Some 1"
    by (rule scheme_changes_serialised [of ?es 6 1 None]) (use runs in \<open>auto simp: numeral_eq_Suc\<close>)
  then show ?thesis by (intro exI [of _ ?es] exI [of _ 6]) (simp add: numeral_eq_Suc)
qed

section \<open>The command line\<close>

lemma fold_setFlag:
  "PluginType (fold setFlag given c) = fold (\<lambda>(n, v) x. if n = ''plugin'' then v else x) given (PluginType c)"
  "Endpoint (fold setFlag given c) = fold (\<lambda>(n, v) x. if n = ''endpoint'' then v else x) given (Endpoint c)"
  "DriverName (fold setFlag given c) = fold (\<lambda>(n, v) x. if n = ''name'' then v else x) given (DriverName c)"
  "ConfigVersion (fold setFlag given c) = fold (\<lambda>(n, v) x. if n = ''version'' then v else x) given (ConfigVersion c)"
  "ConfigNodename (fold setFlag given c) = fold (\<lambda>(n, v) x. if n = ''nodename'' then v else x) given (ConfigNodename c)"
  "DefaultFormatOptions (fold setFlag given c) = DefaultFormatOptions c @ map snd (filter (\<lambda>f. fst f = ''default-format-options'') given)"
  by (induction given arbitrary: c) (auto simp: setFlag_def)

text \<open>The last occurrence of a flag counts.\<close>

lemma fold_last: "fold (\<lambda>(n, v) x. if n = k then v else x) given d = (case map_of (rev given) k of None \<Rightarrow> d | Some v \<Rightarrow> v)"
  by (induction given arbitrary: d) (auto simp: map_add_def split: option.splits)

text \<open>
  A process serves requests of volumes only if it was told which of the two plugins it is: a process without the flag
  starts, and has neither the controller service nor the node service. What it serves depends on the last such flag.
\<close>

lemma main_services:
  assumes "fst (main Execute B v E args h) = Some (Some (E', c, d, gs))"
  obtains given where "Execute args = Inr (Some given)"
    "dController d \<longleftrightarrow> map_of (rev given) ''plugin'' = Some ''controller''" "dNode d \<longleftrightarrow> map_of (rev given) ''plugin'' = Some ''agent''"
    "gs = (if dNode d then NewNode B else [])" "ConfigVersion c \<noteq> [] \<or> version_Current v = []"
proof -
  from assms obtain given where g: "Execute args = Inr (Some given)"
    by (auto simp: main_def go_simps Let_def split: sum.splits option.splits)
  with assms have r: "fst (main_run B v E (fold setFlag given (mainFlags (NodeID E) config_Default)) h) = Some (E', c, d, gs)"
    by (auto simp: main_def go_simps Let_def split: option.splits prod.splits)
  then obtain p where p: "p = fold (\<lambda>(n, v) x. if n = ''plugin'' then v else x) given ''csi-plugin''"
    "dController d \<longleftrightarrow> p = ''controller''" "dNode d \<longleftrightarrow> p = ''agent''" "gs = (if dNode d then NewNode B else [])"
    "ConfigVersion c \<noteq> [] \<or> version_Current v = []"
    by (auto simp: main_run_def driver_New_def go_simps Let_def fold_setFlag mainFlags_def split: option.splits prod.splits if_splits)
  show thesis by (rule that [OF g]) (use p in \<open>auto simp: fold_last split: option.splits\<close>)
qed

text \<open>Without the flag for it, the name of the node is its identifier, which need not be the name of a node.\<close>

lemma default_nodename:
  "ConfigNodename (fold setFlag given (mainFlags nodeID c)) = (case map_of (rev given) ''nodename'' of None \<Rightarrow> nodeID | Some n \<Rightarrow> n)"
  by (simp add: fold_setFlag fold_last mainFlags_def)

section \<open>The gRPC server stops\<close>

lemma grpc_invariant:
  assumes "grpcStep\<^sup>*\<^sup>* grpc_Start s"
  shows "(gWait s = 0 \<longleftrightarrow> gStop s = Finished) \<and> (gStop s = Stopped \<or> gStop s = Finished \<longrightarrow> gServer s)
    \<and> (gServer s \<longleftrightarrow> gServe s \<in> {Created, Serving, Ended}) \<and> (gServe s = Ended \<longrightarrow> gStop s = Stopped \<or> gStop s = Finished)
    \<and> gWait s \<le> 1 \<and> (gExit s = Some ExitZero \<longrightarrow> gStop s = Finished)"
  using assms
proof induction
  case base
  then show ?case by (simp add: grpc_Start_def)
next
  case (step s s')
  from step(2,3) show ?case by cases auto
qed

text \<open>
  The process ends by itself only after a signal and a graceful stop of a server that exists, and no run is longer than
  nine steps: after the signal it always ends.
\<close>

lemma exit_after_graceful_stop:
  "grpcStep\<^sup>*\<^sup>* grpc_Start s \<Longrightarrow> gExit s = Some ExitZero \<Longrightarrow> gStop s = Finished \<and> gServer s"
  using grpc_invariant by blast

lemma grpc_step_decreases: "grpcStep s s' \<Longrightarrow> grpcLeft s' < grpcLeft s"
  by (erule grpcStep.cases) (auto simp: grpcLeft_def split: stopPc.splits)

lemma grpc_runs_bounded: "(grpcStep ^^ n) s s' \<Longrightarrow> n + grpcLeft s' \<le> grpcLeft s"
proof (induction n arbitrary: s')
  case (Suc n)
  then obtain m where "(grpcStep ^^ n) s m" "grpcStep m s'" by auto
  then show ?case using Suc.IH [of m] grpc_step_decreases [of m s'] by simp
qed simp

lemma grpc_never_stuck: "gExit s = None \<Longrightarrow> gStop s \<noteq> AwaitSignal \<Longrightarrow> (gWait s = 0 \<longleftrightarrow> gStop s = Finished) \<Longrightarrow> \<exists>s'. grpcStep s s'"
  by (cases "gStop s"; cases "gServer s") (auto intro: grpcStep.intros)

text \<open>A signal that comes before the server is created makes the process panic, and one that comes before it serves is fatal.\<close>

lemma early_signal_panics: "\<exists>s. grpcStep\<^sup>*\<^sup>* grpc_Start s \<and> gExit s = Some ExitPanic"
proof -
  have "grpcStep grpc_Start (grpc_Start\<lparr> gStop := Stopping \<rparr>)" by (rule Signal) (simp_all add: grpc_Start_def)
  moreover have "grpcStep (grpc_Start\<lparr> gStop := Stopping \<rparr>) (grpc_Start\<lparr> gStop := Stopping, gExit := Some ExitPanic \<rparr>)"
    using StopNil [of "grpc_Start\<lparr> gStop := Stopping \<rparr>"] by (simp add: grpc_Start_def)
  ultimately have "grpcStep\<^sup>*\<^sup>* grpc_Start (grpc_Start\<lparr> gStop := Stopping, gExit := Some ExitPanic \<rparr>)"
    by (rule converse_rtranclp_into_rtranclp [OF _ r_into_rtranclp])
  then show ?thesis by (intro exI [of _ "grpc_Start\<lparr> gStop := Stopping, gExit := Some ExitPanic \<rparr>"]) simp
qed

end
