(* ===== verification/Spec2Isabelle.thy ===== *)
theory Spec2Isabelle
  imports NodeController Listing VolumeLockImpl Waits Capacity Agent BackupGC FleetProgress ObjectLists ClientBuild RestClients DeepCopy
    Startup
begin

text \<open>
  A verification development for the ZFS local PV driver, a CSI driver that provisions Kubernetes
  volumes as ZFS datasets and zvols on the node where they are used.

  \<^bold>\<open>The program.\<close> The driver runs in two roles that share nothing but custom resources in the
  cluster. The \<^emph>\<open>controller\<close> (\<open>pkg/driver/controller.go\<close>) answers the CSI controller requests: it
  chooses a node and a pool (\<open>schd_helper.go\<close>), writes a ZFSVolume or ZFSSnapshot object under a lock on
  the names involved (\<open>volume_lock.go\<close>), waits until the node has acted on it, and removes orphaned
  backups (\<open>backup_gc.go\<close>). The \<^emph>\<open>node agent\<close> (\<open>pkg/driver/agent.go\<close>) mounts and unmounts volumes
  (\<open>pkg/zfs/mount.go\<close>), and runs five controllers (\<open>pkg/mgmt\<close>) that bring the node in line with the
  objects by running \<open>zfs\<close> (\<open>pkg/zfs/zfs_util.go\<close>) and write the state back, or publish the pools of
  the node. Both use the builders and API clients of \<open>pkg/builder\<close> and the operations of
  \<open>pkg/zfs/volume.go\<close>.

  \<^bold>\<open>How code is modelled.\<close> A Go function without effects is a HOL function. A function with effects is
  a program over the trace of everything that happened so far (theory Prelude): each call to the API
  server, the operating system, a child process, the clock, the work queue or the volume lock is an
  \<open>event\<close> (theory World) that carries its answer, and the answer is any function of the trace, so the
  environment is not assumed to be consistent unless a theorem says so. A panic, or a wait that has not
  ended, is the result \<open>None\<close>. An \<open>int64\<close> is an \<open>int\<close> with the wrap-around written out, an unsigned
  size of the file system is a 64-bit word, a string is a list of bytes.

  \<^bold>\<open>Theories, in the order of the code.\<close>

  \<^item> Prelude, GoLib, Apis, World: programs and their judgements; the parts of Go's standard library that
    are used; the custom resources (\<open>pkg/apis/openebs.io/zfs/v1\<close>) and the user properties
    (\<open>pkg/zfs/util\<close>); events and environment.
  \<^item> Builders (\<open>pkg/builder/*/build.go\<close>), with the locale \<open>builder\<close> interpreted for
    the five kinds; ObjectLists (the wrapped objects and list builders of the same packages); Kubeclient
    (\<open>pkg/builder/*/kubernetes.go\<close>), with the locale \<open>crd_kind\<close> interpreted for the five kinds, and
    ClientBuild (the same clients with their function fields, options and defaults); Volume
    (\<open>pkg/zfs/volume.go\<close>).
  \<^item> ZfsUtil (\<open>pkg/zfs/zfs_util.go\<close>, \<open>errors.go\<close>, \<open>resize.go\<close>): the command lines and what is done with
    their output. Datasets: the datasets of the node as an abstract state, and what the operations do to
    it. Listing: the pool listing is read back without loss.
  \<^item> WorkQueue (the worker loop, \<open>pkg/zfs/events.go\<close>) with the locale \<open>reconciler\<close>, which Reconcilers
    (\<open>pkg/mgmt/volume\<close>, \<open>snapshot\<close>, \<open>backup\<close>, \<open>restore\<close>) and NodeController (\<open>pkg/mgmt/zfsnode\<close>) interpret
    for their five handlers.
  \<^item> Regexp (the fragment of \<open>regexp\<close> the pool patterns need, locale \<open>exact_engine\<close>) and Scheduler
    (\<open>schd_helper.go\<close>, locale \<open>best_scan\<close> for its two loops that look for the best pool).
  \<^item> VolumeLock (\<open>volume_lock.go\<close> as an interleaving of atomic lock actions) and VolumeLockImpl (the same
    lock built from a mutex, a map and a condition variable, as a refinement).
  \<^item> Csi (requests, and the responses of \<open>pkg/response\<close>) and Controller (\<open>controller.go\<close>). Traces is a
    logic for the order of events; ControllerSafety, ControllerCreate, ControllerLocks, Capacity and Waits
    hold what is proved of the controller's requests.
  \<^item> Mount (\<open>mount.go\<close>, \<open>formatoptions.go\<close>) and Agent (\<open>agent.go\<close>): the node service.
  \<^item> BackupGC (\<open>backup_gc.go\<close>): handlers, tasks, and their interleaving with a changing store.
  \<^item> Server (\<open>grpc.go\<close>, \<open>identity.go\<close>, \<open>pkg/version\<close>): endpoint, identity and version.
  \<^item> System and SystemSafety: the controller service and the agents of all nodes together, around a store
    that behaves as an API server does. NodeData and ControllerWrites prepare it: what a run of each
    controller of the agent does to the datasets, and what a request writes to volume objects.
  \<^item> Fleet, FleetSafety and FleetProgress: the same with what lies between the store and the agents. Every agent has a cache that
    lags behind, event handlers that queue names, workers whose commands and whose write are separate
    steps, and restarts.
  \<^item> Informers (\<open>pkg/generated/informer\<close>), RestClients (\<open>pkg/generated/clientset\<close>) and DeepCopy
    (\<open>zz_generated.deepcopy.go\<close>, on a memory with references, locales \<open>struct_copy\<close> and \<open>deep_copy\<close>): the
    generated code.
  \<^item> Startup (\<open>cmd/main.go\<close>, \<open>driver.go\<close>, \<open>NewNode\<close>, \<open>NewController\<close>, \<open>start.go\<close>, \<open>builder.go\<close> and \<open>Run\<close> of
    \<open>pkg/mgmt\<close>, the goroutines of \<open>grpc.go\<close>): how the process starts and stops.

  \<^bold>\<open>What is shown.\<close>

  \<^item> The system keeps its promises in every interleaving of requests, events, workers, restarts, and
    deletions and metadata changes by others, however old the versions in the caches are: a ready volume has its
    dataset, and a dataset is removed only with its volume (FleetSafety). This asks that a name is never used on two
    nodes; \<open>queued_name_crosses_nodes\<close> is a run in which it is, and a ready volume has no data. The pools of
    a node lie beside each other and \<open>zfs list\<close> tells the truth. The store accepts an update only for the current
    version of the object, as an API server does.
  \<^item> No volume is stuck: from every state the fleet can reach, a new volume can still be made ready and a
    deleted one destroyed, by steps of the driver (FleetProgress).
  \<^item> A volume object is removed only after its dataset, and the stored objects are well formed, where a run of a
    controller of an agent starts from the current object of its own node and is one step with its writes, while a
    request of the controller service is spread over as many steps as it has writes (SystemSafety).
  \<^item> Data is safe: destroying removes exactly the dataset asked for, finalizers are dropped only after
    that, volumes and snapshots are marked ready only while their datasets exist, and backups are done only if
    the snapshot and both ends of the pipe succeeded (Datasets, Reconcilers).
  \<^item> The controller's requests delete, mark and grow volumes only under their guards, answer for volumes
    that were seen ready on an allowed pool, answer repeated requests from the object that is there,
    do all their writes between taking and giving back their locks, and return; the reported capacity is
    exact (ControllerSafety, ControllerCreate, ControllerLocks, Waits, Capacity).
  \<^item> The volume lock excludes, and serves every request if snapshots and volumes have different names,
    and the implementation refines it (VolumeLock, VolumeLockImpl).
  \<^item> The scheduler's filter and its choice of pools agree; its weights are the sums and maxima they are
    meant to be, up to the wrap-around of \<open>int64\<close> (Scheduler).
  \<^item> The node service mounts a file system only for a ready volume of its node that is not mounted
    elsewhere, and removes a path only once it is unmounted (Agent).
  \<^item> The collector's tasks delete exactly what they are for, and can always be run to a state in which the
    chains of backups are whole (BackupGC).
  \<^item> Workers account for every item of their queue, event handlers queue only what belongs to the node,
    and the pools of the node are published (Reconcilers, NodeController).
  \<^item> A client that is built from its options refines the plain client in every sequence of calls (ClientBuild),
    a deep copy shares no memory with its original (DeepCopy), and an informer factory has one informer per
    resource, started once (Informers).
  \<^item> A controller starts its workers only after its cache is complete, the goroutines of the agent change the
    scheme one at a time, and the process ends normally only after the server was stopped gracefully (Startup).

  Lemmas next to these show where the code falls short, on concrete runs: for example
  \<open>create_retry_deletes_volume\<close>, \<open>snapshot_of_other_volume\<close>, \<open>block_publish_unchecked\<close>,
  \<open>volume_lock_deadlocks\<close>, \<open>gc_deletes_unrelated\<close>, \<open>deleting_volume_moved\<close>, \<open>queued_name_crosses_nodes\<close> and \<open>early_signal_panics\<close>.

  \<^bold>\<open>Bounds.\<close> Loops that poll (\<open>checkVolCreation\<close>, \<open>waitForVolDestroy\<close>, \<open>waitForReadySnapshot\<close>, the workers
  and the timer of the node controller) run in the code until something outside ends them. The model
  observes \<open>polls E\<close> turns of them, where \<open>polls E\<close> is any number; a loop that is not over by then has the
  result \<open>None\<close>. Theorems that start from a returned result hold for every \<open>polls E\<close>, and the theorem
  that a create request answers asks for more turns than the timer of the loop takes to fire. All other
  recursion is structural or has a termination proof.

  \<^bold>\<open>What is not modelled.\<close> Client-go with its caches, queues and REST clients, lib-csi, the mount library, the
  \<open>zfs\<close> binary and the kernel are parameters. The generated listers only hand a cache to a generic lister of
  client-go, and the fake clients are for tests. The types of \<open>v1alpha1\<close> are used by no code of the driver. The
  library that parses the command line is a parameter. Goroutines are modelled where code relies on their
  interleaving: the volume lock, the two children of a pipe, the tasks of the collector, the controllers that
  start together, the gRPC server, and the controller service and agents that share the store; elsewhere a handler is one
  sequential program whose environment may change between any two of its calls. Log lines are left out, except
  those of the gRPC interceptor.
\<close>

end
